(* ===== verification/Py_Float.thy ===== *)
theory Py_Float
  imports Complex_Main "HOL-Library.Log_Nat"
begin

text \<open>
  Python floats: IEEE 754 binary64 values with round-to-nearest-even arithmetic. A finite
  double is the rational it denotes (the two zeros are one value: no modelled code can tell
  them apart), so comparisons between finite values, and between an \<^verbatim>\<open>int\<close> and a float, are
  the exact comparisons Python performs, while every sum and product is rounded.
\<close>

section \<open>Values and rounding\<close>

datatype pyfloat = Fin rat | PInf | NInf | NaN

definition pow2 :: "int \<Rightarrow> rat" where
  "pow2 k = (if 0 \<le> k then 2 ^ nat k else 1 / 2 ^ nat (- k))"

text \<open>\<^term>\<open>floor_log2 q\<close> is the exponent of the leading bit of a positive rational.\<close>

definition floor_log2 :: "rat \<Rightarrow> int" where
  "floor_log2 q = (let (n, d) = quotient_of q; k = bitlen n - bitlen d
                   in if pow2 k \<le> q then k else k - 1)"

definition round_even :: "rat \<Rightarrow> int" where
  "round_even x = (let f = \<lfloor>x\<rfloor>; r = x - of_int f
                   in if r < 1 / 2 then f else if 1 / 2 < r then f + 1
                      else if even f then f else f + 1)"

text \<open>
  Rounding a positive rational: a 53-bit significand, the subnormal floor \<open>2^-1074\<close>, overflow
  to infinity from \<open>2^1024\<close> on.
\<close>

definition round_pos :: "rat \<Rightarrow> pyfloat" where
  "round_pos q = (let e = max (floor_log2 q - 52) (- 1074);
                      v = of_int (round_even (q / pow2 e)) * pow2 e
                  in if pow2 1024 \<le> v then PInf else Fin v)"

fun pf_neg :: "pyfloat \<Rightarrow> pyfloat" where
  "pf_neg (Fin q) = Fin (- q)"
| "pf_neg PInf = NInf"
| "pf_neg NInf = PInf"
| "pf_neg NaN = NaN"

definition round_double :: "rat \<Rightarrow> pyfloat" where
  "round_double q =
     (if q = 0 then Fin 0 else if 0 < q then round_pos q else pf_neg (round_pos (- q)))"

section \<open>Arithmetic and comparison\<close>

fun pf_add :: "pyfloat \<Rightarrow> pyfloat \<Rightarrow> pyfloat" where
  "pf_add NaN y = NaN"
| "pf_add x NaN = NaN"
| "pf_add PInf NInf = NaN"
| "pf_add NInf PInf = NaN"
| "pf_add PInf y = PInf"
| "pf_add x PInf = PInf"
| "pf_add NInf y = NInf"
| "pf_add x NInf = NInf"
| "pf_add (Fin a) (Fin b) = round_double (a + b)"

definition pf_sub :: "pyfloat \<Rightarrow> pyfloat \<Rightarrow> pyfloat" where
  "pf_sub x y = pf_add x (pf_neg y)"

fun pf_sgn :: "pyfloat \<Rightarrow> int" where
  "pf_sgn (Fin q) = (if q = 0 then 0 else if 0 < q then 1 else - 1)"
| "pf_sgn PInf = 1"
| "pf_sgn NInf = - 1"
| "pf_sgn NaN = 0"

fun pf_mult :: "pyfloat \<Rightarrow> pyfloat \<Rightarrow> pyfloat" where
  "pf_mult NaN y = NaN"
| "pf_mult x NaN = NaN"
| "pf_mult (Fin a) (Fin b) = round_double (a * b)"
| "pf_mult x y = (let s = pf_sgn x * pf_sgn y
                  in if s = 0 then NaN else if 0 < s then PInf else NInf)"

fun pf_le :: "pyfloat \<Rightarrow> pyfloat \<Rightarrow> bool" where
  "pf_le NaN y = False"
| "pf_le x NaN = False"
| "pf_le NInf y = True"
| "pf_le x PInf = True"
| "pf_le (Fin a) (Fin b) = (a \<le> b)"
| "pf_le x y = False"

fun pf_less :: "pyfloat \<Rightarrow> pyfloat \<Rightarrow> bool" where
  "pf_less NaN y = False"
| "pf_less x NaN = False"
| "pf_less (Fin a) (Fin b) = (a < b)"
| "pf_less NInf y = (y \<noteq> NInf)"
| "pf_less x PInf = (x \<noteq> PInf)"
| "pf_less x y = False"

text \<open>\<^verbatim>\<open>==\<close> on floats: a NaN equals nothing.\<close>

definition pf_eq :: "pyfloat \<Rightarrow> pyfloat \<Rightarrow> bool" where
  "pf_eq x y = (x \<noteq> NaN \<and> x = y)"

text \<open>An \<^verbatim>\<open>int\<close> operand of a comparison is compared exactly, without conversion.\<close>

definition pf_le_int :: "pyfloat \<Rightarrow> int \<Rightarrow> bool" where
  "pf_le_int x n = pf_le x (Fin (of_int n))"

definition pf_max :: "pyfloat \<Rightarrow> pyfloat \<Rightarrow> pyfloat" where
  "pf_max x y = (if pf_less x y then y else x)"

fun is_finite :: "pyfloat \<Rightarrow> bool" where
  "is_finite (Fin q) = True"
| "is_finite x = False"

text \<open>
  \<^verbatim>\<open>float(n)\<close> of an integer: rounded, with \<^verbatim>\<open>OverflowError\<close> (here \<^const>\<open>None\<close>) instead of an
  infinity.
\<close>

definition float_of_int :: "int \<Rightarrow> pyfloat option" where
  "float_of_int n = (case round_double (of_int n) of Fin q \<Rightarrow> Some (Fin q) | _ \<Rightarrow> None)"

section \<open>Facts about rounding\<close>

lemma pow2_pos [simp]: "0 < pow2 k"
  by (simp add: pow2_def)

lemma round_even_of_int [simp]: "round_even (of_int n) = n"
  by (simp add: round_even_def)

lemma round_even_nonneg: "0 \<le> x \<Longrightarrow> 0 \<le> round_even x"
  by (auto simp: round_even_def Let_def)

text \<open>A rounded non-negative value is a non-negative number or positive infinity, never NaN.\<close>

lemma round_pos_cases:
  assumes "0 < q"
  shows "round_pos q = PInf \<or> (\<exists>r \<ge> 0. round_pos q = Fin r)"
proof -
  have "0 \<le> of_int (round_even (q / pow2 e)) * pow2 e" for e :: int
    using assms round_even_nonneg [of "q / pow2 e"] by (simp add: less_imp_le)
  then show ?thesis
    by (auto simp: round_pos_def Let_def)
qed

lemma round_double_nonneg:
  assumes "0 \<le> q"
  shows "round_double q = PInf \<or> (\<exists>r \<ge> 0. round_double q = Fin r)"
  using assms round_pos_cases [of q] by (auto simp: round_double_def)

lemma round_double_not_NaN: "round_double q \<noteq> NaN"
proof (cases "0 \<le> q")
  case True
  then show ?thesis using round_double_nonneg [of q] by auto
next
  case False
  then have "0 < - q" by simp
  with False show ?thesis
    using round_pos_cases [of "- q"] by (auto simp: round_double_def)
qed

lemma pow2_powi: "pow2 k = 2 powi k"
  by (simp add: pow2_def power_int_def inverse_eq_divide power_one_over)

lemma pow2_add: "pow2 (a + b) = pow2 a * pow2 b"
  by (simp add: pow2_powi power_int_add)

lemma pow2_mono: "a < b \<Longrightarrow> pow2 a < pow2 b"
  by (simp add: pow2_powi power_int_strict_increasing)

lemma pow2_less_iff: "pow2 a < pow2 b \<longleftrightarrow> a < b"
  using pow2_mono [of a b] pow2_mono [of b a] by (cases a b rule: linorder_cases) auto

lemma pow2_le_iff: "pow2 a \<le> pow2 b \<longleftrightarrow> a \<le> b"
  using pow2_less_iff [of b a] by (simp add: not_less flip: not_le)

lemma pow2_nonneg_int: "0 \<le> k \<Longrightarrow> pow2 k = of_int (2 ^ nat k)"
  by (simp add: pow2_def)

lemma bitlen_rat_bounds:
  assumes "0 < n"
  shows "pow2 (bitlen n - 1) \<le> of_int n" and "of_int n < pow2 (bitlen n)"
proof -
  from assms have pos: "1 \<le> bitlen n"
    by (auto simp: bitlen_alt_def)
  note b = bitlen_bounds [OF assms]
  have "(of_int (2 ^ nat (bitlen n - 1)) :: rat) \<le> of_int n"
    using b by (simp only: of_int_le_iff)
  with pos show "pow2 (bitlen n - 1) \<le> of_int n"
    by (simp add: pow2_nonneg_int)
  have "(of_int n :: rat) < of_int (2 ^ nat (bitlen n))"
    using b by (simp only: of_int_less_iff)
  with pos show "of_int n < pow2 (bitlen n)"
    by (simp add: pow2_nonneg_int)
qed

lemma floor_log2_bounds:
  assumes "0 < q"
  shows "pow2 (floor_log2 q) \<le> q" and "q < pow2 (floor_log2 q + 1)"
proof -
  obtain n d where nd: "quotient_of q = (n, d)" by (cases "quotient_of q")
  then have d: "0 < d" and q: "q = of_int n / of_int d"
    by (auto dest: quotient_of_denom_pos quotient_of_div)
  with assms have n: "0 < n" by (simp add: zero_less_divide_iff)
  let ?k = "bitlen n - bitlen d"
  note nb = bitlen_rat_bounds [OF n] and db = bitlen_rat_bounds [OF d]
  have d': "(0 :: rat) < of_int d" using d by simp
  have "pow2 (?k - 1) * of_int d < pow2 (?k - 1) * pow2 (bitlen d)"
    using db by simp
  also have "\<dots> = pow2 (bitlen n - 1)" by (simp flip: pow2_add)
  finally have lo: "pow2 (?k - 1) < q"
    using nb d' by (simp add: q pos_less_divide_eq)
  have "of_int n < pow2 (?k + 1) * pow2 (bitlen d - 1)"
    using nb by (simp flip: pow2_add)
  also have "\<dots> \<le> pow2 (?k + 1) * of_int d"
    using db by simp
  finally have hi: "q < pow2 (?k + 1)"
    using d' by (simp add: q pos_divide_less_eq)
  have fl: "floor_log2 q = (if pow2 ?k \<le> q then ?k else ?k - 1)"
    by (simp add: floor_log2_def nd Let_def)
  show "pow2 (floor_log2 q) \<le> q" and "q < pow2 (floor_log2 q + 1)"
    using lo hi by (auto simp: fl)
qed

lemma round_even_le: "x \<le> of_int n \<Longrightarrow> round_even x \<le> n"
proof -
  assume x: "x \<le> of_int n"
  show ?thesis
  proof (cases "x = of_int n")
    case True
    then show ?thesis by simp
  next
    case False
    with x have "\<lfloor>x\<rfloor> < n" by (simp add: floor_less_iff)
    then show ?thesis by (auto simp: round_even_def Let_def)
  qed
qed

text \<open>A dyadic number with a significand of at most 53 bits is its own rounding.\<close>

lemma round_even_dyadic:
  assumes r: "r = of_int m * pow2 e" and m: "0 < m" "m \<le> 2 ^ 53" and e: "- 1074 \<le> e"
    and e': "e' = max (floor_log2 r - 52) (- 1074)"
  shows "of_int (round_even (r / pow2 e')) * pow2 e' = r"
proof -
  have pos: "0 < r" using m by (simp add: r)
  have "\<exists>n. r = of_int n * pow2 e'"
  proof (cases "e' \<le> e")
    case True
    then have "pow2 e = of_int (2 ^ nat (e - e')) * pow2 e'"
      using pow2_add [of "e - e'" e'] by (simp add: pow2_nonneg_int)
    then have "r = of_int (m * 2 ^ nat (e - e')) * pow2 e'" by (simp add: r)
    then show ?thesis ..
  next
    case False
    with e e' have fl: "e + 53 \<le> floor_log2 r" by linarith
    have m53: "(of_int m :: rat) \<le> pow2 53"
    proof -
      have "(of_int m :: rat) \<le> of_int (2 ^ 53)" using m by (simp only: of_int_le_iff)
      then show ?thesis by (simp add: pow2_nonneg_int)
    qed
    then have "r \<le> pow2 53 * pow2 e" by (simp add: r)
    then have hi: "r \<le> pow2 (e + 53)" by (simp add: pow2_add mult.commute)
    have "pow2 (e + 53) \<le> pow2 (floor_log2 r)" using fl by (simp add: pow2_le_iff)
    also have lo: "pow2 (floor_log2 r) \<le> r" by (rule floor_log2_bounds(1) [OF pos])
    finally have eq: "r = pow2 (e + 53)" using hi by simp
    with lo have "floor_log2 r \<le> e + 53" by (simp add: pow2_le_iff)
    with fl False e e' have "e' = e + 1" by linarith
    then have "r = of_int (2 ^ 52) * pow2 e'"
      using eq pow2_add [of 52 "e + 1"] by (simp add: pow2_nonneg_int add.commute)
    then show ?thesis ..
  qed
  then obtain n where n: "r = of_int n * pow2 e'" ..
  then have "r / pow2 e' = of_int n"
    using pow2_pos [of e'] by (simp del: pow2_pos)
  then show ?thesis using n by simp
qed

lemma round_pos_dyadic:
  assumes "r = of_int m * pow2 e" "0 < m" "m \<le> 2 ^ 53" "- 1074 \<le> e" "r < pow2 1024"
  shows "round_pos r = Fin r"
  using round_even_dyadic [OF assms(1-4) refl] assms(5)
  by (simp add: round_pos_def Let_def not_le)

lemma round_pos_form:
  assumes "0 < q" and "round_pos q = Fin r"
  shows "r = 0 \<or> (\<exists>m e. r = of_int m * pow2 e \<and> 0 < m \<and> m \<le> 2 ^ 53 \<and> - 1074 \<le> e \<and> r < pow2 1024)"
proof -
  define e where "e = max (floor_log2 q - 52) (- 1074)"
  define m where "m = round_even (q / pow2 e)"
  from assms(2) have r: "r = of_int m * pow2 e" and lt: "r < pow2 1024"
    by (auto simp: round_pos_def Let_def e_def m_def split: if_splits)
  have "q < pow2 (floor_log2 q + 1)" by (rule floor_log2_bounds(2) [OF assms(1)])
  also have "\<dots> \<le> pow2 (53 + e)" by (simp add: pow2_le_iff e_def)
  also have "\<dots> = of_int (2 ^ 53) * pow2 e" by (simp add: pow2_add pow2_nonneg_int)
  finally have "q / pow2 e \<le> of_int (2 ^ 53)" by (simp add: pos_divide_le_eq)
  then have m: "m \<le> 2 ^ 53" unfolding m_def by (rule round_even_le)
  have "0 \<le> m"
    unfolding m_def using assms(1) by (intro round_even_nonneg) (simp add: less_imp_le)
  then have "m = 0 \<or> 0 < m" by linarith
  then show ?thesis
  proof
    assume "m = 0"
    with r show ?thesis by simp
  next
    assume "0 < m"
    moreover have "- 1074 \<le> e" by (simp add: e_def)
    ultimately show ?thesis using r m lt by blast
  qed
qed

lemma round_pos_idem: "0 < q \<Longrightarrow> round_pos q = Fin r \<Longrightarrow> round_double r = Fin r"
proof -
  assume "0 < q" and "round_pos q = Fin r"
  then consider "r = 0" | m e where "r = of_int m * pow2 e" "0 < m" "m \<le> 2 ^ 53" "- 1074 \<le> e" "r < pow2 1024"
    using round_pos_form by blast
  then show ?thesis
  proof cases
    case 2
    then have "round_pos r = Fin r" by (rule round_pos_dyadic)
    moreover from 2 have "0 < r" by simp
    ultimately show ?thesis by (simp add: round_double_def)
  qed (simp add: round_double_def)
qed

lemma round_double_idem:
  assumes "round_double q = Fin r"
  shows "round_double r = Fin r"
proof -
  consider "q = 0" | "0 < q" | "q < 0" by linarith
  then show ?thesis
  proof cases
    case 1
    with assms show ?thesis by (simp add: round_double_def)
  next
    case 2
    with assms have "round_pos q = Fin r" by (simp add: round_double_def)
    with 2 show ?thesis by (rule round_pos_idem)
  next
    case 3
    with assms have "pf_neg (round_pos (- q)) = Fin r" by (simp add: round_double_def)
    then have p: "round_pos (- q) = Fin (- r)" by (cases "round_pos (- q)") auto
    with 3 have "round_double (- r) = Fin (- r)" by (intro round_pos_idem) auto
    moreover from p 3 round_pos_cases [of "- q"] have "0 \<le> - r" by auto
    ultimately show ?thesis by (auto simp: round_double_def split: if_splits)
  qed
qed

section \<open>Representable values\<close>

text \<open>A value a Python float can hold: rounding it changes nothing.\<close>

fun is_double :: "pyfloat \<Rightarrow> bool" where
  "is_double (Fin q) = (round_double q = Fin q)"
| "is_double _ = True"

lemma is_double_round [simp]: "is_double (round_double q)"
  by (cases "round_double q") (auto intro: round_double_idem)

lemma is_double_zero [simp]: "is_double (Fin 0)"
  by (simp add: round_double_def)

lemma is_double_add [simp]: "is_double (pf_add x y)"
  by (cases "(x, y)" rule: pf_add.cases) auto

lemma pf_add_zero [simp]: "is_double x \<Longrightarrow> pf_add x (Fin 0) = x"
  by (cases x) auto

lemma round_double_int:
  assumes "\<bar>n\<bar> \<le> 2 ^ 53"
  shows "round_double (of_int n) = Fin (of_int n)"
proof -
  have big: "(of_int m :: rat) < pow2 1024" if "m \<le> 2 ^ 53" for m
  proof -
    have "(of_int m :: rat) \<le> of_int (2 ^ 53)" using that by (simp only: of_int_le_iff)
    also have "\<dots> = pow2 53" by (simp add: pow2_nonneg_int)
    also have "\<dots> < pow2 1024" by (simp add: pow2_less_iff)
    finally show ?thesis .
  qed
  have pos: "round_pos (of_int m) = Fin (of_int m)" if "0 < m" "m \<le> 2 ^ 53" for m
    using that big by (intro round_pos_dyadic [of _ m 0]) (auto simp: pow2_def)
  consider "n = 0" | "0 < n" | "n < 0" by linarith
  then show ?thesis
  proof cases
    case 3
    with assms have "round_pos (of_int (- n)) = Fin (of_int (- n))" by (intro pos) auto
    with 3 show ?thesis by (simp add: round_double_def)
  qed (use assms pos [of n] in \<open>auto simp: round_double_def\<close>)
qed

lemma round_double_0 [simp]: "round_double 0 = Fin 0"
  by (simp add: round_double_def)

lemma round_double_1 [simp]: "round_double 1 = Fin 1"
  using round_double_int [of 1] by simp

lemma round_double_numeral:
  "numeral n \<le> (2 ^ 53 :: int) \<Longrightarrow> round_double (numeral n) = Fin (numeral n)"
  using round_double_int [of "numeral n"] by simp

lemma round_double_quarter: "round_double (1 / 4) = Fin (1 / 4)"
proof -
  have "round_pos (1 / 4) = Fin (1 / 4)"
    by (rule round_pos_dyadic [of _ 1 "- 2"]) (auto simp: pow2_def)
  then show ?thesis by (simp add: round_double_def)
qed

end
