(* ===== verification/Prelude.thy ===== *)
theory Prelude
  imports Py_Float "HOL-Library.AList"
begin

text \<open>
  Shared vocabulary of the development: Python exceptions as values, insertion-ordered
  dictionaries as association lists, the JSON-like values that cross component boundaries,
  the handful of \<^verbatim>\<open>str\<close> methods the code uses, and the generic list lemmas and lemma
  collections that the component theories share.
\<close>

section \<open>Exceptions and results\<close>

text \<open>
  One constructor per exception class the modelled code raises. Messages are kept only where
  the code branches on them or a property speaks about them.
\<close>

datatype py_error =
    ValueError
  | TypeError
  | KeyError
  | IndexError
  | AttributeError
  | RuntimeError
  | OverflowError
  | AbortError
  | CancelledError
  | ConfigError
  | UnsupportedWireVersionError
  | SessionBusyError string string
  | RunLeaseConflictError
  | LeaseLostError
  | ModelCallError string
  | FileNotFoundError
  | PermissionError
  | NotImplementedError
  | RunContractMismatchError
  | ModelInputSnapshotError
  | CleanupError
  | TimeoutError
  | ToolExecutionError
  | ProviderError
  | UnicodeError

type_synonym 'a result = "py_error + 'a"

text \<open>Sequencing of two fallible computations: the exception of the first one propagates.\<close>

fun bind_result :: "'a result \<Rightarrow> ('a \<Rightarrow> 'b result) \<Rightarrow> 'b result" where
  "bind_result (Inl e) f = Inl e"
| "bind_result (Inr x) f = f x"

lemma bind_result_Inr_iff:
  "bind_result m f = Inr y \<longleftrightarrow> (\<exists>x. m = Inr x \<and> f x = Inr y)"
  by (cases m) auto

lemma bind_result_assoc:
  "bind_result (bind_result m f) g = bind_result m (\<lambda>x. bind_result (f x) g)"
  by (cases m) auto

text \<open>A list comprehension whose body may raise: the first exception wins.\<close>

fun map_result :: "('a \<Rightarrow> 'b result) \<Rightarrow> 'a list \<Rightarrow> 'b list result" where
  "map_result f [] = Inr []"
| "map_result f (x # xs) =
     bind_result (f x) (\<lambda>y. bind_result (map_result f xs) (\<lambda>ys. Inr (y # ys)))"

lemma map_result_cong [fundef_cong]:
  "xs = ys \<Longrightarrow> (\<And>x. x \<in> set ys \<Longrightarrow> f x = g x) \<Longrightarrow> map_result f xs = map_result g ys"
  by (induction xs arbitrary: ys) auto

lemma map_result_all_Inr:
  "(\<And>x. x \<in> set xs \<Longrightarrow> f (g x) = Inr (h x)) \<Longrightarrow> map_result f (map g xs) = Inr (map h xs)"
  by (induction xs) auto

lemma map_result_append_iff:
  "map_result f (xs @ ys) = Inr zs \<longleftrightarrow>
   (\<exists>us vs. map_result f xs = Inr us \<and> map_result f ys = Inr vs \<and> zs = us @ vs)"
  by (induction xs arbitrary: zs) (auto simp: bind_result_Inr_iff)

lemma map_result_length: "map_result f xs = Inr ys \<Longrightarrow> length ys = length xs"
  by (induction xs arbitrary: ys) (auto simp: bind_result_Inr_iff)

section \<open>Dictionaries\<close>

text \<open>
  A Python \<^verbatim>\<open>dict\<close> keeps its keys in insertion order, and assigning to a present key keeps
  the key's place. \<^const>\<open>AList.update\<close> does exactly that, \<^const>\<open>AList.delete\<close> is
  \<^verbatim>\<open>pop\<close> with a default, and \<^const>\<open>map_of\<close> is \<^verbatim>\<open>get\<close>. Where the code never iterates over
  a dictionary the models use maps instead.
\<close>

type_synonym ('k, 'v) dict = "('k \<times> 'v) list"

abbreviation dict_get :: "('k, 'v) dict \<Rightarrow> 'k \<Rightarrow> 'v option" where
  "dict_get \<equiv> map_of"

abbreviation dict_set :: "'k \<Rightarrow> 'v \<Rightarrow> ('k, 'v) dict \<Rightarrow> ('k, 'v) dict" where
  "dict_set \<equiv> AList.update"

abbreviation dict_pop :: "'k \<Rightarrow> ('k, 'v) dict \<Rightarrow> ('k, 'v) dict" where
  "dict_pop \<equiv> AList.delete"

abbreviation dict_keys :: "('k, 'v) dict \<Rightarrow> 'k list" where
  "dict_keys d \<equiv> map fst d"

abbreviation dict_values :: "('k, 'v) dict \<Rightarrow> 'v list" where
  "dict_values d \<equiv> map snd d"

abbreviation dict_ok :: "('k, 'v) dict \<Rightarrow> bool" where
  "dict_ok d \<equiv> distinct (map fst d)"

abbreviation dict_setdefault :: "'k \<Rightarrow> 'v \<Rightarrow> ('k, 'v) dict \<Rightarrow> ('k, 'v) dict" where
  "dict_setdefault k v d \<equiv> (case map_of d k of None \<Rightarrow> AList.update k v d | Some _ \<Rightarrow> d)"

lemma dict_get_set [simp]:
  "dict_get (dict_set k v d) k' = (if k' = k then Some v else dict_get d k')"
  by (simp add: update_conv')

lemma dict_get_pop [simp]:
  "dict_get (dict_pop k d) k' = (if k' = k then None else dict_get d k')"
  by (simp add: delete_conv')

lemma dict_ok_set [simp]: "dict_ok d \<Longrightarrow> dict_ok (dict_set k v d)"
  by (rule distinct_update)

lemma dict_ok_pop [simp]: "dict_ok d \<Longrightarrow> dict_ok (dict_pop k d)"
  by (rule distinct_delete)

lemma dict_set_fresh: "k \<notin> set (dict_keys d) \<Longrightarrow> dict_set k v d = d @ [(k, v)]"
  by (induction d) auto

lemma dict_keys_set [simp]:
  "fst ` set (dict_set k v d) = insert k (fst ` set d)"
  by (induction d) auto

lemma dict_keys_pop [simp]:
  "fst ` set (dict_pop k d) = fst ` set d - {k}"
  by (induction d) auto

lemma dict_get_None_iff: "dict_get d k = None \<longleftrightarrow> k \<notin> set (dict_keys d)"
  by (simp add: map_of_eq_None_iff)

lemma dict_values_set_cases:
  "x \<in> set (dict_values (dict_set k v d)) \<Longrightarrow> x = v \<or> x \<in> set (dict_values d)"
  by (induction d) (auto split: if_splits)

lemma dict_get_keys: "dict_get d k = Some v \<Longrightarrow> k \<in> fst ` set d"
  by (metis fst_conv image_eqI map_of_SomeD)

lemma keys_get: "k \<in> fst ` set d \<Longrightarrow> \<exists>v. dict_get d k = Some v"
  by (metis map_of_eq_None_iff not_None_eq)

lemma dict_get_None_pair: "dict_get d k = None \<Longrightarrow> (k, v) \<in> set d \<Longrightarrow> False"
  by (metis fst_conv image_eqI map_of_eq_None_iff)

section \<open>JSON-like values\<close>

text \<open>
  The values that travel through tool inputs, metadata and persisted records.
\<close>

datatype json =
    JNull
  | JBool bool
  | JInt int
  | JFloat pyfloat
  | JStr string
  | JList "json list"
  | JDict "(string \<times> json) list"

type_synonym json_obj = "(string \<times> json) list"

text \<open>Python truthiness of such a value.\<close>

fun truthy :: "json \<Rightarrow> bool" where
  "truthy JNull = False"
| "truthy (JBool b) = b"
| "truthy (JInt i) = (i \<noteq> 0)"
| "truthy (JFloat f) = (f \<noteq> Fin 0)"
| "truthy (JStr s) = (s \<noteq> [])"
| "truthy (JList xs) = (xs \<noteq> [])"
| "truthy (JDict d) = (d \<noteq> [])"

section \<open>Strings\<close>

text \<open>
  Strings are lists of characters with code points below 256. \<^term>\<open>is_space\<close> is
  \<^verbatim>\<open>str.isspace\<close> on that range: tab to carriage return, the four separators 0x1c to 0x1f,
  space, 0x85 and the no-break space 0xa0.
\<close>

definition is_space :: "char \<Rightarrow> bool" where
  "is_space c =
     (let n = of_char c :: nat in (9 \<le> n \<and> n \<le> 13) \<or> (28 \<le> n \<and> n \<le> 32) \<or> n = 133 \<or> n = 160)"

definition lstrip :: "string \<Rightarrow> string" where
  "lstrip s = dropWhile is_space s"

definition strip :: "string \<Rightarrow> string" where
  "strip s = rev (dropWhile is_space (rev (lstrip s)))"

definition blank :: "string \<Rightarrow> bool" where
  "blank s = (strip s = [])"

lemma blank_iff: "blank s \<longleftrightarrow> (\<forall>c \<in> set s. is_space c)"
proof -
  have "strip s = [] \<longleftrightarrow> (\<forall>c \<in> set (lstrip s). is_space c)"
    by (simp add: strip_def dropWhile_eq_Nil_conv)
  also have "\<dots> \<longleftrightarrow> (\<forall>c \<in> set s. is_space c)"
    unfolding lstrip_def by (induction s) auto
  finally show ?thesis by (simp add: blank_def)
qed

lemma blank_Nil [simp]: "blank []"
  by (simp add: blank_iff)

text \<open>\<^verbatim>\<open>prefix\<close> and \<^verbatim>\<open>suffix\<close> tests and their removing variants.\<close>

fun startswith :: "string \<Rightarrow> string \<Rightarrow> bool" where
  "startswith [] s = True"
| "startswith (p # ps) [] = False"
| "startswith (p # ps) (c # cs) = (p = c \<and> startswith ps cs)"

definition endswith :: "string \<Rightarrow> string \<Rightarrow> bool" where
  "endswith p s = startswith (rev p) (rev s)"

definition removeprefix :: "string \<Rightarrow> string \<Rightarrow> string" where
  "removeprefix p s = (if startswith p s then drop (length p) s else s)"

definition removesuffix :: "string \<Rightarrow> string \<Rightarrow> string" where
  "removesuffix p s = (if endswith p s then take (length s - length p) s else s)"

text \<open>\<^verbatim>\<open>needle in haystack\<close> on strings.\<close>

fun has_substring :: "string \<Rightarrow> string \<Rightarrow> bool" where
  "has_substring p [] = (p = [])"
| "has_substring p (c # cs) = (startswith p (c # cs) \<or> has_substring p cs)"

lemma startswith_iff: "startswith p s \<longleftrightarrow> (\<exists>t. s = p @ t)"
  by (induction p s rule: startswith.induct) auto

section \<open>Lists\<close>

lemma takeWhile_prefix_all: "(\<forall>x \<in> set (takeWhile P xs). P x)"
  by (auto dest: set_takeWhileD)

lemma foldl_append_init:
  "(\<And>s x y. f (s @ x) y = s @ f x y) \<Longrightarrow> foldl f (s @ x) ys = s @ foldl f x ys"
  by (induction ys arbitrary: x) auto

text \<open>The first element with an opinion: the scan that every first-match list of rules does.\<close>

fun first_some :: "('a \<Rightarrow> 'b option) \<Rightarrow> 'a list \<Rightarrow> 'b option" where
  "first_some f [] = None"
| "first_some f (x # xs) = (case f x of None \<Rightarrow> first_some f xs | Some y \<Rightarrow> Some y)"

lemma first_some_None_iff: "first_some f xs = None \<longleftrightarrow> (\<forall>x \<in> set xs. f x = None)"
  by (induction xs) (auto split: option.splits)

lemma first_some_Some_iff:
  "first_some f xs = Some y \<longleftrightarrow>
     (\<exists>us x vs. xs = us @ x # vs \<and> (\<forall>u \<in> set us. f u = None) \<and> f x = Some y)"
proof (induction xs)
  case Nil
  then show ?case by simp
next
  case (Cons x xs)
  show ?case
  proof (cases "f x")
    case None
    have "(\<exists>us z vs. x # xs = us @ z # vs \<and> (\<forall>u \<in> set us. f u = None) \<and> f z = Some y) \<longleftrightarrow>
      (\<exists>us z vs. xs = us @ z # vs \<and> (\<forall>u \<in> set us. f u = None) \<and> f z = Some y)"
      (is "?l \<longleftrightarrow> ?r")
    proof
      assume ?l
      then obtain us z vs where
        "x # xs = us @ z # vs" "\<forall>u \<in> set us. f u = None" "f z = Some y" by blast
      with None show ?r by (cases us) auto
    next
      assume ?r
      then obtain us z vs where
        "xs = us @ z # vs" "\<forall>u \<in> set us. f u = None" "f z = Some y" by blast
      with None have "x # xs = (x # us) @ z # vs \<and> (\<forall>u \<in> set (x # us). f u = None) \<and> f z = Some y"
        by simp
      then show ?l by blast
    qed
    with Cons None show ?thesis by simp
  next
    case (Some z)
    show ?thesis
    proof
      assume "first_some f (x # xs) = Some y"
      with Some have "x # xs = [] @ x # xs \<and> (\<forall>u \<in> set []. f u = None) \<and> f x = Some y"
        by simp
      then show "\<exists>us z vs. x # xs = us @ z # vs \<and> (\<forall>u \<in> set us. f u = None) \<and> f z = Some y"
        by blast
    next
      assume "\<exists>us z vs. x # xs = us @ z # vs \<and> (\<forall>u \<in> set us. f u = None) \<and> f z = Some y"
      then obtain us z vs where
        "x # xs = us @ z # vs" "\<forall>u \<in> set us. f u = None" "f z = Some y" by blast
      with Some show "first_some f (x # xs) = Some y" by (cases us) auto
    qed
  qed
qed

lemma first_some_append:
  "first_some f (xs @ ys) =
     (case first_some f xs of None \<Rightarrow> first_some f ys | Some y \<Rightarrow> Some y)"
  by (induction xs) (auto split: option.splits)

section \<open>Lemma collections\<close>

text \<open>
  \<^verbatim>\<open>run_store_defs\<close> and its siblings gather the definitions a component's proofs unfold
  together; each theory fills its own.
\<close>

named_theorems budget_defs \<open>operations of the run budget\<close>
named_theorems run_store_defs \<open>operations of the in-memory run store\<close>
named_theorems session_defs \<open>operations of the in-memory session store\<close>
named_theorems mailbox_defs \<open>operations of the mailbox\<close>

section \<open>Operations that fail cleanly\<close>

text \<open>
  The outcome of a state-passing operation leaves the state as it was if it is an exception. The
  rules follow the shape of the models: a failing sub-computation returns the state it got.
\<close>

definition unchanged_on_error :: "'s \<Rightarrow> 's \<times> 'a result \<Rightarrow> bool" where
  "unchanged_on_error st p \<longleftrightarrow> (\<forall>e. snd p = Inl e \<longrightarrow> fst p = st)"

named_theorems unchanged_intros \<open>structural rules for unchanged_on_error\<close>

lemma unchanged_Inl [unchanged_intros]: "unchanged_on_error st (st, Inl e)"
  by (simp add: unchanged_on_error_def)

lemma unchanged_Inr [unchanged_intros]: "unchanged_on_error st (st', Inr x)"
  by (simp add: unchanged_on_error_def)

lemma unchanged_sum [unchanged_intros]:
  "(\<And>e. r = Inl e \<Longrightarrow> unchanged_on_error st (f e)) \<Longrightarrow> (\<And>x. r = Inr x \<Longrightarrow> unchanged_on_error st (g x))
   \<Longrightarrow> unchanged_on_error st (case r of Inl e \<Rightarrow> f e | Inr x \<Rightarrow> g x)"
  by (cases r) simp_all

lemma unchanged_option [unchanged_intros]:
  "(r = None \<Longrightarrow> unchanged_on_error st a) \<Longrightarrow> (\<And>x. r = Some x \<Longrightarrow> unchanged_on_error st (g x))
   \<Longrightarrow> unchanged_on_error st (case r of None \<Rightarrow> a | Some x \<Rightarrow> g x)"
  by (cases r) simp_all

lemma unchanged_if [unchanged_intros]:
  "(c \<Longrightarrow> unchanged_on_error st a) \<Longrightarrow> (\<not> c \<Longrightarrow> unchanged_on_error st b)
   \<Longrightarrow> unchanged_on_error st (if c then a else b)"
  by simp

end
