(* ===== verification/Messages.thy ===== *)
theory Messages
  imports Prelude
begin

text \<open>
  \<^verbatim>\<open>src/linch/types.py\<close>: token usage, content blocks, messages, and their wire codec
  (\<^verbatim>\<open>block_to_dict\<close>, \<^verbatim>\<open>block_from_dict\<close>, \<^verbatim>\<open>message_to_dict\<close>, \<^verbatim>\<open>message_from_dict\<close>).
  The parameter \<open>rp\<close> of the decoders is \<^verbatim>\<open>str()\<close> on a value that is not a string (it only
  matters for malformed input); every theorem holds for any such function.
\<close>

section \<open>Usage\<close>

record usage =
  input_tokens :: int
  output_tokens :: int
  cache_read_tokens :: int
  cache_creation_tokens :: int

definition usage_add :: "usage \<Rightarrow> usage \<Rightarrow> usage" where
  "usage_add u v = \<lparr>input_tokens = input_tokens u + input_tokens v,
                    output_tokens = output_tokens u + output_tokens v,
                    cache_read_tokens = cache_read_tokens u + cache_read_tokens v,
                    cache_creation_tokens = cache_creation_tokens u + cache_creation_tokens v\<rparr>"

definition usage_zero :: usage where
  "usage_zero = \<lparr>input_tokens = 0, output_tokens = 0, cache_read_tokens = 0,
                 cache_creation_tokens = 0\<rparr>"

text \<open>The sum of the four buckets, the quantity budgets are charged with.\<close>

definition usage_total :: "usage \<Rightarrow> int" where
  "usage_total u = input_tokens u + output_tokens u + cache_read_tokens u + cache_creation_tokens u"

lemma usage_add_comm_monoid:
  "usage_add u usage_zero = u"
  "usage_add u v = usage_add v u"
  "usage_add (usage_add u v) w = usage_add u (usage_add v w)"
  by (simp_all add: usage_add_def usage_zero_def)

lemma usage_total_add [simp]: "usage_total (usage_add u v) = usage_total u + usage_total v"
  by (simp add: usage_add_def usage_total_def)

section \<open>Content blocks and messages\<close>

datatype content_block =
    TextBlock string
  | CatalogChangeBlock string "string list" "string list" "json_obj list"
  | ToolUseBlock string string json_obj
  | ToolResultBlock string tool_content bool
  | ThinkingBlock string "string option"
  | RedactedThinkingBlock string
  | ImageBlock json_obj
and tool_content = ContentStr string | ContentBlocks "content_block list"

text \<open>
  \<^verbatim>\<open>message_from_dict\<close> neither checks the role nor the metadata, so both are kept as the value
  that was read; \<^const>\<open>None\<close> is Python's \<^verbatim>\<open>None\<close>.
\<close>

record message =
  role :: json
  content :: "content_block list"
  provider_metadata :: "json option"

abbreviation role_user :: json where
  "role_user \<equiv> JStr ''user''"

abbreviation role_assistant :: json where
  "role_assistant \<equiv> JStr ''assistant''"

fun is_text_block :: "content_block \<Rightarrow> bool" where
  "is_text_block (TextBlock _) = True"
| "is_text_block _ = False"

fun is_tool_use_block :: "content_block \<Rightarrow> bool" where
  "is_tool_use_block (ToolUseBlock _ _ _) = True"
| "is_tool_use_block _ = False"

fun is_tool_result_block :: "content_block \<Rightarrow> bool" where
  "is_tool_result_block (ToolResultBlock _ _ _) = True"
| "is_tool_result_block _ = False"

fun is_thinking_block :: "content_block \<Rightarrow> bool" where
  "is_thinking_block (ThinkingBlock _ _) = True"
| "is_thinking_block _ = False"

fun is_redacted_thinking_block :: "content_block \<Rightarrow> bool" where
  "is_redacted_thinking_block (RedactedThinkingBlock _) = True"
| "is_redacted_thinking_block _ = False"

fun is_image_block :: "content_block \<Rightarrow> bool" where
  "is_image_block (ImageBlock _) = True"
| "is_image_block _ = False"

section \<open>Python conversions used by the codec\<close>

fun py_str :: "(json \<Rightarrow> string) \<Rightarrow> json \<Rightarrow> string" where
  "py_str rp (JStr s) = s"
| "py_str rp v = rp v"

text \<open>Iterating over a value: list elements, characters of a string, keys of a dictionary.\<close>

fun py_iter :: "json \<Rightarrow> json list result" where
  "py_iter (JList xs) = Inr xs"
| "py_iter (JStr s) = Inr (map (\<lambda>c. JStr [c]) s)"
| "py_iter (JDict d) = Inr (map JStr (dict_keys d))"
| "py_iter _ = Inl TypeError"

text \<open>
  \<^verbatim>\<open>dict(value)\<close>: a copy of a dictionary, or a dictionary built from an iterable of key/value
  pairs. Keys are strings throughout, so a pair with another key is outside the value type and
  counts as an error.
\<close>

fun py_pair :: "json \<Rightarrow> (string \<times> json) result" where
  "py_pair v = bind_result (py_iter v) (\<lambda>xs. case xs of
       [JStr k, w] \<Rightarrow> Inr (k, w)
     | [_, _] \<Rightarrow> Inl TypeError
     | _ \<Rightarrow> Inl ValueError)"

fun py_dict :: "json \<Rightarrow> json_obj result" where
  "py_dict (JDict d) = Inr d"
| "py_dict v = bind_result (py_iter v) (\<lambda>xs. bind_result (map_result py_pair xs)
     (\<lambda>kvs. Inr (foldl (\<lambda>d (k, w). dict_set k w d) [] kvs)))"

definition raw_get :: "json_obj \<Rightarrow> string \<Rightarrow> json \<Rightarrow> json" where
  "raw_get raw k d = (case dict_get raw k of None \<Rightarrow> d | Some v \<Rightarrow> v)"

definition raw_item :: "json_obj \<Rightarrow> string \<Rightarrow> json result" where
  "raw_item raw k = (case dict_get raw k of None \<Rightarrow> Inl KeyError | Some v \<Rightarrow> Inr v)"

definition str_or_none :: "json option \<Rightarrow> string option" where
  "str_or_none v = (case v of Some (JStr s) \<Rightarrow> Some s | _ \<Rightarrow> None)"

section \<open>Encoding\<close>

fun block_to_dict :: "content_block \<Rightarrow> json_obj"
  and content_to_json :: "tool_content \<Rightarrow> json" where
  "block_to_dict (TextBlock t) = [(''type'', JStr ''text''), (''text'', JStr t)]"
| "block_to_dict (CatalogChangeBlock t added removed defs) =
     [(''type'', JStr ''catalog_change''), (''text'', JStr t),
      (''added_tools'', JList (map JStr added)), (''removed_tools'', JList (map JStr removed)),
      (''tool_definitions'', JList (map JDict defs))]"
| "block_to_dict (ToolUseBlock i n inp) =
     [(''type'', JStr ''tool_use''), (''id'', JStr i), (''name'', JStr n), (''input'', JDict inp)]"
| "block_to_dict (ToolResultBlock tid c is_error) =
     [(''type'', JStr ''tool_result''), (''tool_use_id'', JStr tid), (''content'', content_to_json c)]
     @ (if is_error then [(''is_error'', JBool True)] else [])"
| "block_to_dict (ThinkingBlock t sig) =
     [(''type'', JStr ''thinking''), (''thinking'', JStr t)]
     @ (case sig of None \<Rightarrow> [] | Some s \<Rightarrow> [(''signature'', JStr s)])"
| "block_to_dict (RedactedThinkingBlock d) =
     [(''type'', JStr ''redacted_thinking''), (''data'', JStr d)]"
| "block_to_dict (ImageBlock src) = [(''type'', JStr ''image''), (''source'', JDict src)]"
| "content_to_json (ContentStr s) = JStr s"
| "content_to_json (ContentBlocks bs) = JList (map (\<lambda>b. JDict (block_to_dict b)) bs)"

definition message_to_dict :: "message \<Rightarrow> json_obj" where
  "message_to_dict m =
     [(''role'', role m), (''content'', JList (map (\<lambda>b. JDict (block_to_dict b)) (content m)))]
     @ (case provider_metadata m of None \<Rightarrow> [] | Some v \<Rightarrow> [(''provider_metadata'', v)])"

section \<open>Decoding\<close>

lemma size_nested_lt:
  assumes "map_of raw k = Some (JList items)" and "JDict d \<in> set items"
  shows "size (JDict d) < size (JDict raw)"
proof -
  from assms(2) have "size (JDict d) < Suc (size_list size items)"
    by (simp add: less_Suc_eq_le size_list_estimation' del: json.size)
  moreover from assms(1) have "(k, JList items) \<in> set raw"
    by (rule map_of_SomeD)
  then have "size_prod (\<lambda>_. 0) size (k, JList items) \<le> size_list (size_prod (\<lambda>_. 0) size) raw"
    by (rule size_list_estimation') simp
  ultimately show ?thesis by simp
qed

text \<open>Items of a list that are dictionaries are decoded; the others are skipped.\<close>

definition dict_items :: "(json_obj \<Rightarrow> content_block result) \<Rightarrow> json list \<Rightarrow> content_block list result" where
  "dict_items f items =
     map_result f (List.map_filter (\<lambda>v. case v of JDict d \<Rightarrow> Some d | _ \<Rightarrow> None) items)"

lemma dict_items_cong [fundef_cong]:
  assumes "items = items'" and "\<And>d. JDict d \<in> set items' \<Longrightarrow> f d = g d"
  shows "dict_items f items = dict_items g items'"
  unfolding dict_items_def assms(1)
  by (rule map_result_cong)
    (auto simp: List.map_filter_def assms(2) split: json.splits)

function block_from_dict :: "(json \<Rightarrow> string) \<Rightarrow> json_obj \<Rightarrow> content_block result" where
  "block_from_dict rp raw =
     (let typ = dict_get raw ''type'' in
      if typ = Some (JStr ''text'') then
        Inr (TextBlock (py_str rp (raw_get raw ''text'' (JStr []))))
      else if typ = Some (JStr ''catalog_change'') then
        bind_result (py_iter (raw_get raw ''added_tools'' (JList []))) (\<lambda>added.
        bind_result (py_iter (raw_get raw ''removed_tools'' (JList []))) (\<lambda>removed.
        bind_result (py_iter (raw_get raw ''tool_definitions'' (JList []))) (\<lambda>defs.
        bind_result (map_result py_dict defs) (\<lambda>ds.
          Inr (CatalogChangeBlock (py_str rp (raw_get raw ''text'' (JStr [])))
                 (map (py_str rp) added) (map (py_str rp) removed) ds)))))
      else if typ = Some (JStr ''tool_use'') then
        bind_result (raw_item raw ''id'') (\<lambda>i.
        bind_result (raw_item raw ''name'') (\<lambda>n.
        bind_result (py_dict (raw_get raw ''input'' (JDict []))) (\<lambda>inp.
          Inr (ToolUseBlock (py_str rp i) (py_str rp n) inp))))
      else if typ = Some (JStr ''tool_result'') then
        (if \<not> set (dict_keys raw) \<subseteq> {''type'', ''tool_use_id'', ''content'', ''is_error''}
         then Inl ValueError
         else
           bind_result
             (case dict_get raw ''content'' of
                None \<Rightarrow> Inr (ContentStr [])
              | Some (JList items) \<Rightarrow>
                  bind_result (dict_items (block_from_dict rp) items) (\<lambda>nested.
                    Inr (ContentBlocks (filter (\<lambda>b. is_text_block b \<or> is_image_block b) nested)))
              | Some v \<Rightarrow> Inr (ContentStr (py_str rp v)))
             (\<lambda>c. bind_result (raw_item raw ''tool_use_id'') (\<lambda>tid.
               Inr (ToolResultBlock (py_str rp tid) c
                      (truthy (raw_get raw ''is_error'' (JBool False)))))))
      else if typ = Some (JStr ''thinking'') then
        Inr (ThinkingBlock (py_str rp (raw_get raw ''thinking'' (JStr [])))
               (str_or_none (dict_get raw ''signature'')))
      else if typ = Some (JStr ''redacted_thinking'') then
        Inr (RedactedThinkingBlock (py_str rp (raw_get raw ''data'' (JStr []))))
      else if typ = Some (JStr ''image'') then
        bind_result (py_dict (raw_get raw ''source'' (JDict []))) (\<lambda>src. Inr (ImageBlock src))
      else Inl ValueError)"
  by pat_completeness auto
termination
proof (relation "measure (\<lambda>(rp, raw). size (JDict raw))", goal_cases)
  case 1
  show ?case by simp
next
  case (2 rp raw)
  then show ?case
    unfolding in_measure prod.case by (blast intro: size_nested_lt)
qed

declare block_from_dict.simps [simp del]

text \<open>A message's own content list holds encoded blocks; a non-dictionary item has no \<^verbatim>\<open>get\<close>.\<close>

fun item_from_json :: "(json \<Rightarrow> string) \<Rightarrow> json \<Rightarrow> content_block result" where
  "item_from_json rp (JDict d) = block_from_dict rp d"
| "item_from_json rp _ = Inl AttributeError"

definition none_if_null :: "json option \<Rightarrow> json option" where
  "none_if_null v = (case v of Some JNull \<Rightarrow> None | _ \<Rightarrow> v)"

definition message_from_dict :: "(json \<Rightarrow> string) \<Rightarrow> json_obj \<Rightarrow> message result" where
  "message_from_dict rp raw =
     bind_result (raw_item raw ''role'') (\<lambda>r.
     bind_result (py_iter (raw_get raw ''content'' (JList []))) (\<lambda>items.
     bind_result (map_result (item_from_json rp) items) (\<lambda>bs.
       Inr \<lparr>role = r, content = bs,
             provider_metadata = none_if_null (dict_get raw ''provider_metadata'')\<rparr>)))"

section \<open>Round trips\<close>

text \<open>
  Blocks as the annotations of \<^verbatim>\<open>types.py\<close> allow them: a tool result nests only text and image
  blocks.
\<close>

fun wf_block :: "content_block \<Rightarrow> bool" where
  "wf_block (ToolResultBlock _ (ContentBlocks bs) _) =
     list_all (\<lambda>b. is_text_block b \<or> is_image_block b) bs"
| "wf_block _ = True"

definition wf_message :: "message \<Rightarrow> bool" where
  "wf_message m = (list_all wf_block (content m) \<and> provider_metadata m \<noteq> Some JNull)"

lemma map_result_py_dict [simp]: "map_result py_dict (map JDict ds) = Inr ds"
  using map_result_all_Inr [of ds py_dict JDict id] by simp

lemma map_filter_dicts [simp]:
  "List.map_filter (\<lambda>v. case v of JDict d \<Rightarrow> Some d | _ \<Rightarrow> None) (map (\<lambda>x. JDict (g x)) xs) = map g xs"
  by (induction xs) (simp_all add: List.map_filter_def)

lemma py_str_comp_JStr [simp]: "map (py_str rp) (map JStr xs) = xs"
  by (induction xs) auto

lemma py_str_o_JStr [simp]: "map (py_str rp \<circ> JStr) xs = xs"
  by (induction xs) auto

lemma block_roundtrip_leaf:
  assumes "is_text_block b \<or> is_image_block b"
  shows "block_from_dict rp (block_to_dict b) = Inr b"
  using assms by (cases b) (auto simp: block_from_dict.simps raw_get_def)

lemma dict_items_encoded:
  assumes "list_all (\<lambda>b. is_text_block b \<or> is_image_block b) bs"
  shows "dict_items (block_from_dict rp) (map (\<lambda>b. JDict (block_to_dict b)) bs) = Inr bs"
proof -
  have "map_result (block_from_dict rp) (map block_to_dict bs) = Inr (map id bs)"
    using assms by (intro map_result_all_Inr) (simp add: block_roundtrip_leaf list_all_iff)
  then show ?thesis
    by (simp add: dict_items_def)
qed

lemma block_roundtrip:
  assumes "wf_block b"
  shows "block_from_dict rp (block_to_dict b) = Inr b"
proof (cases b)
  case (ToolResultBlock tid c e)
  show ?thesis
  proof (cases c)
    case (ContentStr s)
    with ToolResultBlock show ?thesis
      by (simp add: block_from_dict.simps raw_get_def raw_item_def)
  next
    case (ContentBlocks bs)
    with ToolResultBlock assms have bs: "list_all (\<lambda>b. is_text_block b \<or> is_image_block b) bs"
      by simp
    then have "filter (\<lambda>b. is_text_block b \<or> is_image_block b) bs = bs"
      by (simp add: list_all_iff)
    with dict_items_encoded [OF bs] show ?thesis
      unfolding ToolResultBlock ContentBlocks
      by (subst block_from_dict.simps) (simp add: raw_get_def raw_item_def)
  qed
qed (auto simp: block_from_dict.simps raw_get_def raw_item_def str_or_none_def split: option.splits)

lemma message_decode_encode:
  assumes "wf_message m"
  shows "message_from_dict rp (message_to_dict m) = Inr m"
proof -
  have "map_result (item_from_json rp) (map (\<lambda>b. JDict (block_to_dict b)) (content m)) =
      Inr (map id (content m))"
    using assms by (intro map_result_all_Inr) (simp add: block_roundtrip wf_message_def list_all_iff)
  with assms show ?thesis
    by (auto simp: message_from_dict_def message_to_dict_def raw_item_def raw_get_def
        none_if_null_def wf_message_def split: option.splits json.splits)
qed

text \<open>
  C6: Decoding an encoded message gives the message back: every block kind, nested tool-result
  content, the error flag, the optional thinking signature and the provider metadata survive,
  whatever \<^verbatim>\<open>str()\<close> does on non-strings.
\<close>

theorem message_roundtrip:
  assumes "wf_message m"
  shows "message_from_dict rp (message_to_dict m) = Inr m"
  by (rule message_decode_encode [OF assms])

theorem message_roundtrip_witness:
  "message_from_dict (\<lambda>_. ''?'')
     (message_to_dict \<lparr>role = role_user,
        content = [ToolResultBlock ''t1'' (ContentBlocks [TextBlock ''ok'']) True,
                   ThinkingBlock ''hm'' None],
        provider_metadata = None\<rparr>) =
   Inr \<lparr>role = role_user,
        content = [ToolResultBlock ''t1'' (ContentBlocks [TextBlock ''ok'']) True,
                   ThinkingBlock ''hm'' None],
        provider_metadata = None\<rparr>"
  by (rule message_roundtrip) (simp add: wf_message_def)

end
