(* ===== verification/Receipts.thy ===== *)
theory Receipts
  imports Messages
begin

text \<open>
  \<^verbatim>\<open>src/linch/model_calls.py\<close>, the records: delivery intents and receipts, and the strict codec
  that every journal write and restore goes through. \<open>sha\<close> is the SHA-256 hex digest, a
  parameter; \<^const>\<open>ModelCallError\<close> carries the error code of \<^verbatim>\<open>_ModelCallError\<close>.
\<close>

section \<open>Wire versions and field checks\<close>

abbreviation wire_version :: int where
  "wire_version \<equiv> 3"

definition require_wire_version :: "json option \<Rightarrow> unit result" where
  "require_wire_version v =
     (if v = Some (JInt wire_version) then Inr () else Inl UnsupportedWireVersionError)"

abbreviation invalid :: py_error where
  "invalid \<equiv> ModelCallError ''invalid_record''"

definition check_that :: "bool \<Rightarrow> unit result" where
  "check_that ok = (if ok then Inr () else Inl invalid)"

lemma check_that_Inr [simp]: "check_that b = Inr u \<longleftrightarrow> b"
  by (simp add: check_that_def)

definition string_field :: "bool \<Rightarrow> json \<Rightarrow> string result" where
  "string_field allow_empty v = (case v of
       JStr s \<Rightarrow> if allow_empty \<or> \<not> blank s then Inr s else Inl invalid
     | _ \<Rightarrow> Inl invalid)"

definition optional_string :: "json \<Rightarrow> string option result" where
  "optional_string v =
     (if v = JNull then Inr None else bind_result (string_field False v) (\<lambda>s. Inr (Some s)))"

definition integer_field :: "json \<Rightarrow> int result" where
  "integer_field v = (case v of JInt n \<Rightarrow> if n < 0 then Inl invalid else Inr n | _ \<Rightarrow> Inl invalid)"

definition optional_integer :: "json \<Rightarrow> int option result" where
  "optional_integer v =
     (if v = JNull then Inr None else bind_result (integer_field v) (\<lambda>n. Inr (Some n)))"

text \<open>\<^verbatim>\<open>_cost\<close>: null, or a finite non-negative number as a float.\<close>

definition finite_nonneg :: "pyfloat \<Rightarrow> bool" where
  "finite_nonneg f = (is_finite f \<and> \<not> pf_less f (Fin 0))"

definition cost_field :: "json \<Rightarrow> pyfloat option result" where
  "cost_field v = (case v of
       JNull \<Rightarrow> Inr None
     | JInt n \<Rightarrow> (case float_of_int n of
           None \<Rightarrow> Inl invalid
         | Some f \<Rightarrow> if finite_nonneg f then Inr (Some f) else Inl invalid)
     | JFloat f \<Rightarrow> if finite_nonneg f then Inr (Some f) else Inl invalid
     | _ \<Rightarrow> Inl invalid)"

section \<open>Usage\<close>

definition usage_fields :: "string list" where
  "usage_fields = [''input_tokens'', ''output_tokens'', ''cache_read_tokens'', ''cache_creation_tokens'']"

definition usage_ok :: "usage \<Rightarrow> bool" where
  "usage_ok u = (0 \<le> input_tokens u \<and> 0 \<le> output_tokens u \<and> 0 \<le> cache_read_tokens u
                 \<and> 0 \<le> cache_creation_tokens u)"

definition copy_usage :: "usage \<Rightarrow> usage result" where
  "copy_usage u = (if usage_ok u then Inr u else Inl invalid)"

definition usage_dict :: "usage \<Rightarrow> json result" where
  "usage_dict u = bind_result (copy_usage u) (\<lambda>v. Inr (JDict
     [(''input_tokens'', JInt (input_tokens v)), (''output_tokens'', JInt (output_tokens v)),
      (''cache_read_tokens'', JInt (cache_read_tokens v)),
      (''cache_creation_tokens'', JInt (cache_creation_tokens v))]))"

definition raw_field :: "json_obj \<Rightarrow> string \<Rightarrow> json" where
  "raw_field raw k = (case dict_get raw k of Some v \<Rightarrow> v | None \<Rightarrow> JNull)"

definition usage_from_json :: "json \<Rightarrow> usage result" where
  "usage_from_json v = (case v of
       JDict d \<Rightarrow>
         if set (dict_keys d) \<noteq> set usage_fields then Inl invalid
         else bind_result (integer_field (raw_field d ''input_tokens'')) (\<lambda>i.
              bind_result (integer_field (raw_field d ''output_tokens'')) (\<lambda>out.
              bind_result (integer_field (raw_field d ''cache_read_tokens'')) (\<lambda>r.
              bind_result (integer_field (raw_field d ''cache_creation_tokens'')) (\<lambda>c.
                Inr \<lparr>input_tokens = i, output_tokens = out, cache_read_tokens = r,
                      cache_creation_tokens = c\<rparr>))))
     | _ \<Rightarrow> Inl invalid)"

section \<open>Intents\<close>

record intent =
  in_logical_call_id :: string
  in_delivery_attempt_id :: string
  in_parent_logical_call_id :: "string option"
  in_kind :: string
  in_run_id :: string
  in_turn_index :: "int option"
  in_requested_model :: string
  in_request_fingerprint :: string
  in_strategy_id :: "string option"

definition versioned :: "json_obj \<Rightarrow> string list \<Rightarrow> unit result" where
  "versioned raw required =
     bind_result (require_wire_version (dict_get raw ''version'')) (\<lambda>_.
       check_that (set (dict_keys raw) = insert ''version'' (set required)))"

definition intent_fields :: "string list" where
  "intent_fields = [''logical_call_id'', ''delivery_attempt_id'', ''parent_logical_call_id'',
     ''kind'', ''run_id'', ''turn_index'', ''requested_model'', ''request_fingerprint'', ''strategy_id'']"

definition validate_identity :: "json_obj \<Rightarrow> unit result" where
  "validate_identity raw =
     bind_result (string_field False (raw_field raw ''logical_call_id'')) (\<lambda>_.
     bind_result (string_field False (raw_field raw ''delivery_attempt_id'')) (\<lambda>_.
     bind_result (string_field False (raw_field raw ''run_id'')) (\<lambda>_.
     bind_result (string_field False (raw_field raw ''request_fingerprint'')) (\<lambda>_.
     bind_result (check_that (raw_field raw ''kind'' \<in> {JStr ''primary'', JStr ''compaction''})) (\<lambda>_.
     bind_result (optional_integer (raw_field raw ''turn_index'')) (\<lambda>_.
     bind_result (optional_string (raw_field raw ''strategy_id'')) (\<lambda>_.
       check_that (\<not> (raw_field raw ''kind'' = JStr ''compaction''
                       \<and> raw_field raw ''strategy_id'' = JNull)))))))))"

text \<open>Reading a field whose type a preceding check has established.\<close>

fun as_string :: "json \<Rightarrow> string" where
  "as_string (JStr s) = s"
| "as_string _ = []"

fun as_opt_string :: "json \<Rightarrow> string option" where
  "as_opt_string (JStr s) = Some s"
| "as_opt_string _ = None"

fun as_opt_int :: "json \<Rightarrow> int option" where
  "as_opt_int (JInt n) = Some n"
| "as_opt_int _ = None"

fun as_int :: "json \<Rightarrow> int" where
  "as_int (JInt n) = n"
| "as_int _ = 0"

definition json_opt_string :: "string option \<Rightarrow> json" where
  "json_opt_string v = (case v of None \<Rightarrow> JNull | Some s \<Rightarrow> JStr s)"

definition json_opt_int :: "int option \<Rightarrow> json" where
  "json_opt_int v = (case v of None \<Rightarrow> JNull | Some n \<Rightarrow> JInt n)"

definition intent_from_dict :: "json_obj \<Rightarrow> intent result" where
  "intent_from_dict raw =
     bind_result (versioned raw intent_fields) (\<lambda>_.
     bind_result (validate_identity raw) (\<lambda>_.
     bind_result (string_field False (raw_field raw ''requested_model'')) (\<lambda>model.
     bind_result (optional_string (raw_field raw ''parent_logical_call_id'')) (\<lambda>parent.
       Inr \<lparr>in_logical_call_id = as_string (raw_field raw ''logical_call_id''),
             in_delivery_attempt_id = as_string (raw_field raw ''delivery_attempt_id''),
             in_parent_logical_call_id = parent,
             in_kind = as_string (raw_field raw ''kind''),
             in_run_id = as_string (raw_field raw ''run_id''),
             in_turn_index = as_opt_int (raw_field raw ''turn_index''),
             in_requested_model = model,
             in_request_fingerprint = as_string (raw_field raw ''request_fingerprint''),
             in_strategy_id = as_opt_string (raw_field raw ''strategy_id'')\<rparr>))))"

definition intent_raw :: "intent \<Rightarrow> json_obj" where
  "intent_raw i =
     [(''version'', JInt wire_version),
      (''logical_call_id'', JStr (in_logical_call_id i)),
      (''delivery_attempt_id'', JStr (in_delivery_attempt_id i)),
      (''parent_logical_call_id'', json_opt_string (in_parent_logical_call_id i)),
      (''kind'', JStr (in_kind i)),
      (''run_id'', JStr (in_run_id i)),
      (''turn_index'', json_opt_int (in_turn_index i)),
      (''requested_model'', JStr (in_requested_model i)),
      (''request_fingerprint'', JStr (in_request_fingerprint i)),
      (''strategy_id'', json_opt_string (in_strategy_id i))]"

definition intent_to_dict :: "intent \<Rightarrow> json_obj result" where
  "intent_to_dict i = bind_result (intent_from_dict (intent_raw i)) (\<lambda>_. Inr (intent_raw i))"

section \<open>Receipts\<close>

record receipt =
  rc_logical_call_id :: string
  rc_delivery_attempt_id :: string
  rc_kind :: string
  rc_run_id :: string
  rc_turn_index :: "int option"
  rc_actual_model :: string
  rc_usage_status :: string
  rc_usage :: "usage option"
  rc_cost_usd :: "pyfloat option"
  rc_disposition :: string
  rc_rejection_reason :: "string option"
  rc_accepted_text :: "string option"
  rc_accepted_text_sha256 :: "string option"
  rc_duration_ms :: int
  rc_request_fingerprint :: string
  rc_strategy_id :: "string option"
  rc_source_context_fingerprint :: "string option"

definition receipt_fields :: "string list" where
  "receipt_fields = [''logical_call_id'', ''delivery_attempt_id'', ''kind'', ''run_id'',
     ''turn_index'', ''actual_model'', ''usage_status'', ''usage'', ''cost_usd'', ''disposition'',
     ''rejection_reason'', ''accepted_text'', ''accepted_text_sha256'', ''duration_ms'',
     ''request_fingerprint'', ''strategy_id'', ''source_context_fingerprint'']"

definition usage_statuses :: "string list" where
  "usage_statuses = [''reported'', ''unknown'', ''not_dispatched'']"

definition call_dispositions :: "string list" where
  "call_dispositions = [''accepted'', ''rejected'', ''rejected_native'', ''cancelled'', ''failed'',
     ''not_dispatched'']"

text \<open>UTF-8 of code points below 256; the byte bound on retained text counts these bytes.\<close>

definition utf8_length :: "string \<Rightarrow> nat" where
  "utf8_length s = sum_list (map (\<lambda>c. if (of_char c :: nat) < 128 then 1 else 2) s)"

definition accepted_text_max_bytes :: nat where
  "accepted_text_max_bytes = 1024 * 1024"

definition check_accepted_text :: "(string \<Rightarrow> string) \<Rightarrow> json_obj \<Rightarrow> unit result" where
  "check_accepted_text sha raw =
     (if raw_field raw ''kind'' = JStr ''compaction'' \<and> raw_field raw ''disposition'' = JStr ''accepted''
      then bind_result (string_field False (raw_field raw ''accepted_text'')) (\<lambda>t.
           bind_result (check_that (utf8_length t \<le> accepted_text_max_bytes)) (\<lambda>_.
             check_that (raw_field raw ''accepted_text_sha256'' = JStr (sha t))))
      else check_that (raw_field raw ''accepted_text'' = JNull
                       \<and> raw_field raw ''accepted_text_sha256'' = JNull))"

definition receipt_from_dict :: "(string \<Rightarrow> string) \<Rightarrow> json_obj \<Rightarrow> receipt result" where
  "receipt_from_dict sha raw =
     bind_result (versioned raw receipt_fields) (\<lambda>_.
     bind_result (validate_identity raw) (\<lambda>_.
     (let status = raw_field raw ''usage_status''; disp = raw_field raw ''disposition'' in
     bind_result (check_that (status \<in> JStr ` set usage_statuses)) (\<lambda>_.
     bind_result (check_that (disp \<in> JStr ` set call_dispositions)) (\<lambda>_.
     bind_result (string_field (status \<noteq> JStr ''reported'') (raw_field raw ''actual_model'')) (\<lambda>model.
     bind_result (integer_field (raw_field raw ''duration_ms'')) (\<lambda>duration.
     bind_result (optional_string (raw_field raw ''rejection_reason'')) (\<lambda>reason.
     bind_result (optional_string (raw_field raw ''source_context_fingerprint'')) (\<lambda>ctx.
     bind_result (cost_field (raw_field raw ''cost_usd'')) (\<lambda>cost.
     bind_result (if status = JStr ''reported''
                  then bind_result (usage_from_json (raw_field raw ''usage'')) (\<lambda>u. Inr (Some u))
                  else Inr None) (\<lambda>usage.
     bind_result (check_that (\<not> (status \<noteq> JStr ''reported''
                                  \<and> (raw_field raw ''usage'' \<noteq> JNull \<or> cost \<noteq> None)))) (\<lambda>_.
     bind_result (check_that ((status = JStr ''not_dispatched'') = (disp = JStr ''not_dispatched''))) (\<lambda>_.
     bind_result (check_that (\<not> (status = JStr ''unknown''
                                  \<and> disp \<notin> {JStr ''cancelled'', JStr ''failed''}))) (\<lambda>_.
     bind_result (check_accepted_text sha raw) (\<lambda>_.
     bind_result (check_that (\<not> (disp = JStr ''accepted''
                                  \<and> (status \<noteq> JStr ''reported''
                                      \<or> raw_field raw ''rejection_reason'' \<noteq> JNull)))) (\<lambda>_.
       Inr \<lparr>rc_logical_call_id = as_string (raw_field raw ''logical_call_id''),
             rc_delivery_attempt_id = as_string (raw_field raw ''delivery_attempt_id''),
             rc_kind = as_string (raw_field raw ''kind''),
             rc_run_id = as_string (raw_field raw ''run_id''),
             rc_turn_index = as_opt_int (raw_field raw ''turn_index''),
             rc_actual_model = model,
             rc_usage_status = as_string status,
             rc_usage = usage,
             rc_cost_usd = cost,
             rc_disposition = as_string disp,
             rc_rejection_reason = reason,
             rc_accepted_text = as_opt_string (raw_field raw ''accepted_text''),
             rc_accepted_text_sha256 = as_opt_string (raw_field raw ''accepted_text_sha256''),
             rc_duration_ms = duration,
             rc_request_fingerprint = as_string (raw_field raw ''request_fingerprint''),
             rc_strategy_id = as_opt_string (raw_field raw ''strategy_id''),
             rc_source_context_fingerprint = ctx\<rparr>))))))))))))))))"

definition json_opt_float :: "pyfloat option \<Rightarrow> json" where
  "json_opt_float v = (case v of None \<Rightarrow> JNull | Some f \<Rightarrow> JFloat f)"

definition receipt_raw :: "receipt \<Rightarrow> json_obj result" where
  "receipt_raw r =
     bind_result (case rc_usage r of None \<Rightarrow> Inr JNull | Some u \<Rightarrow> usage_dict u) (\<lambda>usage.
       Inr [(''version'', JInt wire_version),
            (''logical_call_id'', JStr (rc_logical_call_id r)),
            (''delivery_attempt_id'', JStr (rc_delivery_attempt_id r)),
            (''kind'', JStr (rc_kind r)),
            (''run_id'', JStr (rc_run_id r)),
            (''turn_index'', json_opt_int (rc_turn_index r)),
            (''actual_model'', JStr (rc_actual_model r)),
            (''usage_status'', JStr (rc_usage_status r)),
            (''usage'', usage),
            (''cost_usd'', json_opt_float (rc_cost_usd r)),
            (''disposition'', JStr (rc_disposition r)),
            (''rejection_reason'', json_opt_string (rc_rejection_reason r)),
            (''accepted_text'', json_opt_string (rc_accepted_text r)),
            (''accepted_text_sha256'', json_opt_string (rc_accepted_text_sha256 r)),
            (''duration_ms'', JInt (rc_duration_ms r)),
            (''request_fingerprint'', JStr (rc_request_fingerprint r)),
            (''strategy_id'', json_opt_string (rc_strategy_id r)),
            (''source_context_fingerprint'', json_opt_string (rc_source_context_fingerprint r))])"

definition receipt_to_dict :: "(string \<Rightarrow> string) \<Rightarrow> receipt \<Rightarrow> json_obj result" where
  "receipt_to_dict sha r =
     bind_result (receipt_raw r) (\<lambda>raw. bind_result (receipt_from_dict sha raw) (\<lambda>_. Inr raw))"

section \<open>Properties of the codec\<close>

lemma as_string_JStr_iff: "string_field e v = Inr s \<longleftrightarrow> v = JStr s \<and> (e \<or> \<not> blank s)"
  by (cases v) (auto simp: string_field_def)

lemma optional_string_Inr_iff:
  "optional_string v = Inr x \<longleftrightarrow>
     (v = JNull \<and> x = None \<or> (\<exists>s. v = JStr s \<and> \<not> blank s \<and> x = Some s))"
  by (auto simp: optional_string_def bind_result_Inr_iff as_string_JStr_iff)

lemma integer_field_Inr_iff: "integer_field v = Inr n \<longleftrightarrow> v = JInt n \<and> 0 \<le> n"
  by (cases v) (auto simp: integer_field_def)

lemma optional_integer_Inr_iff:
  "optional_integer v = Inr x \<longleftrightarrow> (v = JNull \<and> x = None \<or> (\<exists>n. v = JInt n \<and> 0 \<le> n \<and> x = Some n))"
  by (auto simp: optional_integer_def bind_result_Inr_iff integer_field_Inr_iff)

lemmas field_iffs =
  as_string_JStr_iff optional_string_Inr_iff integer_field_Inr_iff optional_integer_Inr_iff

lemma cost_field_float [simp]:
  "cost_field (json_opt_float c) = Inr c' \<longleftrightarrow> c' = c \<and> (\<forall>f. c = Some f \<longrightarrow> finite_nonneg f)"
  by (cases c) (auto simp: cost_field_def json_opt_float_def)

lemma cost_field_finite: "cost_field v = Inr (Some f) \<Longrightarrow> finite_nonneg f"
  by (auto simp: cost_field_def split: json.splits option.splits if_splits)

lemma json_opt_string_simps [simp]:
  "json_opt_string v = JNull \<longleftrightarrow> v = None"
  "json_opt_string v = JStr s \<longleftrightarrow> v = Some s"
  "as_opt_string (json_opt_string v) = v"
  by (auto simp: json_opt_string_def split: option.splits)

lemma optional_string_json:
  "optional_string (json_opt_string v) = Inr x \<longleftrightarrow> x = v \<and> (\<forall>s. v = Some s \<longrightarrow> \<not> blank s)"
  by (cases v) (auto simp: optional_string_Inr_iff json_opt_string_def)

lemma json_opt_int_simps [simp]: "as_opt_int (json_opt_int v) = v"
  by (auto simp: json_opt_int_def split: option.splits)

lemma usage_from_usage_dict:
  "usage_dict u = Inr v \<Longrightarrow> usage_from_json v = Inr u"
  by (auto simp: usage_dict_def copy_usage_def usage_ok_def usage_from_json_def usage_fields_def
      raw_field_def integer_field_def split: if_splits)

text \<open>
  The accounting facts every accepted receipt satisfies: tokens and cost are present only for a
  reported delivery, a delivery that was never dispatched says so twice, an unknown outcome is
  a cancelled or failed one, and only an accepted compaction retains its text.
\<close>

definition receipt_consistent :: "(string \<Rightarrow> string) \<Rightarrow> receipt \<Rightarrow> bool" where
  "receipt_consistent sha r =
     ((rc_usage r \<noteq> None) = (rc_usage_status r = ''reported'')
      \<and> (\<forall>u. rc_usage r = Some u \<longrightarrow> usage_ok u)
      \<and> (\<forall>f. rc_cost_usd r = Some f \<longrightarrow> rc_usage_status r = ''reported'' \<and> finite_nonneg f)
      \<and> (rc_usage_status r = ''not_dispatched'') = (rc_disposition r = ''not_dispatched'')
      \<and> (rc_usage_status r = ''unknown'' \<longrightarrow> rc_disposition r \<in> {''cancelled'', ''failed''})
      \<and> (rc_disposition r = ''accepted'' \<longrightarrow>
           rc_usage_status r = ''reported'' \<and> rc_rejection_reason r = None)
      \<and> (\<forall>t. rc_accepted_text r = Some t \<longrightarrow>
           rc_kind r = ''compaction'' \<and> rc_disposition r = ''accepted''
           \<and> rc_accepted_text_sha256 r = Some (sha t) \<and> utf8_length t \<le> accepted_text_max_bytes))"

lemma usage_from_json_JNull [simp]: "usage_from_json JNull = Inl invalid"
  by (simp add: usage_from_json_def)

lemma usage_from_json_ok: "usage_from_json v = Inr u \<Longrightarrow> usage_ok u"
  by (auto simp: usage_from_json_def bind_result_Inr_iff field_iffs usage_ok_def
      split: json.splits if_splits)

lemma check_accepted_text_Inr:
  "check_accepted_text sha raw = Inr u \<longleftrightarrow>
     (if raw_field raw ''kind'' = JStr ''compaction'' \<and> raw_field raw ''disposition'' = JStr ''accepted''
      then \<exists>t. raw_field raw ''accepted_text'' = JStr t \<and> \<not> blank t
               \<and> utf8_length t \<le> accepted_text_max_bytes
               \<and> raw_field raw ''accepted_text_sha256'' = JStr (sha t)
      else raw_field raw ''accepted_text'' = JNull \<and> raw_field raw ''accepted_text_sha256'' = JNull)"
  by (auto simp: check_accepted_text_def bind_result_Inr_iff field_iffs)

lemma validate_identity_kind:
  "validate_identity raw = Inr u \<Longrightarrow>
     raw_field raw ''kind'' = JStr ''primary'' \<or> raw_field raw ''kind'' = JStr ''compaction''"
  by (auto simp: validate_identity_def bind_result_Inr_iff)

lemma receipt_from_dict_InrE:
  assumes "receipt_from_dict sha raw = Inr r"
  obtains model duration reason ctx cost usage where
    "validate_identity raw = Inr ()"
    "raw_field raw ''usage_status'' \<in> JStr ` set usage_statuses"
    "raw_field raw ''disposition'' \<in> JStr ` set call_dispositions"
    "string_field (raw_field raw ''usage_status'' \<noteq> JStr ''reported'')
       (raw_field raw ''actual_model'') = Inr model"
    "integer_field (raw_field raw ''duration_ms'') = Inr duration"
    "optional_string (raw_field raw ''rejection_reason'') = Inr reason"
    "optional_string (raw_field raw ''source_context_fingerprint'') = Inr ctx"
    "cost_field (raw_field raw ''cost_usd'') = Inr cost"
    "(if raw_field raw ''usage_status'' = JStr ''reported''
      then bind_result (usage_from_json (raw_field raw ''usage'')) (\<lambda>u. Inr (Some u))
      else Inr None) = Inr usage"
    "\<not> (raw_field raw ''usage_status'' \<noteq> JStr ''reported''
        \<and> (raw_field raw ''usage'' \<noteq> JNull \<or> cost \<noteq> None))"
    "(raw_field raw ''usage_status'' = JStr ''not_dispatched'') =
     (raw_field raw ''disposition'' = JStr ''not_dispatched'')"
    "\<not> (raw_field raw ''usage_status'' = JStr ''unknown''
        \<and> raw_field raw ''disposition'' \<notin> {JStr ''cancelled'', JStr ''failed''})"
    "check_accepted_text sha raw = Inr ()"
    "\<not> (raw_field raw ''disposition'' = JStr ''accepted''
        \<and> (raw_field raw ''usage_status'' \<noteq> JStr ''reported''
            \<or> raw_field raw ''rejection_reason'' \<noteq> JNull))"
    "r = \<lparr>rc_logical_call_id = as_string (raw_field raw ''logical_call_id''),
          rc_delivery_attempt_id = as_string (raw_field raw ''delivery_attempt_id''),
          rc_kind = as_string (raw_field raw ''kind''),
          rc_run_id = as_string (raw_field raw ''run_id''),
          rc_turn_index = as_opt_int (raw_field raw ''turn_index''),
          rc_actual_model = model,
          rc_usage_status = as_string (raw_field raw ''usage_status''),
          rc_usage = usage,
          rc_cost_usd = cost,
          rc_disposition = as_string (raw_field raw ''disposition''),
          rc_rejection_reason = reason,
          rc_accepted_text = as_opt_string (raw_field raw ''accepted_text''),
          rc_accepted_text_sha256 = as_opt_string (raw_field raw ''accepted_text_sha256''),
          rc_duration_ms = duration,
          rc_request_fingerprint = as_string (raw_field raw ''request_fingerprint''),
          rc_strategy_id = as_opt_string (raw_field raw ''strategy_id''),
          rc_source_context_fingerprint = ctx\<rparr>"
  using assms
  unfolding receipt_from_dict_def Let_def bind_result_Inr_iff check_that_Inr
  by (elim exE conjE) (rule that, (assumption | simp)+)

text \<open>
  A receipt that decodes is internally consistent: spending is attached to reported
  deliveries only and is non-negative and finite, dispatch status and disposition agree, and
  retained text is an accepted compaction summary with its own digest.
\<close>

lemma receipt_from_dict_consistent:
  assumes "receipt_from_dict sha raw = Inr r"
  shows "receipt_consistent sha r"
  using assms
proof (rule receipt_from_dict_InrE)
  fix model duration reason ctx cost usage
  assume kind: "validate_identity raw = Inr ()"
    and st: "raw_field raw ''usage_status'' \<in> JStr ` set usage_statuses"
    and di: "raw_field raw ''disposition'' \<in> JStr ` set call_dispositions"
    and reason: "optional_string (raw_field raw ''rejection_reason'') = Inr reason"
    and cost: "cost_field (raw_field raw ''cost_usd'') = Inr cost"
    and usage: "(if raw_field raw ''usage_status'' = JStr ''reported''
      then bind_result (usage_from_json (raw_field raw ''usage'')) (\<lambda>u. Inr (Some u))
      else Inr None) = Inr usage"
    and checks: "\<not> (raw_field raw ''usage_status'' \<noteq> JStr ''reported''
        \<and> (raw_field raw ''usage'' \<noteq> JNull \<or> cost \<noteq> None))"
      "(raw_field raw ''usage_status'' = JStr ''not_dispatched'') =
       (raw_field raw ''disposition'' = JStr ''not_dispatched'')"
      "\<not> (raw_field raw ''usage_status'' = JStr ''unknown''
          \<and> raw_field raw ''disposition'' \<notin> {JStr ''cancelled'', JStr ''failed''})"
      "\<not> (raw_field raw ''disposition'' = JStr ''accepted''
          \<and> (raw_field raw ''usage_status'' \<noteq> JStr ''reported''
              \<or> raw_field raw ''rejection_reason'' \<noteq> JNull))"
    and txtok: "check_accepted_text sha raw = Inr ()"
    and r: "r = \<lparr>rc_logical_call_id = as_string (raw_field raw ''logical_call_id''),
          rc_delivery_attempt_id = as_string (raw_field raw ''delivery_attempt_id''),
          rc_kind = as_string (raw_field raw ''kind''),
          rc_run_id = as_string (raw_field raw ''run_id''),
          rc_turn_index = as_opt_int (raw_field raw ''turn_index''),
          rc_actual_model = model,
          rc_usage_status = as_string (raw_field raw ''usage_status''),
          rc_usage = usage,
          rc_cost_usd = cost,
          rc_disposition = as_string (raw_field raw ''disposition''),
          rc_rejection_reason = reason,
          rc_accepted_text = as_opt_string (raw_field raw ''accepted_text''),
          rc_accepted_text_sha256 = as_opt_string (raw_field raw ''accepted_text_sha256''),
          rc_duration_ms = duration,
          rc_request_fingerprint = as_string (raw_field raw ''request_fingerprint''),
          rc_strategy_id = as_opt_string (raw_field raw ''strategy_id''),
          rc_source_context_fingerprint = ctx\<rparr>"
  from st di obtain s d where sd: "raw_field raw ''usage_status'' = JStr s"
    "raw_field raw ''disposition'' = JStr d" by auto
  have u: "(usage \<noteq> None) = (s = ''reported'') \<and> (\<forall>x. usage = Some x \<longrightarrow> usage_ok x)"
    using usage sd by (auto simp: bind_result_Inr_iff usage_from_json_ok split: if_splits)
  have c: "\<forall>f. cost = Some f \<longrightarrow> s = ''reported'' \<and> finite_nonneg f"
  proof (intro allI impI conjI)
    fix f assume f: "cost = Some f"
    with checks(1) show "s = ''reported''" unfolding sd json.inject by blast
    from cost f show "finite_nonneg f" by (auto dest: cost_field_finite)
  qed
  have t: "\<forall>x. as_opt_string (raw_field raw ''accepted_text'') = Some x \<longrightarrow>
      as_string (raw_field raw ''kind'') = ''compaction'' \<and> d = ''accepted''
      \<and> as_opt_string (raw_field raw ''accepted_text_sha256'') = Some (sha x)
      \<and> utf8_length x \<le> accepted_text_max_bytes"
    using txtok sd by (auto simp: check_accepted_text_Inr split: if_splits)
  have a: "d = ''accepted'' \<longrightarrow> s = ''reported'' \<and> reason = None"
    using checks(4) reason unfolding sd json.inject optional_string_Inr_iff by auto
  have r': "rc_usage r = usage" "rc_cost_usd r = cost" "rc_usage_status r = s" "rc_disposition r = d"
    "rc_kind r = as_string (raw_field raw ''kind'')" "rc_rejection_reason r = reason"
    "rc_accepted_text r = as_opt_string (raw_field raw ''accepted_text'')"
    "rc_accepted_text_sha256 r = as_opt_string (raw_field raw ''accepted_text_sha256'')"
    by (simp_all add: r sd)
  have n: "(s = ''not_dispatched'') = (d = ''not_dispatched'')"
    using checks(2) unfolding sd json.inject .
  have k: "s = ''unknown'' \<longrightarrow> d \<in> {''cancelled'', ''failed''}"
    using checks(3) unfolding sd insert_iff empty_iff json.inject by blast
  show ?thesis
    unfolding receipt_consistent_def r'
    by (intro conjI u [THEN conjunct1] u [THEN conjunct2] c n k a t)
qed

lemma receipt_decode_encode:
  assumes "receipt_to_dict sha r = Inr raw"
  shows "receipt_from_dict sha raw = Inr r"
proof -
  from assms obtain u r' where
    usage: "(case rc_usage r of None \<Rightarrow> Inr JNull | Some x \<Rightarrow> usage_dict x) = Inr u"
    and raw: "receipt_raw r = Inr raw" and dec: "receipt_from_dict sha raw = Inr r'"
    by (auto simp: receipt_to_dict_def receipt_raw_def bind_result_Inr_iff)
  have fields: "raw_field raw ''logical_call_id'' = JStr (rc_logical_call_id r)"
    "raw_field raw ''delivery_attempt_id'' = JStr (rc_delivery_attempt_id r)"
    "raw_field raw ''kind'' = JStr (rc_kind r)" "raw_field raw ''run_id'' = JStr (rc_run_id r)"
    "raw_field raw ''turn_index'' = json_opt_int (rc_turn_index r)"
    "raw_field raw ''actual_model'' = JStr (rc_actual_model r)"
    "raw_field raw ''usage_status'' = JStr (rc_usage_status r)" "raw_field raw ''usage'' = u"
    "raw_field raw ''cost_usd'' = json_opt_float (rc_cost_usd r)"
    "raw_field raw ''disposition'' = JStr (rc_disposition r)"
    "raw_field raw ''rejection_reason'' = json_opt_string (rc_rejection_reason r)"
    "raw_field raw ''accepted_text'' = json_opt_string (rc_accepted_text r)"
    "raw_field raw ''accepted_text_sha256'' = json_opt_string (rc_accepted_text_sha256 r)"
    "raw_field raw ''duration_ms'' = JInt (rc_duration_ms r)"
    "raw_field raw ''request_fingerprint'' = JStr (rc_request_fingerprint r)"
    "raw_field raw ''strategy_id'' = json_opt_string (rc_strategy_id r)"
    "raw_field raw ''source_context_fingerprint'' = json_opt_string (rc_source_context_fingerprint r)"
    using raw usage by (auto simp: receipt_raw_def raw_field_def bind_result_Inr_iff)
  from dec have "r' = r"
  proof (rule receipt_from_dict_InrE, unfold fields, goal_cases)
    case (1 model duration reason ctx cost usg)
    from 1(9,10) usage have "usg = rc_usage r"
      by (auto simp: bind_result_Inr_iff split: option.splits if_splits dest!: usage_from_usage_dict)
    with 1 show ?case
      by (auto simp: as_string_JStr_iff integer_field_Inr_iff optional_string_json intro: receipt.equality)
  qed
  with dec show ?thesis by simp
qed

text \<open>
  The strict receipt codec is lossless: whatever \<^verbatim>\<open>receipt_to_dict\<close> accepts,
  \<^verbatim>\<open>receipt_from_dict\<close> reads back as the same receipt.
\<close>

lemma receipt_roundtrip:
  assumes "receipt_to_dict sha r = Inr raw"
  shows "receipt_from_dict sha raw = Inr r"
  using assms by (rule receipt_decode_encode)

section \<open>A concrete receipt\<close>

text \<open>A reported, accepted compaction call, with a digest function that tags its input.\<close>

definition tag_digest :: "string \<Rightarrow> string" where
  "tag_digest s = ''sha:'' @ s"

definition receipt_example :: receipt where
  "receipt_example =
     \<lparr>rc_logical_call_id = ''c1'', rc_delivery_attempt_id = ''d1'', rc_kind = ''compaction'',
      rc_run_id = ''r1'', rc_turn_index = Some 2, rc_actual_model = ''m'',
      rc_usage_status = ''reported'',
      rc_usage = Some \<lparr>input_tokens = 10, output_tokens = 5, cache_read_tokens = 0,
                       cache_creation_tokens = 0\<rparr>,
      rc_cost_usd = Some (Fin 2), rc_disposition = ''accepted'', rc_rejection_reason = None,
      rc_accepted_text = Some ''sum'', rc_accepted_text_sha256 = Some ''sha:sum'',
      rc_duration_ms = 7, rc_request_fingerprint = ''f'', rc_strategy_id = Some ''s'',
      rc_source_context_fingerprint = None\<rparr>"

definition receipt_example_raw :: json_obj where
  "receipt_example_raw =
     (case receipt_raw receipt_example of Inr raw \<Rightarrow> raw | Inl _ \<Rightarrow> [])"

lemmas receipt_example_simps =
  versioned_def require_wire_version_def receipt_fields_def validate_identity_def raw_field_def
  string_field_def optional_string_def optional_integer_def integer_field_def cost_field_def
  check_accepted_text_def check_that_def usage_from_json_def usage_fields_def usage_dict_def
  copy_usage_def usage_ok_def usage_statuses_def call_dispositions_def blank_iff is_space_def
  json_opt_string_def json_opt_int_def json_opt_float_def finite_nonneg_def utf8_length_def
  accepted_text_max_bytes_def tag_digest_def Let_def

lemma receipt_example_decodes:
  "receipt_from_dict tag_digest receipt_example_raw = Inr receipt_example"
  by (simp add: receipt_from_dict_def receipt_example_raw_def receipt_raw_def receipt_example_def
      receipt_example_simps)

lemma receipt_example_encodes:
  "receipt_to_dict tag_digest receipt_example = Inr receipt_example_raw"
proof -
  have "receipt_raw receipt_example = Inr receipt_example_raw"
    by (simp add: receipt_example_raw_def receipt_raw_def receipt_example_def usage_dict_def
        copy_usage_def usage_ok_def)
  with receipt_example_decodes show ?thesis
    by (simp add: receipt_to_dict_def)
qed

end
