(* ===== verification/Budget.thy ===== *)
theory Budget
  imports Receipts
begin

text \<open>
  \<^verbatim>\<open>src/linch/budget.py\<close>: the shared spending cap of an agent tree. Every operation takes the
  budget and returns it updated together with its result, because an operation that raises may
  already have changed the object (adopting an owner id, charging a prefix of the receipts).
  \<open>new_id\<close> is the \<^verbatim>\<open>uuid4\<close> the code would draw.
\<close>

section \<open>State\<close>

record budget =
  max_tokens :: "int option"
  max_cost_usd :: "pyfloat option"
  warn_ratio :: pyfloat
  spent_tokens :: int
  spent_usd :: pyfloat
  warn_emitted :: bool
  budget_owner_id :: "string option"
  charged_delivery_ids :: "string set"
  receipt_charges :: "(string, usage \<times> pyfloat option) dict"
  unknown_delivery_ids :: "string set"
  expected_spent_tokens :: int
  expected_spent_usd :: pyfloat

definition new_budget :: "int option \<Rightarrow> pyfloat option \<Rightarrow> pyfloat \<Rightarrow> budget" where
  "new_budget mt mc wr =
     \<lparr>max_tokens = mt, max_cost_usd = mc, warn_ratio = wr, spent_tokens = 0, spent_usd = Fin 0,
      warn_emitted = False, budget_owner_id = None, charged_delivery_ids = {},
      receipt_charges = [], unknown_delivery_ids = {}, expected_spent_tokens = 0,
      expected_spent_usd = Fin 0\<rparr>"

section \<open>Operations\<close>

definition cost_or_zero :: "pyfloat option \<Rightarrow> pyfloat" where
  "cost_or_zero c = (case c of None \<Rightarrow> Fin 0 | Some f \<Rightarrow> f)"

definition charge :: "usage \<Rightarrow> pyfloat option \<Rightarrow> budget \<Rightarrow> budget" where
  "charge u c b =
     (let b1 = b\<lparr>spent_tokens := spent_tokens b + usage_total u\<rparr>;
          b2 = (case c of None \<Rightarrow> b1 | Some f \<Rightarrow> b1\<lparr>spent_usd := pf_add (spent_usd b1) f\<rparr>)
      in if budget_owner_id b2 \<noteq> None
         then b2\<lparr>expected_spent_tokens := expected_spent_tokens b2 + usage_total u,
                 expected_spent_usd := pf_add (expected_spent_usd b2) (cost_or_zero c)\<rparr>
         else b2)"

definition is_capped :: "budget \<Rightarrow> bool" where
  "is_capped b = (max_tokens b \<noteq> None \<or> max_cost_usd b \<noteq> None)"

definition receipt_owner :: "string \<Rightarrow> budget \<Rightarrow> budget \<times> string" where
  "receipt_owner new_id b = (case budget_owner_id b of
       Some owner \<Rightarrow> (b, owner)
     | None \<Rightarrow> (b\<lparr>budget_owner_id := Some new_id, expected_spent_tokens := spent_tokens b,
                   expected_spent_usd := spent_usd b\<rparr>, new_id))"

definition check_receipt_counters :: "budget \<Rightarrow> unit result" where
  "check_receipt_counters b =
     (if spent_tokens b \<noteq> expected_spent_tokens b
         \<or> \<not> pf_eq (spent_usd b) (expected_spent_usd b)
         \<or> charged_delivery_ids b \<noteq> set (dict_keys (receipt_charges b))
      then Inl ConfigError else Inr ())"

text \<open>\<^verbatim>\<open>_cost\<close> applied to a value that is already a float or \<^verbatim>\<open>None\<close>.\<close>

definition checked_cost :: "pyfloat option \<Rightarrow> pyfloat option result" where
  "checked_cost c = cost_field (json_opt_float c)"

definition charge_receipt ::
  "string \<Rightarrow> string \<Rightarrow> usage \<Rightarrow> pyfloat option \<Rightarrow> budget \<Rightarrow> budget \<times> bool result" where
  "charge_receipt new_id did u c b =
     (if blank did then (b, Inl invalid) else
      case copy_usage u of Inl e \<Rightarrow> (b, Inl e) | Inr owned \<Rightarrow>
      case checked_cost c of Inl e \<Rightarrow> (b, Inl e) | Inr cost \<Rightarrow>
      (let b1 = fst (receipt_owner new_id b) in
       case check_receipt_counters b1 of Inl e \<Rightarrow> (b1, Inl e) | Inr _ \<Rightarrow>
       if did \<in> charged_delivery_ids b1 then
         (case dict_get (receipt_charges b1) did of
            None \<Rightarrow> (b1, Inl KeyError)
          | Some prev \<Rightarrow> if prev \<noteq> (owned, cost) then (b1, Inl ConfigError) else (b1, Inr False))
       else case checked_cost (Some (pf_add (spent_usd b1) (cost_or_zero cost))) of
          Inl e \<Rightarrow> (b1, Inl e)
        | Inr _ \<Rightarrow>
          (let b2 = charge owned cost b1 in
           (b2\<lparr>charged_delivery_ids := insert did (charged_delivery_ids b2),
               receipt_charges := dict_set did (owned, cost) (receipt_charges b2)\<rparr>,
            Inr True))))"

definition register_unresolved_delivery :: "string \<Rightarrow> string \<Rightarrow> budget \<Rightarrow> budget" where
  "register_unresolved_delivery new_id did b =
     (let b1 = fst (receipt_owner new_id b)
      in b1\<lparr>unknown_delivery_ids := insert did (unknown_delivery_ids b1)\<rparr>)"

datatype restore_mode = SameOwner | FreshAdopted

definition is_fresh :: "budget \<Rightarrow> bool" where
  "is_fresh b =
     (budget_owner_id b = None \<and> spent_tokens b = 0 \<and> pf_eq (spent_usd b) (Fin 0)
      \<and> charged_delivery_ids b = {} \<and> receipt_charges b = [] \<and> unknown_delivery_ids b = {})"

text \<open>The check of one receipt against an owner budget that already holds its charges.\<close>

definition check_restored :: "budget \<Rightarrow> receipt \<Rightarrow> unit result" where
  "check_restored b r = (case rc_usage r of
       Some u \<Rightarrow>
         if rc_delivery_attempt_id r \<notin> charged_delivery_ids b
            \<or> dict_get (receipt_charges b) (rc_delivery_attempt_id r) \<noteq> Some (u, rc_cost_usd r)
         then Inl ConfigError else Inr ()
     | None \<Rightarrow>
         if rc_usage_status r = ''unknown''
            \<and> rc_delivery_attempt_id r \<notin> unknown_delivery_ids b
         then Inl ConfigError else Inr ())"

text \<open>Adopting one receipt into a fresh budget.\<close>

definition adopt_receipt :: "string \<Rightarrow> receipt \<Rightarrow> budget \<Rightarrow> budget \<times> unit result" where
  "adopt_receipt new_id r b = (case rc_usage r of
       Some u \<Rightarrow>
         (case charge_receipt new_id (rc_delivery_attempt_id r) u (rc_cost_usd r) b of
            (b', Inl e) \<Rightarrow> (b', Inl e)
          | (b', Inr _) \<Rightarrow> (b', Inr ()))
     | None \<Rightarrow>
         if rc_usage_status r = ''unknown''
         then (register_unresolved_delivery new_id (rc_delivery_attempt_id r) b, Inr ())
         else (b, Inr ()))"

fun adopt_receipts :: "string \<Rightarrow> receipt list \<Rightarrow> budget \<Rightarrow> budget \<times> unit result" where
  "adopt_receipts new_id [] b = (b, Inr ())"
| "adopt_receipts new_id (r # rs) b = (case adopt_receipt new_id r b of
       (b', Inl e) \<Rightarrow> (b', Inl e)
     | (b', Inr _) \<Rightarrow> adopt_receipts new_id rs b')"

definition adopt_owner :: "string \<Rightarrow> budget \<Rightarrow> budget" where
  "adopt_owner owner b =
     b\<lparr>budget_owner_id := Some owner, expected_spent_tokens := spent_tokens b,
       expected_spent_usd := spent_usd b\<rparr>"

definition restore_receipts ::
  "(string \<Rightarrow> string) \<Rightarrow> string \<Rightarrow> string \<Rightarrow> receipt list \<Rightarrow> budget \<Rightarrow> budget \<times> restore_mode result" where
  "restore_receipts sha new_id owner receipts b =
     (if blank owner then (b, Inl invalid) else
      case map_result (\<lambda>r. bind_result (receipt_to_dict sha r) (receipt_from_dict sha)) receipts of
        Inl e \<Rightarrow> (b, Inl e)
      | Inr owned \<Rightarrow>
        if \<not> distinct (map rc_delivery_attempt_id owned) then (b, Inl ConfigError)
        else if budget_owner_id b \<noteq> Some owner \<and> \<not> is_fresh b then (b, Inl ConfigError)
        else if \<not> is_fresh b then
          (case check_receipt_counters b of Inl e \<Rightarrow> (b, Inl e) | Inr _ \<Rightarrow>
           case map_result (check_restored b) owned of
             Inl e \<Rightarrow> (b, Inl e)
           | Inr _ \<Rightarrow> (b, Inr SameOwner))
        else
          (case adopt_receipts new_id owned (adopt_owner owner b) of
             (b2, Inl e) \<Rightarrow> (b2, Inl e)
           | (b2, Inr _) \<Rightarrow> (b2, Inr FreshAdopted)))"

definition restore_unresolved_deliveries ::
  "string set \<Rightarrow> bool \<Rightarrow> budget \<Rightarrow> budget \<times> unit result" where
  "restore_unresolved_deliveries ids fresh b =
     (if fresh then (b\<lparr>unknown_delivery_ids := unknown_delivery_ids b \<union> ids\<rparr>, Inr ())
      else if \<not> ids \<subseteq> unknown_delivery_ids b then (b, Inl ConfigError)
      else (b, Inr ()))"

definition remaining_tokens :: "budget \<Rightarrow> int option" where
  "remaining_tokens b = (case max_tokens b of
       None \<Rightarrow> None | Some m \<Rightarrow> Some (max 0 (m - spent_tokens b)))"

definition remaining_usd :: "budget \<Rightarrow> pyfloat option" where
  "remaining_usd b = (case max_cost_usd b of
       None \<Rightarrow> None | Some m \<Rightarrow> Some (pf_max (Fin 0) (pf_sub m (spent_usd b))))"

definition exceeded :: "budget \<Rightarrow> bool" where
  "exceeded b =
     (if (case max_tokens b of None \<Rightarrow> False | Some m \<Rightarrow> m \<le> spent_tokens b) then True
      else if (case max_cost_usd b of None \<Rightarrow> False | Some m \<Rightarrow> pf_le m (spent_usd b)) then True
      else False)"

text \<open>
  The product \<^verbatim>\<open>warn_ratio * max_tokens\<close> converts the limit to a float, which raises
  \<^const>\<open>OverflowError\<close> for a limit beyond the largest double; the second disjunct is evaluated
  only when the first is false.
\<close>

definition tokens_over_ratio :: "budget \<Rightarrow> bool result" where
  "tokens_over_ratio b = (case max_tokens b of
       None \<Rightarrow> Inr False
     | Some m \<Rightarrow> (case float_of_int m of
           None \<Rightarrow> Inl OverflowError
         | Some f \<Rightarrow> Inr (pf_le_int (pf_mult (warn_ratio b) f) (spent_tokens b))))"

definition usd_over_ratio :: "budget \<Rightarrow> bool" where
  "usd_over_ratio b = (case max_cost_usd b of
       None \<Rightarrow> False
     | Some m \<Rightarrow> pf_le (pf_mult (warn_ratio b) m) (spent_usd b))"

definition take_warning :: "budget \<Rightarrow> budget \<times> bool result" where
  "take_warning b =
     (if warn_emitted b then (b, Inr False) else
      case tokens_over_ratio b of Inl e \<Rightarrow> (b, Inl e) | Inr over \<Rightarrow>
      if over \<or> usd_over_ratio b then (b\<lparr>warn_emitted := True\<rparr>, Inr True) else (b, Inr False))"

lemmas [budget_defs] =
  charge_def receipt_owner_def charge_receipt_def register_unresolved_delivery_def
  adopt_receipt_def restore_unresolved_deliveries_def take_warning_def

section \<open>Invariant\<close>

text \<open>
  What the budget's own operations keep true: the expected counters follow the spent counters
  once an owner is set, the charged ids are exactly the recorded charges, each recorded once,
  and the dollar counter is a representable non-negative float.
\<close>

definition nonneg_float :: "pyfloat \<Rightarrow> bool" where
  "nonneg_float f = (is_double f \<and> (case f of Fin q \<Rightarrow> 0 \<le> q | PInf \<Rightarrow> True | _ \<Rightarrow> False))"

definition valid_cost :: "pyfloat option \<Rightarrow> bool" where
  "valid_cost c = (case c of None \<Rightarrow> True | Some f \<Rightarrow> finite_nonneg f)"

definition budget_inv :: "budget \<Rightarrow> bool" where
  "budget_inv b =
     ((budget_owner_id b = None \<or>
         (expected_spent_tokens b = spent_tokens b \<and> expected_spent_usd b = spent_usd b))
      \<and> charged_delivery_ids b = set (dict_keys (receipt_charges b))
      \<and> dict_ok (receipt_charges b) \<and> nonneg_float (spent_usd b))"

lemma new_budget_inv: "budget_inv (new_budget mt mc wr)"
  by (simp add: budget_inv_def new_budget_def nonneg_float_def round_double_def)

lemma finite_nonneg_cases: "finite_nonneg f \<longleftrightarrow> (\<exists>q \<ge> 0. f = Fin q)"
  by (cases f) (auto simp: finite_nonneg_def)

lemma nonneg_float_add:
  assumes "nonneg_float x" and "finite_nonneg f"
  shows "nonneg_float (pf_add x f)"
proof -
  from assms(2) obtain q where q: "f = Fin q" "0 \<le> q" by (auto simp: finite_nonneg_cases)
  show ?thesis
  proof (cases x)
    case (Fin p)
    with assms(1) have "0 \<le> p + q" using q by (simp add: nonneg_float_def)
    from round_double_nonneg [OF this] Fin q show ?thesis
      by (auto simp: nonneg_float_def intro: round_double_idem)
  qed (use assms(1) q in \<open>auto simp: nonneg_float_def\<close>)
qed

lemma nonneg_float_pf_eq [simp]: "nonneg_float x \<Longrightarrow> pf_eq x x"
  by (cases x) (auto simp: nonneg_float_def pf_eq_def)

lemma charge_inv:
  assumes "budget_inv b" and "valid_cost c"
  shows "budget_inv (charge u c b)"
proof (cases c)
  case None
  with assms(1) show ?thesis
    by (auto simp: budget_inv_def charge_def Let_def cost_or_zero_def nonneg_float_def)
next
  case (Some f)
  with assms nonneg_float_add [of "spent_usd b" f] show ?thesis
    by (auto simp: budget_inv_def charge_def Let_def cost_or_zero_def valid_cost_def)
qed

lemma receipt_owner_inv: "budget_inv b \<Longrightarrow> budget_inv (fst (receipt_owner i b))"
  by (auto simp: budget_inv_def receipt_owner_def split: option.splits)

lemma receipt_owner_counters:
  "budget_inv b \<Longrightarrow> check_receipt_counters (fst (receipt_owner i b)) = Inr ()"
  by (auto simp: budget_inv_def receipt_owner_def check_receipt_counters_def split: option.splits)

lemma receipt_owner_frame [simp]:
  "spent_tokens (fst (receipt_owner i b)) = spent_tokens b"
  "spent_usd (fst (receipt_owner i b)) = spent_usd b"
  "charged_delivery_ids (fst (receipt_owner i b)) = charged_delivery_ids b"
  "receipt_charges (fst (receipt_owner i b)) = receipt_charges b"
  "unknown_delivery_ids (fst (receipt_owner i b)) = unknown_delivery_ids b"
  "warn_emitted (fst (receipt_owner i b)) = warn_emitted b"
  "max_tokens (fst (receipt_owner i b)) = max_tokens b"
  "budget_owner_id (fst (receipt_owner i b)) \<noteq> None"
  by (simp_all add: receipt_owner_def split: option.splits)

lemma charge_frame [simp]:
  "spent_tokens (charge u c b) = spent_tokens b + usage_total u"
  "charged_delivery_ids (charge u c b) = charged_delivery_ids b"
  "receipt_charges (charge u c b) = receipt_charges b"
  "unknown_delivery_ids (charge u c b) = unknown_delivery_ids b"
  "warn_emitted (charge u c b) = warn_emitted b"
  "max_tokens (charge u c b) = max_tokens b"
  "budget_owner_id (charge u c b) = budget_owner_id b"
  by (simp_all add: charge_def Let_def split: option.splits)

lemma checked_cost_Inr [simp]: "checked_cost c = Inr c' \<longleftrightarrow> c' = c \<and> valid_cost c"
  by (auto simp: checked_cost_def valid_cost_def split: option.splits)

lemma copy_usage_Inr [simp]: "copy_usage u = Inr v \<longleftrightarrow> v = u \<and> usage_ok u"
  by (auto simp: copy_usage_def)

text \<open>
  The complete case analysis of \<^verbatim>\<open>_charge_receipt\<close> on a budget that satisfies the invariant: it
  is refused without any accounting effect, it is recognised as a repeat, or it is charged.
\<close>

lemma charge_receipt_cases:
  assumes "budget_inv b" and "charge_receipt i did u c b = (b', res)"
  obtains
    (rejected) e where "res = Inl e" "b' = b \<or> b' = fst (receipt_owner i b)"
  | (repeated) "res = Inr False" "b' = fst (receipt_owner i b)"
      "dict_get (receipt_charges b) did = Some (u, c)"
  | (charged) "res = Inr True" "did \<notin> set (dict_keys (receipt_charges b))"
      "usage_ok u" "valid_cost c" "\<not> blank did"
      "b' = (charge u c (fst (receipt_owner i b)))
              \<lparr>charged_delivery_ids := insert did (charged_delivery_ids b),
               receipt_charges := dict_set did (u, c) (receipt_charges b)\<rparr>"
proof -
  have keys: "charged_delivery_ids b = set (dict_keys (receipt_charges b))"
    using assms(1) by (simp add: budget_inv_def)
  show thesis
  proof (cases "blank did \<or> \<not> usage_ok u \<or> \<not> valid_cost c")
    case True
    with assms(2) have "b' = b \<and> (\<exists>e. res = Inl e)"
      by (auto simp: charge_receipt_def copy_usage_def split: sum.splits if_splits)
    then show ?thesis using rejected by blast
  next
    case False
    then have ok: "copy_usage u = Inr u" "checked_cost c = Inr c" "\<not> blank did" by simp_all
    note step = assms(2) [unfolded charge_receipt_def Let_def ok
        receipt_owner_counters [OF assms(1)]]
    show ?thesis
    proof (cases "did \<in> set (dict_keys (receipt_charges b))")
      case True
      with keys step ok obtain prev where "dict_get (receipt_charges b) did = Some prev"
        by (metis dict_get_None_iff not_Some_eq)
      with True keys step ok show ?thesis
        by (auto split: if_splits intro: rejected repeated)
    next
      case False
      with keys step ok \<open>\<not> (blank did \<or> \<not> usage_ok u \<or> \<not> valid_cost c)\<close> show ?thesis
        by (auto split: sum.splits intro: rejected charged)
    qed
  qed
qed

lemma charge_receipt_inv:
  assumes "budget_inv b"
  shows "budget_inv (fst (charge_receipt i did u c b))"
proof (cases "charge_receipt i did u c b")
  case (Pair b' res)
  from assms Pair show ?thesis
  proof (cases rule: charge_receipt_cases)
    case charged
    have "budget_inv (charge u c (fst (receipt_owner i b)))"
      using assms charged by (intro charge_inv receipt_owner_inv)
    with charged Pair show ?thesis
      by (simp add: budget_inv_def)
  qed (use assms Pair receipt_owner_inv in auto)
qed

section \<open>Frames and monotonicity\<close>

text \<open>What the receipts charged so far add up to.\<close>

definition receipt_tokens :: "budget \<Rightarrow> int" where
  "receipt_tokens b = sum_list (map (\<lambda>(_, u, _). usage_total u) (receipt_charges b))"

lemma sum_list_dict_set_fresh:
  "k \<notin> set (dict_keys d) \<Longrightarrow>
     sum_list (map f (dict_set k v d)) = sum_list (map f d) + (f (k, v) :: int)"
  by (simp add: dict_set_fresh)

lemma receipt_tokens_frame [simp]:
  "receipt_tokens (fst (receipt_owner i b)) = receipt_tokens b"
  "receipt_tokens (charge u c b) = receipt_tokens b"
  by (simp_all add: receipt_tokens_def)

lemma usage_ok_total: "usage_ok u \<Longrightarrow> 0 \<le> usage_total u"
  by (simp add: usage_ok_def usage_total_def)

text \<open>
  The frame of one \<^verbatim>\<open>_charge_receipt\<close>: the spent and the recorded tokens grow by the same
  non-negative amount, recorded charges are never dropped or changed, limits stay.
\<close>

definition budget_grows :: "budget \<Rightarrow> budget \<Rightarrow> bool" where
  "budget_grows b b' =
     (spent_tokens b \<le> spent_tokens b' \<and> max_tokens b' = max_tokens b
      \<and> map_of (receipt_charges b) \<subseteq>\<^sub>m map_of (receipt_charges b')
      \<and> (warn_emitted b \<longrightarrow> warn_emitted b')
      \<and> unknown_delivery_ids b \<subseteq> unknown_delivery_ids b'
      \<and> (budget_owner_id b \<noteq> None \<longrightarrow> budget_owner_id b' = budget_owner_id b))"

lemma budget_grows_refl [simp]: "budget_grows b b"
  by (simp add: budget_grows_def)

lemma budget_grows_trans:
  "budget_grows a b \<Longrightarrow> budget_grows b c \<Longrightarrow> budget_grows a c"
  by (auto simp: budget_grows_def intro: map_le_trans)

lemma receipt_owner_grows: "budget_grows b (fst (receipt_owner i b))"
  by (auto simp: budget_grows_def receipt_owner_def split: option.splits)

lemma map_le_dict_set_fresh:
  "k \<notin> set (dict_keys d) \<Longrightarrow> map_of d \<subseteq>\<^sub>m map_of (dict_set k v d)"
  by (auto simp: map_le_def map_of_eq_None_iff dom_map_of_conv_image_fst)

lemma charge_receipt_grows:
  assumes "budget_inv b"
  shows "budget_grows b (fst (charge_receipt i did u c b))"
proof (cases "charge_receipt i did u c b")
  case (Pair b' res)
  from assms Pair show ?thesis
  proof (cases rule: charge_receipt_cases)
    case charged
    have "max_tokens (charge u c (fst (receipt_owner i b))) = max_tokens b" by simp
    with charged Pair usage_ok_total [OF charged(3)] map_le_dict_set_fresh [OF charged(2)]
      receipt_owner_grows [of b i] show ?thesis
      by (simp add: budget_grows_def)
  qed (use Pair receipt_owner_grows [of b i] in auto)
qed

lemma charge_receipt_tokens:
  assumes "budget_inv b"
  shows "spent_tokens (fst (charge_receipt i did u c b)) - spent_tokens b
       = receipt_tokens (fst (charge_receipt i did u c b)) - receipt_tokens b"
proof (cases "charge_receipt i did u c b")
  case (Pair b' res)
  from assms Pair show ?thesis
  proof (cases rule: charge_receipt_cases)
    case charged
    then show ?thesis
      by (simp add: Pair receipt_tokens_def sum_list_dict_set_fresh)
  qed (use Pair in auto)
qed

lemma register_inv: "budget_inv b \<Longrightarrow> budget_inv (register_unresolved_delivery i did b)"
  using receipt_owner_inv [of b i]
  by (simp add: budget_inv_def register_unresolved_delivery_def Let_def)

lemma register_grows: "budget_grows b (register_unresolved_delivery i did b)"
  using receipt_owner_grows [of b i]
  by (auto simp: budget_grows_def register_unresolved_delivery_def Let_def)

lemma register_frame [simp]:
  "receipt_charges (register_unresolved_delivery i did b) = receipt_charges b"
  "spent_tokens (register_unresolved_delivery i did b) = spent_tokens b"
  "receipt_tokens (register_unresolved_delivery i did b) = receipt_tokens b"
  by (simp_all add: register_unresolved_delivery_def Let_def receipt_tokens_def)

text \<open>Adopting receipts preserves the same facts, whether or not it stops early.\<close>

lemma adopt_receipt_fst:
  "fst (adopt_receipt i r b) = b
   \<or> (\<exists>u. fst (adopt_receipt i r b)
          = fst (charge_receipt i (rc_delivery_attempt_id r) u (rc_cost_usd r) b))
   \<or> fst (adopt_receipt i r b)
     = register_unresolved_delivery i (rc_delivery_attempt_id r) b"
  by (auto simp: adopt_receipt_def split: option.splits prod.splits sum.splits) (metis fst_conv)+

lemma adopt_receipt_keeps:
  assumes "budget_inv b"
  shows "budget_inv (fst (adopt_receipt i r b)) \<and> budget_grows b (fst (adopt_receipt i r b))"
  using adopt_receipt_fst [of i r b] assms charge_receipt_inv charge_receipt_grows
    register_inv register_grows budget_grows_refl by metis

lemma adopt_receipts_keeps:
  "budget_inv b \<Longrightarrow>
     budget_inv (fst (adopt_receipts i rs b)) \<and> budget_grows b (fst (adopt_receipts i rs b))"
proof (induction rs arbitrary: b)
  case (Cons r rs)
  obtain b' x where step: "adopt_receipt i r b = (b', x)" by (cases "adopt_receipt i r b")
  from adopt_receipt_keeps [OF Cons.prems, of i r] step
  have keeps: "budget_inv b'" "budget_grows b b'" by simp_all
  show ?case
  proof (cases x)
    case (Inr u)
    with Cons.IH [OF keeps(1)] keeps step show ?thesis by (auto intro: budget_grows_trans)
  qed (use keeps step in auto)
qed simp

lemma adopt_owner_keeps:
  "budget_inv b \<Longrightarrow> is_fresh b \<Longrightarrow> budget_inv (adopt_owner owner b) \<and> budget_grows b (adopt_owner owner b)"
  by (auto simp: budget_inv_def budget_grows_def is_fresh_def adopt_owner_def)

lemma restore_receipts_keeps:
  assumes "budget_inv b"
  shows "budget_inv (fst (restore_receipts sha i owner rs b))
         \<and> budget_grows b (fst (restore_receipts sha i owner rs b))"
proof -
  have adopt: "budget_inv (fst (adopt_receipts i owned (adopt_owner owner b)))
      \<and> budget_grows b (fst (adopt_receipts i owned (adopt_owner owner b)))"
    if "is_fresh b" for owned
    using adopt_owner_keeps [OF assms that, of owner]
      adopt_receipts_keeps [of "adopt_owner owner b" i owned] budget_grows_trans by blast
  have "fst (restore_receipts sha i owner rs b) = b
      \<or> (\<exists>owned. is_fresh b \<and> fst (restore_receipts sha i owner rs b)
                     = fst (adopt_receipts i owned (adopt_owner owner b)))"
    by (auto simp: restore_receipts_def split: sum.splits prod.splits) (metis fst_conv)+
  with adopt assms show ?thesis by auto
qed

lemma take_warning_keeps:
  "budget_inv b \<Longrightarrow> budget_inv (fst (take_warning b)) \<and> budget_grows b (fst (take_warning b))"
  by (auto simp: take_warning_def budget_inv_def budget_grows_def split: sum.splits)

section \<open>The budget over a whole run\<close>

text \<open>
  One step is one call of a method of the budget by any agent of the tree, with arguments the
  callers pass: a model call's reported usage is a valid usage, its cost absent or valid.
\<close>

inductive budget_step :: "budget \<Rightarrow> budget \<Rightarrow> bool" where
  step_charge: "usage_ok u \<Longrightarrow> valid_cost c \<Longrightarrow> budget_step b (charge u c b)"
| step_receipt: "budget_step b (fst (charge_receipt i did u c b))"
| step_unresolved: "budget_step b (register_unresolved_delivery i did b)"
| step_restore: "budget_step b (fst (restore_receipts sha i owner rs b))"
| step_restore_unresolved: "budget_step b (fst (restore_unresolved_deliveries ids fresh b))"
| step_warning: "budget_step b (fst (take_warning b))"

inductive_cases budget_stepE: "budget_step b b'"

lemma budget_step_keeps:
  "budget_step b b' \<Longrightarrow> budget_inv b \<Longrightarrow> budget_inv b' \<and> budget_grows b b'"
proof (induction rule: budget_step.induct)
  case (step_charge u c b)
  have "max_tokens (charge u c b) = max_tokens b" by simp
  with step_charge charge_inv [of b c u] usage_ok_total [of u] show ?case
    by (simp add: budget_grows_def)
next
  case (step_restore_unresolved b ids fresh)
  then show ?case
    by (auto simp: restore_unresolved_deliveries_def budget_inv_def budget_grows_def)
qed (simp_all add: charge_receipt_inv charge_receipt_grows register_inv register_grows
       restore_receipts_keeps take_warning_keeps)

lemma budget_steps_keep:
  "budget_step\<^sup>*\<^sup>* b b' \<Longrightarrow> budget_inv b \<Longrightarrow> budget_inv b' \<and> budget_grows b b'"
  by (induction rule: rtranclp_induct) (auto dest: budget_step_keeps intro: budget_grows_trans)

section \<open>Properties\<close>

lemma charge_receipt_recorded:
  assumes "budget_inv b" and "charge_receipt i did u c b = (b', Inr fresh)"
  shows "dict_get (receipt_charges b') did = Some (u, c) \<and> budget_owner_id b' \<noteq> None
         \<and> \<not> blank did \<and> usage_ok u \<and> valid_cost c"
  using assms
proof (cases rule: charge_receipt_cases)
  case repeated
  moreover from assms(2) have "\<not> blank did \<and> usage_ok u \<and> valid_cost c"
    by (auto simp: charge_receipt_def copy_usage_def split: if_splits sum.splits)
  ultimately show ?thesis by simp
qed simp_all

lemma charge_receipt_known:
  assumes "budget_inv b" and "budget_owner_id b \<noteq> None" and "\<not> blank did"
    and "usage_ok v" and "valid_cost d" and "dict_get (receipt_charges b) did = Some (u, c)"
  shows "charge_receipt j did v d b
       = (b, if (v, d) = (u, c) then Inr False else Inl ConfigError)"
proof -
  from assms(2) have owner: "fst (receipt_owner j b) = b"
    by (auto simp: receipt_owner_def)
  from assms(1,6) have "did \<in> charged_delivery_ids b"
    by (auto simp: budget_inv_def dest: map_of_SomeD intro: rev_image_eqI)
  have ok: "copy_usage v = Inr v" "checked_cost d = Inr d" using assms(4,5) by simp_all
  have "check_receipt_counters b = Inr ()"
    using receipt_owner_counters [OF assms(1), of j] owner by simp
  then show ?thesis
    unfolding charge_receipt_def Let_def ok owner
    using assms(3,6) \<open>did \<in> charged_delivery_ids b\<close> by auto
qed

text \<open>
  C15: A model call is paid once. After a delivery has been charged, and whatever any agent of
  the tree does with the budget meanwhile, charging the same delivery again changes nothing and
  says so, and charging it with different spending is refused.
\<close>

theorem receipt_charged_once:
  assumes "budget_inv b" and "charge_receipt i did u c b = (b1, Inr fresh)"
    and "budget_step\<^sup>*\<^sup>* b1 b2" and "usage_ok v" and "valid_cost d"
  shows "charge_receipt j did v d b2
       = (b2, if (v, d) = (u, c) then Inr False else Inl ConfigError)"
proof -
  note rec = charge_receipt_recorded [OF assms(1,2)]
  have inv1: "budget_inv b1" using charge_receipt_inv [OF assms(1)] assms(2) by (metis fst_conv)
  from budget_steps_keep [OF assms(3) inv1] have inv2: "budget_inv b2" and g: "budget_grows b1 b2"
    by simp_all
  from g rec have "dict_get (receipt_charges b2) did = Some (u, c)" "budget_owner_id b2 \<noteq> None"
    by (auto simp: budget_grows_def map_le_def dom_def)
  with inv2 rec assms(4,5) show ?thesis by (simp add: charge_receipt_known)
qed

text \<open>The charges of one run: a list of deliveries, each with the id the code would draw.\<close>

fun charge_all :: "(string \<times> string \<times> usage \<times> pyfloat option) list \<Rightarrow> budget \<Rightarrow> budget" where
  "charge_all [] b = b"
| "charge_all ((i, did, u, c) # ds) b = charge_all ds (fst (charge_receipt i did u c b))"

lemma charge_all_keeps:
  "budget_inv b \<Longrightarrow> budget_inv (charge_all ds b)
     \<and> spent_tokens (charge_all ds b) - receipt_tokens (charge_all ds b)
       = spent_tokens b - receipt_tokens b"
proof (induction ds arbitrary: b)
  case (Cons d ds)
  obtain i did u c where d: "d = (i, did, u, c)" by (cases d)
  from Cons.IH [OF charge_receipt_inv [OF Cons.prems, of i did u c]]
    charge_receipt_tokens [OF Cons.prems, of i did u c] d
  show ?case by simp
qed simp

lemma charge_receipt_origin:
  assumes "budget_inv b"
  shows "set (receipt_charges (fst (charge_receipt i did u c b)))
       \<subseteq> insert (did, u, c) (set (receipt_charges b))"
proof (cases "charge_receipt i did u c b")
  case (Pair b' res)
  from assms Pair show ?thesis
  proof (cases rule: charge_receipt_cases)
    case charged
    then show ?thesis by (simp add: Pair dict_set_fresh)
  qed (use Pair in auto)
qed

lemma charge_all_origin:
  "budget_inv b \<Longrightarrow> set (receipt_charges (charge_all ds b))
     \<subseteq> set (map snd ds) \<union> set (receipt_charges b)"
proof (induction ds arbitrary: b)
  case (Cons d ds)
  obtain i did u c where d: "d = (i, did, u, c)" by (cases d)
  from Cons.IH [OF charge_receipt_inv [OF Cons.prems, of i did u c]]
    charge_receipt_origin [OF Cons.prems, of i did u c] d
  show ?case by auto
qed simp

text \<open>
  The token counter of a receipt budget is exactly the sum of the charges it recorded, one
  per delivery id, and each recorded charge is one that was asked for: repeated, invalid and
  conflicting deliveries leave no trace in the sum.
\<close>

lemma spent_tokens_is_sum_of_receipts:
  "let b = charge_all ds (new_budget mt mc wr)
   in spent_tokens b = sum_list (map (\<lambda>(_, u, _). usage_total u) (receipt_charges b))
      \<and> distinct (map fst (receipt_charges b))
      \<and> set (receipt_charges b) \<subseteq> set (map snd ds)"
  using charge_all_keeps [OF new_budget_inv, of ds mt mc wr]
    charge_all_origin [OF new_budget_inv, of ds mt mc wr]
  by (simp add: Let_def budget_inv_def receipt_tokens_def new_budget_def)

text \<open>
  Once the token limit is reached the budget stays exceeded, whatever is called on it.
\<close>

lemma token_limit_is_final:
  assumes "budget_inv b" and "budget_step\<^sup>*\<^sup>* b b'"
    and "max_tokens b = Some m" and "m \<le> spent_tokens b"
  shows "exceeded b' \<and> remaining_tokens b' = Some 0"
  using budget_steps_keep [OF assms(2,1)] assms(3,4)
  by (auto simp: budget_grows_def exceeded_def remaining_tokens_def)

text \<open>
  The crossing of the warning threshold is reported to one caller only.
\<close>

lemma warning_taken_once:
  assumes "budget_inv b" and "take_warning b = (b1, Inr True)" and "budget_step\<^sup>*\<^sup>* b1 b2"
  shows "take_warning b2 = (b2, Inr False)"
proof -
  from assms(2) have "warn_emitted b1"
    by (auto simp: take_warning_def split: sum.splits if_splits)
  moreover from take_warning_keeps [OF assms(1)] assms(2) have "budget_inv b1" by simp
  ultimately show ?thesis
    using budget_steps_keep [OF assms(3)] by (auto simp: budget_grows_def take_warning_def)
qed

text \<open>Restoring: what a successful adoption leaves behind is what the owner check looks for.\<close>

definition receipts_tokens :: "receipt list \<Rightarrow> int" where
  "receipts_tokens rs =
     sum_list (map (\<lambda>r. case rc_usage r of None \<Rightarrow> 0 | Some u \<Rightarrow> usage_total u) rs)"

lemma adopt_receipt_restored:
  assumes "budget_inv b" and "adopt_receipt i r b = (b', Inr ())"
    and "rc_delivery_attempt_id r \<notin> fst ` set (receipt_charges b)"
  shows "check_restored b' r = Inr ()
         \<and> spent_tokens b' = spent_tokens b + receipts_tokens [r]
         \<and> fst ` set (receipt_charges b') \<subseteq> insert (rc_delivery_attempt_id r) (fst ` set (receipt_charges b))"
proof (cases "rc_usage r")
  case None
  with assms(2) show ?thesis
    by (auto simp: adopt_receipt_def check_restored_def receipts_tokens_def
        register_unresolved_delivery_def Let_def split: if_splits)
next
  case (Some u)
  with assms(2) obtain x where call:
    "charge_receipt i (rc_delivery_attempt_id r) u (rc_cost_usd r) b = (b', Inr x)"
    by (auto simp: adopt_receipt_def split: prod.splits sum.splits)
  from assms(1) call show ?thesis
  proof (cases rule: charge_receipt_cases)
    case repeated
    with assms(3) show ?thesis by (force dest: map_of_SomeD)
  next
    case charged
    with Some show ?thesis by (auto simp: check_restored_def receipts_tokens_def)
  qed auto
qed

lemma check_restored_grows:
  assumes "check_restored b r = Inr ()" and "budget_grows b b'" and "budget_inv b'"
  shows "check_restored b' r = Inr ()"
proof (cases "rc_usage r")
  case None
  with assms(1,2) show ?thesis
    by (auto simp: check_restored_def budget_grows_def split: if_splits)
next
  case (Some u)
  let ?did = "rc_delivery_attempt_id r"
  from Some assms(1) have "dict_get (receipt_charges b) ?did = Some (u, rc_cost_usd r)"
    by (auto simp: check_restored_def split: if_splits)
  with assms(2) have "dict_get (receipt_charges b') ?did = Some (u, rc_cost_usd r)"
    by (auto simp: budget_grows_def map_le_def dom_def)
  moreover from this assms(3) have "?did \<in> charged_delivery_ids b'"
    by (auto simp: budget_inv_def dest: map_of_SomeD intro: rev_image_eqI)
  ultimately show ?thesis using Some by (simp add: check_restored_def)
qed

lemma disjoint_after:
  "A \<subseteq> insert x B \<Longrightarrow> x \<notin> C \<Longrightarrow> B \<inter> insert x C = {} \<Longrightarrow> A \<inter> C = {}"
  by blast

lemma adopt_receipts_restored:
  assumes "budget_inv b" and "adopt_receipts i rs b = (b', Inr ())"
    and "distinct (map rc_delivery_attempt_id rs)"
    and "fst ` set (receipt_charges b) \<inter> rc_delivery_attempt_id ` set rs = {}"
  shows "(\<forall>r \<in> set rs. check_restored b' r = Inr ())
         \<and> spent_tokens b' = spent_tokens b + receipts_tokens rs"
  using assms
proof (induction rs arbitrary: b)
  case Nil
  then show ?case by (simp add: receipts_tokens_def)
next
  case (Cons r rs)
  obtain b1 x where step: "adopt_receipt i r b = (b1, x)" by (cases "adopt_receipt i r b")
  with Cons.prems(2) have rest: "adopt_receipts i rs b1 = (b', Inr ())" and x: "x = Inr ()"
    by (auto split: sum.splits)
  from step adopt_receipt_keeps [OF Cons.prems(1), of i r] have inv1: "budget_inv b1" by simp
  from Cons.prems(4) have fresh: "rc_delivery_attempt_id r \<notin> fst ` set (receipt_charges b)" by auto
  note one = adopt_receipt_restored [OF Cons.prems(1) step [unfolded x] fresh]
  have "fst ` set (receipt_charges b1) \<inter> rc_delivery_attempt_id ` set rs = {}"
  proof (rule disjoint_after)
    show "fst ` set (receipt_charges b1)
        \<subseteq> insert (rc_delivery_attempt_id r) (fst ` set (receipt_charges b))"
      using one [THEN conjunct2, THEN conjunct2] .
    show "rc_delivery_attempt_id r \<notin> rc_delivery_attempt_id ` set rs"
      using Cons.prems(3) by simp
    show "fst ` set (receipt_charges b) \<inter> insert (rc_delivery_attempt_id r)
        (rc_delivery_attempt_id ` set rs) = {}"
      using Cons.prems(4) by simp
  qed
  from Cons.IH [OF inv1 rest _ this] Cons.prems(3)
  have tail: "\<forall>r \<in> set rs. check_restored b' r = Inr ()"
    "spent_tokens b' = spent_tokens b1 + receipts_tokens rs" by simp_all
  from adopt_receipts_keeps [OF inv1, of i rs] rest
  have "budget_inv b'" "budget_grows b1 b'" by simp_all
  with one have "check_restored b' r = Inr ()" by (auto intro: check_restored_grows)
  with one tail show ?case by (auto simp: receipts_tokens_def)
qed

lemma map_result_reencode:
  "map_result (\<lambda>r. bind_result (receipt_to_dict sha r) (receipt_from_dict sha)) rs = Inr owned
   \<Longrightarrow> owned = rs"
  by (induction rs arbitrary: owned)
    (auto simp: bind_result_Inr_iff dest: receipt_decode_encode)

lemma map_result_unit:
  "\<forall>x \<in> set xs. f x = Inr () \<Longrightarrow> \<exists>us. map_result f xs = Inr us"
  by (induction xs) auto

text \<open>
  Restoring persisted receipts into a fresh budget brings the token counter to their sum,
  and restoring the same receipts again, as every further agent of the tree does, finds the
  owner budget complete and changes nothing.
\<close>

lemma restore_receipts_idempotent:
  assumes "budget_inv b" and "restore_receipts sha i owner rs b = (b', Inr FreshAdopted)"
  shows "spent_tokens b' = receipts_tokens rs \<and> budget_owner_id b' = Some owner
         \<and> restore_receipts sha j owner rs b' = (b', Inr SameOwner)"
proof -
  let ?reenc = "map_result (\<lambda>r. bind_result (receipt_to_dict sha r) (receipt_from_dict sha)) rs"
  from assms(2) obtain owned where own: "?reenc = Inr owned" and nb: "\<not> blank owner"
    and dis: "distinct (map rc_delivery_attempt_id owned)" and fresh: "is_fresh b"
    and adopt: "adopt_receipts i owned (adopt_owner owner b) = (b', Inr ())"
    by (auto simp: restore_receipts_def split: sum.splits if_splits prod.splits)
  from own have rs: "owned = rs" by (rule map_result_reencode)
  let ?b1 = "adopt_owner owner b"
  from adopt_owner_keeps [OF assms(1) fresh, of owner] have inv1: "budget_inv ?b1" by simp
  from adopt_receipts_keeps [OF inv1, of i rs] adopt rs
  have inv: "budget_inv b'" and grows: "budget_grows ?b1 b'" by simp_all
  from fresh have empty: "receipt_charges ?b1 = []" "spent_tokens ?b1 = 0"
    by (simp_all add: adopt_owner_def is_fresh_def)
  with adopt_receipts_restored [OF inv1 adopt dis] rs
  have fin: "\<forall>r \<in> set rs. check_restored b' r = Inr ()" "spent_tokens b' = receipts_tokens rs"
    by simp_all
  from grows have owner: "budget_owner_id b' = Some owner"
    by (simp add: budget_grows_def adopt_owner_def)
  with receipt_owner_counters [OF inv, of i] have cnt: "check_receipt_counters b' = Inr ()"
    by (simp add: receipt_owner_def)
  from owner have nf: "\<not> is_fresh b'" by (simp add: is_fresh_def)
  from map_result_unit [OF fin(1)] obtain us where us: "map_result (check_restored b') rs = Inr us"
    by blast
  show ?thesis
    unfolding restore_receipts_def own rs
    using owner nf nb dis cnt us fin(2) rs by simp
qed

section \<open>A concrete budget\<close>

definition usage_example :: usage where
  "usage_example = \<lparr>input_tokens = 60, output_tokens = 40, cache_read_tokens = 0,
                    cache_creation_tokens = 0\<rparr>"

definition budget_example :: budget where
  "budget_example = new_budget (Some 100) None (Fin (1 / 2))"

definition budget_charged :: budget where
  "budget_charged =
     fst (charge_receipt ''owner'' ''d1'' usage_example (Some (Fin 1)) budget_example)"

lemmas budget_example_simps =
  budget_example_def new_budget_def usage_example_def charge_receipt_def charge_def Let_def
  blank_iff is_space_def copy_usage_def usage_ok_def checked_cost_def cost_field_def
  json_opt_float_def finite_nonneg_def check_receipt_counters_def receipt_owner_def pf_eq_def
  cost_or_zero_def usage_total_def round_double_numeral

lemma budget_example_charge:
  "charge_receipt ''owner'' ''d1'' usage_example (Some (Fin 1)) budget_example
   = (budget_charged, Inr True)"
  by (simp add: budget_charged_def budget_example_simps)

lemma budget_example_inv: "budget_inv budget_example"
  by (simp add: budget_example_def new_budget_inv)

lemma budget_charged_inv: "budget_inv budget_charged"
  unfolding budget_charged_def by (rule charge_receipt_inv [OF budget_example_inv])

theorem receipt_charged_once_witness:
  "charge_receipt ''x'' ''d1'' usage_example None budget_charged = (budget_charged, Inl ConfigError)"
  using receipt_charged_once [OF budget_example_inv budget_example_charge, of budget_charged
      usage_example None "''x''"]
  by (simp add: usage_ok_def usage_example_def valid_cost_def)

end
