(* ===== verification/Shell_Syntax.thy ===== *)
theory Shell_Syntax
  imports Prelude
begin

text \<open>
  The shell scanners of \<^verbatim>\<open>src/linch/permissions/rules.py\<close> and
  \<^verbatim>\<open>src/linch/skills/shell_split.py\<close>: splitting a command into words, into the simple commands
  of a composite one, and the test for constructs the permission rules do not look into. The
  index loops of the code become recursions over the rest of the string, with the local
  variables as arguments.
\<close>

section \<open>Words\<close>

abbreviation single_quote :: char where "single_quote \<equiv> CHR 0x27"
abbreviation double_quote :: char where "double_quote \<equiv> CHR 0x22"
abbreviation backslash :: char where "backslash \<equiv> CHR 0x5C"
abbreviation backtick :: char where "backtick \<equiv> CHR 0x60"

fun tokenize_go :: "string list \<Rightarrow> string \<Rightarrow> char option \<Rightarrow> bool \<Rightarrow> string \<Rightarrow> string list" where
  "tokenize_go tokens current quote in_token [] =
     (if in_token then tokens @ [current] else tokens)"
| "tokenize_go tokens current quote in_token (c # cs) =
     (if quote = Some single_quote then
        if c = single_quote then tokenize_go tokens current None in_token cs
        else tokenize_go tokens (current @ [c]) quote in_token cs
      else if quote = Some double_quote then
        if c = double_quote then tokenize_go tokens current None in_token cs
        else if c = backslash then
          (case cs of
             d # ds \<Rightarrow> tokenize_go tokens (current @ [d]) quote in_token ds
           | [] \<Rightarrow> tokenize_go tokens (current @ [c]) quote in_token cs)
        else tokenize_go tokens (current @ [c]) quote in_token cs
      else if is_space c then
        if in_token then tokenize_go (tokens @ [current]) [] quote False cs
        else tokenize_go tokens current quote in_token cs
      else if c = single_quote \<or> c = double_quote then
        tokenize_go tokens current (Some c) True cs
      else if c = backslash then
        (case cs of
           d # ds \<Rightarrow> tokenize_go tokens (current @ [d]) quote True ds
         | [] \<Rightarrow> tokenize_go tokens (current @ [c]) quote True cs)
      else tokenize_go tokens (current @ [c]) quote True cs)"

definition tokenize_shell_prefix :: "string \<Rightarrow> string list" where
  "tokenize_shell_prefix s = tokenize_go [] [] None False s"

text \<open>
  \<^verbatim>\<open>split_shell_args\<close> is the same loop, except that an unterminated quote ends the last token
  by a test of its own.
\<close>

fun split_args_go :: "string list \<Rightarrow> string \<Rightarrow> char option \<Rightarrow> bool \<Rightarrow> string \<Rightarrow> string list" where
  "split_args_go tokens current quote in_token [] =
     (if quote \<noteq> None then tokens @ [current]
      else if in_token then tokens @ [current] else tokens)"
| "split_args_go tokens current quote in_token (c # cs) =
     (if quote = Some single_quote then
        if c = single_quote then split_args_go tokens current None in_token cs
        else split_args_go tokens (current @ [c]) quote in_token cs
      else if quote = Some double_quote then
        if c = double_quote then split_args_go tokens current None in_token cs
        else if c = backslash then
          (case cs of
             d # ds \<Rightarrow> split_args_go tokens (current @ [d]) quote in_token ds
           | [] \<Rightarrow> split_args_go tokens (current @ [c]) quote in_token cs)
        else split_args_go tokens (current @ [c]) quote in_token cs
      else if is_space c then
        if in_token then split_args_go (tokens @ [current]) [] quote False cs
        else split_args_go tokens current quote in_token cs
      else if c = single_quote \<or> c = double_quote then
        split_args_go tokens current (Some c) True cs
      else if c = backslash then
        (case cs of
           d # ds \<Rightarrow> split_args_go tokens (current @ [d]) quote True ds
         | [] \<Rightarrow> split_args_go tokens (current @ [c]) quote True cs)
      else split_args_go tokens (current @ [c]) quote True cs)"

definition split_shell_args :: "string \<Rightarrow> string list" where
  "split_shell_args s = split_args_go [] [] None False s"

lemma split_args_go_eq:
  "(quote \<noteq> None \<longrightarrow> in_token \<and> quote \<in> {Some single_quote, Some double_quote}) \<Longrightarrow>
     split_args_go tokens current quote in_token s = tokenize_go tokens current quote in_token s"
proof (induction tokens current quote in_token s rule: tokenize_go.induct)
  case (2 tokens current quote in_token c cs)
  note unfold = tokenize_go.simps(2) [of tokens current quote in_token c cs]
    split_args_go.simps(2) [of tokens current quote in_token c cs]
  from "2.prems" consider "quote = Some single_quote" "in_token"
    | "quote = Some double_quote" "in_token" | "quote = None" by blast
  then show ?case
  proof cases
    case 1
    with "2.IH"(1,2) show ?thesis unfolding unfold by simp
  next
    case 2
    with "2.IH"(3-6) show ?thesis unfolding unfold by (simp split: list.split)
  next
    case 3
    with "2.IH"(7-) show ?thesis unfolding unfold by (simp split: list.split)
  qed
qed auto

text \<open>
  The skill argument splitter and the permission tokenizer agree on every input: a token is
  open whenever a quote is, so the extra test at the end of the first never matters.
\<close>

lemma split_shell_args_eq_tokenize: "split_shell_args s = tokenize_shell_prefix s"
  by (simp add: split_shell_args_def tokenize_shell_prefix_def split_args_go_eq)

text \<open>Quoting a word so that the tokenizer reads it back.\<close>

definition shell_quote :: "string \<Rightarrow> string" where
  "shell_quote w = double_quote
     # concat (map (\<lambda>c. if c = double_quote \<or> c = backslash then [backslash, c] else [c]) w)
     @ [double_quote]"

lemma tokenize_quoted_body:
  "tokenize_go tokens current (Some double_quote) True
     (concat (map (\<lambda>c. if c = double_quote \<or> c = backslash then [backslash, c] else [c]) w)
      @ double_quote # rest)
   = tokenize_go tokens (current @ w) None True rest"
  by (induction w arbitrary: current) auto

lemma tokenize_quoted:
  "tokenize_go tokens current None False (shell_quote w @ rest)
   = tokenize_go tokens (current @ w) None True rest"
  using tokenize_quoted_body [of tokens current w rest]
  by (simp add: shell_quote_def is_space_def)

fun join_words :: "string list \<Rightarrow> string" where
  "join_words [] = []"
| "join_words [w] = shell_quote w"
| "join_words (w # ws) = shell_quote w @ CHR '' '' # join_words ws"

lemma tokenize_join_words:
  "tokenize_go tokens [] None False (join_words ws) = tokens @ ws"
proof (induction ws arbitrary: tokens rule: join_words.induct)
  case (2 w)
  from tokenize_quoted [of tokens "[]" w "[]"] show ?case by simp
next
  case (3 w v ws)
  from tokenize_quoted [of tokens "[]" w "CHR '' '' # join_words (v # ws)"] 3 show ?case
    by (simp add: is_space_def)
qed simp

text \<open>
  Tokenizing a command line built from quoted words yields exactly those words, whatever
  spaces, quotes, backslashes or other characters they contain.
\<close>

lemma tokenize_quoted_words: "tokenize_shell_prefix (join_words ws) = ws"
  by (simp add: tokenize_shell_prefix_def tokenize_join_words)

section \<open>Composite commands\<close>

fun composite_operator_length :: "string \<Rightarrow> nat" where
  "composite_operator_length [] = 0"
| "composite_operator_length (c # cs) =
     (if (c = CHR ''&'' \<and> take 1 cs = ''&'') \<or> (c = CHR ''|'' \<and> take 1 cs = ''|'') then 2
      else if c = CHR '';'' \<or> c = CHR ''|'' then 1
      else 0)"

declare composite_operator_length.simps(2) [simp del]

text \<open>\<open>current\<close> is the slice from \<^verbatim>\<open>start\<close> to the scanning position.\<close>

function (sequential) split_go :: "char option \<Rightarrow> bool \<Rightarrow> string \<Rightarrow> string \<Rightarrow> string list" where
  "split_go quote escaped current [] = [current]"
| "split_go quote escaped current (c # cs) =
     (if escaped then split_go quote False (current @ [c]) cs
      else if quote \<noteq> Some single_quote \<and> c = backslash then split_go quote True (current @ [c]) cs
      else if quote \<noteq> None then
        split_go (if Some c = quote then None else quote) False (current @ [c]) cs
      else if c = single_quote \<or> c = double_quote then split_go (Some c) False (current @ [c]) cs
      else let n = composite_operator_length (c # cs) in
        if 0 < n then current # split_go quote False [] (drop n (c # cs))
        else split_go quote False (current @ [c]) cs)"
  by pat_completeness auto
termination by (relation "measure (\<lambda>(_, _, _, s). length s)") auto

definition split_composite_command :: "string \<Rightarrow> string list" where
  "split_composite_command s = split_go None False [] s"

text \<open>
  The quoting state the scanners keep at a position of a command: the open quote, and whether
  the character there is escaped. A shell knows more, such as comments and \<^verbatim>\<open>$'...'\<close>.
\<close>

type_synonym scan_state = "char option \<times> bool"

fun scan_step :: "scan_state \<Rightarrow> char \<Rightarrow> scan_state" where
  "scan_step (quote, True) c = (quote, False)"
| "scan_step (quote, False) c =
     (if quote \<noteq> Some single_quote \<and> c = backslash then (quote, True)
      else case quote of
          None \<Rightarrow> if c = single_quote \<or> c = double_quote then (Some c, False) else (None, False)
        | Some k \<Rightarrow> if c = k then (None, False) else (quote, False))"

abbreviation state_after :: "scan_state \<Rightarrow> string \<Rightarrow> scan_state" where
  "state_after \<equiv> foldl scan_step"

text \<open>No control operator at a position outside quotes, as the scanners see them.\<close>

definition no_open_operator :: "scan_state \<Rightarrow> string \<Rightarrow> bool" where
  "no_open_operator st s \<longleftrightarrow>
     (\<forall>u v. s = u @ v \<and> state_after st u = (None, False) \<longrightarrow> composite_operator_length v = 0)"

definition control_operators :: "string set" where
  "control_operators = {''&&'', ''||'', '';'', ''|''}"

fun interleave :: "string list \<Rightarrow> string list \<Rightarrow> string" where
  "interleave [] ops = []"
| "interleave (s # ss) [] = s @ concat ss"
| "interleave (s # ss) (op # ops) = s @ op @ interleave ss ops"

lemma composite_operator_length_pos:
  "0 < composite_operator_length s \<Longrightarrow> take (composite_operator_length s) s \<in> control_operators"
  by (cases s; cases "tl s") (auto simp: control_operators_def composite_operator_length.simps split: if_splits)

lemma no_open_operator_Nil [simp]: "no_open_operator st []"
  by (simp add: no_open_operator_def)

lemma split_go_interleave:
  "\<exists>ops. interleave (split_go q e cur s) ops = cur @ s \<and> set ops \<subseteq> control_operators
         \<and> length (split_go q e cur s) = Suc (length ops)"
proof (induction q e cur s rule: split_go.induct)
  case (1 q e cur)
  show ?case by (rule exI [of _ "[]"]) simp
next
  case (2 q e cur c cs)
  let ?n = "composite_operator_length (c # cs)"
  show ?case
  proof (cases "\<not> e \<and> \<not> (q \<noteq> Some single_quote \<and> c = backslash) \<and> q = None
      \<and> \<not> (c = single_quote \<or> c = double_quote) \<and> 0 < ?n")
    case True
    with 2(5) obtain ops where ops: "interleave (split_go q False [] (drop ?n (c # cs))) ops = drop ?n (c # cs)"
      "set ops \<subseteq> control_operators"
      "length (split_go q False [] (drop ?n (c # cs))) = Suc (length ops)" by fastforce
    from True have step: "split_go q e cur (c # cs) = cur # split_go q False [] (drop ?n (c # cs))"
      by (auto simp: Let_def)
    show ?thesis
      unfolding step
      by (rule exI [of _ "take ?n (c # cs) # ops"])
        (use ops True composite_operator_length_pos [of "c # cs"] in
          \<open>simp\<close>)
  next
    case False
    with 2 show ?thesis
      by (auto simp: Let_def)
  qed
qed

lemma composite_operator_length_append:
  "composite_operator_length (v @ s) = 0 \<Longrightarrow> composite_operator_length v = 0"
  by (cases v; cases "tl v") (auto simp: composite_operator_length.simps split: if_splits)

text \<open>The part scanned so far holds no operator, whatever follows it.\<close>

definition scanned_ok :: "string \<Rightarrow> string \<Rightarrow> bool" where
  "scanned_ok cur s \<longleftrightarrow>
     (\<forall>u v. cur = u @ v \<and> v \<noteq> [] \<and> state_after (None, False) u = (None, False)
       \<longrightarrow> composite_operator_length (v @ s) = 0)"

lemma scanned_ok_segment: "scanned_ok cur s \<Longrightarrow> no_open_operator (None, False) cur"
  unfolding scanned_ok_def no_open_operator_def
  by (metis composite_operator_length.simps(1) composite_operator_length_append)

lemma scanned_ok_step:
  assumes "scanned_ok cur (c # cs)"
    and "state_after (None, False) cur = (None, False) \<longrightarrow> composite_operator_length (c # cs) = 0"
  shows "scanned_ok (cur @ [c]) cs"
  unfolding scanned_ok_def
proof (intro allI impI, elim conjE)
  fix u v
  assume uv: "cur @ [c] = u @ v" "v \<noteq> []" and st: "state_after (None, False) u = (None, False)"
  then obtain v' where v: "v = v' @ [c]" "cur = u @ v'" by (cases v rule: rev_cases) auto
  show "composite_operator_length (v @ cs) = 0"
  proof (cases "v' = []")
    case True
    with v st assms(2) show ?thesis by simp
  next
    case False
    with v st assms(1) show ?thesis by (simp add: scanned_ok_def)
  qed
qed

lemma composite_operator_length_quote:
  "c = backslash \<or> c = single_quote \<or> c = double_quote \<Longrightarrow> composite_operator_length (c # cs) = 0"
  by (auto simp: composite_operator_length.simps)

lemma split_go_Cons:
  "split_go q e cur (c # cs) =
     (if (q, e) = (None, False) \<and> 0 < composite_operator_length (c # cs)
      then cur # split_go None False [] (drop (composite_operator_length (c # cs)) (c # cs))
      else case scan_step (q, e) c of (q', e') \<Rightarrow> split_go q' e' (cur @ [c]) cs)"
proof (cases e)
  case False
  show ?thesis
  proof (cases q)
    case None
    with False composite_operator_length_quote [of c cs] show ?thesis
      by (auto simp: Let_def)
  qed (use False in auto)
qed simp

lemma split_go_live:
  "state_after (None, False) cur = (q, e) \<Longrightarrow> scanned_ok cur s \<Longrightarrow>
     \<forall>seg \<in> set (split_go q e cur s). no_open_operator (None, False) seg"
proof (induction s arbitrary: q e cur rule: length_induct)
  case (1 s)
  show ?case
  proof (cases s)
    case Nil
    with 1 show ?thesis by (simp add: scanned_ok_segment)
  next
    case (Cons c cs)
    let ?n = "composite_operator_length (c # cs)"
    show ?thesis
    proof (cases "(q, e) = (None, False) \<and> 0 < ?n")
      case True
      have "scanned_ok [] (drop ?n (c # cs))" by (simp add: scanned_ok_def)
      moreover have "length (drop ?n (c # cs)) < length s" using True Cons by simp
      ultimately have
        "\<forall>seg \<in> set (split_go None False [] (drop ?n (c # cs))). no_open_operator (None, False) seg"
        using "1.IH" [rule_format, of "drop ?n (c # cs)" "[]" None False] by (simp del: split_go.simps)
      with scanned_ok_segment [OF "1.prems"(2)] True show ?thesis
        unfolding Cons split_go_Cons by (simp del: split_go.simps)
    next
      case False
      obtain q' e' where st: "scan_step (q, e) c = (q', e')" by (cases "scan_step (q, e) c")
      have "scanned_ok (cur @ [c]) cs"
        using False "1.prems" Cons
        by (intro scanned_ok_step) auto
      then have "\<forall>seg \<in> set (split_go q' e' (cur @ [c]) cs). no_open_operator (None, False) seg"
        using "1.IH" [rule_format, of cs "cur @ [c]" q' e'] Cons "1.prems"(1) st by simp
      moreover have "split_go q e cur s = split_go q' e' (cur @ [c]) cs"
        unfolding Cons split_go_Cons using False st by auto
      ultimately show ?thesis by simp
    qed
  qed
qed

text \<open>
  Splitting a composite command loses nothing and hides nothing: the segments joined by
  control operators are the command again, and no segment has a further control operator
  outside quotes, as the scanners see them.
\<close>

lemma split_composite_sound:
  "(\<exists>ops. interleave (split_composite_command s) ops = s \<and> set ops \<subseteq> control_operators
      \<and> length (split_composite_command s) = Suc (length ops))
   \<and> list_all (no_open_operator (None, False)) (split_composite_command s)"
proof
  show "\<exists>ops. interleave (split_composite_command s) ops = s \<and> set ops \<subseteq> control_operators
      \<and> length (split_composite_command s) = Suc (length ops)"
    using split_go_interleave [of None False "[]" s] by (simp add: split_composite_command_def)
  show "list_all (no_open_operator (None, False)) (split_composite_command s)"
    using split_go_live [of "[]" None False s]
    by (simp add: split_composite_command_def list_all_iff scanned_ok_def)
qed

section \<open>Constructs the rules do not parse\<close>

abbreviation line_break :: "char \<Rightarrow> bool" where
  "line_break c \<equiv> c = CHR 0x0D \<or> c = CHR 0x0A"

text \<open>\<open>previous\<close> is the character before the scanning position, if any.\<close>

function (sequential) unparsed_go :: "char option \<Rightarrow> bool \<Rightarrow> char option \<Rightarrow> string \<Rightarrow> bool" where
  "unparsed_go quote escaped previous [] = (escaped \<or> quote \<noteq> None)"
| "unparsed_go quote escaped previous (c # cs) =
     (if escaped then if line_break c then True else unparsed_go quote False (Some c) cs
      else if quote \<noteq> Some single_quote \<and> c = backslash then unparsed_go quote True (Some c) cs
      else if quote = Some single_quote then
        unparsed_go (if c = single_quote then None else quote) False (Some c) cs
      else if quote = Some double_quote then
        if c = double_quote then unparsed_go None False (Some c) cs
        else if c = backtick \<or> take 2 (c # cs) = ''$('' then True
        else unparsed_go quote False (Some c) cs
      else if c = single_quote \<or> c = double_quote then unparsed_go (Some c) False (Some c) cs
      else if line_break c \<or> c = backtick then True
      else if take 2 (c # cs) = ''$('' then True
      else if take 2 (c # cs) \<in> {''<('', ''>(''} then True
      else if c = CHR ''('' \<or> c = CHR '')'' then True
      else if c = CHR ''&'' then
        if take 1 cs = ''>'' \<or> previous \<in> {Some (CHR ''<''), Some (CHR ''>'')}
        then unparsed_go quote False (Some c) cs
        else if take 1 cs = ''&'' then unparsed_go quote False (Some (hd cs)) (tl cs)
        else True
      else unparsed_go quote False (Some c) cs)"
  by pat_completeness auto
termination by (relation "measure (\<lambda>(_, _, _, s). length s)") auto

definition contains_unparsed_shell_construct :: "string \<Rightarrow> bool" where
  "contains_unparsed_shell_construct s = unparsed_go None False None s"

text \<open>
  The scan takes the character before an ampersand for a redirection also where a backslash
  quotes it. In \<open>escaped_redirection\<close> the shell reads a literal \<^verbatim>\<open>>\<close> as an argument of the first
  command, sends that command to the background and runs the second; the scan finds nothing
  unparsed and the splitter a single command.
\<close>

definition escaped_redirection :: string where
  "escaped_redirection = ''echo '' @ [backslash] @ ''>& rm x''"

lemma escaped_redirection_unseen:
  "\<not> contains_unparsed_shell_construct escaped_redirection"
  "split_composite_command escaped_redirection = [escaped_redirection]"
  by (simp_all add: escaped_redirection_def contains_unparsed_shell_construct_def
      split_composite_command_def composite_operator_length.simps)

end
