(* ===== verification/Permission_Rules.thy ===== *)
theory Permission_Rules
  imports Shell_Syntax
begin

text \<open>
  \<^verbatim>\<open>src/linch/permissions/rules.py\<close>: the three kinds of permission rule, their constructors and
  their matchers. \<^verbatim>\<open>fnmatch\<close> and the regular expressions that \<^verbatim>\<open>_glob_to_regex\<close> builds are
  matched by backtracking on their items. Two things are parameters: \<open>resolve\<close>, which is
  \<^verbatim>\<open>str(Path(p).resolve())\<close> and depends on the file system, and \<open>rx\<close>, which compiles a user
  regular expression to its \<^verbatim>\<open>search\<close> or to \<^const>\<open>None\<close> for \<^verbatim>\<open>re.error\<close>.
\<close>

section \<open>Rules\<close>

datatype rule_decision = Allow | Deny | Ask | Passthrough

record tool_rule =
  tr_tool :: string
  tr_arg :: "string option"
  tr_decision :: rule_decision
  tr_role :: "string option"
  tr_unless_role :: "string option"

record path_rule =
  pr_tools :: "string list option"
  pr_paths :: "string list"
  pr_decision :: rule_decision
  pr_role :: "string option"
  pr_unless_role :: "string option"

text \<open>A pattern is a glob or prefix string, or a dictionary holding a regular expression.\<close>

datatype bash_pattern = PatStr string | PatRegex string

datatype bash_rule_pattern = OnePattern bash_pattern | PatternList "bash_pattern list"

record bash_rule =
  br_pattern :: bash_rule_pattern
  br_decision :: rule_decision
  br_role :: "string option"
  br_unless_role :: "string option"

datatype permission_rule = ToolR tool_rule | PathR path_rule | BashR bash_rule

definition validate_decision :: "string \<Rightarrow> rule_decision result" where
  "validate_decision d =
     (if d = ''allow'' then Inr Allow else if d = ''deny'' then Inr Deny
      else if d = ''ask'' then Inr Ask else if d = ''passthrough'' then Inr Passthrough
      else Inl ValueError)"

definition validate_role :: "json \<Rightarrow> string option result" where
  "validate_role v = (case v of
       JNull \<Rightarrow> Inr None
     | JStr s \<Rightarrow> if blank s then Inl ValueError else Inr (Some s)
     | _ \<Rightarrow> Inl TypeError)"

definition new_tool_rule ::
  "string \<Rightarrow> string \<Rightarrow> string option \<Rightarrow> json \<Rightarrow> json \<Rightarrow> tool_rule result" where
  "new_tool_rule tool decision arg role unless_role =
     bind_result (validate_decision decision) (\<lambda>d.
     bind_result (validate_role role) (\<lambda>r.
     bind_result (validate_role unless_role) (\<lambda>u.
       Inr \<lparr>tr_tool = tool, tr_arg = arg, tr_decision = d, tr_role = r, tr_unless_role = u\<rparr>)))"

definition new_path_rule ::
  "string list \<Rightarrow> string \<Rightarrow> string list option \<Rightarrow> json \<Rightarrow> json \<Rightarrow> path_rule result" where
  "new_path_rule paths decision tools role unless_role =
     bind_result (validate_decision decision) (\<lambda>d.
     bind_result (validate_role role) (\<lambda>r.
     bind_result (validate_role unless_role) (\<lambda>u.
       Inr \<lparr>pr_tools = tools, pr_paths = paths, pr_decision = d, pr_role = r,
            pr_unless_role = u\<rparr>)))"

definition new_bash_rule ::
  "bash_pattern option \<Rightarrow> string \<Rightarrow> bash_pattern list option \<Rightarrow> json \<Rightarrow> json \<Rightarrow> bash_rule result" where
  "new_bash_rule pattern decision patterns role unless_role =
     (if pattern \<noteq> None \<and> patterns \<noteq> None then Inl ValueError
      else bind_result (case patterns of
               Some ps \<Rightarrow> if ps = [] then Inl ValueError else Inr (PatternList ps)
             | None \<Rightarrow> (case pattern of Some p \<Rightarrow> Inr (OnePattern p) | None \<Rightarrow> Inl ValueError)) (\<lambda>resolved.
           bind_result (validate_decision decision) (\<lambda>d.
           bind_result (validate_role role) (\<lambda>r.
           bind_result (validate_role unless_role) (\<lambda>u.
             Inr \<lparr>br_pattern = resolved, br_decision = d, br_role = r, br_unless_role = u\<rparr>)))))"

section \<open>Tool rules\<close>

definition server_char :: "char \<Rightarrow> bool" where
  "server_char c = (let n = of_char c :: nat in
     (97 \<le> n \<and> n \<le> 122) \<or> (65 \<le> n \<and> n \<le> 90) \<or> (48 \<le> n \<and> n \<le> 57) \<or> c = CHR ''_'' \<or> c = CHR ''-'')"

text \<open>The \<^verbatim>\<open>mcp__<server>__*\<close> wildcard that lets one rule cover a server's tools.\<close>

definition mcp_wildcard_match :: "string \<Rightarrow> string \<Rightarrow> bool" where
  "mcp_wildcard_match rule_tool call_name =
     (let prefix = butlast rule_tool;
          server = removesuffix ''__'' (removeprefix ''mcp__'' prefix)
      in \<not> (\<not> startswith ''mcp__'' rule_tool
          \<or> \<not> endswith ''__*'' rule_tool
          \<or> server = []
          \<or> has_substring ''__'' server
          \<or> startswith ''_'' server
          \<or> endswith ''_'' server
          \<or> \<not> list_all server_char server
          \<or> \<not> startswith prefix call_name))"

definition match_tool_rule :: "tool_rule \<Rightarrow> string \<Rightarrow> json_obj \<Rightarrow> bool" where
  "match_tool_rule rule call_name call_input =
     (if tr_tool rule \<noteq> ''*'' \<and> tr_tool rule \<noteq> call_name
         \<and> \<not> mcp_wildcard_match (tr_tool rule) call_name then False
      else case tr_arg rule of
        None \<Rightarrow> True
      | Some arg \<Rightarrow>
          if call_name \<noteq> ''Skill'' then False
          else if arg = ''*'' then True
          else case dict_get call_input ''skill'' of
            Some (JStr skill) \<Rightarrow>
              (if startswith ''/'' skill then drop 1 skill else skill) = arg
          | _ \<Rightarrow> False)"

section \<open>Path rules\<close>

datatype glob_item = GDirs | GDirsRest | GAny | GSegment | GOne | GLit char

text \<open>
  \<^verbatim>\<open>_glob_to_regex\<close>: \<^const>\<open>GDirs\<close> is \<^verbatim>\<open>(?:.*/)?\<close>, \<^const>\<open>GAny\<close> is \<^verbatim>\<open>.*\<close>,
  \<^const>\<open>GSegment\<close> is \<^verbatim>\<open>[^/]*\<close> and \<^const>\<open>GOne\<close> is \<^verbatim>\<open>[^/]\<close>. \<^const>\<open>GDirsRest\<close>, the
  \<^verbatim>\<open>.*/\<close> inside the first, is used by the matcher only.
\<close>

fun glob_to_regex :: "string \<Rightarrow> glob_item list" where
  "glob_to_regex [] = []"
| "glob_to_regex (c # cs) =
     (if c = CHR ''*'' then
        (case cs of
           d # ds \<Rightarrow>
             if d = CHR ''*'' then
               (case ds of
                  e # es \<Rightarrow> if e = CHR ''/'' then GDirs # glob_to_regex es else GAny # glob_to_regex ds
                | [] \<Rightarrow> GAny # glob_to_regex ds)
             else GSegment # glob_to_regex cs
         | [] \<Rightarrow> GSegment # glob_to_regex cs)
      else if c = CHR ''?'' then GOne # glob_to_regex cs
      else GLit c # glob_to_regex cs)"

fun item_weight :: "glob_item \<Rightarrow> nat" where
  "item_weight GDirs = 2"
| "item_weight _ = 1"

text \<open>\<^verbatim>\<open>re.fullmatch\<close>: a dot matches anything but a line feed, a negated class anything else.\<close>

function (sequential) glob_match :: "glob_item list \<Rightarrow> string \<Rightarrow> bool" where
  "glob_match [] s = (s = [])"
| "glob_match (GLit c # ps) (d # cs) = (d = c \<and> glob_match ps cs)"
| "glob_match (GOne # ps) (d # cs) = (d \<noteq> CHR ''/'' \<and> glob_match ps cs)"
| "glob_match (GSegment # ps) s = (glob_match ps s \<or>
     (case s of d # cs \<Rightarrow> d \<noteq> CHR ''/'' \<and> glob_match (GSegment # ps) cs | [] \<Rightarrow> False))"
| "glob_match (GAny # ps) s = (glob_match ps s \<or>
     (case s of d # cs \<Rightarrow> d \<noteq> CHR 0x0A \<and> glob_match (GAny # ps) cs | [] \<Rightarrow> False))"
| "glob_match (GDirs # ps) s = (glob_match ps s \<or> glob_match (GDirsRest # ps) s)"
| "glob_match (GDirsRest # ps) (d # cs) =
     ((d = CHR ''/'' \<and> glob_match ps cs) \<or> (d \<noteq> CHR 0x0A \<and> glob_match (GDirsRest # ps) cs))"
| "glob_match (p # ps) [] = False"
  by pat_completeness auto
termination
  by (relation "measure (\<lambda>(ps, s). sum_list (map item_weight ps) + length s)") auto

definition normalize_for_glob :: "string \<Rightarrow> string" where
  "normalize_for_glob s = map (\<lambda>c. if c = backslash then CHR ''/'' else c) s"

definition path_join :: "string \<Rightarrow> string \<Rightarrow> string" where
  "path_join base p =
     (if startswith ''/'' p \<or> base = [] then p else base @ ''/'' @ p)"

definition matches_path_pattern ::
  "(string \<Rightarrow> string) \<Rightarrow> string \<Rightarrow> string \<Rightarrow> string \<Rightarrow> bool" where
  "matches_path_pattern resolve project_root target pattern =
     (let inverted = startswith ''!'' pattern;
          body = (if inverted then drop 1 pattern else pattern)
      in if body = [] then False
         else let glob = normalize_for_glob (resolve (path_join project_root body));
                  matched = glob_match (glob_to_regex glob) target
              in if inverted then \<not> matched else matched)"

definition string_input :: "json_obj \<Rightarrow> string \<Rightarrow> string option" where
  "string_input inp k = (case dict_get inp k of
       Some (JStr s) \<Rightarrow> if blank s then None else Some s
     | _ \<Rightarrow> None)"

definition lstrip_slash :: "string \<Rightarrow> string" where
  "lstrip_slash s = dropWhile (\<lambda>c. c = CHR ''/'') s"

definition path_input_for_tool :: "string \<Rightarrow> json_obj \<Rightarrow> string \<Rightarrow> string option" where
  "path_input_for_tool tool inp cwd =
     (if tool \<in> {''Read'', ''Write'', ''Edit''} then string_input inp ''file_path''
      else if tool \<in> {''Glob'', ''Grep''} then
        (case string_input inp ''path'' of Some s \<Rightarrow> Some s | None \<Rightarrow> Some cwd)
      else if tool \<in> {''read_file'', ''write_file'', ''edit_file''} then
        map_option lstrip_slash (string_input inp ''path'')
      else if tool = ''ls'' then
        (case string_input inp ''prefix'' of Some s \<Rightarrow> Some (lstrip_slash s) | None \<Rightarrow> Some cwd)
      else None)"

definition path_rule_tools :: "path_rule \<Rightarrow> string list" where
  "path_rule_tools rule = (case pr_tools rule of
       Some (t # ts) \<Rightarrow> t # ts
     | _ \<Rightarrow> [''Write'', ''Edit'', ''write_file'', ''edit_file''])"

definition work_dir :: "string option \<Rightarrow> string \<Rightarrow> string" where
  "work_dir cwd project_root = (case cwd of
       None \<Rightarrow> project_root | Some d \<Rightarrow> if d = [] then project_root else d)"

definition match_path_rule ::
  "(string \<Rightarrow> string) \<Rightarrow> path_rule \<Rightarrow> string \<Rightarrow> json_obj \<Rightarrow> string \<Rightarrow> string option \<Rightarrow> bool" where
  "match_path_rule resolve rule call_name call_input project_root cwd =
     (if call_name \<notin> set (path_rule_tools rule) then False
      else let wd = work_dir cwd project_root
        in case path_input_for_tool call_name call_input wd of
             None \<Rightarrow> False
           | Some raw \<Rightarrow>
               let target = normalize_for_glob (resolve (path_join wd raw));
                   base = resolve project_root
               in list_ex (matches_path_pattern resolve base target) (pr_paths rule))"

section \<open>Bash rules\<close>

text \<open>
  \<^verbatim>\<open>fnmatch\<close> on POSIX. A bracket expression is cut into single characters and ranges; empty
  ranges are dropped before the leading \<^verbatim>\<open>!\<close> is read as negation, as the standard library does.
\<close>

datatype class_item = CSingle char | CRange char char

datatype fn_item = FStar | FAnyChar | FLit char | FClass bool "class_item list"

fun class_items :: "string \<Rightarrow> class_item list" where
  "class_items [] = []"
| "class_items [a] = [CSingle a]"
| "class_items [a, b] = [CSingle a, CSingle b]"
| "class_items (a # b # c # cs) =
     (if b = CHR ''-'' then CRange a c # class_items cs else CSingle a # class_items (b # c # cs))"

fun nonempty_item :: "class_item \<Rightarrow> bool" where
  "nonempty_item (CSingle a) = True"
| "nonempty_item (CRange a b) = ((of_char a :: nat) \<le> of_char b)"

definition class_of :: "string \<Rightarrow> fn_item" where
  "class_of stuff =
     (case stuff of
        c # body \<Rightarrow>
          if c = CHR ''!'' then FClass True (filter nonempty_item (class_items body))
          else let raw = class_items stuff; items = filter nonempty_item raw
            in if nonempty_item (hd raw) then FClass False items
               else (case items of
                   CSingle a # rest \<Rightarrow> if a = CHR ''!'' then FClass True rest else FClass False items
                 | CRange a b # rest \<Rightarrow>
                     if a = CHR ''!'' then FClass True (CSingle (CHR ''-'') # CSingle b # rest)
                     else FClass False items
                 | [] \<Rightarrow> FClass False [])
      | [] \<Rightarrow> FClass False [])"

text \<open>The text between \<^verbatim>\<open>[\<close> and its closing bracket, and what follows it.\<close>

definition class_split :: "string \<Rightarrow> (string \<times> string) option" where
  "class_split r =
     (let bang = (if take 1 r = ''!'' then ''!'' else []);
          r1 = drop (length bang) r;
          lead = (if take 1 r1 = '']'' then '']'' else []);
          r2 = drop (length lead) r1;
          mid = takeWhile (\<lambda>c. c \<noteq> CHR '']'') r2;
          rest = dropWhile (\<lambda>c. c \<noteq> CHR '']'') r2
      in if rest = [] then None else Some (bang @ lead @ mid, drop 1 rest))"

lemma class_split_shorter: "class_split r = Some (stuff, rest) \<Longrightarrow> length rest < length r"
proof -
  assume split: "class_split r = Some (stuff, rest)"
  have le: "length (dropWhile P (drop m (drop n r))) \<le> length r" for P m n
    using length_dropWhile_le [of P "drop m (drop n r)"] by simp
  let ?n = "length (if take 1 r = ''!'' then ''!'' else [])"
  let ?m = "length (if take 1 (drop ?n r) = '']'' then '']'' else [])"
  let ?x = "dropWhile (\<lambda>c. c \<noteq> CHR '']'') (drop ?m (drop ?n r))"
  from split have "?x \<noteq> [] \<and> rest = drop 1 ?x"
    unfolding class_split_def Let_def
    by (metis (no_types, lifting) option.distinct(1) option.inject prod.inject)
  then have "length rest < length ?x" by (cases ?x) auto
  then show "length rest < length r"
    using le [of "\<lambda>c. c \<noteq> CHR '']''" ?m ?n] by (rule less_le_trans)
qed

function (sequential) fnmatch_items :: "string \<Rightarrow> fn_item list" where
  "fnmatch_items [] = []"
| "fnmatch_items (c # cs) =
     (if c = CHR ''*'' then FStar # fnmatch_items cs
      else if c = CHR ''?'' then FAnyChar # fnmatch_items cs
      else if c = CHR ''['' then
        (case class_split cs of
           None \<Rightarrow> FLit c # fnmatch_items cs
         | Some p \<Rightarrow> class_of (fst p) # fnmatch_items (snd p))
      else FLit c # fnmatch_items cs)"
  by pat_completeness auto
termination
  by (relation "measure length") (auto dest: class_split_shorter)

fun in_class :: "class_item \<Rightarrow> char \<Rightarrow> bool" where
  "in_class (CSingle a) c = (c = a)"
| "in_class (CRange a b) c = ((of_char a :: nat) \<le> of_char c \<and> (of_char c :: nat) \<le> of_char b)"

function (sequential) fn_match :: "fn_item list \<Rightarrow> string \<Rightarrow> bool" where
  "fn_match [] s = (s = [])"
| "fn_match (FStar # ps) s = (fn_match ps s \<or>
     (case s of d # cs \<Rightarrow> fn_match (FStar # ps) cs | [] \<Rightarrow> False))"
| "fn_match (FAnyChar # ps) (d # cs) = fn_match ps cs"
| "fn_match (FLit c # ps) (d # cs) = (d = c \<and> fn_match ps cs)"
| "fn_match (FClass neg items # ps) (d # cs) =
     (list_ex (\<lambda>i. in_class i d) items \<noteq> neg \<and> fn_match ps cs)"
| "fn_match (p # ps) [] = False"
  by pat_completeness auto
termination by (relation "measure (\<lambda>(ps, s). length ps + length s)") auto

definition fnmatch :: "string \<Rightarrow> string \<Rightarrow> bool" where
  "fnmatch s pattern = fn_match (fnmatch_items pattern) s"

fun tokens_start_with :: "string list \<Rightarrow> string list \<Rightarrow> bool" where
  "tokens_start_with tokens prefix =
     (if prefix = [] \<or> length tokens < length prefix then False
      else take (length prefix) tokens = prefix)"

definition match_bash_pattern ::
  "(string \<Rightarrow> (string \<Rightarrow> bool) option) \<Rightarrow> string \<Rightarrow> bash_pattern \<Rightarrow> bool" where
  "match_bash_pattern rx segment p = (case p of
       PatStr pattern \<Rightarrow>
         if fnmatch segment pattern then True
         else tokens_start_with (tokenize_shell_prefix segment) (tokenize_shell_prefix pattern)
     | PatRegex r \<Rightarrow> (case rx r of Some search \<Rightarrow> search segment | None \<Rightarrow> False))"

definition match_unparsed_bash_rule ::
  "(string \<Rightarrow> (string \<Rightarrow> bool) option) \<Rightarrow> bash_rule \<Rightarrow> string \<Rightarrow> bool" where
  "match_unparsed_bash_rule rx rule command = (case br_pattern rule of
       PatternList ps \<Rightarrow> list_ex (match_bash_pattern rx command) ps
     | OnePattern p \<Rightarrow> match_bash_pattern rx command p)"

definition match_bash_rule ::
  "(string \<Rightarrow> (string \<Rightarrow> bool) option) \<Rightarrow> bash_rule \<Rightarrow> string \<Rightarrow> bool" where
  "match_bash_rule rx rule command_segment =
     (let segment = strip command_segment in case br_pattern rule of
       PatternList ps \<Rightarrow> list_ex (match_bash_pattern rx segment) ps
     | OnePattern p \<Rightarrow> match_bash_pattern rx segment p)"

fun first_matching_bash_decision ::
  "(string \<Rightarrow> (string \<Rightarrow> bool) option) \<Rightarrow> bash_rule list \<Rightarrow> string \<Rightarrow> rule_decision option" where
  "first_matching_bash_decision rx [] segment = None"
| "first_matching_bash_decision rx (rule # rules) segment =
     (if match_bash_rule rx rule segment then
        if br_decision rule = Passthrough then first_matching_bash_decision rx rules segment
        else Some (br_decision rule)
      else first_matching_bash_decision rx rules segment)"

text \<open>The loop over the simple commands, with its two flags.\<close>

fun bash_segments_decision ::
  "(string \<Rightarrow> rule_decision option) \<Rightarrow> bool \<Rightarrow> bool \<Rightarrow> string list \<Rightarrow> rule_decision option" where
  "bash_segments_decision decide all_allowed saw_ask [] =
     (if saw_ask then Some Ask else if all_allowed then Some Allow else None)"
| "bash_segments_decision decide all_allowed saw_ask (seg # segs) =
     (let d = decide seg in
      if d = Some Deny then Some Deny
      else bash_segments_decision decide (all_allowed \<and> d = Some Allow) (saw_ask \<or> d = Some Ask) segs)"

definition evaluate_bash_rules ::
  "(string \<Rightarrow> (string \<Rightarrow> bool) option) \<Rightarrow> bash_rule list \<Rightarrow> string \<Rightarrow> rule_decision option" where
  "evaluate_bash_rules rx rules command =
     (if contains_unparsed_shell_construct command then
        (let stripped = strip command in
         if list_ex (\<lambda>r. br_decision r = Deny \<and> match_unparsed_bash_rule rx r stripped) rules
         then Some Deny
         else if list_ex (\<lambda>r. br_decision r \<in> {Allow, Ask, Deny}) rules then Some Ask
         else None)
      else
        (let segments = filter (\<lambda>s. \<not> blank s) (split_composite_command command) in
         if segments = [] then None
         else bash_segments_decision (first_matching_bash_decision rx rules) True False segments))"

section \<open>What a Bash decision means\<close>

lemma first_matching_bash_decision_not_passthrough:
  "first_matching_bash_decision rx rules seg \<noteq> Some Passthrough"
  by (induction rules) auto

lemma bash_segments_decision_Deny:
  "bash_segments_decision decide al ask segs = Some Deny \<longleftrightarrow> (\<exists>s \<in> set segs. decide s = Some Deny)"
  by (induction segs arbitrary: al ask) (auto simp: Let_def)

lemma bash_segments_decision_Allow:
  "bash_segments_decision decide al ask segs = Some Allow \<longleftrightarrow>
     al \<and> \<not> ask \<and> (\<forall>s \<in> set segs. decide s = Some Allow)"
  by (induction segs arbitrary: al ask) (auto simp: Let_def)

lemma bash_segments_decision_not_passthrough:
  "bash_segments_decision decide al ask segs \<noteq> Some Passthrough"
  by (induction segs arbitrary: al ask) (auto simp: Let_def)

lemma evaluate_bash_rules_not_passthrough:
  "evaluate_bash_rules rx rules command \<noteq> Some Passthrough"
  by (simp add: evaluate_bash_rules_def Let_def bash_segments_decision_not_passthrough)

text \<open>
  C17: Bash rules allow a command exactly when it is fully parsed, has a simple command, and
  the first rule with an opinion on each of its simple commands allows that one. They deny it
  exactly when such a rule denies one of them or, for a command that is not parsed, when a deny
  rule matches its text.
\<close>

theorem bash_decision_iff:
  "((evaluate_bash_rules rx rules command = Some Allow) =
     (\<not> contains_unparsed_shell_construct command
      \<and> (\<exists>seg. seg \<in> set (split_composite_command command) \<and> \<not> blank seg)
      \<and> list_all (\<lambda>seg. blank seg \<or> first_matching_bash_decision rx rules seg = Some Allow)
          (split_composite_command command)))
   \<and> ((evaluate_bash_rules rx rules command = Some Deny) =
     (if contains_unparsed_shell_construct command
      then list_ex (\<lambda>r. br_decision r = Deny \<and> match_unparsed_bash_rule rx r (strip command)) rules
      else list_ex (\<lambda>seg. \<not> blank seg \<and> first_matching_bash_decision rx rules seg = Some Deny)
             (split_composite_command command)))"
  by (intro conjI)
    (auto simp: evaluate_bash_rules_def Let_def bash_segments_decision_Allow
      bash_segments_decision_Deny list_all_iff list_ex_iff filter_empty_conv)

section \<open>MCP wildcards\<close>

lemma endswith_iff: "endswith p s \<longleftrightarrow> (\<exists>t. s = t @ p)"
  by (auto simp: endswith_def startswith_iff rev_eq_append_conv) (metis rev_append rev_rev_ident)

lemma startswith_append: "startswith p (p @ v)"
  by (auto simp: startswith_iff)

lemma has_substring_append: "has_substring p (p @ v)"
  using startswith_append [of p v] by (cases "p @ v") auto

lemma has_substring_append2: "has_substring p v \<Longrightarrow> has_substring p (u @ v)"
  by (induction u) auto

text \<open>A server name as the wildcard test accepts it.\<close>

definition server_name :: "string \<Rightarrow> bool" where
  "server_name s \<longleftrightarrow> s \<noteq> [] \<and> \<not> has_substring ''__'' s \<and> \<not> startswith ''_'' s \<and> \<not> endswith ''_'' s
     \<and> list_all server_char s"

lemma mcp_wildcard_matchD:
  assumes "mcp_wildcard_match rule_tool call_name"
  shows "\<exists>server tool. rule_tool = ''mcp__'' @ server @ ''__*'' \<and> server_name server
           \<and> call_name = ''mcp__'' @ server @ ''__'' @ tool"
proof -
  let ?p = "butlast rule_tool"
  let ?s = "removesuffix ''__'' (removeprefix ''mcp__'' ?p)"
  from assms have pre: "startswith ''mcp__'' rule_tool" and suf: "endswith ''__*'' rule_tool"
    and srv: "server_name ?s" and call: "startswith ?p call_name"
    by (auto simp: mcp_wildcard_match_def Let_def server_name_def)
  from suf obtain t where t: "rule_tool = t @ ''__*''" by (auto simp: endswith_iff)
  then have p: "?p = t @ ''__''" by (simp add: butlast_append)
  from pre obtain x where x: "rule_tool = ''mcp__'' @ x" by (auto simp: startswith_iff)
  have "x \<noteq> []"
  proof
    assume "x = []"
    with x t have "last (t @ ''__*'') = last ''mcp__''" by simp
    then show False by simp
  qed
  then have "butlast (''mcp__'' @ x) = ''mcp__'' @ butlast x" by (simp add: butlast_append)
  with x p have "t @ ''__'' = ''mcp__'' @ butlast x" by metis
  then obtain r where r: "t @ ''__'' = ''mcp__'' @ r" by blast
  have s: "?s = removesuffix ''__'' r"
    using p r by (simp add: removeprefix_def)
  from r consider (long) u where "t = ''mcp__'' @ u" "r = u @ ''__''"
    | (short) u where "t @ u = ''mcp__''" "''__'' = u @ r"
    using append_eq_append_conv2 [of t "''__''" "''mcp__''" r] by blast
  then have "\<exists>u. t = ''mcp__'' @ u \<and> ?s = u"
  proof cases
    case (long u)
    then show ?thesis unfolding s by (auto simp: removesuffix_def endswith_iff)
  next
    case (short u)
    have parts: "r = ''__'' \<and> u = [] \<or> r = ''_'' \<or> r = []"
      using short(2) by (cases u; cases "tl u") auto
    have "removesuffix ''__'' ''__'' = []" "removesuffix ''__'' ''_'' = ''_''"
      "removesuffix ''__'' [] = []"
      by (simp_all add: removesuffix_def endswith_def)
    moreover have "\<not> server_name []" "\<not> server_name ''_''"
      by (simp_all add: server_name_def)
    ultimately have "r = ''__''" "u = []" "?s = []" using srv parts s by auto
    with short(1) show ?thesis by simp
  qed
  then obtain u where u: "t = ''mcp__'' @ u" "?s = u" by blast
  with p call obtain tool where "call_name = (''mcp__'' @ u @ ''__'') @ tool"
    by (auto simp: startswith_iff)
  with u t srv show ?thesis by (intro exI [of _ u] exI [of _ tool]) simp
qed

lemma server_name_prefix:
  assumes "server_name s1" and "server_name s2" and "s1 @ ''__'' @ t1 = s2 @ ''__'' @ t2"
    and "length s1 \<le> length s2"
  shows "s1 = s2"
proof (rule ccontr)
  assume "s1 \<noteq> s2"
  from assms(3,4) obtain w where w: "s2 = s1 @ w" "''__'' @ t1 = w @ ''__'' @ t2"
    by (auto simp: append_eq_append_conv2)
  with \<open>s1 \<noteq> s2\<close> consider "w = ''_''" | v where "w = ''__'' @ v"
    by (cases w; cases "tl w") auto
  then show False
  proof cases
    case 1
    with assms(2) w show False by (simp add: server_name_def endswith_iff)
  next
    case 2
    have "has_substring ''__'' s2"
      unfolding w(1) 2 by (intro has_substring_append2 has_substring_append)
    with assms(2) show False unfolding server_name_def by blast
  qed
qed

text \<open>
  A server wildcard reaches the tools of one MCP server only: it matches names of the form
  \<^verbatim>\<open>mcp__server__tool\<close> for its own server, and two different wildcards never match one name.
\<close>

lemma mcp_wildcard_one_server:
  assumes "mcp_wildcard_match r1 call_name" and "mcp_wildcard_match r2 call_name"
  shows "r1 = r2 \<and> (\<exists>server tool. r1 = ''mcp__'' @ server @ ''__*'' \<and> server_name server
                       \<and> call_name = ''mcp__'' @ server @ ''__'' @ tool)"
proof -
  from mcp_wildcard_matchD [OF assms(1)] obtain s1 t1 where
    1: "r1 = ''mcp__'' @ s1 @ ''__*''" "server_name s1" "call_name = ''mcp__'' @ s1 @ ''__'' @ t1"
    by blast
  from mcp_wildcard_matchD [OF assms(2)] obtain s2 t2 where
    2: "r2 = ''mcp__'' @ s2 @ ''__*''" "server_name s2" "call_name = ''mcp__'' @ s2 @ ''__'' @ t2"
    by blast
  from 1(3) 2(3) have eq: "s1 @ ''__'' @ t1 = s2 @ ''__'' @ t2" by simp
  have "s1 = s2"
  proof (cases "length s1 \<le> length s2")
    case True
    with server_name_prefix [OF 1(2) 2(2) eq] show ?thesis by simp
  next
    case False
    with server_name_prefix [OF 2(2) 1(2) eq [symmetric]] show ?thesis by simp
  qed
  with 1 2 show ?thesis by blast
qed

section \<open>Path globs\<close>

abbreviation slashes :: "string \<Rightarrow> nat" where
  "slashes s \<equiv> length (filter (\<lambda>c. c = CHR ''/'') s)"

lemma glob_match_GSegment:
  "glob_match (GSegment # ps) s \<Longrightarrow> \<exists>u v. s = u @ v \<and> slashes u = 0 \<and> glob_match ps v"
proof (induction s)
  case Nil
  then show ?case by simp
next
  case (Cons d cs)
  show ?case
  proof (cases "glob_match ps (d # cs)")
    case True
    then show ?thesis by (intro exI [of _ "[]"] exI [of _ "d # cs"]) simp
  next
    case False
    with Cons obtain u v where "d \<noteq> CHR ''/''" "cs = u @ v" "slashes u = 0" "glob_match ps v" by auto
    then show ?thesis by (intro exI [of _ "d # u"] exI [of _ v]) simp
  qed
qed

lemma glob_match_literal_Cons:
  "glob_match (GLit c # ps) s \<longleftrightarrow> (\<exists>cs. s = c # cs \<and> glob_match ps cs)"
  "glob_match (GOne # ps) s \<longleftrightarrow> (\<exists>d cs. s = d # cs \<and> d \<noteq> CHR ''/'' \<and> glob_match ps cs)"
  by (cases s; auto)+

lemma glob_match_slashes:
  "\<not> has_substring ''**'' p \<Longrightarrow> glob_match (glob_to_regex p) t \<Longrightarrow> slashes t = slashes p"
proof (induction p arbitrary: t)
  case Nil
  then show ?case by simp
next
  case (Cons c cs)
  from Cons.prems(1) have rest: "\<not> has_substring ''**'' cs" by simp
  show ?case
  proof (cases "c = CHR ''*''")
    case True
    with Cons.prems(1) have "glob_to_regex (c # cs) = GSegment # glob_to_regex cs"
      by (cases cs) auto
    with Cons.prems(2) obtain u v where "t = u @ v" "slashes u = 0" "glob_match (glob_to_regex cs) v"
      by (metis glob_match_GSegment)
    with Cons.IH [OF rest] True show ?thesis by simp
  next
    case False
    with Cons.prems(2) Cons.IH [OF rest] show ?thesis
      by (auto simp: glob_match_literal_Cons split: if_splits)
  qed
qed

lemma glob_match_literal:
  "CHR ''*'' \<notin> set p \<Longrightarrow> CHR ''?'' \<notin> set p \<Longrightarrow> glob_match (glob_to_regex p) t \<longleftrightarrow> t = p"
  by (induction p arbitrary: t) (auto simp: glob_match_literal_Cons)

text \<open>A rule that allows \<^verbatim>\<open>echo\<close> thus allows the second command of the line as well.\<close>

lemma escaped_redirection_allowed:
  "evaluate_bash_rules rx [\<lparr>br_pattern = OnePattern (PatStr ''echo''), br_decision = Allow,
     br_role = None, br_unless_role = None\<rparr>] escaped_redirection = Some Allow"
proof -
  have "strip escaped_redirection = escaped_redirection"
    by (simp add: strip_def lstrip_def is_space_def escaped_redirection_def)
  moreover have "tokenize_shell_prefix escaped_redirection = [''echo'', ''>&'', ''rm'', ''x'']"
    and "tokenize_shell_prefix ''echo'' = [''echo'']" and "\<not> blank escaped_redirection"
    by (simp_all add: tokenize_shell_prefix_def is_space_def escaped_redirection_def blank_iff)
  ultimately show ?thesis
    using escaped_redirection_unseen
    by (simp add: evaluate_bash_rules_def match_bash_rule_def match_bash_pattern_def)
qed

text \<open>
  A path pattern without a double star stays on its directory level: every path it matches
  has as many separators as the pattern, and a pattern without wildcards matches itself only.
\<close>

lemma glob_stays_on_level:
  assumes "\<not> has_substring ''**'' p" and "glob_match (glob_to_regex p) t"
  shows "slashes t = slashes p
         \<and> (CHR ''*'' \<notin> set p \<and> CHR ''?'' \<notin> set p \<longrightarrow> t = p)"
  using assms glob_match_slashes glob_match_literal by blast

end
