(* ===== verification/Permission_Engine.thy ===== *)
theory Permission_Engine
  imports Permission_Rules
begin

text \<open>
  \<^verbatim>\<open>src/linch/permissions/engine.py\<close>, \<^verbatim>\<open>ruleset.py\<close> and \<^verbatim>\<open>principal.py\<close>: the decision
  for one pending tool call, from layered policy, the engine's own rules, the mode default and
  the host callback. A \<^verbatim>\<open>for\<close> loop over the rules with slices of the list becomes a recursion
  over its tail.
\<close>

section \<open>Principals and calls\<close>

record principal =
  pc_tenant :: string
  pc_user :: string
  pc_roles :: "string set"

definition validate_principal_identity :: "json \<Rightarrow> string result" where
  "validate_principal_identity v = (case v of
       JStr s \<Rightarrow> if blank s then Inl ValueError else Inr s
     | _ \<Rightarrow> Inl TypeError)"

definition new_principal :: "json \<Rightarrow> json \<Rightarrow> json \<Rightarrow> principal result" where
  "new_principal tenant user roles =
     bind_result (validate_principal_identity tenant) (\<lambda>t.
     bind_result (validate_principal_identity user) (\<lambda>u.
       case roles of
         JList rs \<Rightarrow>
           if \<not> list_all (\<lambda>r. case r of JStr s \<Rightarrow> True | _ \<Rightarrow> False) rs then Inl TypeError
           else if list_ex (\<lambda>r. case r of JStr s \<Rightarrow> blank s | _ \<Rightarrow> False) rs then Inl ValueError
           else Inr \<lparr>pc_tenant = t, pc_user = u,
                     pc_roles = set (map (\<lambda>r. case r of JStr s \<Rightarrow> s | _ \<Rightarrow> []) rs)\<rparr>
       | _ \<Rightarrow> Inl TypeError))"

text \<open>
  What the engine looks at of a tool: its name and scope, whether it is the built-in process
  tool, and its \<^verbatim>\<open>summarize\<close>, which may raise.
\<close>

record tool =
  tl_name :: string
  tl_scope :: string
  tl_is_process :: bool
  tl_summarize :: "json_obj \<Rightarrow> string option"

record pending_call =
  cl_tool_use_id :: json
  cl_tool :: "tool option"
  cl_input :: json
  cl_cwd :: "string option"
  cl_principal :: "principal option"

datatype tool_decision = DAllow | DDeny | DAsk

record permission_decision =
  pd_decision :: tool_decision
  pd_reason :: "string option"

definition decision_of :: "rule_decision \<Rightarrow> tool_decision" where
  "decision_of d = (case d of Allow \<Rightarrow> DAllow | Deny \<Rightarrow> DDeny | _ \<Rightarrow> DAsk)"

text \<open>Why a call is invalid. A tool without the tool interface is \<^const>\<open>None\<close> here.\<close>

definition validate_pending_call :: "pending_call \<Rightarrow> string option" where
  "validate_pending_call call =
     (if (case cl_tool_use_id call of JStr s \<Rightarrow> blank s | _ \<Rightarrow> True) then
        Some ''Invalid permission call: tool_use_id must be a non-empty string.''
      else if (case cl_input call of JDict d \<Rightarrow> False | _ \<Rightarrow> True) then
        Some ''Invalid permission call: input must be a dict.''
      else if cl_tool call = None then Some ''Invalid permission call: tool is invalid.''
      else None)"

section \<open>One rule list\<close>

definition role_applies :: "string option \<Rightarrow> string option \<Rightarrow> principal option \<Rightarrow> bool" where
  "role_applies role unless_role p =
     (if role = None \<and> unless_role = None then True
      else let roles = (case p of Some q \<Rightarrow> pc_roles q | None \<Rightarrow> {}) in
        (case role of None \<Rightarrow> True | Some r \<Rightarrow> r \<in> roles)
        \<and> (case unless_role of None \<Rightarrow> True | Some r \<Rightarrow> r \<notin> roles))"

fun rule_applies :: "permission_rule \<Rightarrow> principal option \<Rightarrow> bool" where
  "rule_applies (ToolR r) p = role_applies (tr_role r) (tr_unless_role r) p"
| "rule_applies (PathR r) p = role_applies (pr_role r) (pr_unless_role r) p"
| "rule_applies (BashR r) p = role_applies (br_role r) (br_unless_role r) p"

definition rule_outcome :: "tool_decision \<Rightarrow> string \<Rightarrow> string \<Rightarrow> permission_decision" where
  "rule_outcome d kind tool_name =
     \<lparr>pd_decision = d,
      pd_reason = (if d = DDeny then Some (kind @ '' rule matched '' @ tool_name @ ''.'') else None)\<rparr>"

fun bash_rules_from :: "permission_rule list \<Rightarrow> principal option \<Rightarrow> bash_rule list" where
  "bash_rules_from [] p = []"
| "bash_rules_from (BashR r # rules) p =
     (if rule_applies (BashR r) p then r # bash_rules_from rules p else bash_rules_from rules p)"
| "bash_rules_from (_ # rules) p = bash_rules_from rules p"

fun unparsed_bash_floor ::
  "(string \<Rightarrow> (string \<Rightarrow> bool) option) \<Rightarrow> permission_rule list \<Rightarrow> principal option \<Rightarrow> string
   \<Rightarrow> tool_decision option" where
  "unparsed_bash_floor rx [] p command = None"
| "unparsed_bash_floor rx (rule # rules) p command =
     (if \<not> rule_applies rule p then unparsed_bash_floor rx rules p command
      else case rule of
          BashR r \<Rightarrow>
            if br_decision r = Deny then
              if match_unparsed_bash_rule rx r (strip command) then Some DDeny else Some DAsk
            else unparsed_bash_floor rx rules p command
        | ToolR r \<Rightarrow>
            if match_tool_rule r ''Bash'' [(''command'', JStr command)] then
              if tr_decision r = Deny then Some DDeny
              else if tr_decision r = Ask then Some DAsk
              else unparsed_bash_floor rx rules p command
            else unparsed_bash_floor rx rules p command
        | PathR r \<Rightarrow> unparsed_bash_floor rx rules p command)"

text \<open>
  The scan of one flat list. \<open>resolve\<close>, \<open>rx\<close>, the tool name, the input, the working directory,
  the principal and the project root stay fixed along it.
\<close>

fun evaluate_rules ::
  "(string \<Rightarrow> string) \<Rightarrow> (string \<Rightarrow> (string \<Rightarrow> bool) option) \<Rightarrow> string \<Rightarrow> json_obj \<Rightarrow> string option
   \<Rightarrow> principal option \<Rightarrow> string \<Rightarrow> permission_rule list \<Rightarrow> permission_decision option" where
  "evaluate_rules resolve rx name inp cwd p project_root [] = None"
| "evaluate_rules resolve rx name inp cwd p project_root (rule # rules) =
     (let next_rule = evaluate_rules resolve rx name inp cwd p project_root rules in
      case rule of
        ToolR r \<Rightarrow>
          if rule_applies rule p \<and> match_tool_rule r name inp then
            (case (if tr_decision r = Allow \<and> name = ''Bash'' then
                     (case dict_get inp ''command'' of
                        Some (JStr command) \<Rightarrow>
                          if contains_unparsed_shell_construct command
                          then unparsed_bash_floor rx rules p command else None
                      | _ \<Rightarrow> None)
                   else None) of
               Some fl \<Rightarrow> Some (rule_outcome fl ''tool'' name)
             | None \<Rightarrow>
                 if tr_decision r = Passthrough then next_rule
                 else Some (rule_outcome (decision_of (tr_decision r)) ''tool'' name))
          else next_rule
      | PathR r \<Rightarrow>
          if rule_applies rule p \<and> match_path_rule resolve r name inp project_root cwd then
            if pr_decision r = Passthrough then next_rule
            else Some (rule_outcome (decision_of (pr_decision r)) ''path'' name)
          else next_rule
      | BashR r \<Rightarrow>
          if rule_applies rule p \<and> name = ''Bash'' then
            (case dict_get inp ''command'' of
               Some (JStr command) \<Rightarrow>
                 (case evaluate_bash_rules rx (bash_rules_from (rule # rules) p) command of
                    Some d \<Rightarrow>
                      if d \<noteq> Passthrough then Some (rule_outcome (decision_of d) ''bash'' name)
                      else next_rule
                  | None \<Rightarrow> next_rule)
             | _ \<Rightarrow> next_rule)
          else next_rule)"

definition call_object :: "pending_call \<Rightarrow> json_obj" where
  "call_object call = (case cl_input call of JDict d \<Rightarrow> d | _ \<Rightarrow> [])"

definition call_tool_name :: "pending_call \<Rightarrow> string" where
  "call_tool_name call = (case cl_tool call of Some t \<Rightarrow> tl_name t | None \<Rightarrow> [])"

definition evaluate_rule_list ::
  "(string \<Rightarrow> string) \<Rightarrow> (string \<Rightarrow> (string \<Rightarrow> bool) option) \<Rightarrow> permission_rule list \<Rightarrow> pending_call
   \<Rightarrow> string \<Rightarrow> permission_decision option" where
  "evaluate_rule_list resolve rx rules call project_root =
     evaluate_rules resolve rx (call_tool_name call) (call_object call) (cl_cwd call)
       (cl_principal call) project_root rules"

section \<open>Layers\<close>

record permission_layer =
  ly_name :: string
  ly_rules :: "permission_rule list"

record rule_set =
  rs_layers :: "permission_layer list"
  rs_project_root :: string

text \<open>The nested scan for deny rules; the flag is \<^verbatim>\<open>saw_bash_deny\<close>.\<close>

fun deny_floor_rules ::
  "(string \<Rightarrow> (string \<Rightarrow> bool) option) \<Rightarrow> json_obj \<Rightarrow> principal option \<Rightarrow> string \<Rightarrow> bool
   \<Rightarrow> permission_rule list \<Rightarrow> permission_decision + bool" where
  "deny_floor_rules rx inp p command saw [] = Inr saw"
| "deny_floor_rules rx inp p command saw (rule # rules) =
     (if \<not> rule_applies rule p then deny_floor_rules rx inp p command saw rules
      else case rule of
          ToolR r \<Rightarrow>
            if match_tool_rule r ''Bash'' inp \<and> tr_decision r = Deny
            then Inl \<lparr>pd_decision = DDeny, pd_reason = Some ''tool rule matched Bash.''\<rparr>
            else deny_floor_rules rx inp p command saw rules
        | BashR r \<Rightarrow>
            if br_decision r = Deny then
              if match_unparsed_bash_rule rx r (strip command)
              then Inl \<lparr>pd_decision = DDeny, pd_reason = Some ''bash rule matched Bash.''\<rparr>
              else deny_floor_rules rx inp p command True rules
            else deny_floor_rules rx inp p command saw rules
        | PathR r \<Rightarrow> deny_floor_rules rx inp p command saw rules)"

definition unparsed_bash_deny_floor ::
  "(string \<Rightarrow> (string \<Rightarrow> bool) option) \<Rightarrow> pending_call \<Rightarrow> permission_layer list
   \<Rightarrow> permission_decision option" where
  "unparsed_bash_deny_floor rx call layers =
     (if call_tool_name call \<noteq> ''Bash'' then None
      else case dict_get (call_object call) ''command'' of
        Some (JStr command) \<Rightarrow>
          if \<not> contains_unparsed_shell_construct command then None
          else (case deny_floor_rules rx (call_object call) (cl_principal call) command False
                       (concat (map ly_rules layers)) of
                  Inl d \<Rightarrow> Some d
                | Inr saw \<Rightarrow> if saw then Some \<lparr>pd_decision = DAsk, pd_reason = None\<rparr> else None)
      | _ \<Rightarrow> None)"

text \<open>The loop over the layers; \<open>opinion\<close> is the last opinion so far.\<close>

fun layer_opinions ::
  "(permission_rule list \<Rightarrow> permission_decision option) \<Rightarrow> permission_decision option
   \<Rightarrow> permission_layer list \<Rightarrow> permission_decision option" where
  "layer_opinions eval opinion [] = opinion"
| "layer_opinions eval opinion (l # ls) = (case eval (ly_rules l) of
       None \<Rightarrow> layer_opinions eval opinion ls
     | Some d \<Rightarrow> if pd_decision d = DDeny then Some d else layer_opinions eval (Some d) ls)"

definition evaluate_rule_set ::
  "(string \<Rightarrow> string) \<Rightarrow> (string \<Rightarrow> (string \<Rightarrow> bool) option) \<Rightarrow> rule_set \<Rightarrow> pending_call
   \<Rightarrow> permission_decision option" where
  "evaluate_rule_set resolve rx rs call =
     (case unparsed_bash_deny_floor rx call (rs_layers rs) of
        Some d \<Rightarrow> Some d
      | None \<Rightarrow> layer_opinions
                  (\<lambda>rules. evaluate_rule_list resolve rx rules call (rs_project_root rs))
                  None (rs_layers rs))"

section \<open>The engine\<close>

record engine =
  en_mode :: string
  en_rules :: "permission_rule list"
  en_project_root :: string
  en_rule_set :: "rule_set option"

definition task_tool_names :: "string list" where
  "task_tool_names = [''TaskCreate'', ''TaskList'', ''TaskGet'', ''TaskUpdate'']"

definition bare_decision :: "tool_decision \<Rightarrow> permission_decision" where
  "bare_decision d = \<lparr>pd_decision = d, pd_reason = None\<rparr>"

definition mode_default :: "tool \<Rightarrow> string \<Rightarrow> permission_decision" where
  "mode_default t mode =
     (if tl_scope t = ''read'' \<or> tl_name t \<in> set task_tool_names \<or> tl_is_process t
      then bare_decision DAllow
      else if mode = ''skip-dangerous'' then bare_decision DAllow
      else if tl_scope t = ''write'' \<and> mode = ''acceptEdits'' then bare_decision DAllow
      else bare_decision DAsk)"

definition engine_evaluate ::
  "(string \<Rightarrow> string) \<Rightarrow> (string \<Rightarrow> (string \<Rightarrow> bool) option) \<Rightarrow> engine \<Rightarrow> pending_call
   \<Rightarrow> permission_decision" where
  "engine_evaluate resolve rx en call =
     (case (validate_pending_call call, cl_tool call) of
        (None, Some t) \<Rightarrow>
          (case (case en_rule_set en of
                   None \<Rightarrow> None | Some rs \<Rightarrow> evaluate_rule_set resolve rx rs call) of
             Some layered \<Rightarrow> layered
           | None \<Rightarrow>
              (case evaluate_rule_list resolve rx (en_rules en) call (en_project_root en) of
                 Some d \<Rightarrow> d
               | None \<Rightarrow> mode_default t (en_mode en)))
      | (reason, _) \<Rightarrow> \<lparr>pd_decision = DDeny, pd_reason = reason\<rparr>)"

text \<open>
  The callback sees a request and ends in one of three ways. Aborts and cancellations pass
  through \<^verbatim>\<open>resolve\<close>, every other exception is a denial.
\<close>

record can_use_tool_request =
  rq_tool_name :: string
  rq_tool_use_id :: json
  rq_input :: json_obj
  rq_summary :: string
  rq_mode :: string
  rq_principal :: "principal option"

datatype callback_outcome = CbReturned json | CbAborted py_error | CbFailed

definition callback_request :: "engine \<Rightarrow> pending_call \<Rightarrow> can_use_tool_request" where
  "callback_request en call =
     (let name = call_tool_name call;
          summary = (case cl_tool call of
              Some t \<Rightarrow> (case tl_summarize t (call_object call) of
                  Some s \<Rightarrow> s | None \<Rightarrow> name @ ''(...)'')
            | None \<Rightarrow> name @ ''(...)'')
      in \<lparr>rq_tool_name = name, rq_tool_use_id = cl_tool_use_id call,
          rq_input = call_object call, rq_summary = summary, rq_mode = en_mode en,
          rq_principal = cl_principal call\<rparr>)"

definition denied :: "string \<Rightarrow> string \<Rightarrow> permission_decision" where
  "denied tool_name why =
     \<lparr>pd_decision = DDeny, pd_reason = Some (''Permission denied for '' @ tool_name @ '': '' @ why)\<rparr>"

definition invalid_callback_response :: "string \<Rightarrow> permission_decision" where
  "invalid_callback_response tool_name =
     denied tool_name ''permission callback returned an invalid response.''"

definition callback_decision :: "string \<Rightarrow> json \<Rightarrow> permission_decision" where
  "callback_decision tool_name response = (case response of
       JDict r \<Rightarrow>
         if dict_get r ''behavior'' = Some (JStr ''deny'') then
           (case dict_get r ''message'' of
              Some (JStr m) \<Rightarrow> \<lparr>pd_decision = DDeny, pd_reason = Some m\<rparr>
            | _ \<Rightarrow> invalid_callback_response tool_name)
         else if dict_get r ''behavior'' \<noteq> Some (JStr ''allow'') then
           invalid_callback_response tool_name
         else if dict_get r ''updatedInput'' \<notin> {None, Some JNull} then
           denied tool_name (''updatedInput is unsupported; ''
             @ ''mutate input in PreToolUse before permission evaluation.'')
         else bare_decision DAllow
     | _ \<Rightarrow> invalid_callback_response tool_name)"

definition resolve_permission ::
  "(string \<Rightarrow> string) \<Rightarrow> (string \<Rightarrow> (string \<Rightarrow> bool) option) \<Rightarrow> engine
   \<Rightarrow> (can_use_tool_request \<Rightarrow> callback_outcome) option \<Rightarrow> bool \<Rightarrow> pending_call
   \<Rightarrow> permission_decision result" where
  "resolve_permission resolve rx en can_use_tool aborted call =
     (let initial = engine_evaluate resolve rx en call; name = call_tool_name call in
      if pd_decision initial \<noteq> DAsk then Inr initial
      else case can_use_tool of
        None \<Rightarrow> Inr (denied name ''can_use_tool callback is not configured.'')
      | Some cb \<Rightarrow>
          if aborted then Inr (denied name ''permission request aborted.'')
          else
            (case cb (callback_request en call) of
                  CbAborted e \<Rightarrow> Inl e
                | CbFailed \<Rightarrow> Inr (denied name ''permission callback failed or aborted.'')
                | CbReturned response \<Rightarrow> Inr (callback_decision name response)))"

section \<open>Deny rules\<close>

lemma match_tool_rule_Bash:
  "match_tool_rule r ''Bash'' inp \<longleftrightarrow> match_tool_rule r ''Bash'' inp'"
  by (simp add: match_tool_rule_def split: option.splits)

lemma match_path_rule_Bash: "\<not> match_path_rule resolve r ''Bash'' inp project_root cwd"
  by (simp add: match_path_rule_def path_input_for_tool_def Let_def)

lemma set_bash_rules_from:
  "r \<in> set (bash_rules_from rules p) \<longleftrightarrow> BashR r \<in> set rules \<and> rule_applies (BashR r) p"
  by (induction rules p rule: bash_rules_from.induct) auto

lemma decision_of_simps [simp]:
  "decision_of Allow = DAllow" "decision_of Deny = DDeny" "decision_of Ask = DAsk"
  by (simp_all add: decision_of_def)

lemma pd_rule_outcome [simp]: "pd_decision (rule_outcome d kind name) = d"
  by (simp add: rule_outcome_def)

text \<open>An applicable deny rule that matches the text of a command which is not parsed.\<close>

fun deny_hit ::
  "(string \<Rightarrow> (string \<Rightarrow> bool) option) \<Rightarrow> principal option \<Rightarrow> string \<Rightarrow> permission_rule \<Rightarrow> bool" where
  "deny_hit rx p command (ToolR r) =
     (rule_applies (ToolR r) p \<and> tr_decision r = Deny \<and> match_tool_rule r ''Bash'' [])"
| "deny_hit rx p command (BashR r) =
     (rule_applies (BashR r) p \<and> br_decision r = Deny
      \<and> match_unparsed_bash_rule rx r (strip command))"
| "deny_hit rx p command (PathR r) = False"

lemma deny_floor_hit:
  "\<exists>rule \<in> set rules. deny_hit rx p command rule \<Longrightarrow>
     \<exists>d. deny_floor_rules rx inp p command saw rules = Inl d \<and> pd_decision d = DDeny"
proof (induction rules arbitrary: saw)
  case (Cons rule rules)
  show ?case
  proof (cases "deny_hit rx p command rule")
    case True
    then show ?thesis by (cases rule) (auto simp: match_tool_rule_Bash [of _ inp "[]"])
  next
    case False
    with Cons.prems have "\<exists>rule \<in> set rules. deny_hit rx p command rule" by auto
    from Cons.IH [OF this] show ?thesis by (cases rule) (auto simp del: rule_applies.simps)
  qed
qed simp

lemma unparsed_bash_floor_Deny:
  "unparsed_bash_floor rx rules p command = Some DDeny \<Longrightarrow>
     \<exists>rule \<in> set rules. deny_hit rx p command rule"
proof (induction rules)
  case (Cons rule rules)
  then show ?case
    by (cases rule) (auto simp: match_tool_rule_Bash [of _ "[(''command'', JStr command)]" "[]"]
        simp del: rule_applies.simps split: if_splits)
qed simp

lemma evaluate_rules_BashR:
  assumes "dict_get inp ''command'' = Some (JStr command)"
  shows "evaluate_rules resolve rx ''Bash'' inp cwd p project_root (BashR r # rules) =
    (case (if rule_applies (BashR r) p
           then evaluate_bash_rules rx (bash_rules_from (BashR r # rules) p) command else None) of
       Some d \<Rightarrow> Some (rule_outcome (decision_of d) ''bash'' ''Bash'')
     | None \<Rightarrow> evaluate_rules resolve rx ''Bash'' inp cwd p project_root rules)"
  using assms evaluate_bash_rules_not_passthrough [of rx "bash_rules_from (BashR r # rules) p" command]
  by (simp add: Let_def del: rule_applies.simps bash_rules_from.simps split: option.split)

lemma evaluate_rules_Deny_hit:
  assumes "contains_unparsed_shell_construct command"
    and "dict_get inp ''command'' = Some (JStr command)"
  shows "evaluate_rules resolve rx ''Bash'' inp cwd p project_root rules = Some d
     \<Longrightarrow> pd_decision d = DDeny \<Longrightarrow> \<exists>rule \<in> set rules. deny_hit rx p command rule"
proof (induction rules)
  case (Cons rule rules)
  show ?case
  proof (cases rule)
    case (ToolR r)
    with Cons assms show ?thesis
      by (cases "tr_decision r")
        (auto simp: match_tool_rule_Bash [of _ inp "[]"] Let_def simp del: rule_applies.simps
          split: if_splits option.splits dest: unparsed_bash_floor_Deny)
  next
    case (PathR r)
    with Cons show ?thesis by (auto simp: match_path_rule_Bash Let_def)
  next
    case (BashR r)
    have hit: "\<exists>r' \<in> set (rule # rules). deny_hit rx p command r'"
      if "evaluate_bash_rules rx (bash_rules_from (rule # rules) p) command = Some Deny"
    proof -
      from that assms(1) obtain b where "b \<in> set (bash_rules_from (rule # rules) p)"
        "br_decision b = Deny" "match_unparsed_bash_rule rx b (strip command)"
        by (auto simp: evaluate_bash_rules_def Let_def list_ex_iff split: if_splits)
      then show ?thesis
        by (intro bexI [of _ "BashR b"]) (auto simp: set_bash_rules_from simp del: bash_rules_from.simps)
    qed
    consider "evaluate_rules resolve rx ''Bash'' inp cwd p project_root rules = Some d"
      | e where "evaluate_bash_rules rx (bash_rules_from (rule # rules) p) command = Some e"
        "d = rule_outcome (decision_of e) ''bash'' ''Bash''"
      using Cons.prems(1) unfolding BashR evaluate_rules_BashR [OF assms(2)]
      by (cases "if rule_applies (BashR r) p
           then evaluate_bash_rules rx (bash_rules_from (BashR r # rules) p) command else None")
        (auto split: if_splits simp del: rule_applies.simps bash_rules_from.simps)
    then show ?thesis
    proof cases
      case 1
      with Cons.IH Cons.prems(2) show ?thesis by auto
    next
      case (2 e)
      with Cons.prems(2) have "e = Deny" by (cases e) (auto simp: decision_of_def)
      with 2 hit show ?thesis by simp
    qed
  qed
qed simp

lemma layer_opinions_Deny:
  "l \<in> set layers \<Longrightarrow> eval (ly_rules l) = Some d \<Longrightarrow> pd_decision d = DDeny \<Longrightarrow>
     \<exists>d'. layer_opinions eval opinion layers = Some d' \<and> pd_decision d' = DDeny"
  by (induction layers arbitrary: opinion) (auto split: option.split)

lemma evaluate_rule_set_Deny:
  assumes "l \<in> set (rs_layers rs)"
    and "evaluate_rule_list resolve rx (ly_rules l) call (rs_project_root rs) = Some d"
    and "pd_decision d = DDeny"
  shows "\<exists>d'. evaluate_rule_set resolve rx rs call = Some d' \<and> pd_decision d' = DDeny"
proof (cases "unparsed_bash_deny_floor rx call (rs_layers rs)")
  case None
  with layer_opinions_Deny [OF assms(1), of "\<lambda>rules. evaluate_rule_list resolve rx rules call
      (rs_project_root rs)" d None] assms(2,3) show ?thesis
    by (simp add: evaluate_rule_set_def)
next
  case (Some f)
  then obtain command where c: "call_tool_name call = ''Bash''"
    "dict_get (call_object call) ''command'' = Some (JStr command)"
    "contains_unparsed_shell_construct command"
    by (auto simp: unparsed_bash_deny_floor_def split: if_splits option.splits json.splits)
  from evaluate_rules_Deny_hit [OF c(3,2)] assms(2,3) c(1)
  have "\<exists>rule \<in> set (ly_rules l). deny_hit rx (cl_principal call) command rule"
    by (simp add: evaluate_rule_list_def)
  with assms(1) have "\<exists>rule \<in> set (concat (map ly_rules (rs_layers rs))).
      deny_hit rx (cl_principal call) command rule" by auto
  from deny_floor_hit [OF this, of "call_object call" False] obtain d' where
    "deny_floor_rules rx (call_object call) (cl_principal call) command False
       (concat (map ly_rules (rs_layers rs))) = Inl d'" "pd_decision d' = DDeny" by blast
  with Some c show ?thesis
    by (auto simp: evaluate_rule_set_def unparsed_bash_deny_floor_def)
qed

text \<open>
  C18: A policy denial is final. If the rules of any layer deny a call, the resolved decision
  is a denial: neither another layer, nor the floor for unparsed commands, nor the engine's own
  rules, its mode or the callback can turn it into anything else.
\<close>

theorem policy_deny_is_final:
  assumes "en_rule_set en = Some rs" and "l \<in> set (rs_layers rs)"
    and "evaluate_rule_list resolve rx (ly_rules l) call (rs_project_root rs) = Some d"
    and "pd_decision d = DDeny"
  shows "\<exists>d'. resolve_permission resolve rx en can_use_tool aborted call = Inr d'
              \<and> pd_decision d' = DDeny"
proof -
  from evaluate_rule_set_Deny [OF assms(2-4)] obtain d' where
    d': "evaluate_rule_set resolve rx rs call = Some d'" "pd_decision d' = DDeny" by blast
  then have "pd_decision (engine_evaluate resolve rx en call) = DDeny"
    using assms(1) by (auto simp: engine_evaluate_def split: option.splits)
  then show ?thesis by (auto simp: resolve_permission_def Let_def)
qed

lemma bash_rules_from_filter:
  "bash_rules_from (filter (\<lambda>r. rule_applies r p) rules) p = bash_rules_from rules p"
  by (induction rules p rule: bash_rules_from.induct) auto

lemma unparsed_bash_floor_filter:
  "unparsed_bash_floor rx (filter (\<lambda>r. rule_applies r p) rules) p command
   = unparsed_bash_floor rx rules p command"
proof (induction rules)
  case (Cons rule rules)
  then show ?case by (cases rule) (auto simp del: rule_applies.simps)
qed simp

lemma evaluate_rules_skip:
  "\<not> rule_applies rule p \<Longrightarrow>
     evaluate_rules resolve rx name inp cwd p project_root (rule # rules)
     = evaluate_rules resolve rx name inp cwd p project_root rules"
  by (cases rule) (simp_all add: Let_def del: rule_applies.simps)

lemma evaluate_rules_cong:
  assumes "evaluate_rules resolve rx name inp cwd p project_root rules
         = evaluate_rules resolve rx name inp cwd p project_root rules'"
    and "\<And>command. unparsed_bash_floor rx rules p command = unparsed_bash_floor rx rules' p command"
    and "bash_rules_from rules p = bash_rules_from rules' p"
  shows "evaluate_rules resolve rx name inp cwd p project_root (rule # rules)
       = evaluate_rules resolve rx name inp cwd p project_root (rule # rules')"
proof (cases rule)
  case (ToolR r)
  from assms(2) have eq: "unparsed_bash_floor rx rules p = unparsed_bash_floor rx rules' p" by blast
  show ?thesis
    unfolding ToolR evaluate_rules.simps Let_def permission_rule.case assms(1) eq ..
next
  case (PathR r)
  show ?thesis
    unfolding PathR evaluate_rules.simps Let_def permission_rule.case assms(1) ..
next
  case (BashR r)
  from assms(3) have eq: "bash_rules_from (BashR r # rules) p = bash_rules_from (BashR r # rules') p"
    by simp
  show ?thesis
    unfolding BashR evaluate_rules.simps Let_def permission_rule.case assms(1) eq ..
qed

text \<open>
  Roles select rules: a rule list decides a call exactly as the list of its rules that
  apply to the caller does, the look-ahead of Bash rules included.
\<close>

lemma inapplicable_rules_are_skipped:
  "evaluate_rule_list resolve rx rules call project_root
   = evaluate_rule_list resolve rx (filter (\<lambda>r. rule_applies r (cl_principal call)) rules)
       call project_root"
  unfolding evaluate_rule_list_def
proof (induction rules)
  case (Cons rule rules)
  show ?case
  proof (cases "rule_applies rule (cl_principal call)")
    case True
    with evaluate_rules_cong [OF Cons.IH] show ?thesis
      by (simp add: unparsed_bash_floor_filter bash_rules_from_filter
          del: evaluate_rules.simps rule_applies.simps)
  next
    case False
    with Cons show ?thesis
      by (simp add: evaluate_rules_skip del: evaluate_rules.simps rule_applies.simps)
  qed
qed simp

section \<open>Unparsed commands\<close>

definition bash_deny_applies :: "principal option \<Rightarrow> permission_rule \<Rightarrow> bool" where
  "bash_deny_applies p rule =
     (case rule of BashR r \<Rightarrow> rule_applies rule p \<and> br_decision r = Deny | _ \<Rightarrow> False)"

lemma bash_deny_appliesE:
  assumes "bash_deny_applies p rule"
  obtains b where "rule = BashR b" "rule_applies (BashR b) p" "br_decision b = Deny"
  using assms by (cases rule) (auto simp: bash_deny_applies_def)

lemma unparsed_bash_floor_not_allow:
  "unparsed_bash_floor rx rules p command \<noteq> Some DAllow"
proof (induction rules)
  case (Cons rule rules)
  then show ?case by (cases rule) (auto simp del: rule_applies.simps)
qed simp

lemma unparsed_bash_floor_Some:
  "\<exists>rule \<in> set rules. bash_deny_applies p rule \<Longrightarrow> unparsed_bash_floor rx rules p command \<noteq> None"
proof (induction rules)
  case (Cons rule rules)
  then show ?case
    by (cases rule) (auto simp: bash_deny_applies_def simp del: rule_applies.simps)
qed simp

lemma evaluate_rules_guarded:
  assumes "contains_unparsed_shell_construct command"
    and "dict_get inp ''command'' = Some (JStr command)"
  shows "\<exists>rule \<in> set rules. bash_deny_applies p rule \<Longrightarrow>
     \<exists>d. evaluate_rules resolve rx ''Bash'' inp cwd p project_root rules = Some d
         \<and> pd_decision d \<noteq> DAllow"
proof (induction rules)
  case (Cons rule rules)
  show ?case
  proof (cases rule)
    case (ToolR r)
    with Cons.prems have "\<exists>rule \<in> set rules. bash_deny_applies p rule"
      by (auto simp: bash_deny_applies_def)
    with Cons.IH unparsed_bash_floor_Some [OF this, of rx command]
      unparsed_bash_floor_not_allow [of rx rules p command] assms ToolR show ?thesis
      by (cases "tr_decision r") (auto simp: Let_def simp del: rule_applies.simps)
  next
    case (PathR r)
    with Cons show ?thesis by (auto simp: match_path_rule_Bash bash_deny_applies_def Let_def)
  next
    case (BashR r)
    show ?thesis
    proof (cases "rule_applies (BashR r) p")
      case False
      with Cons BashR evaluate_rules_skip [OF False] show ?thesis
        by (auto simp: bash_deny_applies_def simp del: rule_applies.simps evaluate_rules.simps)
    next
      case True
      from Cons.prems BashR True obtain b where b: "b \<in> set (bash_rules_from (BashR r # rules) p)"
        "br_decision b = Deny"
        unfolding set_bash_rules_from by (blast elim: bash_deny_appliesE)
      with assms(1) obtain e where e: "e = Deny \<or> e = Ask"
        "evaluate_bash_rules rx (bash_rules_from (BashR r # rules) p) command = Some e"
        by (force simp: evaluate_bash_rules_def Let_def list_ex_iff
            simp del: bash_rules_from.simps split: if_splits)
      with True show ?thesis
        unfolding BashR evaluate_rules_BashR [OF assms(2)] by auto
    qed
  qed
qed simp

lemma deny_floor_rules_saw:
  "deny_floor_rules rx inp p command True rules \<noteq> Inr False"
proof (induction rules)
  case (Cons rule rules)
  then show ?case by (cases rule) (auto simp del: rule_applies.simps)
qed simp

lemma deny_floor_rules_Inl:
  "deny_floor_rules rx inp p command saw rules = Inl d \<Longrightarrow> pd_decision d = DDeny"
proof (induction rules arbitrary: saw)
  case (Cons rule rules)
  then show ?case by (cases rule) (auto simp del: rule_applies.simps split: if_splits)
qed simp

lemma deny_floor_deny_rule:
  "\<exists>rule \<in> set rules. bash_deny_applies p rule \<Longrightarrow>
     deny_floor_rules rx inp p command saw rules = Inr True
     \<or> (\<exists>d. deny_floor_rules rx inp p command saw rules = Inl d \<and> pd_decision d = DDeny)"
proof (induction rules arbitrary: saw)
  case (Cons rule rules)
  have "deny_floor_rules rx inp p command True rules = Inr True
     \<or> (\<exists>d. deny_floor_rules rx inp p command True rules = Inl d \<and> pd_decision d = DDeny)"
    using deny_floor_rules_saw [of rx inp p command rules]
    by (cases "deny_floor_rules rx inp p command True rules") (auto dest: deny_floor_rules_Inl)
  with Cons show ?case
    by (cases rule) (auto simp: bash_deny_applies_def simp del: rule_applies.simps)
qed simp

text \<open>
  A command with a substitution, an open quote or another unparsed construct is never
  allowed by rules that contain a Bash deny rule for the caller: neither by one list, whatever
  the order of its rules, nor by the layers of a policy.
\<close>

lemma unparsed_command_needs_approval:
  assumes "call_tool_name call = ''Bash''"
    and "dict_get (call_object call) ''command'' = Some (JStr command)"
    and "contains_unparsed_shell_construct command"
    and "l \<in> set (rs_layers rs)" and "rule \<in> set (ly_rules l)"
    and "bash_deny_applies (cl_principal call) rule"
  shows "(\<exists>d. evaluate_rule_list resolve rx (ly_rules l) call project_root = Some d
            \<and> pd_decision d \<noteq> DAllow)
       \<and> (\<exists>d. evaluate_rule_set resolve rx rs call = Some d \<and> pd_decision d \<noteq> DAllow)"
proof
  from assms(5,6) have "\<exists>rule \<in> set (ly_rules l). bash_deny_applies (cl_principal call) rule" by blast
  from evaluate_rules_guarded [OF assms(3,2) this] assms(1)
  show "\<exists>d. evaluate_rule_list resolve rx (ly_rules l) call project_root = Some d
      \<and> pd_decision d \<noteq> DAllow"
    by (simp add: evaluate_rule_list_def)
  let ?all = "concat (map ly_rules (rs_layers rs))"
  from assms(4,5) have "rule \<in> set ?all" by auto
  with assms(6) have "\<exists>rule \<in> set ?all. bash_deny_applies (cl_principal call) rule" by blast
  from deny_floor_deny_rule [OF this, of rx "call_object call" command False]
  show "\<exists>d. evaluate_rule_set resolve rx rs call = Some d \<and> pd_decision d \<noteq> DAllow"
    using assms(1-3)
    by (auto simp: evaluate_rule_set_def unparsed_bash_deny_floor_def)
qed

section \<open>Approval\<close>

text \<open>
  The only ways to an allowed call: policy, rules or the mode allow it, or they ask and a
  configured callback, on a request that is not aborted, answers with an object that says allow
  and does not try to change the input. Every other answer, and every failure, denies.
\<close>

lemma resolve_allows_iff:
  "(\<exists>d. resolve_permission resolve rx en can_use_tool aborted call = Inr d
         \<and> pd_decision d = DAllow) \<longleftrightarrow>
   pd_decision (engine_evaluate resolve rx en call) = DAllow
   \<or> (pd_decision (engine_evaluate resolve rx en call) = DAsk \<and> \<not> aborted
      \<and> (\<exists>cb r. can_use_tool = Some cb \<and> cb (callback_request en call) = CbReturned (JDict r)
            \<and> dict_get r ''behavior'' = Some (JStr ''allow'')
            \<and> dict_get r ''updatedInput'' \<in> {None, Some JNull}))"
proof -
  have accept: "pd_decision (callback_decision name v) = DAllow \<longleftrightarrow>
      (\<exists>r. v = JDict r \<and> dict_get r ''behavior'' = Some (JStr ''allow'')
           \<and> dict_get r ''updatedInput'' \<in> {None, Some JNull})" for name v
    by (auto simp: callback_decision_def invalid_callback_response_def denied_def
        bare_decision_def split: json.splits option.splits)
  show ?thesis
  proof (cases "pd_decision (engine_evaluate resolve rx en call) = DAsk")
    case False
    then show ?thesis by (auto simp: resolve_permission_def Let_def)
  next
    case True
    then have "(\<exists>d. resolve_permission resolve rx en can_use_tool aborted call = Inr d
         \<and> pd_decision d = DAllow) \<longleftrightarrow>
       \<not> aborted \<and> (\<exists>cb v. can_use_tool = Some cb \<and> cb (callback_request en call) = CbReturned v
        \<and> pd_decision (callback_decision (call_tool_name call) v) = DAllow)"
      by (auto simp: resolve_permission_def Let_def denied_def
          split: option.splits callback_outcome.splits)
    with True show ?thesis unfolding accept by auto
  qed
qed

text \<open>The three modes, from the strictest to the widest.\<close>

lemma mode_default_mono:
  "pd_decision (mode_default t ''default'') = DAllow \<Longrightarrow> pd_decision (mode_default t ''acceptEdits'') = DAllow"
  "pd_decision (mode_default t ''acceptEdits'') = DAllow
   \<Longrightarrow> pd_decision (mode_default t ''skip-dangerous'') = DAllow"
  "pd_decision (mode_default t mode) \<noteq> DDeny"
  by (simp_all add: mode_default_def bare_decision_def split: if_splits)

section \<open>A concrete policy\<close>

definition bash_tool :: tool where
  "bash_tool = \<lparr>tl_name = ''Bash'', tl_scope = ''exec'', tl_is_process = False,
                tl_summarize = (\<lambda>_. Some ''run'')\<rparr>"

definition bash_call :: "string \<Rightarrow> pending_call" where
  "bash_call command = \<lparr>cl_tool_use_id = JStr ''t1'', cl_tool = Some bash_tool,
     cl_input = JDict [(''command'', JStr command)], cl_cwd = None, cl_principal = None\<rparr>"

definition deny_rm :: permission_rule where
  "deny_rm = BashR \<lparr>br_pattern = OnePattern (PatStr ''rm''), br_decision = Deny, br_role = None,
                   br_unless_role = None\<rparr>"

definition allow_all :: permission_rule where
  "allow_all = ToolR \<lparr>tr_tool = ''*'', tr_arg = None, tr_decision = Allow, tr_role = None,
                     tr_unless_role = None\<rparr>"

definition example_layers :: rule_set where
  "example_layers = \<lparr>rs_layers = [\<lparr>ly_name = ''org'', ly_rules = [allow_all, deny_rm]\<rparr>,
                                  \<lparr>ly_name = ''user'', ly_rules = [deny_rm]\<rparr>],
                     rs_project_root = ''/p''\<rparr>"

definition example_engine :: engine where
  "example_engine = \<lparr>en_mode = ''skip-dangerous'', en_rules = [allow_all], en_project_root = ''/p'',
                    en_rule_set = Some example_layers\<rparr>"

lemmas policy_example_simps =
  bash_call_def bash_tool_def deny_rm_def allow_all_def evaluate_rule_list_def call_tool_name_def
  call_object_def role_applies_def match_tool_rule_def contains_unparsed_shell_construct_def
  evaluate_bash_rules_def split_composite_command_def composite_operator_length.simps
  match_bash_rule_def match_bash_pattern_def fnmatch_def blank_iff strip_def lstrip_def
  is_space_def tokenize_shell_prefix_def Let_def

theorem policy_deny_is_final_witness:
  "\<exists>d'. resolve_permission (\<lambda>p. p) (\<lambda>_. None) example_engine None False (bash_call ''rm x'') = Inr d'
        \<and> pd_decision d' = DDeny"
proof (rule policy_deny_is_final)
  show "en_rule_set example_engine = Some example_layers" by (simp add: example_engine_def)
  show "\<lparr>ly_name = ''user'', ly_rules = [deny_rm]\<rparr> \<in> set (rs_layers example_layers)"
    by (simp add: example_layers_def)
  show "evaluate_rule_list (\<lambda>p. p) (\<lambda>_. None)
      (ly_rules \<lparr>ly_name = ''user'', ly_rules = [deny_rm]\<rparr>) (bash_call ''rm x'')
      (rs_project_root example_layers) = Some (rule_outcome DDeny ''bash'' ''Bash'')"
    by (simp add: policy_example_simps)
qed simp

end
