(* ===== verification/Loop_Guard.thy ===== *)
theory Loop_Guard
  imports Prelude
begin

text \<open>
  \<^verbatim>\<open>src/linch/loop_guard/guard.py\<close>: the detector that stops a run whose model repeats the same
  call or fails over and over. \<open>blake\<close> is the hex BLAKE2b digest and \<open>dumps\<close> is
  \<^verbatim>\<open>json.dumps\<close> with sorted keys; nothing is assumed of either.
\<close>

section \<open>State and decision\<close>

record loop_guard =
  max_identical_tool_calls :: int
  max_consecutive_failures :: int
  force_final_answer :: bool

record guard_state =
  call_counts :: "(string, int) dict"
  consecutive_failures :: int

datatype guard_action = GContinue | GStop | GForceFinal

datatype guard_reason = NoReason | RepeatedToolCall string int | RepeatedFailures int

record guard_decision =
  gd_action :: guard_action
  gd_reason :: guard_reason

type_synonym tool_request = "string \<times> json_obj"

definition permission_decision_key :: "(json_obj \<Rightarrow> string) \<Rightarrow> string \<Rightarrow> json_obj \<Rightarrow> string" where
  "permission_decision_key dumps name inp = name @ '':'' @ dumps inp"

definition call_digest ::
  "(string \<Rightarrow> string) \<Rightarrow> (json_obj \<Rightarrow> string) \<Rightarrow> tool_request \<Rightarrow> string" where
  "call_digest blake dumps block = blake (permission_decision_key dumps (fst block) (snd block))"

definition trip_action :: "loop_guard \<Rightarrow> guard_action" where
  "trip_action g = (if force_final_answer g then GForceFinal else GStop)"

definition new_guard_state :: guard_state where
  "new_guard_state = \<lparr>call_counts = [], consecutive_failures = 0\<rparr>"

section \<open>Evaluation\<close>

text \<open>
  The first loop: it counts block by block and returns at the first count that reaches the
  limit, leaving later blocks of the batch uncounted. \<open>digest\<close> is \<^const>\<open>call_digest\<close> of the
  two functions above.
\<close>

fun count_calls ::
  "(tool_request \<Rightarrow> string) \<Rightarrow> loop_guard \<Rightarrow> tool_request list \<Rightarrow> guard_state
   \<Rightarrow> guard_state \<times> guard_decision option" where
  "count_calls digest g [] st = (st, None)"
| "count_calls digest g (block # blocks) st =
     (let sig = digest block;
          n = (case dict_get (call_counts st) sig of None \<Rightarrow> 0 | Some m \<Rightarrow> m) + 1;
          st' = st\<lparr>call_counts := dict_set sig n (call_counts st)\<rparr>
      in if max_identical_tool_calls g \<le> n
         then (st', Some \<lparr>gd_action = trip_action g, gd_reason = RepeatedToolCall (fst block) n\<rparr>)
         else count_calls digest g blocks st')"

definition track_failures ::
  "loop_guard \<Rightarrow> bool list \<Rightarrow> guard_state \<Rightarrow> guard_state \<times> guard_decision option" where
  "track_failures g result_errors st =
     (if 0 < max_consecutive_failures g \<and> result_errors \<noteq> [] then
        (let st' = st\<lparr>consecutive_failures :=
                        (if list_all (\<lambda>e. e) result_errors then consecutive_failures st + 1 else 0)\<rparr>
         in if max_consecutive_failures g \<le> consecutive_failures st'
            then (st', Some \<lparr>gd_action = trip_action g,
                             gd_reason = RepeatedFailures (consecutive_failures st')\<rparr>)
            else (st', None))
      else (st, None))"

definition evaluate_loop_guard ::
  "(tool_request \<Rightarrow> string) \<Rightarrow> loop_guard \<Rightarrow> guard_state \<Rightarrow> tool_request list \<Rightarrow> bool list
   \<Rightarrow> guard_state \<times> guard_decision" where
  "evaluate_loop_guard digest g st tool_blocks result_errors =
     (case (if 0 < max_identical_tool_calls g then count_calls digest g tool_blocks st
            else (st, None)) of
        (st1, Some d) \<Rightarrow> (st1, d)
      | (st1, None) \<Rightarrow>
          (case track_failures g result_errors st1 of
             (st2, Some d) \<Rightarrow> (st2, d)
           | (st2, None) \<Rightarrow> (st2, \<lparr>gd_action = GContinue, gd_reason = NoReason\<rparr>)))"

section \<open>A run under the guard\<close>

text \<open>
  The loop evaluates the guard after each batch and goes on while it says continue. The result
  is the state after the last batch, or \<^const>\<open>None\<close> when the guard tripped on the way.
\<close>

fun guarded_run ::
  "(tool_request \<Rightarrow> string) \<Rightarrow> loop_guard \<Rightarrow> guard_state \<Rightarrow> (tool_request list \<times> bool list) list
   \<Rightarrow> guard_state option" where
  "guarded_run digest g st [] = Some st"
| "guarded_run digest g st ((blocks, errors) # batches) =
     (case evaluate_loop_guard digest g st blocks errors of
        (st', d) \<Rightarrow> if gd_action d = GContinue then guarded_run digest g st' batches else None)"

text \<open>What the guard is meant to bound, read off the whole history.\<close>

definition calls_with_digest ::
  "(tool_request \<Rightarrow> string) \<Rightarrow> string \<Rightarrow> (tool_request list \<times> bool list) list \<Rightarrow> nat" where
  "calls_with_digest digest sig batches =
     length (filter (\<lambda>b. digest b = sig) (concat (map fst batches)))"

definition streak_after :: "nat \<Rightarrow> bool list \<Rightarrow> nat" where
  "streak_after n errors =
     (if errors = [] then n else if list_all (\<lambda>e. e) errors then Suc n else 0)"

fun failure_streak :: "nat \<Rightarrow> (tool_request list \<times> bool list) list \<Rightarrow> nat list" where
  "failure_streak n [] = []"
| "failure_streak n ((blocks, errors) # batches) =
     streak_after n errors # failure_streak (streak_after n errors) batches"

definition count_of :: "guard_state \<Rightarrow> string \<Rightarrow> int" where
  "count_of st sig = (case dict_get (call_counts st) sig of None \<Rightarrow> 0 | Some n \<Rightarrow> n)"

lemma count_of_update [simp]:
  "count_of (st\<lparr>call_counts := dict_set sig n (call_counts st)\<rparr>) s =
     (if s = sig then n else count_of st s)"
  by (simp add: count_of_def)

text \<open>
  The loop passes exactly when no count reaches the limit, and then it has counted every block.
\<close>

lemma count_calls_spec:
  assumes "\<And>s. count_of st s < max_identical_tool_calls g"
  shows "(snd (count_calls digest g blocks st) = None \<longleftrightarrow>
            (\<forall>s. count_of st s + int (length (filter (\<lambda>b. digest b = s) blocks))
                   < max_identical_tool_calls g))
       \<and> (snd (count_calls digest g blocks st) = None \<longrightarrow>
            consecutive_failures (fst (count_calls digest g blocks st)) = consecutive_failures st
            \<and> (\<forall>s. count_of (fst (count_calls digest g blocks st)) s
                    = count_of st s + int (length (filter (\<lambda>b. digest b = s) blocks))))"
  using assms
proof (induction blocks arbitrary: st)
  case Nil
  then show ?case by simp
next
  case (Cons b blocks)
  let ?n = "count_of st (digest b) + 1"
  let ?st = "st\<lparr>call_counts := dict_set (digest b) ?n (call_counts st)\<rparr>"
  have step: "count_calls digest g (b # blocks) st =
      (if max_identical_tool_calls g \<le> ?n
       then (?st, Some \<lparr>gd_action = trip_action g, gd_reason = RepeatedToolCall (fst b) ?n\<rparr>)
       else count_calls digest g blocks ?st)"
    by (simp add: count_of_def Let_def)
  show ?case
  proof (cases "max_identical_tool_calls g \<le> ?n")
    case True
    then have "\<not> (\<forall>s. count_of st s + int (length (filter (\<lambda>x. digest x = s) (b # blocks)))
        < max_identical_tool_calls g)"
      by (auto intro!: exI [of _ "digest b"])
    with True show ?thesis unfolding step by simp
  next
    case False
    then have "\<And>s. count_of ?st s < max_identical_tool_calls g" using Cons.prems by simp
    note IH = Cons.IH [OF this]
    have sum: "count_of ?st s + int (length (filter (\<lambda>x. digest x = s) blocks))
        = count_of st s + int (length (filter (\<lambda>x. digest x = s) (b # blocks)))" for s
      by simp
    from False IH show ?thesis unfolding step sum by simp
  qed
qed

lemma trip_action_not_continue [simp]: "trip_action g \<noteq> GContinue"
  by (simp add: trip_action_def)

lemma count_calls_trips:
  "count_calls digest g blocks st = (st', Some d) \<Longrightarrow> gd_action d = trip_action g"
  by (induction digest g blocks st rule: count_calls.induct) (auto simp: Let_def split: if_splits)

lemma track_failures_count_of [simp]: "count_of (fst (track_failures g errors st)) s = count_of st s"
  by (simp add: track_failures_def count_of_def Let_def)

text \<open>The state a history leads to, when nothing tripped.\<close>

definition guard_tracks ::
  "loop_guard \<Rightarrow> guard_state \<Rightarrow> (string \<Rightarrow> int) \<Rightarrow> nat \<Rightarrow> bool" where
  "guard_tracks g st c n \<longleftrightarrow>
     (0 < max_identical_tool_calls g \<longrightarrow>
        (\<forall>s. count_of st s = c s \<and> c s < max_identical_tool_calls g))
     \<and> (0 < max_consecutive_failures g \<longrightarrow>
          consecutive_failures st = int n \<and> int n < max_consecutive_failures g)"

definition calls_after ::
  "(tool_request \<Rightarrow> string) \<Rightarrow> tool_request list \<Rightarrow> (string \<Rightarrow> int) \<Rightarrow> string \<Rightarrow> int" where
  "calls_after digest blocks c = (\<lambda>s. c s + int (length (filter (\<lambda>b. digest b = s) blocks)))"

lemma track_failures_spec:
  assumes "guard_tracks g st c n"
  shows "(snd (track_failures g errors st) = None \<longleftrightarrow>
            (0 < max_consecutive_failures g \<longrightarrow> int (streak_after n errors) < max_consecutive_failures g))
       \<and> (snd (track_failures g errors st) = None \<longrightarrow>
            guard_tracks g (fst (track_failures g errors st)) c (streak_after n errors))
       \<and> (\<forall>d. snd (track_failures g errors st) = Some d \<longrightarrow> gd_action d = trip_action g)"
  using assms(1)
  by (auto simp: track_failures_def guard_tracks_def streak_after_def Let_def count_of_def)

lemma evaluate_loop_guard_spec:
  assumes "guard_tracks g st c n"
  shows "(gd_action (snd (evaluate_loop_guard digest g st blocks errors)) = GContinue \<longleftrightarrow>
            (0 < max_identical_tool_calls g \<longrightarrow> (\<forall>s. calls_after digest blocks c s < max_identical_tool_calls g))
            \<and> (0 < max_consecutive_failures g \<longrightarrow> int (streak_after n errors) < max_consecutive_failures g))
       \<and> (gd_action (snd (evaluate_loop_guard digest g st blocks errors)) = GContinue \<longrightarrow>
            guard_tracks g (fst (evaluate_loop_guard digest g st blocks errors)) (calls_after digest blocks c) (streak_after n errors))"
proof (cases "0 < max_identical_tool_calls g")
  case False
  then have eval: "evaluate_loop_guard digest g st blocks errors =
      (case track_failures g errors st of
         (st2, Some d) \<Rightarrow> (st2, d)
       | (st2, None) \<Rightarrow> (st2, \<lparr>gd_action = GContinue, gd_reason = NoReason\<rparr>))"
    by (simp add: evaluate_loop_guard_def)
  from False assms(1) have "guard_tracks g st (calls_after digest blocks c) n" by (simp add: guard_tracks_def)
  from track_failures_spec [OF this, of errors] False show ?thesis
    unfolding eval by (cases "track_failures g errors st"; cases "snd (track_failures g errors st)") auto
next
  case True
  with assms(1) have c: "count_of st s = c s" "count_of st s < max_identical_tool_calls g" for s
    by (auto simp: guard_tracks_def)
  note spec = count_calls_spec [of st g digest blocks, OF c(2)]
  obtain st1 r where calls: "count_calls digest g blocks st = (st1, r)"
    by (cases "count_calls digest g blocks st")
  show ?thesis
  proof (cases r)
    case (Some d)
    with calls spec have "\<not> (\<forall>s. calls_after digest blocks c s < max_identical_tool_calls g)" by (simp add: c calls_after_def)
    moreover from Some calls count_calls_trips have "gd_action d \<noteq> GContinue" by fastforce
    ultimately show ?thesis using True Some calls by (simp add: evaluate_loop_guard_def)
  next
    case None
    with calls spec have all: "\<forall>s. calls_after digest blocks c s < max_identical_tool_calls g"
      "consecutive_failures st1 = consecutive_failures st" "\<forall>s. count_of st1 s = calls_after digest blocks c s"
      by (simp_all add: c calls_after_def)
    with assms(1) have "guard_tracks g st1 (calls_after digest blocks c) n" by (simp add: guard_tracks_def)
    from track_failures_spec [OF this, of errors] all(1) True None calls show ?thesis
      unfolding evaluate_loop_guard_def
      by (cases "track_failures g errors st1"; cases "snd (track_failures g errors st1)") auto
  qed
qed

lemma calls_with_digest_Cons:
  "int (calls_with_digest digest s ((blocks, errors) # batches))
   = int (length (filter (\<lambda>b. digest b = s) blocks)) + int (calls_with_digest digest s batches)"
  by (simp add: calls_with_digest_def)

lemma guarded_run_spec:
  assumes "guard_tracks g st c n"
  shows "guarded_run digest g st batches \<noteq> None \<longleftrightarrow>
     (0 < max_identical_tool_calls g \<longrightarrow>
        (\<forall>s. c s + int (calls_with_digest digest s batches) < max_identical_tool_calls g))
     \<and> (0 < max_consecutive_failures g \<longrightarrow>
          (\<forall>k \<in> set (failure_streak n batches). int k < max_consecutive_failures g))"
  using assms
proof (induction batches arbitrary: st c n)
  case Nil
  then show ?case by (simp add: calls_with_digest_def guard_tracks_def)
next
  case (Cons batch batches)
  obtain blocks errors where batch: "batch = (blocks, errors)" by (cases batch)
  let ?c = "calls_after digest blocks c"
  let ?n = "streak_after n errors"
  let ?e = "evaluate_loop_guard digest g st blocks errors"
  note spec = evaluate_loop_guard_spec [OF Cons.prems, of digest blocks errors]
  have grow: "?c s \<le> c s + int (calls_with_digest digest s (batch # batches))" for s
    unfolding batch calls_with_digest_Cons calls_after_def by simp
  show ?case
  proof (cases "gd_action (snd ?e) = GContinue")
    case True
    with spec have "guard_tracks g (fst ?e) ?c ?n" by blast
    from Cons.IH [OF this] True spec batch show ?thesis
      by (auto simp: calls_with_digest_Cons calls_after_def add.assoc split: prod.splits)
  next
    case False
    then have none: "guarded_run digest g st (batch # batches) = None"
      by (auto simp: batch split: prod.splits)
    from False spec consider s where "0 < max_identical_tool_calls g" "max_identical_tool_calls g \<le> ?c s"
      | "0 < max_consecutive_failures g" "max_consecutive_failures g \<le> int ?n" by (metis not_less)
    then show ?thesis
    proof cases
      case (1 s)
      with grow [of s] have "\<not> (\<forall>s. c s + int (calls_with_digest digest s (batch # batches))
          < max_identical_tool_calls g)" by (metis 1(2) not_less order_trans)
      with 1(1) none show ?thesis by blast
    next
      case 2
      then show ?thesis unfolding none by (auto simp: batch)
    qed
  qed
qed

text \<open>
  C16: The guard bounds a run exactly. Over a sequence of batches it never trips if and only if no
  call digest occurs in it as often as the limit and no streak of batches with failed results
  only reaches its limit; a limit of zero or less switches its check off, and a batch without
  results neither lengthens nor ends a streak.
\<close>

theorem loop_guard_exact:
  "guarded_run digest g new_guard_state batches \<noteq> None \<longleftrightarrow>
     (max_identical_tool_calls g \<le> 0
        \<or> (\<forall>s. int (calls_with_digest digest s batches) < max_identical_tool_calls g))
     \<and> (max_consecutive_failures g \<le> 0
        \<or> list_all (\<lambda>k. int k < max_consecutive_failures g) (failure_streak 0 batches))"
proof -
  have "guard_tracks g new_guard_state (\<lambda>_. 0) 0"
    by (simp add: guard_tracks_def new_guard_state_def count_of_def)
  from guarded_run_spec [OF this, of digest batches] show ?thesis
    by (auto simp: list_all_iff not_less)
qed

end
