(* ===== verification/Append_Log.thy ===== *)
theory Append_Log
  imports Prelude
begin

text \<open>
  The contract of an append-only log with positions, as the run store keeps its events and the
  session store its messages: appending adds the payloads at the end and numbers them on from
  the current length.
\<close>

locale append_log =
  fixes append :: "'s \<Rightarrow> 'e list \<Rightarrow> 's"
    and rows :: "'s \<Rightarrow> 'r list"
    and seq_of :: "'r \<Rightarrow> int"
    and payload :: "'r \<Rightarrow> 'e"
  assumes payload_append: "map payload (rows (append s es)) = map payload (rows s) @ es"
    and seq_append: "map seq_of (rows (append s es))
      = map seq_of (rows s) @ map (\<lambda>i. int (length (rows s)) + 1 + int i) [0..<length es]"
begin

definition contiguous :: "'s \<Rightarrow> bool" where
  "contiguous s \<longleftrightarrow> map seq_of (rows s) = map (\<lambda>i. 1 + int i) [0..<length (rows s)]"

lemma length_append: "length (rows (append s es)) = length (rows s) + length es"
  by (metis length_append length_map payload_append)

lemma contiguous_append: "contiguous s \<Longrightarrow> contiguous (append s es)"
proof -
  assume "contiguous s"
  moreover have "map (\<lambda>i. 1 + int i) [0..<length (rows s) + length es] =
    map (\<lambda>i. 1 + int i) [0..<length (rows s)]
    @ map (\<lambda>i. int (length (rows s)) + 1 + int i) [0..<length es]"
    by (rule nth_equalityI) (auto simp: nth_append)
  ultimately show ?thesis
    unfolding contiguous_def seq_append length_append by simp
qed

lemma seq_nth:
  assumes "contiguous s" and "i < length (rows s)"
  shows "seq_of (rows s ! i) = 1 + int i"
  using arg_cong [OF assms(1) [unfolded contiguous_def], of "\<lambda>xs. xs ! i"] assms(2) by simp

lemma rows_append_prefix: "map payload (take (length (rows s)) (rows (append s es))) = map payload (rows s)"
  using payload_append [of s es] by (metis append_eq_conv_conj length_map take_map)

text \<open>Reading the rows after the last position seen yields exactly what was appended since.\<close>

lemma filter_after:
  assumes "contiguous s" and "k \<le> length (rows s)"
  shows "filter (\<lambda>r. int k < seq_of r) (rows s) = drop k (rows s)"
proof -
  have "filter (\<lambda>r. int k < seq_of r) (take k (rows s)) = []"
    using seq_nth [OF assms(1)] assms(2) by (fastforce simp: filter_empty_conv in_set_conv_nth)
  moreover have "filter (\<lambda>r. int k < seq_of r) (drop k (rows s)) = drop k (rows s)"
    using seq_nth [OF assms(1)] by (fastforce simp: filter_id_conv in_set_conv_nth)
  ultimately show ?thesis by (metis append.left_neutral append_take_drop_id filter_append)
qed

lemma tail_after_append:
  assumes "contiguous s"
  shows "map payload (filter (\<lambda>r. int (length (rows s)) < seq_of r) (rows (append s es))) = es"
proof -
  have "filter (\<lambda>r. int (length (rows s)) < seq_of r) (rows (append s es))
      = drop (length (rows s)) (rows (append s es))"
    by (rule filter_after [OF contiguous_append [OF assms]]) (simp add: length_append)
  then show ?thesis
    by (metis append_eq_conv_conj drop_map length_map payload_append)
qed

end

end
