(* ===== verification/Run_Store.thy ===== *)
theory Run_Store
  imports Messages Append_Log
begin

text \<open>
  The in-memory run store of \<^verbatim>\<open>src/linch/run_store.py\<close>: run records, the per-run event log,
  model-input snapshots, and the leases that fence writers. Every method takes the store and
  returns it updated with its result. Clock readings, fresh ids and \<^verbatim>\<open>now_iso()\<close> are
  arguments. The codecs whose work goes through the native extension are parameters, gathered in
  a record: each may raise.
\<close>

section \<open>Data\<close>

record run_checkpoint =
  cp_phase :: json
  cp_prompt :: string
  cp_turn_index :: int
  cp_total_usage :: usage
  cp_assistant_message :: "message option"
  cp_pending_tool_blocks :: "content_block list"
  cp_completed_tool_results :: "(string, content_block) dict"
  cp_force_final_pending :: bool
  cp_loop_guard_state :: json
  cp_pending_skill_overlay :: json
  cp_current_turn_allowed_tools :: "string list option"
  cp_assistant_stop_reason :: "string option"
  cp_permission_decisions :: "(string, json_obj) dict"
  cp_background_workers :: "(string, json_obj) dict"
  cp_truncation_attempts :: int
  cp_truncation_prefix :: string
  cp_pending_truncation_feedback :: "string option"
  cp_tool_batch_event_after_seq :: "int option"
  cp_pending_alignment :: "json_obj list"
  cp_extension_state :: json_obj
  cp_provider_attempt :: int
  cp_model_input_snapshot_id :: "string option"

record run_record =
  rr_id :: string
  rr_session_id :: string
  rr_status :: string
  rr_created_at :: string
  rr_updated_at :: string
  rr_checkpoint :: "run_checkpoint option"
  rr_meta :: json_obj

record 'e stored_event =
  se_seq :: int
  se_appended_at :: string
  se_event :: 'e

record run_lease =
  ls_run_id :: string
  ls_owner :: string
  ls_epoch :: int
  ls_expires_at :: pyfloat
  ls_ttl_s :: pyfloat

record model_input_snapshot =
  sn_id :: string
  sn_run_id :: string
  sn_provider_attempt :: int
  sn_codec_version :: int
  sn_request_json :: string
  sn_integrity_hash :: string
  sn_created_at :: string

text \<open>Owner, expiry and epoch.\<close>

type_synonym lease_entry = "string option \<times> pyfloat option \<times> int"

record 'e run_store =
  st_runs :: "(string, run_record) dict"
  st_events :: "(string, 'e stored_event list) dict"
  st_snapshots :: "(string, model_input_snapshot) dict"
  st_lease_state :: "(string, lease_entry) dict"

definition new_run_store :: "'e run_store" where
  "new_run_store = \<lparr>st_runs = [], st_events = [], st_snapshots = [], st_lease_state = []\<rparr>"

record 'e codecs =
  cd_checkpoint :: "run_checkpoint \<Rightarrow> run_checkpoint result"
  cd_event :: "'e \<Rightarrow> 'e result"
  cd_safe :: "json \<Rightarrow> json"
  cd_compatible :: "json_obj \<Rightarrow> json_obj \<Rightarrow> unit result"

section \<open>Helpers\<close>

definition copy_checkpoint ::
  "'e codecs \<Rightarrow> run_checkpoint option \<Rightarrow> run_checkpoint option result" where
  "copy_checkpoint cd c = (case c of
       None \<Rightarrow> Inr None
     | Some cp \<Rightarrow> bind_result (cd_checkpoint cd cp) (\<lambda>cp'. Inr (Some cp')))"

definition safe_meta :: "'e codecs \<Rightarrow> json \<Rightarrow> json_obj" where
  "safe_meta cd m = (case cd_safe cd m of JDict d \<Rightarrow> d | _ \<Rightarrow> [])"

definition append_run_error :: "'e codecs \<Rightarrow> json_obj \<Rightarrow> json_obj \<Rightarrow> json_obj" where
  "append_run_error cd meta err =
     (let existing = (case dict_get meta ''errors'' of
            Some (JList xs) \<Rightarrow>
              if list_all (\<lambda>x. case x of JDict d \<Rightarrow> True | _ \<Rightarrow> False) xs then xs else []
          | _ \<Rightarrow> [])
      in dict_set ''errors'' (JList (existing @ [cd_safe cd (JDict err)])) meta)"

definition validate_lease_ttl :: "json \<Rightarrow> pyfloat result" where
  "validate_lease_ttl v =
     (case (case v of
              JInt n \<Rightarrow> (case float_of_int n of None \<Rightarrow> Inl OverflowError | Some f \<Rightarrow> Inr f)
            | JFloat f \<Rightarrow> Inr f
            | _ \<Rightarrow> Inl ValueError) of
        Inl e \<Rightarrow> Inl e
      | Inr f \<Rightarrow> if \<not> is_finite f \<or> pf_le f (Fin 0) then Inl ValueError else Inr f)"

text \<open>The fields are typed here, so of the three tests only two can fail.\<close>

definition validate_lease_run :: "string \<Rightarrow> run_lease option \<Rightarrow> unit result" where
  "validate_lease_run rid lease = (case lease of
       None \<Rightarrow> Inr ()
     | Some l \<Rightarrow>
         if ls_run_id l \<noteq> rid then Inl LeaseLostError
         else if ls_epoch l < 1 then Inl LeaseLostError
         else Inr ())"

definition active_statuses :: "string list" where
  "active_statuses = [''pending'', ''running'', ''waiting_permission'', ''suspended'']"

definition active :: "run_record \<Rightarrow> bool" where
  "active r = (rr_status r \<in> set active_statuses)"

fun busy_row :: "string \<Rightarrow> string \<Rightarrow> run_record list \<Rightarrow> run_record option" where
  "busy_row session_id rid [] = None"
| "busy_row session_id rid (row # rows) =
     (if rr_session_id row = session_id \<and> rr_id row \<noteq> rid \<and> active row then Some row
      else busy_row session_id rid rows)"

definition admit :: "string \<Rightarrow> string \<Rightarrow> string \<Rightarrow> 'e run_store \<Rightarrow> unit result" where
  "admit session_id rid status st =
     (if status \<in> set active_statuses then
        (case busy_row session_id rid (dict_values (st_runs st)) of
           Some row \<Rightarrow> Inl (SessionBusyError session_id (rr_id row))
         | None \<Rightarrow> Inr ())
      else Inr ())"

definition lease_entry_of :: "'e run_store \<Rightarrow> string \<Rightarrow> lease_entry" where
  "lease_entry_of st rid = (case dict_get (st_lease_state st) rid of
       None \<Rightarrow> (None, None, 0) | Some e \<Rightarrow> e)"

definition check_lease :: "string \<Rightarrow> run_lease option \<Rightarrow> 'e run_store \<Rightarrow> unit result" where
  "check_lease rid lease st =
     bind_result (validate_lease_run rid lease) (\<lambda>_.
       case lease of
         None \<Rightarrow> Inr ()
       | Some l \<Rightarrow>
           (case dict_get (st_lease_state st) rid of
              None \<Rightarrow> Inl LeaseLostError
            | Some (owner, _, epoch) \<Rightarrow>
                if epoch \<noteq> ls_epoch l \<or> owner \<noteq> Some (ls_owner l) then Inl LeaseLostError
                else Inr ()))"

section \<open>Leases\<close>

definition claim ::
  "string \<Rightarrow> string \<Rightarrow> json \<Rightarrow> pyfloat \<Rightarrow> 'e run_store \<Rightarrow> 'e run_store \<times> run_lease result" where
  "claim rid owner ttl_s now st =
     (case validate_lease_ttl ttl_s of
        Inl e \<Rightarrow> (st, Inl e)
      | Inr ttl \<Rightarrow>
          if rid \<notin> set (dict_keys (st_runs st)) then (st, Inl KeyError)
          else case lease_entry_of st rid of (current_owner, expires_at, epoch) \<Rightarrow>
            (let live = (current_owner \<noteq> None
                         \<and> (case expires_at of None \<Rightarrow> False | Some x \<Rightarrow> pf_less now x))
             in if live \<and> current_owner \<noteq> Some owner then (st, Inl RunLeaseConflictError)
                else (let next_epoch = (if live \<and> current_owner = Some owner then epoch
                                        else epoch + 1);
                          expires = pf_add now ttl
                      in (st\<lparr>st_lease_state :=
                              dict_set rid (Some owner, Some expires, next_epoch) (st_lease_state st)\<rparr>,
                          Inr \<lparr>ls_run_id = rid, ls_owner = owner, ls_epoch = next_epoch,
                               ls_expires_at = expires, ls_ttl_s = ttl\<rparr>))))"

text \<open>\<^verbatim>\<open>renew\<close> reads the clock twice.\<close>

definition renew ::
  "run_lease \<Rightarrow> pyfloat \<Rightarrow> pyfloat \<Rightarrow> 'e run_store \<Rightarrow> 'e run_store \<times> run_lease result" where
  "renew l now1 now2 st =
     (case validate_lease_run (ls_run_id l) (Some l) of
        Inl e \<Rightarrow> (st, Inl e)
      | Inr _ \<Rightarrow>
          case lease_entry_of st (ls_run_id l) of (current_owner, expires_at, epoch) \<Rightarrow>
            if epoch \<noteq> ls_epoch l \<or> current_owner \<noteq> Some (ls_owner l)
               \<or> (case expires_at of None \<Rightarrow> True | Some x \<Rightarrow> pf_le x now1)
            then (st, Inl LeaseLostError)
            else case validate_lease_ttl (JFloat (ls_ttl_s l)) of
                Inl e \<Rightarrow> (st, Inl e)
              | Inr ttl \<Rightarrow>
                  (let renewed = pf_add now2 ttl
                   in (st\<lparr>st_lease_state :=
                          dict_set (ls_run_id l) (Some (ls_owner l), Some renewed, ls_epoch l)
                            (st_lease_state st)\<rparr>,
                       Inr \<lparr>ls_run_id = ls_run_id l, ls_owner = ls_owner l, ls_epoch = ls_epoch l,
                            ls_expires_at = renewed, ls_ttl_s = ttl\<rparr>)))"

definition release :: "run_lease \<Rightarrow> 'e run_store \<Rightarrow> 'e run_store \<times> unit result" where
  "release l st =
     (case validate_lease_run (ls_run_id l) (Some l) of
        Inl e \<Rightarrow> (st, Inl e)
      | Inr _ \<Rightarrow>
          case lease_entry_of st (ls_run_id l) of (current_owner, _, epoch) \<Rightarrow>
            if epoch \<noteq> ls_epoch l \<or> current_owner \<noteq> Some (ls_owner l)
            then (st, Inl LeaseLostError)
            else (st\<lparr>st_lease_state :=
                     dict_set (ls_run_id l) (None, None, ls_epoch l + 1) (st_lease_state st)\<rparr>,
                  Inr ()))"

section \<open>Runs\<close>

definition contract_key :: string where
  "contract_key = ''run_contract''"

text \<open>\<^verbatim>\<open>dict.update\<close>.\<close>

definition dict_update_all :: "('k, 'v) dict \<Rightarrow> ('k, 'v) dict \<Rightarrow> ('k, 'v) dict" where
  "dict_update_all d new = fold (\<lambda>(k, v). dict_set k v) new d"

definition has_contract :: "json_obj \<Rightarrow> bool" where
  "has_contract meta = (dict_get meta contract_key \<notin> {None, Some JNull})"

definition merge_meta :: "'e codecs \<Rightarrow> json_obj \<Rightarrow> json_obj \<Rightarrow> json_obj" where
  "merge_meta cd existing incoming =
     (let merged = dict_update_all (safe_meta cd (JDict existing)) incoming in
      case dict_get existing contract_key of
        None \<Rightarrow> merged
      | Some c \<Rightarrow> if c = JNull then merged else dict_set contract_key c merged)"

text \<open>\<open>rid_arg\<close> is the \<^verbatim>\<open>id\<close> keyword, \<open>uuid\<close> the id drawn without it.\<close>

definition create_run ::
  "'e codecs \<Rightarrow> string \<Rightarrow> string \<Rightarrow> string option \<Rightarrow> json \<Rightarrow> run_checkpoint option
   \<Rightarrow> run_lease option \<Rightarrow> string \<Rightarrow> 'e run_store \<Rightarrow> 'e run_store \<times> run_record result" where
  "create_run cd session_id uuid rid_arg meta initial_checkpoint lease ts st =
     (case copy_checkpoint cd initial_checkpoint of
        Inl e \<Rightarrow> (st, Inl e)
      | Inr checkpoint \<Rightarrow>
        (let rid = (case rid_arg of None \<Rightarrow> uuid | Some r \<Rightarrow> if r = [] then uuid else r) in
         case dict_get (st_runs st) rid of
           Some existing \<Rightarrow>
             (case bind_result (validate_lease_run rid lease) (\<lambda>_. check_lease rid lease st) of
                Inl e \<Rightarrow> (st, Inl e)
              | Inr _ \<Rightarrow>
                if rr_status existing \<noteq> ''pending'' then (st, Inl ValueError)
                else if rr_session_id existing \<noteq> session_id then (st, Inl ValueError)
                else
                  (let incoming = safe_meta cd meta in
                   case (if has_contract (rr_meta existing) \<and> has_contract incoming
                         then cd_compatible cd (rr_meta existing) incoming else Inr ()) of
                     Inl e \<Rightarrow> (st, Inl e)
                   | Inr _ \<Rightarrow>
                     (case admit session_id rid ''running'' st of
                        Inl e \<Rightarrow> (st, Inl e)
                      | Inr _ \<Rightarrow>
                        (let r = existing\<lparr>rr_meta := merge_meta cd (rr_meta existing) incoming,
                                         rr_status := ''running'', rr_checkpoint := checkpoint,
                                         rr_updated_at := ts\<rparr>
                         in (st\<lparr>st_runs := dict_set rid r (st_runs st)\<rparr>, Inr r)))))
         | None \<Rightarrow>
             (case lease of
                Some l \<Rightarrow> (st, Inl LeaseLostError)
              | None \<Rightarrow>
                (case admit session_id rid ''running'' st of
                   Inl e \<Rightarrow> (st, Inl e)
                 | Inr _ \<Rightarrow>
                   (let r = \<lparr>rr_id = rid, rr_session_id = session_id, rr_status = ''running'',
                             rr_created_at = ts, rr_updated_at = ts, rr_checkpoint = checkpoint,
                             rr_meta = safe_meta cd meta\<rparr>
                    in (st\<lparr>st_runs := dict_set rid r (st_runs st),
                           st_events := dict_set rid [] (st_events st),
                           st_lease_state :=
                             dict_setdefault rid (None, None, 0) (st_lease_state st)\<rparr>,
                        Inr r))))))"

definition load_run :: "string \<Rightarrow> 'e run_store \<Rightarrow> run_record option" where
  "load_run rid st = dict_get (st_runs st) rid"

definition save_checkpoint ::
  "'e codecs \<Rightarrow> string \<Rightarrow> run_checkpoint \<Rightarrow> string \<Rightarrow> run_lease option \<Rightarrow> string
   \<Rightarrow> 'e run_store \<Rightarrow> 'e run_store \<times> unit result" where
  "save_checkpoint cd rid checkpoint status lease ts st =
     (case check_lease rid lease st of
        Inl e \<Rightarrow> (st, Inl e)
      | Inr _ \<Rightarrow>
        (case dict_get (st_runs st) rid of
           None \<Rightarrow> (st, Inl KeyError)
         | Some rec \<Rightarrow>
           (case admit (rr_session_id rec) rid status st of
              Inl e \<Rightarrow> (st, Inl e)
            | Inr _ \<Rightarrow>
              (case copy_checkpoint cd (Some checkpoint) of
                 Inl e \<Rightarrow> (st, Inl e)
               | Inr c \<Rightarrow>
                 (st\<lparr>st_runs := dict_set rid
                       (rec\<lparr>rr_checkpoint := c, rr_status := status, rr_updated_at := ts\<rparr>)
                       (st_runs st)\<rparr>, Inr ())))))"

section \<open>Events\<close>

text \<open>\<^verbatim>\<open>range(len(bucket) + 1, len(bucket) + len(events) + 1)\<close>, and the rows stored there.\<close>

definition next_seqs :: "'e stored_event list \<Rightarrow> 'e list \<Rightarrow> int list" where
  "next_seqs bucket events =
     map (\<lambda>i. int (length bucket) + 1 + int i) [0..<length events]"

definition stamp_events :: "string \<Rightarrow> 'e stored_event list \<Rightarrow> 'e list \<Rightarrow> 'e stored_event list" where
  "stamp_events ts bucket events =
     map2 (\<lambda>seq e. \<lparr>se_seq = seq, se_appended_at = ts, se_event = e\<rparr>) (next_seqs bucket events) events"

definition event_bucket :: "'e run_store \<Rightarrow> string \<Rightarrow> 'e stored_event list" where
  "event_bucket st rid = (case dict_get (st_events st) rid of None \<Rightarrow> [] | Some b \<Rightarrow> b)"

definition extend_events ::
  "string \<Rightarrow> string \<Rightarrow> 'e list \<Rightarrow> 'e run_store \<Rightarrow> 'e run_store" where
  "extend_events rid ts events st =
     st\<lparr>st_events := dict_set rid (event_bucket st rid @ stamp_events ts (event_bucket st rid) events)
          (st_events st)\<rparr>"

definition save_checkpoint_with_events ::
  "'e codecs \<Rightarrow> string \<Rightarrow> run_checkpoint \<Rightarrow> 'e list \<Rightarrow> string \<Rightarrow> run_lease option \<Rightarrow> string
   \<Rightarrow> 'e run_store \<Rightarrow> 'e run_store \<times> int list result" where
  "save_checkpoint_with_events cd rid checkpoint events status lease ts st =
     (case check_lease rid lease st of
        Inl e \<Rightarrow> (st, Inl e)
      | Inr _ \<Rightarrow>
        (case dict_get (st_runs st) rid of
           None \<Rightarrow> (st, Inl KeyError)
         | Some rec \<Rightarrow>
           (case admit (rr_session_id rec) rid status st of
              Inl e \<Rightarrow> (st, Inl e)
            | Inr _ \<Rightarrow>
              (case copy_checkpoint cd (Some checkpoint) of
                 Inl e \<Rightarrow> (st, Inl e)
               | Inr c \<Rightarrow>
                 (case map_result (cd_event cd) events of
                    Inl e \<Rightarrow> (st, Inl e)
                  | Inr copies \<Rightarrow>
                    (extend_events rid ts copies
                       (st\<lparr>st_runs := dict_set rid
                            (rec\<lparr>rr_checkpoint := c, rr_status := status, rr_updated_at := ts\<rparr>)
                            (st_runs st)\<rparr>),
                     Inr (next_seqs (event_bucket st rid) copies)))))))"

definition append_event ::
  "'e codecs \<Rightarrow> string \<Rightarrow> 'e \<Rightarrow> run_lease option \<Rightarrow> string \<Rightarrow> 'e run_store
   \<Rightarrow> 'e run_store \<times> int result" where
  "append_event cd rid event lease ts st =
     (case check_lease rid lease st of
        Inl e \<Rightarrow> (st, Inl e)
      | Inr _ \<Rightarrow>
        if rid \<notin> set (dict_keys (st_runs st)) then (st, Inl KeyError)
        else (let bucket = event_bucket st rid; seq = int (length bucket) + 1 in
              case cd_event cd event of
                Inl e \<Rightarrow> (st\<lparr>st_events := dict_setdefault rid [] (st_events st)\<rparr>, Inl e)
              | Inr copy \<Rightarrow>
                (st\<lparr>st_events := dict_set rid
                      (bucket @ [\<lparr>se_seq = seq, se_appended_at = ts, se_event = copy\<rparr>])
                      (st_events st)\<rparr>, Inr seq)))"

definition append_events ::
  "'e codecs \<Rightarrow> string \<Rightarrow> 'e list \<Rightarrow> run_lease option \<Rightarrow> string \<Rightarrow> 'e run_store
   \<Rightarrow> 'e run_store \<times> int list result" where
  "append_events cd rid events lease ts st =
     (if events = [] then
        (case (if lease \<noteq> None then check_lease rid lease st else Inr ()) of
           Inl e \<Rightarrow> (st, Inl e) | Inr _ \<Rightarrow> (st, Inr []))
      else case check_lease rid lease st of
        Inl e \<Rightarrow> (st, Inl e)
      | Inr _ \<Rightarrow>
        if rid \<notin> set (dict_keys (st_runs st)) then (st, Inl KeyError)
        else case map_result (cd_event cd) events of
            Inl e \<Rightarrow> (st, Inl e)
          | Inr copies \<Rightarrow>
              (extend_events rid ts copies st, Inr (next_seqs (event_bucket st rid) copies)))"

definition load_events ::
  "'e codecs \<Rightarrow> string \<Rightarrow> int \<Rightarrow> 'e run_store \<Rightarrow> 'e stored_event list result" where
  "load_events cd rid after_seq st =
     map_result (\<lambda>row. bind_result (cd_event cd (se_event row)) (\<lambda>e. Inr (row\<lparr>se_event := e\<rparr>)))
       (filter (\<lambda>row. after_seq < se_seq row) (event_bucket st rid))"

text \<open>
  \<^verbatim>\<open>mark_completed\<close> and \<^verbatim>\<open>mark_failed\<close> also set the phase on the caller's own checkpoint
  object. It is the argument here and not part of the store.
\<close>

definition mark_completed ::
  "'e codecs \<Rightarrow> string \<Rightarrow> run_checkpoint \<Rightarrow> run_lease option \<Rightarrow> string \<Rightarrow> 'e run_store
   \<Rightarrow> 'e run_store \<times> unit result" where
  "mark_completed cd rid checkpoint lease ts st =
     (case check_lease rid lease st of
        Inl e \<Rightarrow> (st, Inl e)
      | Inr _ \<Rightarrow>
        save_checkpoint cd rid (checkpoint\<lparr>cp_phase := JStr ''completed''\<rparr>) ''completed'' lease ts st)"

definition mark_failed ::
  "'e codecs \<Rightarrow> string \<Rightarrow> run_checkpoint option \<Rightarrow> json_obj option \<Rightarrow> 'e list
   \<Rightarrow> run_lease option \<Rightarrow> string \<Rightarrow> 'e run_store \<Rightarrow> 'e run_store \<times> int list result" where
  "mark_failed cd rid checkpoint err events lease ts st =
     (case check_lease rid lease st of
        Inl e \<Rightarrow> (st, Inl e)
      | Inr _ \<Rightarrow>
        (case dict_get (st_runs st) rid of
           None \<Rightarrow> (st, Inl KeyError)
         | Some rec \<Rightarrow>
           (case (case checkpoint of
                    Some cp \<Rightarrow> copy_checkpoint cd (Some cp)
                  | None \<Rightarrow> Inr (rr_checkpoint rec)) of
              Inl e \<Rightarrow> (st, Inl e)
            | Inr c \<Rightarrow>
              (case map_result (cd_event cd) events of
                 Inl e \<Rightarrow> (st, Inl e)
               | Inr copies \<Rightarrow>
                 (let meta = safe_meta cd (JDict (rr_meta rec));
                      meta' = (case err of None \<Rightarrow> meta | Some x \<Rightarrow> append_run_error cd meta x);
                      c' = (if checkpoint = None then c
                            else map_option (\<lambda>p. p\<lparr>cp_phase := JStr ''failed''\<rparr>) c)
                  in if rid \<notin> set (dict_keys (st_events st)) then (st, Inl KeyError)
                     else (extend_events rid ts copies
                             (st\<lparr>st_runs := dict_set rid
                                  (rec\<lparr>rr_checkpoint := c', rr_meta := meta',
                                       rr_status := ''failed'', rr_updated_at := ts\<rparr>)
                                  (st_runs st)\<rparr>),
                           Inr (next_seqs (event_bucket st rid) copies)))))))"

section \<open>Model-input snapshots\<close>

text \<open>
  \<open>made\<close> is the outcome of \<^verbatim>\<open>create_model_input_snapshot\<close>, whose encoder and hash are native;
  \<open>valid\<close> is its counterpart on reading.
\<close>

definition save_snapshot ::
  "string \<Rightarrow> model_input_snapshot result \<Rightarrow> run_lease option \<Rightarrow> 'e run_store
   \<Rightarrow> 'e run_store \<times> model_input_snapshot result" where
  "save_snapshot rid made lease st =
     (case check_lease rid lease st of
        Inl e \<Rightarrow> (st, Inl e)
      | Inr _ \<Rightarrow>
        if rid \<notin> set (dict_keys (st_runs st)) then (st, Inl KeyError)
        else case made of
            Inl e \<Rightarrow> (st, Inl e)
          | Inr sn \<Rightarrow> (st\<lparr>st_snapshots := dict_set (sn_id sn) sn (st_snapshots st)\<rparr>, Inr sn))"

definition load_snapshot ::
  "(model_input_snapshot \<Rightarrow> model_input_snapshot result) \<Rightarrow> string \<Rightarrow> 'e run_store
   \<Rightarrow> model_input_snapshot option result" where
  "load_snapshot valid sid st = (case dict_get (st_snapshots st) sid of
       None \<Rightarrow> Inr None
     | Some sn \<Rightarrow> bind_result (valid sn) (\<lambda>s. Inr (Some s)))"

definition delete_snapshot ::
  "string \<Rightarrow> string \<Rightarrow> run_lease option \<Rightarrow> 'e run_store \<Rightarrow> 'e run_store \<times> unit result" where
  "delete_snapshot sid rid lease st =
     (case check_lease rid lease st of
        Inl e \<Rightarrow> (st, Inl e)
      | Inr _ \<Rightarrow>
        (case dict_get (st_snapshots st) sid of
           Some sn \<Rightarrow>
             if sn_run_id sn \<noteq> rid then (st, Inr ())
             else (st\<lparr>st_snapshots := dict_pop sid (st_snapshots st)\<rparr>, Inr ())
         | None \<Rightarrow> (st\<lparr>st_snapshots := dict_pop sid (st_snapshots st)\<rparr>, Inr ())))"

definition prune_snapshots ::
  "string \<Rightarrow> string list \<Rightarrow> run_lease option \<Rightarrow> 'e run_store \<Rightarrow> 'e run_store \<times> int result" where
  "prune_snapshots rid keep_ids lease st =
     (case check_lease rid lease st of
        Inl e \<Rightarrow> (st, Inl e)
      | Inr _ \<Rightarrow>
        (let doomed = map fst (filter (\<lambda>(sid, sn). sn_run_id sn = rid \<and> sid \<notin> set keep_ids)
                         (st_snapshots st))
         in (st\<lparr>st_snapshots := fold dict_pop doomed (st_snapshots st)\<rparr>, Inr (int (length doomed)))))"

lemmas [run_store_defs] =
  create_run_def save_checkpoint_def save_checkpoint_with_events_def append_event_def
  append_events_def mark_completed_def mark_failed_def save_snapshot_def delete_snapshot_def
  prune_snapshots_def extend_events_def

section \<open>Fencing\<close>

text \<open>
  A fencing token per key: a holder and an epoch. Along every step the epoch never goes back,
  and the holder changes only together with the epoch.
\<close>

locale fenced =
  fixes step :: "'s \<Rightarrow> 's \<Rightarrow> bool"
    and holder :: "'s \<Rightarrow> 'k \<Rightarrow> 'o option"
    and epoch :: "'s \<Rightarrow> 'k \<Rightarrow> int"
  assumes epoch_mono: "step s s' \<Longrightarrow> epoch s k \<le> epoch s' k"
    and holder_stable: "step s s' \<Longrightarrow> epoch s' k = epoch s k \<Longrightarrow> holder s' k = holder s k"
begin

lemma steps_epoch_mono: "step\<^sup>*\<^sup>* s s' \<Longrightarrow> epoch s k \<le> epoch s' k"
  by (induction rule: rtranclp_induct) (auto dest: epoch_mono intro: order_trans)

lemma steps_holder_stable: "step\<^sup>*\<^sup>* s s' \<Longrightarrow> epoch s' k = epoch s k \<Longrightarrow> holder s' k = holder s k"
proof (induction rule: rtranclp_induct)
  case (step t u)
  from steps_epoch_mono [OF step(1), of k] epoch_mono [OF step(2), of k] step(4)
  have "epoch t k = epoch s k" "epoch u k = epoch t k" by simp_all
  with step(2,3) holder_stable show ?case by metis
qed simp

text \<open>A token that has been superseded never becomes current again.\<close>

lemma superseded:
  assumes "holder s k = Some o1" "epoch s k = n" and "step\<^sup>*\<^sup>* s s1"
    and "(holder s1 k, epoch s1 k) \<noteq> (Some o1, n)" and "step\<^sup>*\<^sup>* s1 s2"
  shows "n < epoch s2 k"
proof -
  from assms(1-4) steps_holder_stable [OF assms(3)] have "epoch s1 k \<noteq> n" by auto
  with steps_epoch_mono [OF assms(3), of k] steps_epoch_mono [OF assms(5), of k] assms(2)
  show ?thesis by simp
qed

end

section \<open>Invariant\<close>

definition runs_ok :: "(string, run_record) dict \<Rightarrow> bool" where
  "runs_ok runs \<longleftrightarrow>
     dict_ok runs \<and> (\<forall>(k, r) \<in> set runs. rr_id r = k)
     \<and> (\<forall>r1 \<in> snd ` set runs. \<forall>r2 \<in> snd ` set runs.
          active r1 \<and> active r2 \<and> rr_session_id r1 = rr_session_id r2 \<longrightarrow> rr_id r1 = rr_id r2)"

definition log_ok :: "'e stored_event list \<Rightarrow> bool" where
  "log_ok b \<longleftrightarrow> map se_seq b = map (\<lambda>i. 1 + int i) [0..<length b]"

definition events_ok :: "(string, 'e stored_event list) dict \<Rightarrow> bool" where
  "events_ok evs \<longleftrightarrow> dict_ok evs \<and> (\<forall>(k, b) \<in> set evs. log_ok b)"

definition store_inv :: "'e run_store \<Rightarrow> bool" where
  "store_inv st \<longleftrightarrow>
     runs_ok (st_runs st) \<and> events_ok (st_events st) \<and> dict_ok (st_snapshots st)
     \<and> dict_ok (st_lease_state st)
     \<and> fst ` set (st_runs st) \<subseteq> fst ` set (st_events st)"

lemma busy_row_None:
  "busy_row sid rid rows = None \<longleftrightarrow>
     (\<forall>row \<in> set rows. \<not> (rr_session_id row = sid \<and> rr_id row \<noteq> rid \<and> active row))"
  by (induction rows) auto

lemma set_dict_set:
  "dict_ok d \<Longrightarrow> set (dict_set k v d) = insert (k, v) {(k', v') \<in> set d. k' \<noteq> k}"
  by (induction d) (auto simp: image_iff)

lemma set_dict_pop: "set (dict_pop k d) = {(k', v) \<in> set d. k' \<noteq> k}"
  by (auto simp: AList.delete_eq)

lemma runs_ok_set:
  assumes "runs_ok runs" and "rr_id r = rid"
    and "active r \<Longrightarrow> busy_row (rr_session_id r) rid (dict_values runs) = None"
  shows "runs_ok (dict_set rid r runs)"
proof -
  have free: "rr_id x = rid" if "active r" "x \<in> snd ` set runs" "active x"
    "rr_session_id x = rr_session_id r" for x
    using assms(3) that by (auto simp: busy_row_None)
  from assms(1) have ok: "dict_ok runs" and key: "\<And>k x. (k, x) \<in> set runs \<Longrightarrow> rr_id x = k"
    and one: "\<And>x y. x \<in> snd ` set runs \<Longrightarrow> y \<in> snd ` set runs \<Longrightarrow> active x \<Longrightarrow> active y \<Longrightarrow>
      rr_session_id x = rr_session_id y \<Longrightarrow> rr_id x = rr_id y"
    by (auto simp: runs_ok_def)
  have "\<forall>x \<in> snd ` set (dict_set rid r runs). \<forall>y \<in> snd ` set (dict_set rid r runs).
      active x \<and> active y \<and> rr_session_id x = rr_session_id y \<longrightarrow> rr_id x = rr_id y"
  proof (intro ballI impI, elim conjE)
    fix x y
    assume x: "x \<in> snd ` set (dict_set rid r runs)" and y: "y \<in> snd ` set (dict_set rid r runs)"
      and a: "active x" "active y" "rr_session_id x = rr_session_id y"
    from x have x': "x = r \<or> x \<in> snd ` set runs" by (auto simp: set_dict_set [OF ok])
    from y have y': "y = r \<or> y \<in> snd ` set runs" by (auto simp: set_dict_set [OF ok])
    show "rr_id x = rr_id y"
    proof (cases "x = r")
      case True
      with a y' free [of y] assms(2) show ?thesis by (cases "y = r") simp_all
    next
      case x: False
      show ?thesis
      proof (cases "y = r")
        case True
        with a x x' free [of x] assms(2) show ?thesis by simp
      next
        case False
        with a x x' y' one [of x y] show ?thesis by simp
      qed
    qed
  qed
  moreover have "\<forall>(k, x) \<in> set (dict_set rid r runs). rr_id x = k"
    by (auto simp: set_dict_set [OF ok] assms(2) dest: key)
  moreover have "dict_ok (dict_set rid r runs)" using ok by simp
  ultimately show ?thesis unfolding runs_ok_def by blast
qed

lemma runs_ok_get: "runs_ok runs \<Longrightarrow> dict_get runs rid = Some r \<Longrightarrow> rr_id r = rid"
  by (auto simp: runs_ok_def dest!: map_of_SomeD)

lemma dict_get_key: "dict_get d k = Some v \<Longrightarrow> k \<in> fst ` set d"
  by (force dest: map_of_SomeD)

lemma admit_Inr:
  "admit sid rid status st = Inr u \<longleftrightarrow>
     (status \<in> set active_statuses \<longrightarrow> busy_row sid rid (dict_values (st_runs st)) = None)"
  by (auto simp: admit_def split: option.splits)

lemma event_bucket_ok: "events_ok (st_events st) \<Longrightarrow> log_ok (event_bucket st rid)"
  by (auto simp: events_ok_def event_bucket_def log_ok_def split: option.splits dest!: map_of_SomeD)

lemma length_stamp_events [simp]: "length (stamp_events ts b es) = length es"
  by (simp add: stamp_events_def next_seqs_def)

lemma map_stamp_events:
  "map se_seq (stamp_events ts b es) = next_seqs b es"
  "map se_event (stamp_events ts b es) = es"
  by (rule nth_equalityI; simp add: stamp_events_def next_seqs_def)+

lemma event_bucket_extend:
  "event_bucket (extend_events rid ts es st) rid' =
     (if rid' = rid then event_bucket st rid @ stamp_events ts (event_bucket st rid) es
      else event_bucket st rid')"
  by (simp add: extend_events_def event_bucket_def)

text \<open>The event log of each run is an append log; the other components do not touch it.\<close>

interpretation run_log: append_log
  "\<lambda>st es. extend_events rid ts es st" "\<lambda>st. event_bucket st rid" se_seq se_event
  for rid ts
  by unfold_locales (simp_all add: event_bucket_extend map_stamp_events next_seqs_def)

lemma run_log_contiguous: "run_log.contiguous rid st \<longleftrightarrow> log_ok (event_bucket st rid)"
  by (simp add: run_log.contiguous_def log_ok_def)

lemma events_ok_set: "events_ok evs \<Longrightarrow> log_ok b \<Longrightarrow> events_ok (dict_set rid b evs)"
  unfolding events_ok_def by (auto simp: set_dict_set)

lemma extend_events_inv:
  assumes "store_inv st" and "rid \<in> fst ` set (st_runs st)"
  shows "store_inv (extend_events rid ts es st)"
proof -
  from assms(1) have ev: "events_ok (st_events st)" by (simp add: store_inv_def)
  from run_log.contiguous_append [of rid st ts es] event_bucket_ok [OF ev]
  have "log_ok (event_bucket (extend_events rid ts es st) rid)" by (simp add: run_log_contiguous)
  with events_ok_set [OF ev, of _ rid] assms show ?thesis
    by (auto simp: store_inv_def extend_events_def event_bucket_extend event_bucket_def)
qed

lemma runs_set_inv:
  assumes "store_inv st" and "rid \<in> fst ` set (st_events st)" and "rr_id r = rid"
    and "active r \<Longrightarrow> busy_row (rr_session_id r) rid (dict_values (st_runs st)) = None"
  shows "store_inv (st\<lparr>st_runs := dict_set rid r (st_runs st)\<rparr>)"
  using assms runs_ok_set [of "st_runs st" r rid] by (auto simp: store_inv_def)

lemma store_inv_runs_events: "store_inv st \<Longrightarrow> rid \<in> fst ` set (st_runs st) \<Longrightarrow> rid \<in> fst ` set (st_events st)"
  by (auto simp: store_inv_def)

lemma store_inv_get: "store_inv st \<Longrightarrow> dict_get (st_runs st) rid = Some r \<Longrightarrow> rr_id r = rid"
  using runs_ok_get [of "st_runs st"] by (simp add: store_inv_def)

lemma save_checkpoint_inv:
  assumes "store_inv st"
  shows "store_inv (fst (save_checkpoint cd rid cp status lease ts st))"
proof (cases "dict_get (st_runs st) rid")
  case None
  then show ?thesis using assms by (auto simp: save_checkpoint_def split: sum.split)
next
  case (Some rec)
  note key = dict_get_key [OF Some] and rid = store_inv_get [OF assms Some]
  have "store_inv (st\<lparr>st_runs := dict_set rid
      (rec\<lparr>rr_checkpoint := c, rr_status := status, rr_updated_at := ts\<rparr>) (st_runs st)\<rparr>)"
    if "admit (rr_session_id rec) rid status st = Inr ()" for c
    by (rule runs_set_inv [OF assms store_inv_runs_events [OF assms key]])
      (use rid that in \<open>simp_all add: admit_Inr active_def\<close>)
  with Some assms show ?thesis by (auto simp: save_checkpoint_def split: sum.split)
qed

lemma extend_events_runs [simp]:
  "st_runs (extend_events rid ts es st) = st_runs st"
  "st_snapshots (extend_events rid ts es st) = st_snapshots st"
  "st_lease_state (extend_events rid ts es st) = st_lease_state st"
  by (simp_all add: extend_events_def)

lemma save_checkpoint_with_events_inv:
  assumes "store_inv st"
  shows "store_inv (fst (save_checkpoint_with_events cd rid cp es status lease ts st))"
proof (cases "dict_get (st_runs st) rid")
  case None
  then show ?thesis using assms by (auto simp: save_checkpoint_with_events_def split: sum.split)
next
  case (Some rec)
  note key = dict_get_key [OF Some] and rid = store_inv_get [OF assms Some]
  have "store_inv (extend_events rid ts copies (st\<lparr>st_runs := dict_set rid
      (rec\<lparr>rr_checkpoint := c, rr_status := status, rr_updated_at := ts\<rparr>) (st_runs st)\<rparr>))"
    if "admit (rr_session_id rec) rid status st = Inr ()" for c copies
    by (rule extend_events_inv [OF runs_set_inv [OF assms store_inv_runs_events [OF assms key]]])
      (use rid that key in \<open>simp_all add: admit_Inr active_def\<close>)
  with Some assms show ?thesis by (auto simp: save_checkpoint_with_events_def split: sum.split)
qed

lemma append_event_extend:
  "cd_event cd e = Inr c \<Longrightarrow> check_lease rid lease st = Inr u \<Longrightarrow> rid \<in> fst ` set (st_runs st) \<Longrightarrow>
     append_event cd rid e lease ts st
     = (extend_events rid ts [c] st, Inr (int (length (event_bucket st rid)) + 1))"
  by (simp add: append_event_def Let_def extend_events_def stamp_events_def next_seqs_def)

lemma append_event_inv:
  assumes "store_inv st"
  shows "store_inv (fst (append_event cd rid e lease ts st))"
proof (cases "check_lease rid lease st")
  case (Inr u)
  show ?thesis
  proof (cases "rid \<in> fst ` set (st_runs st)")
    case run: True
    show ?thesis
    proof (cases "cd_event cd e")
      case (Inl x)
      from store_inv_runs_events [OF assms run] obtain b where
        "dict_get (st_events st) rid = Some b" by (metis dict_get_None_iff list.set_map not_Some_eq)
      with Inl Inr run assms show ?thesis by (simp add: append_event_def Let_def)
    next
      case copy: (Inr c)
      from append_event_extend [OF copy Inr run] extend_events_inv [OF assms run] show ?thesis
        by simp
    qed
  next
    case False
    with Inr assms show ?thesis by (simp add: append_event_def)
  qed
qed (use assms in \<open>simp add: append_event_def\<close>)

lemma append_events_inv:
  assumes "store_inv st"
  shows "store_inv (fst (append_events cd rid es lease ts st))"
  using assms extend_events_inv [OF assms, of rid]
  by (auto simp: append_events_def split: sum.split)

lemma mark_completed_inv:
  "store_inv st \<Longrightarrow> store_inv (fst (mark_completed cd rid cp lease ts st))"
  using save_checkpoint_inv by (auto simp: mark_completed_def split: sum.split)

lemma mark_failed_inv:
  assumes "store_inv st"
  shows "store_inv (fst (mark_failed cd rid cp err es lease ts st))"
proof (cases "dict_get (st_runs st) rid")
  case None
  then show ?thesis using assms by (auto simp: mark_failed_def split: sum.split)
next
  case (Some rec)
  note key = dict_get_key [OF Some] and rid = store_inv_get [OF assms Some]
  have "store_inv (extend_events rid ts copies (st\<lparr>st_runs := dict_set rid
      (rec\<lparr>rr_checkpoint := c, rr_meta := m, rr_status := ''failed'', rr_updated_at := ts\<rparr>)
      (st_runs st)\<rparr>))" for c m copies
    by (rule extend_events_inv [OF runs_set_inv [OF assms store_inv_runs_events [OF assms key]]])
      (use rid key in \<open>simp_all add: active_def active_statuses_def\<close>)
  with Some assms show ?thesis by (auto simp: mark_failed_def Let_def split: sum.split)
qed

lemma create_run_inv:
  assumes "store_inv st"
  shows "store_inv (fst (create_run cd sid uuid rid_arg meta cp lease ts st))"
proof -
  define rid where "rid = (case rid_arg of None \<Rightarrow> uuid | Some r \<Rightarrow> if r = [] then uuid else r)"
  have old: "store_inv (st\<lparr>st_runs := dict_set rid (r\<lparr>rr_meta := m, rr_status := ''running'',
      rr_checkpoint := c, rr_updated_at := ts\<rparr>) (st_runs st)\<rparr>)"
    if "dict_get (st_runs st) rid = Some r" "admit sid rid ''running'' st = Inr ()"
      "rr_session_id r = sid" for r m c
    by (rule runs_set_inv [OF assms store_inv_runs_events [OF assms dict_get_key [OF that(1)]]])
      (use store_inv_get [OF assms that(1)] that(2,3) in
        \<open>simp_all add: admit_Inr active_def active_statuses_def\<close>)
  have new: "store_inv (st\<lparr>st_runs := dict_set rid \<lparr>rr_id = rid, rr_session_id = sid,
        rr_status = ''running'', rr_created_at = ts, rr_updated_at = ts, rr_checkpoint = c,
        rr_meta = m\<rparr> (st_runs st),
      st_events := dict_set rid [] (st_events st),
      st_lease_state := dict_setdefault rid (None, None, 0) (st_lease_state st)\<rparr>)"
    if "admit sid rid ''running'' st = Inr ()" for m c
  proof -
    have "runs_ok (dict_set rid \<lparr>rr_id = rid, rr_session_id = sid, rr_status = ''running'',
        rr_created_at = ts, rr_updated_at = ts, rr_checkpoint = c, rr_meta = m\<rparr> (st_runs st))"
      using assms that by (intro runs_ok_set) (auto simp: store_inv_def admit_Inr active_statuses_def)
    moreover have "events_ok (dict_set rid [] (st_events st))"
      using assms by (intro events_ok_set) (auto simp: store_inv_def log_ok_def)
    ultimately show ?thesis using assms by (auto simp: store_inv_def split: option.split)
  qed
  show ?thesis
    using assms old new unfolding create_run_def rid_def [symmetric] Let_def
    by (auto split: sum.split option.split)
qed

lemma snapshots_inv:
  assumes "store_inv st"
  shows "store_inv (fst (save_snapshot rid made lease st))"
    and "store_inv (fst (delete_snapshot sid rid lease st))"
    and "store_inv (fst (prune_snapshots rid keep lease st))"
proof -
  have "dict_ok (fold dict_pop ks d)" if "dict_ok d" for ks and d :: "(string, model_input_snapshot) dict"
    using that by (induction ks arbitrary: d) simp_all
  then show "store_inv (fst (prune_snapshots rid keep lease st))"
    using assms by (auto simp: prune_snapshots_def store_inv_def Let_def split: sum.split)
  show "store_inv (fst (save_snapshot rid made lease st))"
    "store_inv (fst (delete_snapshot sid rid lease st))"
    using assms by (auto simp: save_snapshot_def delete_snapshot_def store_inv_def
        split: sum.split option.split)
qed

lemma leases_inv:
  assumes "store_inv st"
  shows "store_inv (fst (claim rid owner ttl now st))"
    and "store_inv (fst (renew l now1 now2 st))"
    and "store_inv (fst (release l st))"
  using assms
  by (auto simp: claim_def renew_def release_def store_inv_def Let_def split: sum.split prod.split option.split)

section \<open>Steps\<close>

text \<open>One step is one call of a method that may write.\<close>

inductive store_step :: "'e run_store \<Rightarrow> 'e run_store \<Rightarrow> bool" where
  step_create: "store_step st (fst (create_run cd sid uuid rid_arg meta cp lease ts st))"
| step_claim: "store_step st (fst (claim rid owner ttl now st))"
| step_renew: "store_step st (fst (renew l now1 now2 st))"
| step_release: "store_step st (fst (release l st))"
| step_save: "store_step st (fst (save_checkpoint cd rid cp' status lease ts st))"
| step_save_events:
    "store_step st (fst (save_checkpoint_with_events cd rid cp' es status lease ts st))"
| step_append: "store_step st (fst (append_event cd rid e lease ts st))"
| step_append_all: "store_step st (fst (append_events cd rid es lease ts st))"
| step_completed: "store_step st (fst (mark_completed cd rid cp' lease ts st))"
| step_failed: "store_step st (fst (mark_failed cd rid cp err es lease ts st))"
| step_snapshot: "store_step st (fst (save_snapshot rid made lease st))"
| step_delete: "store_step st (fst (delete_snapshot snid rid lease st))"
| step_prune: "store_step st (fst (prune_snapshots rid keep lease st))"

inductive_cases store_stepE: "store_step st st'"

lemma store_step_inv: "store_step st st' \<Longrightarrow> store_inv st \<Longrightarrow> store_inv st'"
  by (induction rule: store_step.induct)
    (simp_all add: create_run_inv leases_inv save_checkpoint_inv save_checkpoint_with_events_inv
      append_event_inv append_events_inv mark_completed_inv mark_failed_inv snapshots_inv)

lemma store_steps_inv: "store_step\<^sup>*\<^sup>* st st' \<Longrightarrow> store_inv st \<Longrightarrow> store_inv st'"
  by (induction rule: rtranclp_induct) (auto dest: store_step_inv)

lemma new_run_store_inv: "store_inv new_run_store"
  by (simp add: store_inv_def new_run_store_def runs_ok_def events_ok_def)

text \<open>
  C35: Whatever sequence of calls a store has served, a session has at most one run that is
  pending, running, waiting or suspended, and every event log is numbered from one without gap
  or repetition.
\<close>

theorem run_store_invariant:
  assumes "store_step\<^sup>*\<^sup>* new_run_store st"
  shows "(dict_get (st_runs st) rid1 = Some r1 \<and> dict_get (st_runs st) rid2 = Some r2
            \<and> active r1 \<and> active r2 \<and> rr_session_id r1 = rr_session_id r2 \<longrightarrow> rid1 = rid2)
       \<and> map se_seq (event_bucket st rid)
         = map (\<lambda>i. 1 + int i) [0..<length (event_bucket st rid)]"
proof -
  from store_steps_inv [OF assms new_run_store_inv] have inv: "store_inv st" .
  then have "map se_seq (event_bucket st rid) = map (\<lambda>i. 1 + int i) [0..<length (event_bucket st rid)]"
    using event_bucket_ok [of st rid] by (simp add: store_inv_def log_ok_def)
  moreover have "rid1 = rid2" if "dict_get (st_runs st) rid1 = Some r1"
    "dict_get (st_runs st) rid2 = Some r2" "active r1" "active r2"
    "rr_session_id r1 = rr_session_id r2"
  proof -
    from that(1,2) have "r1 \<in> snd ` set (st_runs st)" "r2 \<in> snd ` set (st_runs st)"
      by (force dest: map_of_SomeD)+
    with inv that(3-5) have "rr_id r1 = rr_id r2" unfolding store_inv_def runs_ok_def by blast
    with store_inv_get [OF inv that(1)] store_inv_get [OF inv that(2)] show ?thesis by simp
  qed
  ultimately show ?thesis by blast
qed

section \<open>Fencing\<close>

definition lease_holder :: "'e run_store \<Rightarrow> string \<Rightarrow> string option" where
  "lease_holder st rid = fst (lease_entry_of st rid)"

definition lease_epoch :: "'e run_store \<Rightarrow> string \<Rightarrow> int" where
  "lease_epoch st rid = snd (snd (lease_entry_of st rid))"

lemma lease_frame:
  "st_lease_state (fst (save_checkpoint cd rid cp' status lease ts st)) = st_lease_state st"
  "st_lease_state (fst (save_checkpoint_with_events cd rid cp' es status lease ts st)) = st_lease_state st"
  "st_lease_state (fst (append_event cd rid e lease ts st)) = st_lease_state st"
  "st_lease_state (fst (append_events cd rid es lease ts st)) = st_lease_state st"
  "st_lease_state (fst (mark_completed cd rid cp' lease ts st)) = st_lease_state st"
  "st_lease_state (fst (mark_failed cd rid cp err es lease ts st)) = st_lease_state st"
  "st_lease_state (fst (save_snapshot rid made lease st)) = st_lease_state st"
  "st_lease_state (fst (delete_snapshot snid rid lease st)) = st_lease_state st"
  "st_lease_state (fst (prune_snapshots rid keep lease st)) = st_lease_state st"
  by (auto simp: run_store_defs Let_def split: sum.split option.split)

lemma lease_entry_frame:
  "st_lease_state st' = st_lease_state st \<Longrightarrow>
     lease_holder st' k = lease_holder st k \<and> lease_epoch st' k = lease_epoch st k"
  by (simp add: lease_holder_def lease_epoch_def lease_entry_of_def)

lemma lease_entry_set:
  "lease_entry_of (st\<lparr>st_lease_state := dict_set rid x (st_lease_state st)\<rparr>) k =
     (if k = rid then x else lease_entry_of st k)"
  by (simp add: lease_entry_of_def)

definition default_lease ::
  "string \<Rightarrow> (string, lease_entry) dict \<Rightarrow> (string, lease_entry) dict" where
  "default_lease rid leases = dict_setdefault rid (None, None, 0) leases"

lemma create_run_lease_state:
  "st_lease_state (fst (create_run cd sid uuid rid_arg meta cp lease ts st)) = st_lease_state st
   \<or> (\<exists>rid. st_lease_state (fst (create_run cd sid uuid rid_arg meta cp lease ts st))
              = default_lease rid (st_lease_state st))"
  unfolding create_run_def Let_def default_lease_def [symmetric]
  by (simp split: sum.split option.split) blast

lemma default_lease_get:
  "dict_get (default_lease rid d) k =
     (if k = rid \<and> dict_get d k = None then Some (None, None, 0) else dict_get d k)"
  by (auto simp: default_lease_def split: option.split)

lemma create_run_lease:
  "lease_entry_of (fst (create_run cd sid uuid rid_arg meta cp lease ts st)) k = lease_entry_of st k"
  using create_run_lease_state [of cd sid uuid rid_arg meta cp lease ts st]
  by (auto simp: lease_entry_of_def default_lease_get split: option.split if_splits)

lemma claim_lease:
  "lease_epoch st k \<le> lease_epoch (fst (claim rid owner ttl now st)) k
   \<and> (lease_epoch (fst (claim rid owner ttl now st)) k = lease_epoch st k
      \<longrightarrow> lease_holder (fst (claim rid owner ttl now st)) k = lease_holder st k)"
  by (cases "lease_entry_of st rid")
    (auto simp: claim_def lease_epoch_def lease_holder_def lease_entry_set Let_def split: sum.split)

lemma renew_lease:
  "lease_epoch (fst (renew l now1 now2 st)) k = lease_epoch st k
   \<and> lease_holder (fst (renew l now1 now2 st)) k = lease_holder st k"
  by (cases "lease_entry_of st (ls_run_id l)")
    (auto simp: renew_def lease_epoch_def lease_holder_def lease_entry_set Let_def split: sum.split)

lemma release_lease:
  "lease_epoch st k \<le> lease_epoch (fst (release l st)) k
   \<and> (lease_epoch (fst (release l st)) k = lease_epoch st k
      \<longrightarrow> lease_holder (fst (release l st)) k = lease_holder st k)"
  by (cases "lease_entry_of st (ls_run_id l)")
    (auto simp: release_def lease_epoch_def lease_holder_def lease_entry_set Let_def split: sum.split)

lemma store_step_lease:
  "store_step st st' \<Longrightarrow> lease_epoch st k \<le> lease_epoch st' k
     \<and> (lease_epoch st' k = lease_epoch st k \<longrightarrow> lease_holder st' k = lease_holder st k)"
proof (induction rule: store_step.induct)
  case (step_create st cd sid uuid rid_arg meta cp lease ts)
  show ?case by (simp add: lease_epoch_def lease_holder_def create_run_lease)
next
  case (step_claim st rid owner ttl now)
  show ?case by (rule claim_lease)
next
  case (step_release st l)
  show ?case by (rule release_lease)
qed (simp_all add: renew_lease lease_entry_frame [OF lease_frame(1)] lease_entry_frame [OF lease_frame(2)]
    lease_entry_frame [OF lease_frame(3)] lease_entry_frame [OF lease_frame(4)]
    lease_entry_frame [OF lease_frame(5)] lease_entry_frame [OF lease_frame(6)]
    lease_entry_frame [OF lease_frame(7)] lease_entry_frame [OF lease_frame(8)]
    lease_entry_frame [OF lease_frame(9)])

interpretation run_lease: fenced store_step lease_holder lease_epoch
  by (unfold_locales; rule store_step_lease [THEN conjunct1] store_step_lease [THEN conjunct2, THEN mp])

lemma claim_Inr:
  assumes "claim rid owner ttl now st = (st', Inr l)"
  shows "ls_run_id l = rid \<and> ls_owner l = owner
         \<and> lease_holder st' rid = Some owner \<and> lease_epoch st' rid = ls_epoch l
         \<and> (lease_holder st rid = Some owner \<or> lease_epoch st rid < ls_epoch l)"
  using assms
  by (cases "lease_entry_of st rid")
    (auto simp: claim_def Let_def lease_holder_def lease_epoch_def lease_entry_set
      split: sum.splits if_splits)

lemma check_lease_superseded:
  assumes "lease_epoch st (ls_run_id l) \<noteq> ls_epoch l"
  shows "check_lease rid (Some l) st = Inl LeaseLostError"
proof -
  have "validate_lease_run rid (Some l) = Inr () \<or> validate_lease_run rid (Some l) = Inl LeaseLostError"
    by (simp add: validate_lease_run_def)
  then show ?thesis
  proof
    assume ok: "validate_lease_run rid (Some l) = Inr ()"
    then have "ls_run_id l = rid" by (simp add: validate_lease_run_def split: if_splits)
    with ok assms show ?thesis
      by (auto simp: check_lease_def lease_epoch_def lease_entry_of_def split: option.splits)
  qed (simp add: check_lease_def)
qed

text \<open>Every operation of a writer starts with the check, and stops there.\<close>

lemma stale_lease_blocks:
  assumes "check_lease rid (Some l) st = Inl LeaseLostError"
  shows "save_checkpoint cd rid cp status (Some l) ts st = (st, Inl LeaseLostError)"
    and "save_checkpoint_with_events cd rid cp es status (Some l) ts st = (st, Inl LeaseLostError)"
    and "append_event cd rid e (Some l) ts st = (st, Inl LeaseLostError)"
    and "append_events cd rid es (Some l) ts st = (st, Inl LeaseLostError)"
    and "mark_completed cd rid cp (Some l) ts st = (st, Inl LeaseLostError)"
    and "mark_failed cd rid cpo err es (Some l) ts st = (st, Inl LeaseLostError)"
    and "save_snapshot rid made (Some l) st = (st, Inl LeaseLostError)"
    and "delete_snapshot snid rid (Some l) st = (st, Inl LeaseLostError)"
    and "prune_snapshots rid keep (Some l) st = (st, Inl LeaseLostError)"
  using assms by (simp_all add: run_store_defs)

lemma stale_lease_adopts_nothing:
  assumes "check_lease rid (Some l) st = Inl LeaseLostError" and "ls_run_id l = rid"
  shows "create_run cd sid uuid rid_arg meta cpo (Some l) ts st
      = (st, Inl (case copy_checkpoint cd cpo of Inl e \<Rightarrow> e | Inr c \<Rightarrow> LeaseLostError))"
proof -
  have "bind_result (validate_lease_run k (Some l)) (\<lambda>_. check_lease k (Some l) st) = Inl LeaseLostError" for k
    using assms by (cases "k = rid"; cases "validate_lease_run k (Some l)")
      (auto simp: validate_lease_run_def split: if_splits)
  then show ?thesis
    by (simp add: create_run_def Let_def split: sum.split option.split)
qed

lemma stale_lease_not_renewed:
  assumes "lease_epoch st (ls_run_id l) \<noteq> ls_epoch l"
  shows "renew l now1 now2 st = (st, Inl LeaseLostError)" "release l st = (st, Inl LeaseLostError)"
  using assms
  by (cases "lease_entry_of st (ls_run_id l)";
      auto simp: renew_def release_def lease_epoch_def validate_lease_run_def)+

text \<open>
  C36: Fencing. Once another worker has claimed a run, the lease of the previous holder is dead
  for good: in every later state each of its writes, to the run, its events, its checkpoints and
  its model-input snapshots, its adoption of a run, its renewal and its release are refused and
  leave the store as it was.
\<close>

theorem stale_writer_is_fenced:
  assumes "claim rid owner1 ttl1 now1 s0 = (s1, Inr l1)" and "store_step\<^sup>*\<^sup>* s1 s2"
    and "claim rid owner2 ttl2 now2 s2 = (s3, Inr l2)" and "owner2 \<noteq> owner1"
    and "store_step\<^sup>*\<^sup>* s3 s4"
  shows "save_checkpoint cd rid cp status (Some l1) ts s4 = (s4, Inl LeaseLostError)
       \<and> save_checkpoint_with_events cd rid cp es status (Some l1) ts s4 = (s4, Inl LeaseLostError)
       \<and> append_event cd rid e (Some l1) ts s4 = (s4, Inl LeaseLostError)
       \<and> append_events cd rid es (Some l1) ts s4 = (s4, Inl LeaseLostError)
       \<and> mark_completed cd rid cp (Some l1) ts s4 = (s4, Inl LeaseLostError)
       \<and> mark_failed cd rid cpo err es (Some l1) ts s4 = (s4, Inl LeaseLostError)
       \<and> save_snapshot rid made (Some l1) s4 = (s4, Inl LeaseLostError)
       \<and> delete_snapshot snid rid (Some l1) s4 = (s4, Inl LeaseLostError)
       \<and> prune_snapshots rid keep (Some l1) s4 = (s4, Inl LeaseLostError)
       \<and> create_run cd sid uuid rid_arg meta cpo (Some l1) ts s4
           = (s4, Inl (case copy_checkpoint cd cpo of Inl e \<Rightarrow> e | Inr c \<Rightarrow> LeaseLostError))
       \<and> renew l1 t1 t2 s4 = (s4, Inl LeaseLostError)
       \<and> release l1 s4 = (s4, Inl LeaseLostError)"
proof -
  note c1 = claim_Inr [OF assms(1)] and c2 = claim_Inr [OF assms(3)]
  have step2: "store_step s2 s3" using step_claim [of s2 rid owner2 ttl2 now2] assms(3) by simp
  with assms(2) have "store_step\<^sup>*\<^sup>* s1 s3" by simp
  from run_lease.superseded [OF _ _ this _ assms(5), of rid owner1 "ls_epoch l1"] c1 c2 assms(4)
  have epoch: "ls_epoch l1 < lease_epoch s4 rid" by simp
  then have stale: "check_lease rid (Some l1) s4 = Inl LeaseLostError"
    using c1 by (intro check_lease_superseded) auto
  have create: "create_run cd sid uuid rid_arg meta cpo (Some l1) ts s4
      = (s4, Inl (case copy_checkpoint cd cpo of Inl e \<Rightarrow> e | Inr c \<Rightarrow> LeaseLostError))"
    using stale_lease_adopts_nothing [OF stale] c1 by simp
  from stale_lease_blocks [OF stale] stale_lease_not_renewed [of s4 l1] epoch c1
  show ?thesis by (simp add: create)
qed

text \<open>
  Claiming succeeds exactly when the time to live is valid, the run exists and no other
  owner holds an unexpired lease; a holder that claims again keeps its epoch, everyone else gets
  a new one.
\<close>

lemma claim_decision:
  "claim rid owner ttl_s now st =
     (case validate_lease_ttl ttl_s of
        Inl e \<Rightarrow> (st, Inl e)
      | Inr ttl \<Rightarrow>
          if rid \<notin> fst ` set (st_runs st) then (st, Inl KeyError)
          else
            (let live = (lease_holder st rid \<noteq> None
                         \<and> (\<exists>x. fst (snd (lease_entry_of st rid)) = Some x \<and> pf_less now x))
             in if live \<and> lease_holder st rid \<noteq> Some owner then (st, Inl RunLeaseConflictError)
                else
                  (let n = (if live then lease_epoch st rid else lease_epoch st rid + 1)
                   in (st\<lparr>st_lease_state := dict_set rid (Some owner, Some (pf_add now ttl), n)
                            (st_lease_state st)\<rparr>,
                       Inr \<lparr>ls_run_id = rid, ls_owner = owner, ls_epoch = n,
                            ls_expires_at = pf_add now ttl, ls_ttl_s = ttl\<rparr>))))"
proof -
  obtain own x n where e: "lease_entry_of st rid = (own, x, n)" by (cases "lease_entry_of st rid")
  show ?thesis
    by (cases x; cases own)
      (auto simp: claim_def e lease_holder_def lease_epoch_def Let_def split: sum.split)
qed

lemma map_result_reload:
  assumes "\<And>e. e \<in> set (map se_event rows) \<Longrightarrow> cd_event cd e = Inr e"
  shows "map_result (\<lambda>row. bind_result (cd_event cd (se_event row)) (\<lambda>e. Inr (row\<lparr>se_event := e\<rparr>)))
     rows = Inr rows"
  using assms by (induction rows) auto

lemma map_result_codomain:
  "map_result f xs = Inr ys \<Longrightarrow> y \<in> set ys \<Longrightarrow> \<exists>x. f x = Inr y"
  by (induction xs arbitrary: ys) (auto simp: bind_result_Inr_iff)

text \<open>
  A reader that has seen the first \<open>n\<close> events of a run and asks for what comes after
  position \<open>n\<close> receives exactly the events appended since, each once, in order and under the
  positions the append reported. The event codec only has to return its own output unchanged.
\<close>

lemma event_tail_exactly_once:
  assumes "store_step\<^sup>*\<^sup>* new_run_store st" and "es \<noteq> []"
    and "append_events cd rid es lease ts st = (st', Inr seqs)"
    and "\<forall>e c. cd_event cd e = Inr c \<longrightarrow> cd_event cd c = Inr c"
  shows "\<exists>rows. load_events cd rid (int (length (event_bucket st rid))) st' = Inr rows
           \<and> map se_seq rows = seqs \<and> map_result (cd_event cd) es = Inr (map se_event rows)"
proof -
  from store_steps_inv [OF assms(1) new_run_store_inv] have
    c: "run_log.contiguous rid st" using event_bucket_ok [of st rid]
    by (simp add: run_log_contiguous store_inv_def)
  from assms(2,3) obtain copies where copies: "map_result (cd_event cd) es = Inr copies"
    and st': "st' = extend_events rid ts copies st"
    and seqs: "seqs = next_seqs (event_bucket st rid) copies"
    by (auto simp: append_events_def split: sum.splits if_splits)
  let ?n = "length (event_bucket st rid)"
  let ?rows = "filter (\<lambda>row. int ?n < se_seq row) (event_bucket st' rid)"
  have events: "map se_event ?rows = copies"
    using run_log.tail_after_append [OF c] by (simp add: st')
  have "?rows = drop ?n (event_bucket st' rid)"
    unfolding st' by (rule run_log.filter_after [OF run_log.contiguous_append [OF c]])
      (simp add: event_bucket_extend)
  then have pos: "map se_seq ?rows = seqs"
    by (simp add: st' event_bucket_extend map_stamp_events seqs)
  have "map_result (\<lambda>row. bind_result (cd_event cd (se_event row)) (\<lambda>e. Inr (row\<lparr>se_event := e\<rparr>)))
      ?rows = Inr ?rows"
  proof (rule map_result_reload)
    fix e assume "e \<in> set (map se_event ?rows)"
    then show "cd_event cd e = Inr e"
      using map_result_codomain [OF copies] assms(4) unfolding events by blast
  qed
  then have "load_events cd rid (int ?n) st' = Inr ?rows" by (simp add: load_events_def)
  with pos events copies show ?thesis by blast
qed

lemma unchanged_prod [unchanged_intros]:
  "(\<And>x y. r = (x, y) \<Longrightarrow> unchanged_on_error st (f x y)) \<Longrightarrow> unchanged_on_error st (case r of (x, y) \<Rightarrow> f x y)"
  by (cases r) simp

text \<open>
  C37: A call that raises leaves the store as it was, whichever call it is: no half of a
  checkpoint with its events, no run record without its log, no half-taken lease, no snapshot
  half removed.
\<close>

theorem failed_call_changes_nothing:
  assumes "store_step\<^sup>*\<^sup>* new_run_store st"
  shows "unchanged_on_error st (create_run cd sid uuid rid_arg meta cpo lease ts st)
       \<and> unchanged_on_error st (save_checkpoint cd rid cp status lease ts st)
       \<and> unchanged_on_error st (save_checkpoint_with_events cd rid cp es status lease ts st)
       \<and> unchanged_on_error st (append_event cd rid e lease ts st)
       \<and> unchanged_on_error st (append_events cd rid es lease ts st)
       \<and> unchanged_on_error st (mark_completed cd rid cp lease ts st)
       \<and> unchanged_on_error st (mark_failed cd rid cpo err es lease ts st)
       \<and> unchanged_on_error st (claim rid owner ttl now st)
       \<and> unchanged_on_error st (renew l now1 now2 st)
       \<and> unchanged_on_error st (release l st)
       \<and> unchanged_on_error st (save_snapshot rid made lease st)
       \<and> unchanged_on_error st (delete_snapshot snid rid lease st)
       \<and> unchanged_on_error st (prune_snapshots rid keep lease st)"
proof (intro conjI)
  show "unchanged_on_error st (claim rid owner ttl now st)"
    unfolding claim_def Let_def by (intro unchanged_intros)
  show "unchanged_on_error st (renew l now1 now2 st)"
    unfolding renew_def Let_def by (intro unchanged_intros)
  show "unchanged_on_error st (release l st)"
    unfolding release_def by (intro unchanged_intros)
  show "unchanged_on_error st (save_snapshot rid made lease st)"
    unfolding save_snapshot_def by (intro unchanged_intros)
  show "unchanged_on_error st (delete_snapshot snid rid lease st)"
    unfolding delete_snapshot_def by (intro unchanged_intros)
  show "unchanged_on_error st (prune_snapshots rid keep lease st)"
    unfolding prune_snapshots_def Let_def by (intro unchanged_intros)
  show "unchanged_on_error st (create_run cd sid uuid rid_arg meta cpo lease ts st)"
    unfolding create_run_def Let_def by (intro unchanged_intros)
  show save: "unchanged_on_error st (save_checkpoint cd rid cp status lease ts st)" for cp status
    unfolding save_checkpoint_def by (intro unchanged_intros)
  show "unchanged_on_error st (save_checkpoint_with_events cd rid cp es status lease ts st)"
    unfolding save_checkpoint_with_events_def by (intro unchanged_intros)
  show "unchanged_on_error st (append_events cd rid es lease ts st)"
    unfolding append_events_def by (intro unchanged_intros)
  show "unchanged_on_error st (mark_completed cd rid cp lease ts st)"
    unfolding mark_completed_def by (intro unchanged_intros save)
  show "unchanged_on_error st (mark_failed cd rid cpo err es lease ts st)"
    unfolding mark_failed_def Let_def by (intro unchanged_intros)
  show "unchanged_on_error st (append_event cd rid e lease ts st)"
  proof (cases "rid \<in> fst ` set (st_runs st)")
    case True
    from store_inv_runs_events [OF store_steps_inv [OF assms new_run_store_inv] True]
    obtain b where "dict_get (st_events st) rid = Some b"
      by (metis dict_get_None_iff list.set_map not_Some_eq)
    then have "st\<lparr>st_events := dict_setdefault rid [] (st_events st)\<rparr> = st" by simp
    then show ?thesis
      unfolding append_event_def Let_def by (metis (no_types, lifting) unchanged_intros)
  next
    case False
    then show ?thesis unfolding append_event_def by (auto intro!: unchanged_intros)
  qed
qed

section \<open>A concrete store\<close>

definition plain_codecs :: "nat codecs" where
  "plain_codecs = \<lparr>cd_checkpoint = Inr, cd_event = Inr, cd_safe = (\<lambda>v. v),
                   cd_compatible = (\<lambda>_ _. Inr ())\<rparr>"

definition store_one :: "nat run_store" where
  "store_one = fst (create_run plain_codecs ''s'' ''u'' (Some ''r'') JNull None None ''t0'' new_run_store)"

definition store_two :: "nat run_store" where
  "store_two = fst (claim ''r'' ''a'' (JInt 10) (Fin 0) store_one)"

definition store_three :: "nat run_store" where
  "store_three = fst (claim ''r'' ''b'' (JInt 10) (Fin 20) store_two)"

definition checkpoint_example :: run_checkpoint where
  "checkpoint_example =
     \<lparr>cp_phase = JStr ''started'', cp_prompt = ''hi'', cp_turn_index = 0, cp_total_usage = usage_zero,
      cp_assistant_message = None, cp_pending_tool_blocks = [], cp_completed_tool_results = [],
      cp_force_final_pending = False, cp_loop_guard_state = JNull,
      cp_pending_skill_overlay = JNull, cp_current_turn_allowed_tools = None,
      cp_assistant_stop_reason = None, cp_permission_decisions = [], cp_background_workers = [],
      cp_truncation_attempts = 0, cp_truncation_prefix = [], cp_pending_truncation_feedback = None,
      cp_tool_batch_event_after_seq = None, cp_pending_alignment = [], cp_extension_state = [],
      cp_provider_attempt = 0, cp_model_input_snapshot_id = None\<rparr>"

lemma float_of_int_numeral:
  "numeral n \<le> (2 ^ 53 :: int) \<Longrightarrow> float_of_int (numeral n) = Some (Fin (numeral n))"
  by (simp add: float_of_int_def round_double_numeral)

lemmas store_example_simps =
  plain_codecs_def new_run_store_def create_run_def copy_checkpoint_def safe_meta_def admit_def
  active_statuses_def claim_def validate_lease_ttl_def lease_entry_of_def Let_def
  round_double_numeral float_of_int_numeral

lemma store_one_reached: "store_step\<^sup>*\<^sup>* new_run_store store_one"
  unfolding store_one_def by (rule r_into_rtranclp) (rule step_create)

lemma store_one_eq:
  "store_one = \<lparr>st_runs = [(''r'', \<lparr>rr_id = ''r'', rr_session_id = ''s'', rr_status = ''running'',
       rr_created_at = ''t0'', rr_updated_at = ''t0'', rr_checkpoint = None, rr_meta = []\<rparr>)],
     st_events = [(''r'', [])], st_snapshots = [], st_lease_state = [(''r'', None, None, 0)]\<rparr>"
  by (simp add: store_one_def store_example_simps)

lemma store_two_claim:
  "claim ''r'' ''a'' (JInt 10) (Fin 0) store_one =
     (store_two, Inr \<lparr>ls_run_id = ''r'', ls_owner = ''a'', ls_epoch = 1, ls_expires_at = Fin 10,
                      ls_ttl_s = Fin 10\<rparr>)"
  by (simp add: store_two_def store_one_eq store_example_simps)

lemma store_three_claim:
  "claim ''r'' ''b'' (JInt 10) (Fin 20) store_two =
     (store_three, Inr \<lparr>ls_run_id = ''r'', ls_owner = ''b'', ls_epoch = 2, ls_expires_at = Fin 30,
                        ls_ttl_s = Fin 10\<rparr>)"
  by (simp add: store_three_def store_two_def store_one_eq store_example_simps)

theorem run_store_invariant_witness:
  "map se_seq (event_bucket store_one ''r'') = []"
  using run_store_invariant [OF store_one_reached, of "''r''" _ "''r''" _ "''r''"]
  by (simp add: store_one_eq event_bucket_def)

theorem stale_writer_is_fenced_witness:
  "save_checkpoint plain_codecs ''r'' checkpoint_example ''running''
     (Some \<lparr>ls_run_id = ''r'', ls_owner = ''a'', ls_epoch = 1, ls_expires_at = Fin 10,
            ls_ttl_s = Fin 10\<rparr>) ''t'' store_three = (store_three, Inl LeaseLostError)"
  using stale_writer_is_fenced [OF store_two_claim rtranclp.rtrancl_refl store_three_claim _
      rtranclp.rtrancl_refl] by simp

definition store_events :: "nat run_store" where
  "store_events = fst (append_events plain_codecs ''r'' [7, 8] None ''t1'' store_one)"

theorem failed_call_changes_nothing_witness:
  "unchanged_on_error store_one
     (append_event plain_codecs ''missing'' (3 :: nat) None ''t'' store_one)"
  using failed_call_changes_nothing [OF store_one_reached, where cd = plain_codecs and rid = "''missing''"
      and e = 3 and lease = None and ts = "''t''"] by blast

end
