(* ===== verification/Mailbox.thy ===== *)
theory Mailbox
  imports Messages
begin

text \<open>
  \<^verbatim>\<open>src/linch/coordination/mailbox\<close>: the in-memory mailbox with its delivery leases, the
  request/response correlator, and the text a peer message is rendered to. Each method body runs
  under the mailbox's lock, so it is one state change; the clock reading and the fresh tokens are
  arguments. Lease times are floats.
\<close>

section \<open>State\<close>

record mailbox_message =
  mm_sender :: string
  mm_recipient :: string
  mm_content :: string
  mm_type :: string
  mm_request_id :: "string option"
  mm_in_reply_to :: "string option"
  mm_id :: string

record delivery_claim =
  mc_message :: mailbox_message
  mc_token :: string
  mc_owner :: string
  mc_expires_at :: pyfloat

record mailbox_entry =
  me_message :: mailbox_message
  me_lease_token :: "string option"
  me_lease_owner :: "string option"
  me_lease_expires_at :: "pyfloat option"

type_synonym mailbox = "(string, mailbox_entry list) dict"

definition new_mailbox :: mailbox where
  "new_mailbox = []"

definition inbox_of :: "mailbox \<Rightarrow> string \<Rightarrow> mailbox_entry list" where
  "inbox_of mb r = (case dict_get mb r of None \<Rightarrow> [] | Some b \<Rightarrow> b)"

section \<open>Operations\<close>

definition mailbox_send :: "mailbox_message \<Rightarrow> mailbox \<Rightarrow> mailbox" where
  "mailbox_send m mb =
     dict_set (mm_recipient m)
       (inbox_of mb (mm_recipient m)
        @ [\<lparr>me_message = m, me_lease_token = None, me_lease_owner = None,
            me_lease_expires_at = None\<rparr>]) mb"

definition mailbox_drain :: "string \<Rightarrow> mailbox \<Rightarrow> mailbox \<times> mailbox_message list" where
  "mailbox_drain r mb =
     (if inbox_of mb r = [] then (mb, [])
      else (dict_pop r mb, map me_message (inbox_of mb r)))"

definition validate_claim_args ::
  "string \<Rightarrow> pyfloat \<Rightarrow> pyfloat \<Rightarrow> int option \<Rightarrow> unit result" where
  "validate_claim_args owner lease_s now limit =
     (if owner = [] then Inl ValueError
      else if \<not> is_finite lease_s \<or> pf_le lease_s (Fin 0) then Inl ValueError
      else if \<not> is_finite now then Inl ValueError
      else if (case limit of None \<Rightarrow> False | Some n \<Rightarrow> n < 0) then Inl ValueError
      else Inr ())"

definition lease_live :: "pyfloat \<Rightarrow> mailbox_entry \<Rightarrow> bool" where
  "lease_live now e =
     (me_lease_token e \<noteq> None
      \<and> (case me_lease_expires_at e of None \<Rightarrow> False | Some x \<Rightarrow> pf_less now x))"

text \<open>
  The loop over the inbox: \<open>n\<close> claims so far, \<open>tokens\<close> numbers the fresh ids. It returns the
  entries it leased, the untouched rest of the inbox, and the claims.
\<close>

fun claim_entries ::
  "(nat \<Rightarrow> string) \<Rightarrow> string \<Rightarrow> pyfloat \<Rightarrow> pyfloat \<Rightarrow> int option \<Rightarrow> nat \<Rightarrow> mailbox_entry list
   \<Rightarrow> mailbox_entry list \<times> delivery_claim list" where
  "claim_entries tokens owner now expires limit n [] = ([], [])"
| "claim_entries tokens owner now expires limit n (e # es) =
     (if lease_live now e then (e # es, [])
      else
        (let e' = e\<lparr>me_lease_token := Some (tokens n), me_lease_owner := Some owner,
                    me_lease_expires_at := Some expires\<rparr>;
             c = \<lparr>mc_message = me_message e, mc_token = tokens n, mc_owner = owner,
                  mc_expires_at = expires\<rparr>
         in if (case limit of None \<Rightarrow> False | Some l \<Rightarrow> l \<le> int n + 1) then (e' # es, [c])
            else case claim_entries tokens owner now expires limit (Suc n) es of
                (es', cs) \<Rightarrow> (e' # es', c # cs)))"

definition mailbox_claim ::
  "(nat \<Rightarrow> string) \<Rightarrow> string \<Rightarrow> string \<Rightarrow> pyfloat \<Rightarrow> pyfloat \<Rightarrow> int option \<Rightarrow> mailbox
   \<Rightarrow> mailbox \<times> delivery_claim list result" where
  "mailbox_claim tokens r owner lease_s now limit mb =
     (case validate_claim_args owner lease_s now limit of
        Inl e \<Rightarrow> (mb, Inl e)
      | Inr _ \<Rightarrow>
          if limit = Some 0 then (mb, Inr [])
          else (case dict_get mb r of
              None \<Rightarrow> (mb, Inr [])
            | Some inbox \<Rightarrow>
                (case claim_entries tokens owner now (pf_add now lease_s) limit 0 inbox of
                   (inbox', cs) \<Rightarrow> (dict_set r inbox' mb, Inr cs))))"

definition entry_key :: "mailbox_entry \<Rightarrow> string \<times> string" where
  "entry_key e = (mm_id (me_message e), case me_lease_token e of None \<Rightarrow> [] | Some t \<Rightarrow> t)"

definition claim_keys :: "delivery_claim list \<Rightarrow> (string \<times> string) set" where
  "claim_keys cs = set (map (\<lambda>c. (mm_id (mc_message c), mc_token c)) cs)"

definition mailbox_ack :: "delivery_claim list \<Rightarrow> mailbox \<Rightarrow> mailbox" where
  "mailbox_ack cs mb =
     (if cs = [] then mb
      else filter (\<lambda>(r, es). es \<noteq> [])
             (map (\<lambda>(r, es). (r, filter (\<lambda>e. entry_key e \<notin> claim_keys cs) es)) mb))"

definition release_entry :: "(string \<times> string) set \<Rightarrow> mailbox_entry \<Rightarrow> mailbox_entry" where
  "release_entry keys e =
     (if entry_key e \<in> keys
      then e\<lparr>me_lease_token := None, me_lease_owner := None, me_lease_expires_at := None\<rparr>
      else e)"

definition mailbox_release :: "delivery_claim list \<Rightarrow> mailbox \<Rightarrow> mailbox" where
  "mailbox_release cs mb =
     (if cs = [] then mb
      else map (\<lambda>(r, es). (r, map (release_entry (claim_keys cs)) es)) mb)"

lemmas [mailbox_defs] =
  mailbox_send_def mailbox_drain_def mailbox_claim_def mailbox_ack_def mailbox_release_def

section \<open>The delivery contract\<close>

text \<open>
  What a consumer relies on: the undelivered messages of a recipient in sending order, with the
  capability each is held under, if any. Sending appends; claiming and releasing change
  capabilities only; acknowledging removes exactly the messages whose current capability it
  names.
\<close>

locale claimable =
  fixes inv :: "'s \<Rightarrow> bool"
    and pending :: "'s \<Rightarrow> 'r \<Rightarrow> ('m \<times> 'k) list"
    and recipient :: "'m \<Rightarrow> 'r"
    and key_of :: "'c \<Rightarrow> 'k"
    and send :: "'m \<Rightarrow> 's \<Rightarrow> 's"
    and claim :: "'a \<Rightarrow> 's \<Rightarrow> 's"
    and ack :: "'c list \<Rightarrow> 's \<Rightarrow> 's"
    and release :: "'c list \<Rightarrow> 's \<Rightarrow> 's"
  assumes inv_ops: "inv s \<Longrightarrow> inv (send m s)" "inv s \<Longrightarrow> inv (claim a s)"
      "inv s \<Longrightarrow> inv (ack cs s)" "inv s \<Longrightarrow> inv (release cs s)"
    and pending_send: "inv s \<Longrightarrow> map fst (pending (send m s) r)
      = map fst (pending s r) @ (if r = recipient m then [m] else [])"
    and pending_claim: "inv s \<Longrightarrow> map fst (pending (claim a s) r) = map fst (pending s r)"
    and pending_release: "inv s \<Longrightarrow> map fst (pending (release cs s) r) = map fst (pending s r)"
    and pending_ack:
      "inv s \<Longrightarrow> pending (ack cs s) r = filter (\<lambda>(m, k). k \<notin> key_of ` set cs) (pending s r)"
begin

inductive consumer_step :: "'s \<Rightarrow> 's \<Rightarrow> bool" where
  "consumer_step s (claim a s)"
| "consumer_step s (release cs s)"
| "consumer_step s (send m s)"

lemma consumer_steps_keep:
  "consumer_step\<^sup>*\<^sup>* s s' \<Longrightarrow> inv s \<Longrightarrow>
     inv s' \<and> (\<exists>ms. map fst (pending s' r) = map fst (pending s r) @ ms)"
proof (induction rule: rtranclp_induct)
  case (step t u)
  then obtain ms where t: "inv t" "map fst (pending t r) = map fst (pending s r) @ ms" by blast
  from step(2) t(1) have "inv u \<and> (\<exists>ns. map fst (pending u r) = map fst (pending t r) @ ns)"
    by (cases rule: consumer_step.cases)
      (auto simp: inv_ops pending_claim pending_release pending_send)
  with t show ?case by auto
qed simp

text \<open>
  Until it is acknowledged under its current capability a message stays in its inbox, in its
  place: no crash of a consumer, expiry or release loses or reorders it.
\<close>

lemma unacknowledged_stays:
  assumes "inv s" and "\<forall>(m, k) \<in> set (pending s r). k \<notin> key_of ` set cs"
  shows "pending (ack cs s) r = pending s r"
  using assms by (auto simp: pending_ack filter_id_conv)

end

section \<open>The mailbox satisfies the contract\<close>

definition mailbox_pending :: "mailbox \<Rightarrow> string \<Rightarrow> (mailbox_message \<times> string \<times> string) list" where
  "mailbox_pending mb r = map (\<lambda>e. (me_message e, entry_key e)) (inbox_of mb r)"

definition claim_key :: "delivery_claim \<Rightarrow> string \<times> string" where
  "claim_key c = (mm_id (mc_message c), mc_token c)"

lemma claim_keys_eq: "claim_keys cs = claim_key ` set cs"
  by (simp add: claim_keys_def claim_key_def image_image)

type_synonym claim_args =
  "(nat \<Rightarrow> string) \<times> string \<times> string \<times> pyfloat \<times> pyfloat \<times> int option"

definition claim_with :: "claim_args \<Rightarrow> mailbox \<Rightarrow> mailbox" where
  "claim_with a mb = (case a of (tokens, r, owner, lease_s, now, limit) \<Rightarrow>
     fst (mailbox_claim tokens r owner lease_s now limit mb))"

lemma inbox_of_set [simp]: "inbox_of (dict_set r es mb) r' = (if r' = r then es else inbox_of mb r')"
  by (simp add: inbox_of_def)

lemma claim_entries_messages:
  "claim_entries tokens owner now expires limit n es = (es', cs) \<Longrightarrow>
     map me_message es' = map me_message es"
  by (induction es arbitrary: n es' cs) (auto simp: Let_def split: if_splits prod.splits)

lemma inbox_of_claim:
  "map me_message (inbox_of (fst (mailbox_claim tokens r owner lease_s now limit mb)) r')
   = map me_message (inbox_of mb r')"
  by (auto simp: mailbox_claim_def inbox_of_def claim_entries_messages
      split: sum.split option.split prod.split)

lemma dict_get_map_values:
  "dict_get (map (\<lambda>(k, v). (k, f v)) d) k = map_option f (dict_get d k)"
  by (induction d) auto

lemma inbox_of_ack:
  assumes "dict_ok mb"
  shows "inbox_of (mailbox_ack cs mb) r = filter (\<lambda>e. entry_key e \<notin> claim_keys cs) (inbox_of mb r)"
proof (cases "cs = []")
  case False
  let ?f = "filter (\<lambda>e. entry_key e \<notin> claim_keys cs)"
  have ok: "dict_ok (map (\<lambda>(k, v). (k, ?f v)) mb)"
    using assms by (simp add: case_prod_beta comp_def)
  have "inbox_of (filter (\<lambda>(r, es). es \<noteq> []) d) r = inbox_of d r" if "dict_ok d" for d
    using that
    by (induction d) (auto simp: inbox_of_def dest!: map_of_eq_None_iff [THEN iffD2] split: option.split)
  from this [OF ok] False show ?thesis
    by (auto simp: mailbox_ack_def inbox_of_def dict_get_map_values split: option.split)
qed (auto simp: mailbox_ack_def claim_keys_def)

lemma inbox_of_release:
  "inbox_of (mailbox_release cs mb) r = map (release_entry (claim_keys cs)) (inbox_of mb r)"
proof (cases "cs = []")
  case True
  have "release_entry {} e = e" for e by (simp add: release_entry_def)
  with True show ?thesis by (simp add: mailbox_release_def claim_keys_def map_idI)
next
  case False
  then show ?thesis
    by (simp add: mailbox_release_def inbox_of_def dict_get_map_values split: option.split)
qed

lemma me_message_release [simp]: "me_message (release_entry ks e) = me_message e"
  by (simp add: release_entry_def)

lemma mailbox_ops_ok:
  assumes "dict_ok mb"
  shows "dict_ok (mailbox_send m mb)" "dict_ok (claim_with a mb)" "dict_ok (mailbox_ack cs mb)"
    "dict_ok (mailbox_release cs mb)"
proof -
  have keys: "dict_ok (map (\<lambda>(k, v). (k, f v)) mb)" for f :: "mailbox_entry list \<Rightarrow> mailbox_entry list"
    using assms by (simp add: case_prod_beta comp_def)
  show "dict_ok (mailbox_ack cs mb)"
    using assms distinct_map_filter [OF keys] by (simp add: mailbox_ack_def)
  show "dict_ok (mailbox_send m mb)" "dict_ok (claim_with a mb)" "dict_ok (mailbox_release cs mb)"
    using assms keys
    by (auto simp: mailbox_send_def claim_with_def mailbox_claim_def mailbox_release_def
        split: sum.split option.split prod.split)
qed

interpretation mailbox: claimable dict_ok mailbox_pending mm_recipient claim_key mailbox_send
  claim_with mailbox_ack mailbox_release
proof unfold_locales
  fix mb :: mailbox and m a cs r
  assume ok: "dict_ok mb"
  show "dict_ok (mailbox_send m mb)" "dict_ok (claim_with a mb)" "dict_ok (mailbox_ack cs mb)"
    "dict_ok (mailbox_release cs mb)" by (fact mailbox_ops_ok [OF ok])+
  show "map fst (mailbox_pending (mailbox_send m mb) r) =
      map fst (mailbox_pending mb r) @ (if r = mm_recipient m then [m] else [])"
    by (simp add: mailbox_pending_def mailbox_send_def comp_def)
  show "map fst (mailbox_pending (claim_with a mb) r) = map fst (mailbox_pending mb r)"
    using inbox_of_claim by (cases a) (simp add: mailbox_pending_def claim_with_def comp_def)
  show "map fst (mailbox_pending (mailbox_release cs mb) r) = map fst (mailbox_pending mb r)"
    by (simp add: mailbox_pending_def inbox_of_release comp_def)
  show "mailbox_pending (mailbox_ack cs mb) r =
      filter (\<lambda>(m, k). k \<notin> claim_key ` set cs) (mailbox_pending mb r)"
    by (simp add: mailbox_pending_def inbox_of_ack [OF ok] claim_keys_eq filter_map comp_def)
qed

section \<open>Properties of delivery\<close>

inductive mailbox_consumer_step :: "mailbox \<Rightarrow> mailbox \<Rightarrow> bool" where
  "mailbox_consumer_step mb (claim_with a mb)"
| "mailbox_consumer_step mb (mailbox_release cs mb)"
| "mailbox_consumer_step mb (mailbox_send m mb)"

lemma mailbox_consumer_step_eq: "mailbox_consumer_step = mailbox.consumer_step"
  by (intro ext iffI)
    (auto elim!: mailbox_consumer_step.cases mailbox.consumer_step.cases
      intro: mailbox_consumer_step.intros mailbox.consumer_step.intros)

text \<open>
  C38: Nothing but an acknowledgement under the current capability, or a drain, takes a message
  from its inbox. Any number of claims, lost leases, releases and further sends leaves the
  undelivered messages in place and in order, and an acknowledgement that does not name their
  current capabilities removes none of them.
\<close>

theorem undelivered_messages_stay:
  assumes "dict_ok mb" and "mailbox_consumer_step\<^sup>*\<^sup>* mb mb'"
    and "\<forall>e \<in> set (inbox_of mb' r). entry_key e \<notin> claim_keys cs"
  shows "\<exists>new. map me_message (inbox_of (mailbox_ack cs mb') r)
                = map me_message (inbox_of mb r) @ new"
proof -
  from mailbox.consumer_steps_keep [of mb mb' r] assms(1,2) obtain new where
    ok: "dict_ok mb'" and new: "map fst (mailbox_pending mb' r) = map fst (mailbox_pending mb r) @ new"
    unfolding mailbox_consumer_step_eq by blast
  from mailbox.unacknowledged_stays [OF ok, of r cs] assms(3)
  have "mailbox_pending (mailbox_ack cs mb') r = mailbox_pending mb' r"
    by (auto simp: mailbox_pending_def claim_keys_eq)
  with new show ?thesis by (auto simp: mailbox_pending_def comp_def dest!: arg_cong [of _ _ "map fst"])
qed

lemma claim_entries_prefix:
  "claim_entries tokens owner now expires limit n es = (es', cs) \<Longrightarrow>
   (\<forall>l. limit = Some l \<longrightarrow> int n < l) \<Longrightarrow>
     map mc_message cs = map me_message
       (take (case limit of None \<Rightarrow> length es | Some l \<Rightarrow> nat l - n) (takeWhile (\<lambda>e. \<not> lease_live now e) es))
   \<and> map mc_token cs = map tokens [n..<n + length cs]
   \<and> (\<forall>c \<in> set cs. mc_owner c = owner \<and> mc_expires_at c = expires)
   \<and> es' = map2 (\<lambda>e i. e\<lparr>me_lease_token := Some (tokens i), me_lease_owner := Some owner,
                         me_lease_expires_at := Some expires\<rparr>)
              (take (length cs) es) [n..<n + length cs] @ drop (length cs) es"
proof (induction es arbitrary: n es' cs)
  case Nil
  then show ?case by simp
next
  case (Cons e es)
  show ?case
  proof (cases "lease_live now e")
    case True
    with Cons.prems show ?thesis by auto
  next
    case False
    show ?thesis
    proof (cases "case limit of None \<Rightarrow> False | Some l \<Rightarrow> l \<le> int n + 1")
      case True
      then obtain l where l: "limit = Some l" "l \<le> int n + 1" by (auto split: option.splits)
      with Cons.prems(2) have "nat l - n = 1" by auto
      with False l Cons.prems(1) show ?thesis by (auto simp: Let_def)
    next
      case more: False
      obtain es1 cs1 where rest: "claim_entries tokens owner now expires limit (Suc n) es = (es1, cs1)"
        by (cases "claim_entries tokens owner now expires limit (Suc n) es")
      have "\<forall>l. limit = Some l \<longrightarrow> int (Suc n) < l" using more by (auto split: option.splits)
      note IH = Cons.IH [OF rest this]
      have out: "cs = \<lparr>mc_message = me_message e, mc_token = tokens n, mc_owner = owner,
          mc_expires_at = expires\<rparr> # cs1"
        "es' = e\<lparr>me_lease_token := Some (tokens n), me_lease_owner := Some owner,
          me_lease_expires_at := Some expires\<rparr> # es1"
        using Cons.prems(1) False more rest by (auto simp: Let_def)
      have range: "[n..<n + length cs] = n # [Suc n..<Suc n + length cs1]"
        by (simp add: out upt_conv_Cons del: upt_Suc)
      have cut: "(case limit of None \<Rightarrow> length (e # es) | Some l \<Rightarrow> nat l - n)
          = Suc (case limit of None \<Rightarrow> length es | Some l \<Rightarrow> nat l - Suc n)"
        using more by (auto split: option.splits)
      show ?thesis
        unfolding range cut using IH False by (simp add: out)
    qed
  qed
qed

text \<open>
  A claim takes the oldest messages first: exactly the prefix of the inbox up to the first
  live lease, cut at the limit, each under its own fresh token, with the given owner and expiry.
\<close>

lemma claim_takes_oldest:
  assumes "mailbox_claim tokens r owner lease_s now limit mb = (mb', Inr cs)"
  shows "map mc_message cs = map me_message
           (take (case limit of None \<Rightarrow> length (inbox_of mb r) | Some l \<Rightarrow> nat l)
              (takeWhile (\<lambda>e. \<not> lease_live now e) (inbox_of mb r)))
         \<and> map mc_token cs = map tokens [0..<length cs]
         \<and> list_all (\<lambda>c. mc_owner c = owner \<and> mc_expires_at c = pf_add now lease_s) cs"
proof -
  from assms have limit: "\<forall>l. limit = Some l \<longrightarrow> 0 \<le> l"
    by (auto simp: mailbox_claim_def validate_claim_args_def split: sum.splits if_splits)
  show ?thesis
  proof (cases "limit = Some 0 \<or> dict_get mb r = None")
    case True
    with assms show ?thesis
      by (auto simp: mailbox_claim_def inbox_of_def split: sum.splits if_splits option.splits)
  next
    case False
    then obtain inbox es' where "dict_get mb r = Some inbox"
      "claim_entries tokens owner now (pf_add now lease_s) limit 0 inbox = (es', cs)"
      using assms by (auto simp: mailbox_claim_def split: sum.splits prod.splits)
    note found = this
    from limit False have pos: "\<forall>l. limit = Some l \<longrightarrow> int 0 < l" by fastforce
    from claim_entries_prefix [OF found(2) pos] found(1) show ?thesis
      by (cases limit) (simp_all add: inbox_of_def list_all_iff)
  qed
qed

text \<open>
  A claimed inbox is exclusive while the lease lasts. After one consumer has claimed at
  least one message, every claim of the same recipient at a time before the expiry is answered
  with nothing and changes nothing, whoever asks.
\<close>

lemma claimed_inbox_is_exclusive:
  assumes "mailbox_claim tokens r owner lease_s now limit mb = (mb', Inr cs)" and "cs \<noteq> []"
    and "pf_less now2 (pf_add now lease_s)"
    and "validate_claim_args owner2 lease2 now2 limit2 = Inr ()"
  shows "mailbox_claim tokens2 r owner2 lease2 now2 limit2 mb' = (mb', Inr [])"
proof -
  from assms(1,2) obtain inbox inbox' where in1: "dict_get mb r = Some inbox"
    "claim_entries tokens owner now (pf_add now lease_s) limit 0 inbox = (inbox', cs)"
    "mb' = dict_set r inbox' mb"
    by (auto simp: mailbox_claim_def split: sum.splits if_splits option.splits prod.splits)
  from in1(2) assms(2) obtain e es where "inbox' = e # es" "me_lease_token e \<noteq> None"
    "me_lease_expires_at e = Some (pf_add now lease_s)"
    by (cases inbox) (auto simp: Let_def split: if_splits prod.splits)
  with assms(3) have "claim_entries tokens2 owner2 now2 x limit2 0 inbox' = (inbox', [])" for x
    by (simp add: lease_live_def)
  moreover have "dict_set r inbox' mb' = mb'"
    unfolding in1(3) by (induction mb) auto
  ultimately show ?thesis
    using assms(4) in1(3) by (simp add: mailbox_claim_def)
qed

section \<open>Correlation\<close>

record correlator =
  co_pending :: "(string, unit) dict"
  co_responses :: "(string, mailbox_message) dict"

definition new_correlator :: correlator where
  "new_correlator = \<lparr>co_pending = [], co_responses = []\<rparr>"

definition correlator_open :: "string \<Rightarrow> correlator \<Rightarrow> correlator" where
  "correlator_open rid co =
     (if rid \<notin> set (dict_keys (co_responses co))
      then co\<lparr>co_pending := dict_setdefault rid () (co_pending co)\<rparr> else co)"

definition correlator_resolve :: "mailbox_message \<Rightarrow> correlator \<Rightarrow> correlator \<times> bool" where
  "correlator_resolve m co = (case mm_in_reply_to m of
       None \<Rightarrow> (co, False)
     | Some rid \<Rightarrow>
         if rid \<notin> set (dict_keys (co_pending co)) then (co, False)
         else (co\<lparr>co_pending := dict_pop rid (co_pending co),
                  co_responses := dict_set rid m (co_responses co)\<rparr>, True))"

definition is_resolved :: "string \<Rightarrow> correlator \<Rightarrow> bool" where
  "is_resolved rid co = (rid \<in> set (dict_keys (co_responses co)))"

definition correlator_response :: "string \<Rightarrow> correlator \<Rightarrow> mailbox_message option" where
  "correlator_response rid co = dict_get (co_responses co) rid"

definition correlator_pending :: "correlator \<Rightarrow> string list" where
  "correlator_pending co = dict_keys (co_pending co)"

inductive correlator_step :: "correlator \<Rightarrow> correlator \<Rightarrow> bool" where
  "correlator_step co (correlator_open rid co)"
| "correlator_step co (fst (correlator_resolve m co))"

definition correlator_inv :: "correlator \<Rightarrow> bool" where
  "correlator_inv co \<longleftrightarrow> fst ` set (co_pending co) \<inter> fst ` set (co_responses co) = {}"

lemma correlator_step_keeps:
  assumes "correlator_step co co'" and "correlator_inv co"
  shows "correlator_inv co' \<and> map_of (co_responses co) \<subseteq>\<^sub>m map_of (co_responses co')"
  using assms(1)
proof cases
  case (1 rid)
  with assms(2) show ?thesis
    by (auto simp: correlator_open_def correlator_inv_def split: option.split)
next
  case (2 m)
  show ?thesis
  proof (cases "\<exists>rid. mm_in_reply_to m = Some rid \<and> rid \<in> fst ` set (co_pending co)")
    case False
    with 2 assms(2) show ?thesis by (auto simp: correlator_resolve_def split: option.split)
  next
    case True
    then obtain rid where rid: "mm_in_reply_to m = Some rid" "rid \<in> fst ` set (co_pending co)" by blast
    with assms(2) have fresh: "dict_get (co_responses co) rid = None"
      by (auto simp: correlator_inv_def map_of_eq_None_iff)
    from rid 2 have co': "co' = co\<lparr>co_pending := dict_pop rid (co_pending co),
        co_responses := dict_set rid m (co_responses co)\<rparr>"
      by (simp add: correlator_resolve_def)
    have "map_of (co_responses co) \<subseteq>\<^sub>m map_of (co_responses co')"
      using fresh by (auto simp: co' map_le_def)
    moreover have "correlator_inv co'"
      using assms(2) by (auto simp: co' correlator_inv_def)
    ultimately show ?thesis by blast
  qed
qed

text \<open>
  The first response to a request is its response. Whatever is opened or answered later,
  a resolved request keeps its response, is not pending, and further answers to it are refused.
\<close>

lemma first_response_wins:
  assumes "correlator_step\<^sup>*\<^sup>* new_correlator co" and "correlator_resolve m co = (co1, True)"
    and "correlator_step\<^sup>*\<^sup>* co1 co2" and "mm_in_reply_to m' = mm_in_reply_to m"
  shows "correlator_resolve m' co2 = (co2, False)
         \<and> (\<exists>rid. mm_in_reply_to m = Some rid \<and> correlator_response rid co2 = Some m
                 \<and> rid \<notin> set (correlator_pending co2))"
proof -
  have keep: "correlator_inv b \<and> map_of (co_responses a) \<subseteq>\<^sub>m map_of (co_responses b)"
    if "correlator_step\<^sup>*\<^sup>* a b" "correlator_inv a" for a b
    using that
    by (induction rule: rtranclp_induct) (auto dest: correlator_step_keeps intro: map_le_trans)
  have "correlator_inv new_correlator" by (simp add: correlator_inv_def new_correlator_def)
  with keep assms(1) have inv: "correlator_inv co" by blast
  from assms(2) obtain rid where rid: "mm_in_reply_to m = Some rid"
    "dict_get (co_responses co1) rid = Some m"
    by (auto simp: correlator_resolve_def split: option.splits if_splits)
  have "correlator_step co co1" using correlator_step.intros(2) [of co m] assms(2) by simp
  with inv correlator_step_keeps have "correlator_inv co1" by blast
  with keep assms(3) have co2: "correlator_inv co2"
    "map_of (co_responses co1) \<subseteq>\<^sub>m map_of (co_responses co2)" by blast+
  with rid have resp: "dict_get (co_responses co2) rid = Some m"
    by (auto simp: map_le_def dom_def)
  then have "rid \<in> fst ` set (co_responses co2)" by (force dest: map_of_SomeD)
  with co2(1) have "rid \<notin> fst ` set (co_pending co2)" by (auto simp: correlator_inv_def)
  with rid resp assms(4) show ?thesis
    by (simp add: correlator_resolve_def correlator_response_def correlator_pending_def)
qed

section \<open>Rendering\<close>

text \<open>\<^verbatim>\<open>xml.sax.saxutils.escape\<close>.\<close>

definition escape_char :: "char \<Rightarrow> string" where
  "escape_char c =
     (if c = CHR ''&'' then ''&amp;'' else if c = CHR ''>'' then ''&gt;''
      else if c = CHR ''<'' then ''&lt;'' else [c])"

definition escape :: "string \<Rightarrow> string" where
  "escape s = concat (map escape_char s)"

definition truthy_string :: "string option \<Rightarrow> bool" where
  "truthy_string v = (v \<noteq> None \<and> v \<noteq> Some [])"

definition peer_message_text :: "mailbox_message \<Rightarrow> string" where
  "peer_message_text m =
     ''<peer-message>'' @ ''<from>'' @ escape (mm_sender m) @ ''</from>''
     @ ''<type>'' @ escape (mm_type m) @ ''</type>''
     @ (if truthy_string (mm_request_id m)
        then ''<request-id>'' @ escape (the (mm_request_id m)) @ ''</request-id>'' else [])
     @ (if truthy_string (mm_in_reply_to m)
        then ''<in-reply-to>'' @ escape (the (mm_in_reply_to m)) @ ''</in-reply-to>'' else [])
     @ ''<content>'' @ escape (mm_content m) @ ''</content></peer-message>''"

definition render_peer_message :: "mailbox_message \<Rightarrow> message" where
  "render_peer_message m =
     \<lparr>role = role_user, content = [TextBlock (peer_message_text m)], provider_metadata = None\<rparr>"

lemma escape_no_tags: "CHR ''<'' \<notin> set (escape s)" "CHR ''>'' \<notin> set (escape s)"
  by (induction s) (auto simp: escape_def escape_char_def)

lemma escape_inject: "escape s = escape t \<Longrightarrow> s = t"
proof (induction s arbitrary: t)
  case Nil
  then show ?case by (cases t) (auto simp: escape_def escape_char_def split: if_splits)
next
  case (Cons c s)
  then obtain d t' where t: "t = d # t'"
    by (cases t) (auto simp: escape_def escape_char_def split: if_splits)
  with Cons.prems have "escape_char c @ escape s = escape_char d @ escape t'"
    by (simp add: escape_def)
  then have "c = d \<and> escape s = escape t'"
    by (auto simp: escape_char_def split: if_splits)
  with Cons.IH t show ?case by simp
qed

lemma append_tag_inject:
  "a1 @ CHR ''<'' # r1 = a2 @ CHR ''<'' # r2 \<Longrightarrow> CHR ''<'' \<notin> set a1 \<Longrightarrow> CHR ''<'' \<notin> set a2
   \<Longrightarrow> a1 = a2 \<and> r1 = r2"
proof (induction a1 arbitrary: a2)
  case Nil
  then show ?case by (cases a2) auto
next
  case (Cons c a1)
  then show ?case by (cases a2) auto
qed

lemma escape_tag_inject:
  "escape s @ CHR ''<'' # r1 = escape t @ CHR ''<'' # r2 \<longleftrightarrow> s = t \<and> r1 = r2"
  using append_tag_inject [OF _ escape_no_tags(1) escape_no_tags(1)] escape_inject by blast

text \<open>The optional elements and what follows them, in one equation each.\<close>

lemma optional_element_inject:
  assumes "(if truthy_string v then ''<in-reply-to>'' @ escape (the v) @ ''</in-reply-to>'' else [])
      @ ''<content>'' @ x
    = (if truthy_string w then ''<in-reply-to>'' @ escape (the w) @ ''</in-reply-to>'' else [])
      @ ''<content>'' @ y"
  shows "(truthy_string v \<longleftrightarrow> truthy_string w) \<and> (truthy_string v \<longrightarrow> v = w) \<and> x = y"
  using assms
  by (auto simp: escape_tag_inject truthy_string_def split: if_splits)

text \<open>
  A rendered peer message cannot be forged by its fields: the text the model reads
  determines sender, type, request id, reply id and content, whatever markup they contain.
\<close>

lemma rendered_message_determines_fields:
  assumes "peer_message_text m = peer_message_text m'"
  shows "mm_sender m = mm_sender m' \<and> mm_type m = mm_type m' \<and> mm_content m = mm_content m'
         \<and> (truthy_string (mm_request_id m) = truthy_string (mm_request_id m'))
         \<and> (truthy_string (mm_request_id m) \<longrightarrow> mm_request_id m = mm_request_id m')
         \<and> (truthy_string (mm_in_reply_to m) = truthy_string (mm_in_reply_to m'))
         \<and> (truthy_string (mm_in_reply_to m) \<longrightarrow> mm_in_reply_to m = mm_in_reply_to m')"
proof -
  let ?tail = "\<lambda>m. (if truthy_string (mm_in_reply_to m)
        then ''<in-reply-to>'' @ escape (the (mm_in_reply_to m)) @ ''</in-reply-to>'' else [])
     @ ''<content>'' @ escape (mm_content m) @ ''</content></peer-message>''"
  let ?req = "\<lambda>m. (if truthy_string (mm_request_id m)
        then ''<request-id>'' @ escape (the (mm_request_id m)) @ ''</request-id>'' else []) @ ?tail m"
  from assms have head: "mm_sender m = mm_sender m'" "mm_type m = mm_type m'" "?req m = ?req m'"
    by (simp_all add: peer_message_text_def escape_tag_inject)
  from head(3) have req: "truthy_string (mm_request_id m) = truthy_string (mm_request_id m')"
    "truthy_string (mm_request_id m) \<longrightarrow> mm_request_id m = mm_request_id m'" "?tail m = ?tail m'"
    by (auto simp: escape_tag_inject truthy_string_def split: if_splits)
  from optional_element_inject [OF req(3)] have tail:
    "truthy_string (mm_in_reply_to m) = truthy_string (mm_in_reply_to m')"
    "truthy_string (mm_in_reply_to m) \<longrightarrow> mm_in_reply_to m = mm_in_reply_to m'"
    "escape (mm_content m) @ ''</content></peer-message>''
     = escape (mm_content m') @ ''</content></peer-message>''" by blast+
  then have "mm_content m = mm_content m'" by (auto dest: escape_inject)
  with head req tail show ?thesis by blast
qed

section \<open>A concrete exchange\<close>

definition message_example :: mailbox_message where
  "message_example = \<lparr>mm_sender = ''a'', mm_recipient = ''b'', mm_content = ''<x> & y'',
     mm_type = ''message'', mm_request_id = None, mm_in_reply_to = Some ''q'', mm_id = ''m1''\<rparr>"

definition sent_example :: mailbox where
  "sent_example = mailbox_send message_example new_mailbox"

definition claim_example :: "claim_args" where
  "claim_example = (\<lambda>n. ''tok'', ''b'', ''worker'', Fin 10, Fin 0, None)"

definition claimed_example :: mailbox where
  "claimed_example = claim_with claim_example sent_example"

lemmas mailbox_example_simps =
  message_example_def sent_example_def claim_example_def claimed_example_def mailbox_send_def
  claim_with_def mailbox_claim_def validate_claim_args_def new_mailbox_def inbox_of_def
  lease_live_def round_double_numeral Let_def

lemma claimed_example_claims:
  "mailbox_claim (\<lambda>n. ''tok'') ''b'' ''worker'' (Fin 10) (Fin 0) None sent_example
   = (claimed_example, Inr [\<lparr>mc_message = message_example, mc_token = ''tok'',
        mc_owner = ''worker'', mc_expires_at = Fin 10\<rparr>])"
  by (simp add: mailbox_example_simps)

theorem undelivered_messages_stay_witness:
  "\<exists>new. map me_message (inbox_of (mailbox_ack [] claimed_example) ''b'') = [message_example] @ new"
proof -
  have ok: "dict_ok sent_example" by (simp add: mailbox_example_simps)
  have "mailbox_consumer_step\<^sup>*\<^sup>* sent_example claimed_example"
    unfolding claimed_example_def by (intro r_into_rtranclp mailbox_consumer_step.intros)
  from undelivered_messages_stay [OF ok this, of "''b''" "[]"] show ?thesis
    by (simp add: claim_keys_def sent_example_def mailbox_send_def new_mailbox_def inbox_of_def
        message_example_def)
qed

definition open_example :: correlator where
  "open_example = correlator_open ''q'' new_correlator"

end
