(* ===== verification/Durability.thy ===== *)
theory Durability
  imports Receipts
begin

text \<open>
  \<^verbatim>\<open>src/linch/durability.py\<close>: strict JSON, the durability profile, and the deliveries that
  wait in a session's inbox. The JSON encoder and decoder of the standard library, the native
  encoder and SHA-256 are parameters, gathered in a record with \<^verbatim>\<open>str()\<close>:
  \<open>native_dumps\<close> is \<^verbatim>\<open>None\<close> where the native encoder declines, \<open>json_dumps\<close> where
  \<^verbatim>\<open>json.dumps\<close> raises.
\<close>

record json_env =
  native_dumps :: "json \<Rightarrow> string option"
  json_dumps :: "json \<Rightarrow> string option"
  json_loads :: "string \<Rightarrow> json result"
  sha256 :: "string \<Rightarrow> string"
  str_of :: "json \<Rightarrow> string"

section \<open>Strict JSON\<close>

definition strict_json_max_depth :: nat where
  "strict_json_max_depth = 100"

text \<open>
  The nested function \<^verbatim>\<open>validate\<close>. Values are trees here, so there are no reference cycles,
  and dictionary keys are strings by type.
\<close>

fun validate_json :: "nat \<Rightarrow> json \<Rightarrow> bool" where
  "validate_json depth (JFloat f) = is_finite f"
| "validate_json depth (JList xs) =
     (depth < strict_json_max_depth \<and> (\<forall>x \<in> set xs. validate_json (depth + 1) x))"
| "validate_json depth (JDict d) =
     (depth < strict_json_max_depth \<and> (\<forall>(k, x) \<in> set d. validate_json (depth + 1) x))"
| "validate_json depth v = True"

definition strict_json :: "json_env \<Rightarrow> json \<Rightarrow> string result" where
  "strict_json env v = (case native_dumps env v of
       Some encoded \<Rightarrow> Inr encoded
     | None \<Rightarrow>
         if \<not> validate_json 0 v then Inl ConfigError
         else (case json_dumps env v of None \<Rightarrow> Inl ConfigError | Some encoded \<Rightarrow> Inr encoded))"

section \<open>The durability profile\<close>

record durability_options =
  durable_inbox :: bool
  exact_model_input :: bool
  delivery_lease_s :: json

text \<open>The constructor's checks; \<^verbatim>\<open>float()\<close> of a huge integer raises \<^verbatim>\<open>OverflowError\<close>.\<close>

definition new_durability_options :: "json \<Rightarrow> json \<Rightarrow> json \<Rightarrow> durability_options result" where
  "new_durability_options durable exact lease_s =
     (case durable of
        JBool d \<Rightarrow>
          (case exact of
             JBool e \<Rightarrow>
               (case (case lease_s of
                        JInt n \<Rightarrow> if n \<le> 0 then Inl ConfigError
                                  else (case float_of_int n of
                                          None \<Rightarrow> Inl OverflowError
                                        | Some f \<Rightarrow> if is_finite f then Inr () else Inl ConfigError)
                      | JFloat f \<Rightarrow> if pf_le f (Fin 0) \<or> \<not> is_finite f then Inl ConfigError
                                    else Inr ()
                      | _ \<Rightarrow> Inl ConfigError) of
                  Inl err \<Rightarrow> Inl err
                | Inr _ \<Rightarrow> Inr \<lparr>durable_inbox = d, exact_model_input = e, delivery_lease_s = lease_s\<rparr>)
           | _ \<Rightarrow> Inl ConfigError)
      | _ \<Rightarrow> Inl ConfigError)"

definition strict_v1 :: "durability_options result" where
  "strict_v1 = new_durability_options (JBool True) (JBool True) (JFloat (Fin 30))"

section \<open>Inbox deliveries\<close>

record inbox_delivery =
  dl_delivery_id :: string
  dl_message :: message
  dl_source :: string
  dl_metadata :: json_obj
  dl_digest :: string

text \<open>\<^verbatim>\<open>message_from_dict(json.loads(s))\<close>; indexing a value that is no dictionary raises.\<close>

definition load_message :: "json_env \<Rightarrow> string \<Rightarrow> message result" where
  "load_message env s =
     bind_result (json_loads env s) (\<lambda>v. case v of
        JDict raw \<Rightarrow> message_from_dict (str_of env) raw
      | _ \<Rightarrow> Inl TypeError)"

definition delivery_envelope ::
  "json_env \<Rightarrow> string \<Rightarrow> string \<Rightarrow> string \<Rightarrow> string result" where
  "delivery_envelope env message_json source metadata_json =
     bind_result (json_loads env message_json) (\<lambda>m.
     bind_result (json_loads env metadata_json) (\<lambda>d.
       strict_json env (JDict [(''schema_version'', JInt wire_version), (''message'', m),
                               (''source'', JStr source), (''metadata'', d)])))"

text \<open>
  \<^verbatim>\<open>InboxDelivery.__post_init__\<close>; the type tests of the id, the source, the message and the
  metadata hold by typing. The decoded metadata of a dictionary is a dictionary.
\<close>

definition new_inbox_delivery ::
  "json_env \<Rightarrow> string \<Rightarrow> message \<Rightarrow> string \<Rightarrow> json_obj \<Rightarrow> inbox_delivery result" where
  "new_inbox_delivery env delivery_id msg source metadata =
     (if delivery_id = [] then Inl ConfigError
      else if source = [] then Inl ConfigError
      else if role msg \<noteq> role_user then Inl ConfigError
      else
        bind_result (strict_json env (JDict (message_to_dict msg))) (\<lambda>message_json.
        bind_result (strict_json env (JDict metadata)) (\<lambda>metadata_json.
        bind_result (load_message env message_json) (\<lambda>msg'.
        bind_result (json_loads env metadata_json) (\<lambda>meta'.
        bind_result (delivery_envelope env message_json source metadata_json) (\<lambda>envelope.
          case meta' of
            JDict metadata' \<Rightarrow>
              Inr \<lparr>dl_delivery_id = delivery_id, dl_message = msg', dl_source = source,
                   dl_metadata = metadata', dl_digest = sha256 env envelope\<rparr>
          | _ \<Rightarrow> Inl TypeError))))))"

definition encode_inbox_delivery ::
  "json_env \<Rightarrow> inbox_delivery \<Rightarrow> (string \<times> string \<times> string) result" where
  "encode_inbox_delivery env d =
     bind_result (strict_json env (JDict (message_to_dict (dl_message d)))) (\<lambda>message_json.
     bind_result (strict_json env (JDict (dl_metadata d))) (\<lambda>metadata_json.
     bind_result (delivery_envelope env message_json (dl_source d) metadata_json) (\<lambda>envelope.
       if sha256 env envelope \<noteq> dl_digest d then Inl ConfigError
       else Inr (message_json, dl_source d, metadata_json))))"

definition decode_inbox_message :: "json_env \<Rightarrow> string \<Rightarrow> message result" where
  "decode_inbox_message env payload =
     bind_result (json_loads env payload) (\<lambda>v. case v of
        JDict raw \<Rightarrow> message_from_dict (str_of env) raw
      | _ \<Rightarrow> Inl ConfigError)"

text \<open>A stored payload decodes to the message its encoding was loaded as.\<close>

lemma decode_of_load: "load_message env s = Inr m \<Longrightarrow> decode_inbox_message env s = Inr m"
  by (auto simp: load_message_def decode_inbox_message_def bind_result_Inr_iff split: json.splits)

end
