(* ===== verification/Decimal.thy ===== *)
theory Decimal
  imports Prelude "HOL-Library.List_Lexorder" "HOL-Library.Char_ord"
begin

text \<open>
  The built-ins around decimal numerals, ordering and slicing that the stores use: \<^verbatim>\<open>str(n)\<close>,
  \<^verbatim>\<open>int(s)\<close>, \<^verbatim>\<open>str.isdecimal\<close>, \<^verbatim>\<open>sorted\<close> and the slices \<^verbatim>\<open>xs[a:]\<close> and \<^verbatim>\<open>xs[:b]\<close>.
\<close>

section \<open>Numerals\<close>

definition digit_char :: "nat \<Rightarrow> char" where
  "digit_char n = char_of (48 + n)"

definition is_digit :: "char \<Rightarrow> bool" where
  "is_digit c = (let n = of_char c :: nat in 48 \<le> n \<and> n \<le> 57)"

definition digit_value :: "char \<Rightarrow> nat" where
  "digit_value c = of_char c - 48"

fun show_nat :: "nat \<Rightarrow> string" where
  "show_nat n = (if n < 10 then [digit_char n] else show_nat (n div 10) @ [digit_char (n mod 10)])"

declare show_nat.simps [simp del]

definition show_int :: "int \<Rightarrow> string" where
  "show_int i = (if i < 0 then CHR ''-'' # show_nat (nat (- i)) else show_nat (nat i))"

definition decimal_value :: "string \<Rightarrow> nat" where
  "decimal_value s = foldl (\<lambda>n c. 10 * n + digit_value c) 0 s"

text \<open>\<^verbatim>\<open>s.isdecimal()\<close>; below code point 256 the decimal characters are the ASCII digits.\<close>

definition is_decimal :: "string \<Rightarrow> bool" where
  "is_decimal s = (s \<noteq> [] \<and> list_all is_digit s)"

text \<open>Digits, with single underscores between them.\<close>

fun grouped_digits :: "string \<Rightarrow> bool" where
  "grouped_digits [] = False"
| "grouped_digits [c] = is_digit c"
| "grouped_digits (c # d # cs) =
     (is_digit c \<and> (if d = CHR ''_'' then grouped_digits cs else grouped_digits (d # cs)))"

text \<open>
  \<^verbatim>\<open>int(s)\<close> of a string: surrounding white space, one sign, grouped digits. (CPython also
  refuses numerals of more than 4300 digits; the code only parses numerals it printed.)
\<close>

definition py_int :: "string \<Rightarrow> int result" where
  "py_int s =
     (let t = strip s;
          negative = (case t of [] \<Rightarrow> False | c # _ \<Rightarrow> c = CHR ''-'');
          digits = (case t of [] \<Rightarrow> [] | c # cs \<Rightarrow> if c \<in> {CHR ''-'', CHR ''+''} then cs else t)
      in if grouped_digits digits
         then (let n = int (decimal_value (filter (\<lambda>c. c \<noteq> CHR ''_'') digits))
               in Inr (if negative then - n else n))
         else Inl ValueError)"

lemma of_digit_char: "n < 10 \<Longrightarrow> of_char (digit_char n) = 48 + n"
  by (simp add: digit_char_def)

lemma digit_char [simp]:
  "n < 10 \<Longrightarrow> is_digit (digit_char n)" "n < 10 \<Longrightarrow> digit_value (digit_char n) = n"
  by (simp_all add: is_digit_def digit_value_def of_digit_char)

lemma is_decimal_show_nat [simp]: "is_decimal (show_nat n)"
  by (induction n rule: show_nat.induct) (subst show_nat.simps, auto simp: is_decimal_def)

lemma decimal_value_show_nat [simp]: "decimal_value (show_nat n) = n"
proof (induction n rule: show_nat.induct)
  case (1 n)
  then show ?case
    by (subst show_nat.simps) (simp add: decimal_value_def)
qed

lemma grouped_digits_decimal: "is_decimal s \<Longrightarrow> grouped_digits s"
  by (induction s rule: grouped_digits.induct)
    (auto simp: is_decimal_def is_digit_def)

lemma is_digit_not_space: "is_digit c \<Longrightarrow> \<not> is_space c"
  by (auto simp: is_digit_def is_space_def Let_def)

lemma strip_decimal:
  assumes "is_decimal s"
  shows "strip s = s"
proof -
  from assms have all: "\<forall>c \<in> set s. \<not> is_space c"
    using is_digit_not_space by (auto simp: is_decimal_def list_all_iff)
  then have "dropWhile is_space t = t" if "set t = set s" for t
    using that by (cases t) auto
  then show ?thesis by (simp add: strip_def lstrip_def)
qed

lemma digit_not_sign: "is_digit c \<Longrightarrow> c \<noteq> CHR ''-'' \<and> c \<noteq> CHR ''+'' \<and> c \<noteq> CHR ''_''"
  by (auto simp: is_digit_def)

lemma py_int_decimal:
  assumes "is_decimal s"
  shows "py_int s = Inr (int (decimal_value s))"
proof -
  from assms have "filter (\<lambda>c. c \<noteq> CHR ''_'') s = s"
    using digit_not_sign by (auto simp: is_decimal_def list_all_iff filter_id_conv)
  moreover from assms have "\<exists>c cs. s = c # cs \<and> is_digit c"
    by (cases s) (auto simp: is_decimal_def)
  ultimately show ?thesis
    using grouped_digits_decimal [OF assms] digit_not_sign
    by (auto simp: py_int_def strip_decimal [OF assms])
qed

lemma show_nat_inject [simp]: "show_nat m = show_nat n \<longleftrightarrow> m = n"
  by (metis decimal_value_show_nat)

lemma show_int_nonneg: "0 \<le> i \<Longrightarrow> show_int i = show_nat (nat i)"
  by (simp add: show_int_def)

lemma py_int_show_nat [simp]: "py_int (show_nat n) = Inr (int n)"
  by (simp add: py_int_decimal)

section \<open>Slices\<close>

text \<open>\<^verbatim>\<open>xs[a:]\<close> and \<^verbatim>\<open>xs[:b]\<close>; a negative bound counts from the end.\<close>

definition slice_index :: "int \<Rightarrow> 'a list \<Rightarrow> nat" where
  "slice_index i xs = (if i < 0 then nat (int (length xs) + i) else nat i)"

definition slice_from :: "int \<Rightarrow> 'a list \<Rightarrow> 'a list" where
  "slice_from a xs = drop (slice_index a xs) xs"

definition slice_to :: "int \<Rightarrow> 'a list \<Rightarrow> 'a list" where
  "slice_to b xs = take (slice_index b xs) xs"

section \<open>Sorting with a fallible key\<close>

text \<open>
  \<^verbatim>\<open>sorted(xs, key=f)\<close> where \<open>f\<close> may raise: the keys are computed first, the sort is stable.
\<close>

definition sorted_by :: "('a \<Rightarrow> ('b :: linorder) result) \<Rightarrow> 'a list \<Rightarrow> 'a list result" where
  "sorted_by f xs = bind_result (map_result f xs) (\<lambda>ks. Inr (map snd (sort_key fst (zip ks xs))))"

lemma map_result_of_Inr: "(\<And>x. x \<in> set xs \<Longrightarrow> f x = Inr (k x)) \<Longrightarrow> map_result f xs = Inr (map k xs)"
  by (induction xs) auto

lemma insort_map_pair:
  "insort_key fst (k x, x) (map (\<lambda>x. (k x, x)) xs) = map (\<lambda>x. (k x, x)) (insort_key k x xs)"
  by (induction xs) auto

lemma sort_map_pair: "sort_key fst (map (\<lambda>x. (k x, x)) xs) = map (\<lambda>x. (k x, x)) (sort_key k xs)"
  by (induction xs) (simp_all add: insort_map_pair)

lemma sorted_by_total:
  assumes "\<And>x. x \<in> set xs \<Longrightarrow> f x = Inr (k x)"
  shows "sorted_by f xs = Inr (sort_key k xs)"
proof -
  have "zip (map k xs) xs = map (\<lambda>x. (k x, x)) xs"
    by (induction xs) auto
  with map_result_of_Inr [of xs f k] assms show ?thesis
    by (simp add: sorted_by_def sort_map_pair comp_def)
qed

end
