(* ===== verification/Session_Tasks.thy ===== *)
theory Session_Tasks
  imports Decimal
begin

text \<open>
  The task board of a session: \<^verbatim>\<open>src/linch/sessions/tasks.py\<close> and the parts of the task methods
  of \<^verbatim>\<open>InMemorySessionStore\<close> (\<^verbatim>\<open>src/linch/sessions/memory.py\<close>) that work on the tasks of one
  session. A board is the dictionary \<^verbatim>\<open>self._tasks[session_id]\<close>. Python mutates the task
  objects in the dictionary; here each mutation replaces the entry, and a patch that names the
  task itself as its neighbour reads the entry as left by the step before.
\<close>

section \<open>Data\<close>

record task =
  tk_id :: string
  tk_session_id :: string
  tk_subject :: string
  tk_description :: string
  tk_active_form :: "string option"
  tk_status :: string
  tk_owner :: "string option"
  tk_blocks :: "string list"
  tk_blocked_by :: "string list"
  tk_metadata :: json_obj
  tk_created_at :: string
  tk_updated_at :: string

record create_task_input =
  ct_subject :: string
  ct_description :: string
  ct_active_form :: "string option"
  ct_metadata :: "json_obj option"

record task_patch =
  tp_subject :: "string option"
  tp_description :: "string option"
  tp_active_form :: "string option"
  tp_status :: "string option"
  tp_owner :: "string option"
  tp_add_blocks :: "string list option"
  tp_add_blocked_by :: "string list option"
  tp_remove_blocks :: "string list option"
  tp_remove_blocked_by :: "string list option"
  tp_metadata :: "json_obj option"

definition empty_patch :: task_patch where
  "empty_patch = \<lparr>tp_subject = None, tp_description = None, tp_active_form = None,
     tp_status = None, tp_owner = None, tp_add_blocks = None, tp_add_blocked_by = None,
     tp_remove_blocks = None, tp_remove_blocked_by = None, tp_metadata = None\<rparr>"

type_synonym task_board = "(string, task) dict"

abbreviation keys_of :: "task_board \<Rightarrow> string set" where
  "keys_of b \<equiv> fst ` set b"

section \<open>Operations on a board\<close>

text \<open>\<^verbatim>\<open>_next_task_id\<close>.\<close>

definition next_task_id :: "task_board \<Rightarrow> int" where
  "next_task_id b = fold max (map (\<lambda>k. int (decimal_value k)) (filter is_decimal (dict_keys b))) 0 + 1"

definition new_task :: "string \<Rightarrow> string \<Rightarrow> create_task_input \<Rightarrow> string \<Rightarrow> task" where
  "new_task session_id task_id input ts =
     \<lparr>tk_id = task_id, tk_session_id = session_id, tk_subject = ct_subject input,
      tk_description = ct_description input, tk_active_form = ct_active_form input,
      tk_status = ''pending'', tk_owner = None, tk_blocks = [], tk_blocked_by = [],
      tk_metadata = (case ct_metadata input of None \<Rightarrow> [] | Some m \<Rightarrow> m),
      tk_created_at = ts, tk_updated_at = ts\<rparr>"

text \<open>The loop of \<^verbatim>\<open>create_task\<close>: references to the new id that tasks already hold.\<close>

definition link_existing :: "task \<Rightarrow> task \<Rightarrow> task" where
  "link_existing existing t =
     (let t1 = (if tk_id t \<in> set (tk_blocks existing)
                then t\<lparr>tk_blocked_by := tk_blocked_by t @ [tk_id existing]\<rparr> else t)
      in if tk_id t \<in> set (tk_blocked_by existing)
         then t1\<lparr>tk_blocks := tk_blocks t1 @ [tk_id existing]\<rparr> else t1)"

definition board_create :: "task \<Rightarrow> task_board \<Rightarrow> task_board" where
  "board_create t b = dict_set (tk_id t) (fold link_existing (dict_values b) t) b"

definition modify_task :: "string \<Rightarrow> (task \<Rightarrow> task) \<Rightarrow> task_board \<Rightarrow> task_board" where
  "modify_task k f b = (case dict_get b k of None \<Rightarrow> b | Some t \<Rightarrow> dict_set k (f t) b)"

text \<open>The scalar fields and the metadata of a patch.\<close>

definition patch_metadata :: "json_obj \<Rightarrow> json_obj \<Rightarrow> json_obj" where
  "patch_metadata new old =
     fold (\<lambda>(k, v) m. if v = JNull then dict_pop k m else dict_set k v m) new old"

definition patch_fields :: "task_patch \<Rightarrow> task \<Rightarrow> task" where
  "patch_fields p t =
     t\<lparr>tk_subject := (case tp_subject p of None \<Rightarrow> tk_subject t | Some v \<Rightarrow> v),
       tk_description := (case tp_description p of None \<Rightarrow> tk_description t | Some v \<Rightarrow> v),
       tk_active_form := (case tp_active_form p of None \<Rightarrow> tk_active_form t | Some v \<Rightarrow> Some v),
       tk_status := (case tp_status p of
                       None \<Rightarrow> tk_status t
                     | Some v \<Rightarrow> if v \<noteq> ''deleted'' then v else tk_status t),
       tk_owner := (case tp_owner p of None \<Rightarrow> tk_owner t | Some v \<Rightarrow> Some v),
       tk_metadata := (case tp_metadata p of
                         None \<Rightarrow> tk_metadata t
                       | Some m \<Rightarrow> patch_metadata m (tk_metadata t))\<rparr>"

text \<open>Adding and removing single references.\<close>

definition add_block :: "string \<Rightarrow> string \<Rightarrow> task_board \<Rightarrow> task_board" where
  "add_block k x = modify_task k (\<lambda>t. if x \<notin> set (tk_blocks t)
     then t\<lparr>tk_blocks := tk_blocks t @ [x]\<rparr> else t)"

definition add_blocked_by :: "string \<Rightarrow> string \<Rightarrow> task_board \<Rightarrow> task_board" where
  "add_blocked_by k x = modify_task k (\<lambda>t. if x \<notin> set (tk_blocked_by t)
     then t\<lparr>tk_blocked_by := tk_blocked_by t @ [x]\<rparr> else t)"

definition drop_blocks :: "string \<Rightarrow> string list \<Rightarrow> task_board \<Rightarrow> task_board" where
  "drop_blocks k xs = modify_task k (\<lambda>t. t\<lparr>tk_blocks := filter (\<lambda>x. x \<notin> set xs) (tk_blocks t)\<rparr>)"

definition drop_blocked_by :: "string \<Rightarrow> string list \<Rightarrow> task_board \<Rightarrow> task_board" where
  "drop_blocked_by k xs =
     modify_task k (\<lambda>t. t\<lparr>tk_blocked_by := filter (\<lambda>x. x \<notin> set xs) (tk_blocked_by t)\<rparr>)"

text \<open>\<^verbatim>\<open>patch.add_blocks or []\<close>.\<close>

definition list_or_empty :: "'a list option \<Rightarrow> 'a list" where
  "list_or_empty v = (case v of None \<Rightarrow> [] | Some xs \<Rightarrow> xs)"

text \<open>The four edge edits of \<^verbatim>\<open>update_task\<close>, in the order of the code.\<close>

definition remove_blocks :: "string \<Rightarrow> string list \<Rightarrow> task_board \<Rightarrow> task_board" where
  "remove_blocks k xs b = fold (\<lambda>x. drop_blocked_by x [k]) xs (drop_blocks k xs b)"

definition remove_blocked_by :: "string \<Rightarrow> string list \<Rightarrow> task_board \<Rightarrow> task_board" where
  "remove_blocked_by k xs b = fold (\<lambda>x. drop_blocks x [k]) xs (drop_blocked_by k xs b)"

definition insert_blocks :: "string \<Rightarrow> string list \<Rightarrow> task_board \<Rightarrow> task_board" where
  "insert_blocks k xs b = fold (\<lambda>x b. add_blocked_by x k (add_block k x b)) xs b"

definition insert_blocked_by :: "string \<Rightarrow> string list \<Rightarrow> task_board \<Rightarrow> task_board" where
  "insert_blocked_by k xs b = fold (\<lambda>x b. add_block x k (add_blocked_by k x b)) xs b"

definition board_update :: "string \<Rightarrow> task_patch \<Rightarrow> string \<Rightarrow> task_board \<Rightarrow> task_board" where
  "board_update k p ts b =
     (let b1 = modify_task k (patch_fields p) b;
          b2 = (if list_or_empty (tp_remove_blocks p) \<noteq> []
                then remove_blocks k (list_or_empty (tp_remove_blocks p)) b1 else b1);
          b3 = (if list_or_empty (tp_remove_blocked_by p) \<noteq> []
                then remove_blocked_by k (list_or_empty (tp_remove_blocked_by p)) b2 else b2);
          b4 = insert_blocks k (list_or_empty (tp_add_blocks p)) b3;
          b5 = insert_blocked_by k (list_or_empty (tp_add_blocked_by p)) b4
      in modify_task k (\<lambda>t. t\<lparr>tk_updated_at := ts\<rparr>) b5)"

definition forget_task :: "string \<Rightarrow> task \<Rightarrow> task" where
  "forget_task k t = t\<lparr>tk_blocks := filter (\<lambda>x. x \<noteq> k) (tk_blocks t),
                       tk_blocked_by := filter (\<lambda>x. x \<noteq> k) (tk_blocked_by t)\<rparr>"

definition board_delete :: "string \<Rightarrow> task_board \<Rightarrow> task_board" where
  "board_delete k b = map (\<lambda>(i, t). (i, forget_task k t)) (dict_pop k b)"

text \<open>The test of \<^verbatim>\<open>claim_task\<close> and the filter of \<^verbatim>\<open>ready_tasks\<close>.\<close>

definition claimable_task :: "task \<Rightarrow> bool" where
  "claimable_task t = (\<not> (tk_owner t \<noteq> None \<or> tk_status t \<noteq> ''pending''))"

definition task_ready :: "task_board \<Rightarrow> task \<Rightarrow> bool" where
  "task_ready b t =
     (\<not> (tk_status t \<noteq> ''pending'' \<or> tk_owner t \<noteq> None)
      \<and> list_all (\<lambda>bid. case dict_get b bid of
             None \<Rightarrow> False | Some dep \<Rightarrow> tk_status dep = ''completed'') (tk_blocked_by t))"

definition sorted_tasks :: "task_board \<Rightarrow> task list result" where
  "sorted_tasks b = sorted_by (\<lambda>t. py_int (tk_id t)) (dict_values b)"

definition board_ready :: "task_board \<Rightarrow> task list result" where
  "board_ready b = bind_result (sorted_tasks b) (\<lambda>ts. Inr (filter (task_ready b) ts))"

lemmas [session_defs] =
  add_block_def add_blocked_by_def drop_blocks_def drop_blocked_by_def

section \<open>The dependency graph\<close>

text \<open>Both ends of the edges of a board. A task that is not there has none.\<close>

definition blocks_of :: "task_board \<Rightarrow> string \<Rightarrow> string set" where
  "blocks_of b k = (case dict_get b k of None \<Rightarrow> {} | Some t \<Rightarrow> set (tk_blocks t))"

definition blocked_by_of :: "task_board \<Rightarrow> string \<Rightarrow> string set" where
  "blocked_by_of b k = (case dict_get b k of None \<Rightarrow> {} | Some t \<Rightarrow> set (tk_blocked_by t))"

text \<open>
  One direction of an edge edit: \<open>fwd\<close> is edited at the patched task, \<open>bwd\<close> at its neighbours.
  \<open>keys\<close> is the set of tasks on the board. The two directions of the code are two instances.
\<close>

locale edge_edits =
  fixes keys :: "'b \<Rightarrow> 'k set"
    and fwd bwd :: "'b \<Rightarrow> 'k \<Rightarrow> 'k set"
    and add_fwd add_bwd :: "'k \<Rightarrow> 'k \<Rightarrow> 'b \<Rightarrow> 'b"
    and drop_fwd drop_bwd :: "'k \<Rightarrow> 'k list \<Rightarrow> 'b \<Rightarrow> 'b"
  assumes keys_edits: "keys (add_fwd k x b) = keys b" "keys (add_bwd k x b) = keys b"
      "keys (drop_fwd k xs b) = keys b" "keys (drop_bwd k xs b) = keys b"
    and fwd_edits: "fwd (add_fwd k x b) a = fwd b a \<union> (if a = k \<and> k \<in> keys b then {x} else {})"
      "fwd (add_bwd k x b) a = fwd b a"
      "fwd (drop_fwd k xs b) a = fwd b a - (if a = k then set xs else {})"
      "fwd (drop_bwd k xs b) a = fwd b a"
    and bwd_edits: "bwd (add_bwd k x b) a = bwd b a \<union> (if a = k \<and> k \<in> keys b then {x} else {})"
      "bwd (add_fwd k x b) a = bwd b a"
      "bwd (drop_bwd k xs b) a = bwd b a - (if a = k then set xs else {})"
      "bwd (drop_fwd k xs b) a = bwd b a"
begin

text \<open>Among the tasks on the board, both ends of every edge agree.\<close>

definition symmetric :: "'b \<Rightarrow> bool" where
  "symmetric b \<longleftrightarrow> (\<forall>a \<in> keys b. \<forall>x \<in> keys b. x \<in> fwd b a \<longleftrightarrow> a \<in> bwd b x)"

lemma insert_edges:
  assumes "symmetric b" and "k \<in> keys b"
  shows "symmetric (fold (\<lambda>x b. add_bwd x k (add_fwd k x b)) xs b)
       \<and> keys (fold (\<lambda>x b. add_bwd x k (add_fwd k x b)) xs b) = keys b"
  using assms
proof (induction xs arbitrary: b)
  case (Cons x xs)
  have "symmetric (add_bwd x k (add_fwd k x b))"
    using Cons.prems unfolding symmetric_def by (auto simp: keys_edits fwd_edits bwd_edits)
  with Cons.IH [OF this] Cons.prems show ?case by (simp add: keys_edits)
qed simp

lemma fold_drop_bwd:
  "keys (fold (\<lambda>x. drop_bwd x [k]) xs b) = keys b"
  "fwd (fold (\<lambda>x. drop_bwd x [k]) xs b) a = fwd b a"
  "bwd (fold (\<lambda>x. drop_bwd x [k]) xs b) a = bwd b a - (if a \<in> set xs then {k} else {})"
  by (induction xs arbitrary: b) (auto simp: keys_edits fwd_edits bwd_edits)

lemma remove_edges:
  assumes "symmetric b"
  shows "symmetric (fold (\<lambda>x. drop_bwd x [k]) xs (drop_fwd k xs b))
       \<and> keys (fold (\<lambda>x. drop_bwd x [k]) xs (drop_fwd k xs b)) = keys b"
  using assms unfolding symmetric_def
  by (auto simp: fold_drop_bwd keys_edits fwd_edits bwd_edits)

end

lemma keys_modify_task [simp]: "keys_of (modify_task k f b) = keys_of b"
  by (auto simp: modify_task_def split: option.split dest: map_of_SomeD)
    (metis fst_conv image_eqI map_of_SomeD)

lemma get_modify_task:
  "dict_get (modify_task k f b) a = (if a = k then map_option f (dict_get b k) else dict_get b a)"
  by (simp add: modify_task_def split: option.split)

interpretation task_edges: edge_edits keys_of blocks_of blocked_by_of add_block add_blocked_by
  drop_blocks drop_blocked_by
  by unfold_locales
    (auto simp: session_defs blocks_of_def blocked_by_of_def get_modify_task split: option.splits
      dest: dict_get_keys keys_get dict_get_None_pair)

interpretation task_edges_back: edge_edits keys_of blocked_by_of blocks_of add_blocked_by add_block
  drop_blocked_by drop_blocks
  by unfold_locales
    (auto simp: session_defs blocks_of_def blocked_by_of_def get_modify_task split: option.splits
      dest: dict_get_keys keys_get dict_get_None_pair)

lemma symmetric_back: "task_edges_back.symmetric b \<longleftrightarrow> task_edges.symmetric b"
  by (auto simp: task_edges.symmetric_def task_edges_back.symmetric_def)

lemmas edge_operations =
  task_edges.insert_edges [folded insert_blocks_def]
  task_edges_back.insert_edges [folded insert_blocked_by_def, unfolded symmetric_back]
  task_edges.remove_edges [folded remove_blocks_def]
  task_edges_back.remove_edges [folded remove_blocked_by_def, unfolded symmetric_back]

section \<open>Well-formed boards\<close>

declare map_of_eq_Some_iff [simp del] Some_eq_map_of_iff [simp del]

lemma symmetric_iff:
  "task_edges.symmetric b \<longleftrightarrow>
     (\<forall>a x t u. dict_get b a = Some t \<longrightarrow> dict_get b x = Some u \<longrightarrow>
        (x \<in> set (tk_blocks t) \<longleftrightarrow> a \<in> set (tk_blocked_by u)))"
proof
  assume "task_edges.symmetric b"
  then show "\<forall>a x t u. dict_get b a = Some t \<longrightarrow> dict_get b x = Some u \<longrightarrow>
      (x \<in> set (tk_blocks t) \<longleftrightarrow> a \<in> set (tk_blocked_by u))"
    unfolding task_edges.symmetric_def blocks_of_def blocked_by_of_def
    by (metis dict_get_keys option.simps(5))
next
  assume *: "\<forall>a x t u. dict_get b a = Some t \<longrightarrow> dict_get b x = Some u \<longrightarrow>
      (x \<in> set (tk_blocks t) \<longleftrightarrow> a \<in> set (tk_blocked_by u))"
  show "task_edges.symmetric b"
    unfolding task_edges.symmetric_def
  proof (intro ballI)
    fix a x assume "a \<in> keys_of b" "x \<in> keys_of b"
    then obtain t u where "dict_get b a = Some t" "dict_get b x = Some u" using keys_get by metis
    with * show "x \<in> blocks_of b a \<longleftrightarrow> a \<in> blocked_by_of b x"
      by (simp add: blocks_of_def blocked_by_of_def)
  qed
qed

text \<open>
  Tasks are filed under their own ids, ids are the numerals below the counter, and both ends of
  every dependency agree.
\<close>

definition board_ok :: "int \<Rightarrow> task_board \<Rightarrow> bool" where
  "board_ok next b \<longleftrightarrow>
     dict_ok b
   \<and> (\<forall>k t. dict_get b k = Some t \<longrightarrow> tk_id t = k \<and> (\<exists>n. k = show_nat n \<and> int n < next))
   \<and> task_edges.symmetric b"

text \<open>The part of it that only concerns how tasks are filed.\<close>

definition filed :: "int \<Rightarrow> task_board \<Rightarrow> bool" where
  "filed next b \<longleftrightarrow>
     dict_ok b
   \<and> (\<forall>k t. dict_get b k = Some t \<longrightarrow> tk_id t = k \<and> (\<exists>n. k = show_nat n \<and> int n < next))"

lemma board_ok_filed: "board_ok next b \<longleftrightarrow> filed next b \<and> task_edges.symmetric b"
  by (auto simp: board_ok_def filed_def)

lemma fold_invariant_simple: "(\<And>x b. P b \<Longrightarrow> P (g x b)) \<Longrightarrow> P b \<Longrightarrow> P (fold g xs b)"
  by (induction xs arbitrary: b) auto

named_theorems filed_intros \<open>operations that keep tasks filed under their ids\<close>

lemma filed_modify: "(\<And>t. tk_id (f t) = tk_id t) \<Longrightarrow> filed next b \<Longrightarrow> filed next (modify_task k f b)"
  by (auto simp: filed_def modify_task_def split: option.split)

lemma filed_edits [filed_intros]:
  "filed next b \<Longrightarrow> filed next (add_block k x b)"
  "filed next b \<Longrightarrow> filed next (add_blocked_by k x b)"
  "filed next b \<Longrightarrow> filed next (drop_blocks k xs b)"
  "filed next b \<Longrightarrow> filed next (drop_blocked_by k xs b)"
  by (simp_all add: session_defs filed_modify)

lemma filed_edge_operations [filed_intros]:
  "filed next b \<Longrightarrow> filed next (insert_blocks k xs b)"
  "filed next b \<Longrightarrow> filed next (insert_blocked_by k xs b)"
  "filed next b \<Longrightarrow> filed next (remove_blocks k xs b)"
  "filed next b \<Longrightarrow> filed next (remove_blocked_by k xs b)"
  unfolding insert_blocks_def insert_blocked_by_def remove_blocks_def remove_blocked_by_def
  by (rule fold_invariant_simple; simp add: filed_intros)+

lemma symmetric_modify:
  assumes "\<And>t. tk_blocks (f t) = tk_blocks t" and "\<And>t. tk_blocked_by (f t) = tk_blocked_by t"
    and "task_edges.symmetric b"
  shows "task_edges.symmetric (modify_task k f b)"
proof -
  have "blocks_of (modify_task k f b) a = blocks_of b a"
    "blocked_by_of (modify_task k f b) a = blocked_by_of b a" for a
    using assms(1,2) by (auto simp: blocks_of_def blocked_by_of_def get_modify_task split: option.split)
  with assms(3) show ?thesis by (simp add: task_edges.symmetric_def)
qed

lemma board_ok_modify:
  "(\<And>t. tk_id (f t) = tk_id t) \<Longrightarrow> (\<And>t. tk_blocks (f t) = tk_blocks t) \<Longrightarrow>
   (\<And>t. tk_blocked_by (f t) = tk_blocked_by t) \<Longrightarrow> board_ok next b \<Longrightarrow>
   board_ok next (modify_task k f b)"
  by (simp add: board_ok_filed filed_modify symmetric_modify)

lemma keys_board_update [simp]: "k \<in> keys_of b \<Longrightarrow> keys_of (board_update k p ts b) = keys_of b"
  by (simp add: board_update_def Let_def insert_blocks_def insert_blocked_by_def remove_blocks_def
      remove_blocked_by_def session_defs fold_invariant_simple [where P = "\<lambda>b'. keys_of b' = keys_of b"])

lemma board_ok_update:
  assumes ok: "board_ok next b" and k: "k \<in> keys_of b"
  shows "board_ok next (board_update k p ts b)"
proof -
  let ?b1 = "modify_task k (patch_fields p) b"
  have 1: "board_ok next ?b1 \<and> keys_of ?b1 = keys_of b"
    using ok by (simp add: board_ok_modify patch_fields_def)
  define b2 where "b2 = (if list_or_empty (tp_remove_blocks p) \<noteq> []
    then remove_blocks k (list_or_empty (tp_remove_blocks p)) ?b1 else ?b1)"
  have 2: "board_ok next b2 \<and> keys_of b2 = keys_of b"
    using 1 edge_operations(3) [of ?b1] by (simp add: b2_def board_ok_filed filed_intros)
  define b3 where "b3 = (if list_or_empty (tp_remove_blocked_by p) \<noteq> []
    then remove_blocked_by k (list_or_empty (tp_remove_blocked_by p)) b2 else b2)"
  have 3: "board_ok next b3 \<and> keys_of b3 = keys_of b"
    using 2 edge_operations(4) [of b2] by (simp add: b3_def board_ok_filed filed_intros)
  define b4 where "b4 = insert_blocks k (list_or_empty (tp_add_blocks p)) b3"
  have 4: "board_ok next b4 \<and> keys_of b4 = keys_of b"
    using 3 k edge_operations(1) [of b3 k] by (simp add: b4_def board_ok_filed filed_intros)
  have 5: "board_ok next (insert_blocked_by k (list_or_empty (tp_add_blocked_by p)) b4)"
    using 4 k edge_operations(2) [of b4 k] by (simp add: board_ok_filed filed_intros)
  then show ?thesis
    unfolding board_update_def Let_def b4_def b3_def b2_def by (simp add: board_ok_modify)
qed

text \<open>Deleting a task removes it and every reference to it.\<close>

lemma get_board_delete:
  "dict_get (board_delete k b) a = (if a = k then None else map_option (forget_task k) (dict_get b a))"
  by (simp add: board_delete_def map_of_map [unfolded comp_def] comp_def)

lemma keys_board_delete: "keys_of (board_delete k b) = keys_of b - {k}"
  by (simp add: board_delete_def image_image case_prod_beta)

lemma dict_ok_board_delete: "dict_ok b \<Longrightarrow> dict_ok (board_delete k b)"
  by (simp add: board_delete_def comp_def case_prod_beta)

lemma board_ok_delete: "board_ok next b \<Longrightarrow> board_ok next (board_delete k b)"
  unfolding board_ok_def symmetric_iff
  by (auto simp: get_board_delete dict_ok_board_delete forget_task_def split: if_splits)

text \<open>A new task takes over the references that the tasks on the board already hold to its id.\<close>

lemma link_existing_fold:
  "tk_id (fold link_existing es t) = tk_id t
   \<and> set (tk_blocks (fold link_existing es t)) =
       set (tk_blocks t) \<union> tk_id ` {e \<in> set es. tk_id t \<in> set (tk_blocked_by e)}
   \<and> set (tk_blocked_by (fold link_existing es t)) =
       set (tk_blocked_by t) \<union> tk_id ` {e \<in> set es. tk_id t \<in> set (tk_blocks e)}"
proof (induction es arbitrary: t)
  case (Cons e es)
  have "tk_id (link_existing e t) = tk_id t"
    "set (tk_blocks (link_existing e t)) =
       set (tk_blocks t) \<union> (if tk_id t \<in> set (tk_blocked_by e) then {tk_id e} else {})"
    "set (tk_blocked_by (link_existing e t)) =
       set (tk_blocked_by t) \<union> (if tk_id t \<in> set (tk_blocks e) then {tk_id e} else {})"
    by (auto simp: link_existing_def Let_def)
  with Cons.IH [of "link_existing e t"] show ?case by auto
qed simp

lemma filed_values:
  assumes ok: "filed next b"
  shows "e \<in> set (dict_values b) \<longleftrightarrow> dict_get b (tk_id e) = Some e"
proof
  assume "e \<in> set (dict_values b)"
  then obtain k where "(k, e) \<in> set b" by auto
  with ok have "dict_get b k = Some e" by (simp add: filed_def map_of_eq_Some_iff)
  with ok show "dict_get b (tk_id e) = Some e" by (simp add: filed_def)
next
  assume "dict_get b (tk_id e) = Some e"
  then show "e \<in> set (dict_values b)" by (metis image_eqI map_of_SomeD set_map snd_conv)
qed

lemma filed_ids:
  assumes "filed next b"
  shows "x \<in> tk_id ` {e \<in> set (dict_values b). P e} \<longleftrightarrow> (\<exists>e. dict_get b x = Some e \<and> P e)"
  unfolding filed_values [OF assms] using assms by (auto simp: filed_def image_iff)

lemma board_ok_create:
  assumes ok: "board_ok next b" and "0 \<le> next"
    and id: "tk_id t = show_int next" and empty: "tk_blocks t = []" "tk_blocked_by t = []"
  shows "board_ok (next + 1) (board_create t b)"
proof -
  let ?t = "fold link_existing (dict_values b) t" and ?k = "tk_id t"
  from ok have filed: "filed next b" and sym: "task_edges.symmetric b"
    by (simp_all add: board_ok_filed)
  have fresh: "dict_get b ?k = None"
  proof (rule ccontr)
    assume "dict_get b ?k \<noteq> None"
    with filed obtain n where "?k = show_nat n" "int n < next" by (auto simp: filed_def)
    moreover from this id \<open>0 \<le> next\<close> have "n = nat next" by (simp add: show_int_nonneg)
    ultimately show False using \<open>0 \<le> next\<close> by linarith
  qed
  note link = link_existing_fold [of "dict_values b" t]
  have edges: "dict_get b x = Some e \<Longrightarrow> x \<in> set (tk_blocks ?t) \<longleftrightarrow> ?k \<in> set (tk_blocked_by e)"
    "dict_get b x = Some e \<Longrightarrow> x \<in> set (tk_blocked_by ?t) \<longleftrightarrow> ?k \<in> set (tk_blocks e)" for x e
    using link filed_ids [OF filed] by (simp_all add: empty del: list.set_map)
  have self: "?k \<notin> set (tk_blocks ?t)" "?k \<notin> set (tk_blocked_by ?t)"
    using link filed_ids [OF filed] fresh by (simp_all add: empty del: list.set_map)
  have get: "dict_get (board_create t b) a = (if a = ?k then Some ?t else dict_get b a)" for a
    by (simp add: board_create_def)
  have "filed (next + 1) (board_create t b)"
    unfolding filed_def
  proof (intro conjI allI impI)
    show "dict_ok (board_create t b)" using filed by (simp add: filed_def board_create_def)
    fix k u assume u: "dict_get (board_create t b) k = Some u"
    then show "tk_id u = k" using filed link by (auto simp: get filed_def split: if_splits)
    show "\<exists>n. k = show_nat n \<and> int n < next + 1"
    proof (cases "k = ?k")
      case True
      with id \<open>0 \<le> next\<close> show ?thesis by (auto simp: show_int_nonneg intro!: exI [of _ "nat next"])
    next
      case False
      with u filed show ?thesis by (fastforce simp: get filed_def)
    qed
  qed
  moreover have "task_edges.symmetric (board_create t b)"
    using sym edges self unfolding symmetric_iff get by (auto split: if_splits)
  ultimately show ?thesis by (simp add: board_ok_filed)
qed

end
