(* ===== verification/Session_Store.thy ===== *)
theory Session_Store
  imports Durability Session_Tasks Append_Log
begin

text \<open>
  The in-memory session store: \<^verbatim>\<open>InMemorySessionStore\<close> of \<^verbatim>\<open>src/linch/sessions/memory.py\<close> with
  the records and the snapshot codec of \<^verbatim>\<open>src/linch/sessions/store.py\<close>. Clock readings
  (\<open>ts\<close>) and drawn ids (\<open>uuid\<close>) are arguments; \<^verbatim>\<open>deepcopy\<close> is the identity on values.
\<close>

section \<open>Data\<close>

record session_record =
  sr_id :: string
  sr_created_at :: string
  sr_updated_at :: string
  sr_meta :: json_obj
  sr_invoked_skills :: "json_obj list"

record stored_message =
  sm_seq :: int
  sm_appended_at :: string
  sm_message :: message

record provider_snapshot =
  ps_provider_view :: "message list"
  ps_covers_seq :: int
  ps_projection_id :: "string option"

record inbox_row =
  ib_digest :: string
  ib_message_json :: "string option"
  ib_source :: "string option"
  ib_metadata_json :: "string option"
  ib_message_seq :: "int option"

record session_store =
  ss_sessions :: "(string, session_record) dict"
  ss_messages :: "(string, stored_message list) dict"
  ss_snapshots :: "(string, json_obj) dict"
  ss_tasks :: "(string, task_board) dict"
  ss_task_counter :: "(string, int) dict"
  ss_offloads :: "(string, (string, string) dict) dict"
  ss_inbox :: "(string, (string, inbox_row) dict) dict"

definition new_session_store :: session_store where
  "new_session_store = \<lparr>ss_sessions = [], ss_messages = [], ss_snapshots = [], ss_tasks = [],
     ss_task_counter = [], ss_offloads = [], ss_inbox = []\<rparr>"

text \<open>\<^verbatim>\<open>d.get(k, [])\<close> and \<^verbatim>\<open>d.get(k, {})\<close>.\<close>

definition get_list :: "('k, 'v list) dict \<Rightarrow> 'k \<Rightarrow> 'v list" where
  "get_list d k = (case dict_get d k of None \<Rightarrow> [] | Some xs \<Rightarrow> xs)"

section \<open>Snapshots\<close>

definition snapshot_to_dict :: "provider_snapshot \<Rightarrow> json_obj" where
  "snapshot_to_dict s =
     (case ps_projection_id s of None \<Rightarrow> [] | Some p \<Rightarrow> [(''projection_id'', JStr p)])
     @ [(''schema_version'', JInt wire_version), (''covers_seq'', JInt (ps_covers_seq s)),
        (''provider_view'', JList (map (\<lambda>m. JDict (message_to_dict m)) (ps_provider_view s)))]"

text \<open>\<^verbatim>\<open>int(v)\<close>: floats are truncated towards zero.\<close>

fun py_int_of :: "json \<Rightarrow> int result" where
  "py_int_of (JInt n) = Inr n"
| "py_int_of (JBool b) = Inr (if b then 1 else 0)"
| "py_int_of (JStr s) = py_int s"
| "py_int_of (JFloat (Fin q)) = Inr (if q < 0 then \<lceil>q\<rceil> else \<lfloor>q\<rfloor>)"
| "py_int_of (JFloat NaN) = Inl ValueError"
| "py_int_of (JFloat _) = Inl OverflowError"
| "py_int_of _ = Inl TypeError"

fun message_from_json :: "(json \<Rightarrow> string) \<Rightarrow> json \<Rightarrow> message result" where
  "message_from_json rp (JDict d) = message_from_dict rp d"
| "message_from_json rp _ = Inl TypeError"

definition snapshot_from_dict :: "(json \<Rightarrow> string) \<Rightarrow> json \<Rightarrow> provider_snapshot result" where
  "snapshot_from_dict rp v = (case v of
       JDict raw \<Rightarrow>
         bind_result (require_wire_version (dict_get raw ''schema_version'')) (\<lambda>_.
         bind_result
           (case dict_get raw ''projection_id'' of
              None \<Rightarrow> Inr None
            | Some JNull \<Rightarrow> Inr None
            | Some (JStr p) \<Rightarrow> if blank p then Inl ValueError else Inr (Some p)
            | Some _ \<Rightarrow> Inl ValueError) (\<lambda>projection_id.
         bind_result (py_iter (raw_get raw ''provider_view'' (JList []))) (\<lambda>items.
         bind_result (map_result (message_from_json rp) items) (\<lambda>view.
         bind_result (py_int_of (raw_get raw ''covers_seq'' (JInt 0))) (\<lambda>covers_seq.
           Inr \<lparr>ps_provider_view = view, ps_covers_seq = covers_seq,
                ps_projection_id = projection_id\<rparr>)))))
     | _ \<Rightarrow> Inl UnsupportedWireVersionError)"

section \<open>Sessions\<close>

text \<open>\<^verbatim>\<open>_copy_message\<close> goes through the wire form and may raise.\<close>

definition copy_message :: "(json \<Rightarrow> string) \<Rightarrow> message \<Rightarrow> message result" where
  "copy_message rp m = message_from_dict rp (message_to_dict m)"

text \<open>\<^verbatim>\<open>self._sessions[id].updated_at = ts\<close>, before a result is returned.\<close>

definition touch :: "string \<Rightarrow> string \<Rightarrow> session_store \<Rightarrow> 'r \<Rightarrow> session_store \<times> 'r result" where
  "touch sid ts st r = (case dict_get (ss_sessions st) sid of
       None \<Rightarrow> (st, Inl KeyError)
     | Some rec \<Rightarrow>
         (st\<lparr>ss_sessions := dict_set sid (rec\<lparr>sr_updated_at := ts\<rparr>) (ss_sessions st)\<rparr>, Inr r))"

definition session_create ::
  "string \<Rightarrow> string option \<Rightarrow> json_obj option \<Rightarrow> string \<Rightarrow> session_store
   \<Rightarrow> session_store \<times> session_record" where
  "session_create uuid id_arg meta ts st =
     (let sid = (case id_arg of None \<Rightarrow> uuid | Some i \<Rightarrow> if i = [] then uuid else i) in
      case dict_get (ss_sessions st) sid of
        Some existing \<Rightarrow> (st, existing)
      | None \<Rightarrow>
          (let record = \<lparr>sr_id = sid, sr_created_at = ts, sr_updated_at = ts,
                         sr_meta = (case meta of None \<Rightarrow> [] | Some m \<Rightarrow> m),
                         sr_invoked_skills = []\<rparr>;
               tasks = dict_setdefault sid [] (ss_tasks st)
           in (st\<lparr>ss_sessions := dict_set sid record (ss_sessions st),
                  ss_messages := dict_setdefault sid [] (ss_messages st),
                  ss_tasks := tasks,
                  ss_task_counter :=
                    dict_setdefault sid (next_task_id (get_list tasks sid)) (ss_task_counter st),
                  ss_inbox := dict_setdefault sid [] (ss_inbox st)\<rparr>,
               record)))"

definition create_if_absent ::
  "string \<Rightarrow> string \<Rightarrow> json_obj option \<Rightarrow> string \<Rightarrow> session_store
   \<Rightarrow> session_store \<times> session_record option" where
  "create_if_absent uuid sid meta ts st =
     (if sid \<in> set (dict_keys (ss_sessions st)) then (st, None)
      else (case session_create uuid (Some sid) meta ts st of (st', rec) \<Rightarrow> (st', Some rec)))"

definition load_session :: "string \<Rightarrow> session_store \<Rightarrow> session_record option" where
  "load_session sid st = dict_get (ss_sessions st) sid"

definition load_messages ::
  "(json \<Rightarrow> string) \<Rightarrow> string \<Rightarrow> session_store \<Rightarrow> stored_message list result" where
  "load_messages rp sid st =
     map_result (\<lambda>row. bind_result (copy_message rp (sm_message row))
                         (\<lambda>m. Inr (row\<lparr>sm_message := m\<rparr>)))
       (get_list (ss_messages st) sid)"

text \<open>Rows numbered on from the current end of the log.\<close>

definition stamp_messages :: "string \<Rightarrow> stored_message list \<Rightarrow> message list \<Rightarrow> stored_message list" where
  "stamp_messages ts bucket ms =
     map2 (\<lambda>i m. \<lparr>sm_seq = int (length bucket) + 1 + int i, sm_appended_at = ts, sm_message = m\<rparr>)
       [0..<length ms] ms"

definition extend_messages ::
  "string \<Rightarrow> string \<Rightarrow> message list \<Rightarrow> session_store \<Rightarrow> session_store" where
  "extend_messages sid ts ms st =
     st\<lparr>ss_messages := dict_set sid
          (get_list (ss_messages st) sid @ stamp_messages ts (get_list (ss_messages st) sid) ms)
          (ss_messages st)\<rparr>"

definition append_messages ::
  "(json \<Rightarrow> string) \<Rightarrow> string \<Rightarrow> message list \<Rightarrow> string \<Rightarrow> session_store
   \<Rightarrow> session_store \<times> stored_message list result" where
  "append_messages rp sid ms ts st =
     (if sid \<notin> set (dict_keys (ss_sessions st)) then (st, Inl KeyError)
      else case dict_get (ss_messages st) sid of
          None \<Rightarrow> (st, Inl KeyError)
        | Some bucket \<Rightarrow>
            (case map_result (copy_message rp) ms of
               Inl e \<Rightarrow> (st, Inl e)
             | Inr copies \<Rightarrow>
                 touch sid ts (extend_messages sid ts copies st) (stamp_messages ts bucket copies)))"

definition update_meta ::
  "string \<Rightarrow> json_obj \<Rightarrow> string \<Rightarrow> session_store \<Rightarrow> session_store \<times> session_record result" where
  "update_meta sid meta ts st = (case dict_get (ss_sessions st) sid of
       None \<Rightarrow> (st, Inl KeyError)
     | Some rec \<Rightarrow>
         (let rec' = rec\<lparr>sr_meta := fold (\<lambda>(k, v). dict_set k v) meta (sr_meta rec),
                         sr_updated_at := ts\<rparr>
          in (st\<lparr>ss_sessions := dict_set sid rec' (ss_sessions st)\<rparr>, Inr rec')))"

definition set_invoked_skills ::
  "string \<Rightarrow> json_obj list \<Rightarrow> string \<Rightarrow> session_store \<Rightarrow> session_store \<times> unit result" where
  "set_invoked_skills sid skills ts st = (case dict_get (ss_sessions st) sid of
       None \<Rightarrow> (st, Inl KeyError)
     | Some rec \<Rightarrow>
         (st\<lparr>ss_sessions := dict_set sid (rec\<lparr>sr_invoked_skills := skills, sr_updated_at := ts\<rparr>)
                              (ss_sessions st)\<rparr>, Inr ()))"

text \<open>Most recently updated first; \<^verbatim>\<open>reverse=True\<close> keeps the order of equal keys.\<close>

definition list_sessions ::
  "int option \<Rightarrow> int \<Rightarrow> session_store \<Rightarrow> session_record list" where
  "list_sessions limit offset st =
     (let rows = rev (sort_key sr_updated_at (rev (dict_values (ss_sessions st))));
          rows = (if offset \<noteq> 0 then slice_from offset rows else rows)
      in case limit of None \<Rightarrow> rows | Some l \<Rightarrow> slice_to l rows)"

definition delete_session :: "string \<Rightarrow> session_store \<Rightarrow> session_store" where
  "delete_session sid st =
     \<lparr>ss_sessions = dict_pop sid (ss_sessions st), ss_messages = dict_pop sid (ss_messages st),
      ss_snapshots = dict_pop sid (ss_snapshots st), ss_tasks = dict_pop sid (ss_tasks st),
      ss_task_counter = dict_pop sid (ss_task_counter st),
      ss_offloads = dict_pop sid (ss_offloads st), ss_inbox = dict_pop sid (ss_inbox st)\<rparr>"

section \<open>Snapshots and offloads of a session\<close>

definition save_provider_snapshot ::
  "string \<Rightarrow> provider_snapshot \<Rightarrow> session_store \<Rightarrow> session_store" where
  "save_provider_snapshot sid s st =
     st\<lparr>ss_snapshots := dict_set sid (snapshot_to_dict s) (ss_snapshots st)\<rparr>"

definition load_provider_snapshot ::
  "(json \<Rightarrow> string) \<Rightarrow> string \<Rightarrow> session_store \<Rightarrow> provider_snapshot option result" where
  "load_provider_snapshot rp sid st = (case dict_get (ss_snapshots st) sid of
       None \<Rightarrow> Inr None
     | Some raw \<Rightarrow> bind_result (snapshot_from_dict rp (JDict raw)) (\<lambda>s. Inr (Some s)))"

definition save_offload ::
  "string \<Rightarrow> string \<Rightarrow> string \<Rightarrow> session_store \<Rightarrow> session_store" where
  "save_offload sid path text st =
     st\<lparr>ss_offloads := dict_set sid (dict_set path text (get_list (ss_offloads st) sid))
                         (ss_offloads st)\<rparr>"

definition load_offload :: "string \<Rightarrow> string \<Rightarrow> session_store \<Rightarrow> string option" where
  "load_offload sid path st = dict_get (get_list (ss_offloads st) sid) path"

definition list_offloads :: "string \<Rightarrow> session_store \<Rightarrow> string list" where
  "list_offloads sid st = sort (dict_keys (get_list (ss_offloads st) sid))"

section \<open>The inbox\<close>

definition enqueue_inbox ::
  "json_env \<Rightarrow> string \<Rightarrow> inbox_delivery \<Rightarrow> session_store \<Rightarrow> session_store \<times> unit result" where
  "enqueue_inbox env sid d st =
     (if sid \<notin> set (dict_keys (ss_sessions st)) then (st, Inl KeyError)
      else
        (let st1 = st\<lparr>ss_inbox := dict_setdefault sid [] (ss_inbox st)\<rparr>;
             bucket = get_list (ss_inbox st) sid
         in case dict_get bucket (dl_delivery_id d) of
              Some existing \<Rightarrow>
                if ib_digest existing \<noteq> dl_digest d then (st1, Inl ConfigError) else (st1, Inr ())
            | None \<Rightarrow>
                (case encode_inbox_delivery env d of
                   Inl e \<Rightarrow> (st1, Inl e)
                 | Inr (message_json, source, metadata_json) \<Rightarrow>
                     (let row = \<lparr>ib_digest = dl_digest d, ib_message_json = Some message_json,
                                 ib_source = Some source, ib_metadata_json = Some metadata_json,
                                 ib_message_seq = None\<rparr>
                      in (st1\<lparr>ss_inbox := dict_set sid (dict_set (dl_delivery_id d) row bucket)
                                (ss_inbox st1)\<rparr>, Inr ())))))"

text \<open>The first loop of \<^verbatim>\<open>commit_inbox\<close>: the messages that wait, decoded before anything changes.\<close>

fun pending_messages :: "json_env \<Rightarrow> (string \<times> inbox_row) list \<Rightarrow> message list result" where
  "pending_messages env [] = Inr []"
| "pending_messages env ((k, row) # rows) =
     (if ib_message_seq row \<noteq> None then pending_messages env rows
      else case ib_message_json row of
          None \<Rightarrow> Inl ConfigError
        | Some payload \<Rightarrow>
            bind_result (decode_inbox_message env payload) (\<lambda>m.
            bind_result (pending_messages env rows) (\<lambda>ms. Inr (m # ms))))"

text \<open>The second loop: each of these rows gets the next position and drops its payload.\<close>

fun assign_seqs :: "int \<Rightarrow> (string \<times> inbox_row) list \<Rightarrow> (string \<times> inbox_row) list" where
  "assign_seqs seq [] = []"
| "assign_seqs seq ((k, row) # rows) =
     (if ib_message_seq row \<noteq> None then (k, row) # assign_seqs seq rows
      else (k, row\<lparr>ib_message_seq := Some seq, ib_message_json := None, ib_source := None,
                   ib_metadata_json := None\<rparr>) # assign_seqs (seq + 1) rows)"

definition commit_inbox ::
  "json_env \<Rightarrow> string \<Rightarrow> json \<Rightarrow> string \<Rightarrow> session_store
   \<Rightarrow> session_store \<times> stored_message list result" where
  "commit_inbox env sid after_seq ts st =
     (if sid \<notin> set (dict_keys (ss_sessions st)) then (st, Inl KeyError)
      else case (case after_seq of JInt n \<Rightarrow> if n < 0 then None else Some n | _ \<Rightarrow> None) of
          None \<Rightarrow> (st, Inl ConfigError)
        | Some after \<Rightarrow>
            (case dict_get (ss_messages st) sid of
               None \<Rightarrow> (st, Inl KeyError)
             | Some messages \<Rightarrow>
                 (let st1 = st\<lparr>ss_inbox := dict_setdefault sid [] (ss_inbox st)\<rparr>;
                      bucket = get_list (ss_inbox st) sid
                  in case pending_messages env bucket of
                       Inl e \<Rightarrow> (st1, Inl e)
                     | Inr new \<Rightarrow>
                         (let st2 = extend_messages sid ts new
                                (st1\<lparr>ss_inbox := dict_set sid
                                       (assign_seqs (int (length messages) + 1) bucket) (ss_inbox st1)\<rparr>);
                              rows = get_list (ss_messages st2) sid;
                              tail = filter (\<lambda>row. after < sm_seq row) rows
                          in if rows \<noteq> [] \<and> after < sm_seq (last rows) then touch sid ts st2 tail
                             else (st2, Inr tail)))))"

section \<open>Tasks\<close>

definition create_task ::
  "string \<Rightarrow> create_task_input \<Rightarrow> string \<Rightarrow> session_store \<Rightarrow> session_store \<times> task result" where
  "create_task sid input ts st =
     (if sid \<notin> set (dict_keys (ss_sessions st)) then (st, Inl KeyError)
      else
        (let b = get_list (ss_tasks st) sid;
             n = (case dict_get (ss_task_counter st) sid of None \<Rightarrow> next_task_id b | Some n \<Rightarrow> n);
             t = new_task sid (show_int n) input ts;
             b' = board_create t b
         in touch sid ts
              (st\<lparr>ss_task_counter := dict_set sid (n + 1) (ss_task_counter st),
                  ss_tasks := dict_set sid b' (ss_tasks st)\<rparr>)
              (fold link_existing (dict_values b) t)))"

definition get_task :: "string \<Rightarrow> string \<Rightarrow> session_store \<Rightarrow> task option" where
  "get_task sid tid st = dict_get (get_list (ss_tasks st) sid) tid"

definition list_tasks :: "string \<Rightarrow> session_store \<Rightarrow> task list result" where
  "list_tasks sid st = sorted_tasks (get_list (ss_tasks st) sid)"

definition delete_task ::
  "string \<Rightarrow> string \<Rightarrow> string \<Rightarrow> session_store \<Rightarrow> session_store \<times> bool result" where
  "delete_task sid tid ts st =
     (let b = get_list (ss_tasks st) sid
      in if tid \<in> set (dict_keys b)
         then touch sid ts (st\<lparr>ss_tasks := dict_set sid (board_delete tid b) (ss_tasks st)\<rparr>) True
         else (st, Inr False))"

definition update_task ::
  "string \<Rightarrow> string \<Rightarrow> task_patch \<Rightarrow> string \<Rightarrow> session_store \<Rightarrow> session_store \<times> task option result" where
  "update_task sid tid p ts st =
     (case get_task sid tid st of
        None \<Rightarrow> (st, Inr None)
      | Some t \<Rightarrow>
          if tp_status p = Some ''deleted'' then
            (case delete_task sid tid ts st of (st', r) \<Rightarrow> (st', bind_result r (\<lambda>_. Inr None)))
          else
            (let b = board_update tid p ts (get_list (ss_tasks st) sid)
             in touch sid ts (st\<lparr>ss_tasks := dict_set sid b (ss_tasks st)\<rparr>) (dict_get b tid)))"

text \<open>Replacing one task of one session.\<close>

definition put_task :: "string \<Rightarrow> string \<Rightarrow> task \<Rightarrow> session_store \<Rightarrow> session_store" where
  "put_task sid tid t st =
     st\<lparr>ss_tasks := dict_set sid (modify_task tid (\<lambda>_. t) (get_list (ss_tasks st) sid)) (ss_tasks st)\<rparr>"

definition claim_task ::
  "string \<Rightarrow> string \<Rightarrow> string \<Rightarrow> string \<Rightarrow> session_store \<Rightarrow> session_store \<times> task option result" where
  "claim_task sid tid owner ts st =
     (case get_task sid tid st of
        None \<Rightarrow> (st, Inr None)
      | Some t \<Rightarrow>
          if \<not> claimable_task t then (st, Inr None)
          else (let t' = t\<lparr>tk_owner := Some owner, tk_updated_at := ts\<rparr>
                in touch sid ts (put_task sid tid t' st) (Some t')))"

definition ready_tasks :: "string \<Rightarrow> session_store \<Rightarrow> task list result" where
  "ready_tasks sid st = board_ready (get_list (ss_tasks st) sid)"

definition release_task ::
  "string \<Rightarrow> string \<Rightarrow> string \<Rightarrow> session_store \<Rightarrow> session_store \<times> task option result" where
  "release_task sid tid ts st =
     (case get_task sid tid st of
        None \<Rightarrow> (st, Inr None)
      | Some t \<Rightarrow>
          if tk_status t = ''completed'' then (st, Inr (Some t))
          else (let t' = t\<lparr>tk_owner := None, tk_status := ''pending'', tk_updated_at := ts\<rparr>
                in touch sid ts (put_task sid tid t' st) (Some t')))"

section \<open>Histories of a store\<close>

text \<open>
  Any call of any method, except deleting the session \<open>keep\<close>. The parameter lets a property
  speak about a session that is not deleted in between; over all \<open>keep\<close> the steps are all calls.
\<close>

inductive session_step :: "json_env \<Rightarrow> string \<Rightarrow> session_store \<Rightarrow> session_store \<Rightarrow> bool"
  for env keep where
  step_create: "session_step env keep st (fst (session_create uuid i meta ts st))"
| step_create_if_absent: "session_step env keep st (fst (create_if_absent uuid sid meta ts st))"
| step_append: "session_step env keep st (fst (append_messages (str_of env) sid ms ts st))"
| step_enqueue: "session_step env keep st (fst (enqueue_inbox env sid d st))"
| step_commit: "session_step env keep st (fst (commit_inbox env sid after_seq ts st))"
| step_save_snapshot: "session_step env keep st (save_provider_snapshot sid s st)"
| step_save_offload: "session_step env keep st (save_offload sid path body st)"
| step_update_meta: "session_step env keep st (fst (update_meta sid meta ts st))"
| step_set_skills: "session_step env keep st (fst (set_invoked_skills sid skills ts st))"
| step_delete: "sid \<noteq> keep \<Longrightarrow> session_step env keep st (delete_session sid st)"
| step_create_task: "session_step env keep st (fst (create_task sid input ts st))"
| step_update_task: "session_step env keep st (fst (update_task sid tid p ts st))"
| step_delete_task: "session_step env keep st (fst (delete_task sid tid ts st))"
| step_claim_task: "session_step env keep st (fst (claim_task sid tid owner ts st))"
| step_release_task: "session_step env keep st (fst (release_task sid tid ts st))"

definition session_any_step :: "json_env \<Rightarrow> session_store \<Rightarrow> session_store \<Rightarrow> bool" where
  "session_any_step env st st' \<longleftrightarrow> (\<exists>keep. session_step env keep st st')"

abbreviation session_reachable :: "json_env \<Rightarrow> session_store \<Rightarrow> bool" where
  "session_reachable env st \<equiv> (session_any_step env)\<^sup>*\<^sup>* new_session_store st"

section \<open>Well-formed stores\<close>

interpretation session_log: append_log
  "\<lambda>st ms. extend_messages sid ts ms st" "\<lambda>st. get_list (ss_messages st) sid" sm_seq sm_message
  for sid ts
proof
  fix st ms
  have "map sm_message (stamp_messages ts b ms) = ms"
    "map sm_seq (stamp_messages ts b ms) = map (\<lambda>i. int (length b) + 1 + int i) [0..<length ms]" for b
    by (simp_all add: stamp_messages_def map2_map_map [symmetric] comp_def case_prod_beta
        map_fst_zip map_snd_zip flip: map_map) (auto intro!: nth_equalityI)
  then show "map sm_message (get_list (ss_messages (extend_messages sid ts ms st)) sid) =
      map sm_message (get_list (ss_messages st) sid) @ ms"
    and "map sm_seq (get_list (ss_messages (extend_messages sid ts ms st)) sid) =
      map sm_seq (get_list (ss_messages st) sid)
      @ map (\<lambda>i. int (length (get_list (ss_messages st) sid)) + 1 + int i) [0..<length ms]"
    by (simp_all add: extend_messages_def get_list_def)
qed

definition numbered :: "stored_message list \<Rightarrow> bool" where
  "numbered ms \<longleftrightarrow> map sm_seq ms = map (\<lambda>i. 1 + int i) [0..<length ms]"

lemma session_log_contiguous: "session_log.contiguous sid st \<longleftrightarrow> numbered (get_list (ss_messages st) sid)"
  by (simp add: session_log.contiguous_def numbered_def)

text \<open>
  A pending row still has its payload; a committed row has a position in the log, and no two
  rows have the same.
\<close>

definition committed_seqs :: "(string \<times> inbox_row) list \<Rightarrow> int list" where
  "committed_seqs rows = List.map_filter (\<lambda>(k, row). ib_message_seq row) rows"

definition row_ok :: "nat \<Rightarrow> inbox_row \<Rightarrow> bool" where
  "row_ok n row \<longleftrightarrow> (case ib_message_seq row of
       None \<Rightarrow> ib_message_json row \<noteq> None
     | Some s \<Rightarrow> 1 \<le> s \<and> s \<le> int n)"

definition inbox_ok :: "nat \<Rightarrow> (string \<times> inbox_row) list \<Rightarrow> bool" where
  "inbox_ok n rows \<longleftrightarrow>
     dict_ok rows \<and> (\<forall>(k, row) \<in> set rows. row_ok n row) \<and> distinct (committed_seqs rows)"

text \<open>What the store holds about one session.\<close>

definition session_view :: "session_store \<Rightarrow> string \<Rightarrow>
    bool \<times> stored_message list option \<times> task_board option \<times> int option
    \<times> (string \<times> inbox_row) list option" where
  "session_view st sid =
     (sid \<in> fst ` set (ss_sessions st), dict_get (ss_messages st) sid, dict_get (ss_tasks st) sid,
      dict_get (ss_task_counter st) sid, dict_get (ss_inbox st) sid)"

definition live_view ::
  "stored_message list \<Rightarrow> task_board \<Rightarrow> int \<Rightarrow> (string \<times> inbox_row) list \<Rightarrow> bool" where
  "live_view ms b n rows \<longleftrightarrow>
     numbered ms \<and> board_ok n b \<and> 0 \<le> n \<and> inbox_ok (length ms) rows"

fun view_ok :: "bool \<times> stored_message list option \<times> task_board option \<times> int option
    \<times> (string \<times> inbox_row) list option \<Rightarrow> bool" where
  "view_ok (True, Some ms, Some b, Some n, Some rows) = live_view ms b n rows"
| "view_ok (False, None, None, None, None) = True"
| "view_ok _ = False"

definition session_ok :: "session_store \<Rightarrow> bool" where
  "session_ok st \<longleftrightarrow> (\<forall>sid. view_ok (session_view st sid))"

lemma view_ok_cases:
  assumes "view_ok v"
  obtains (live) ms b n rows where "v = (True, Some ms, Some b, Some n, Some rows)" "live_view ms b n rows"
  | (absent) "v = (False, None, None, None, None)"
  using assms by (cases v rule: view_ok.cases) auto

lemma session_ok_live:
  assumes "session_ok st" and "sid \<in> fst ` set (ss_sessions st)"
  obtains ms b n rows where "dict_get (ss_messages st) sid = Some ms"
    "dict_get (ss_tasks st) sid = Some b" "dict_get (ss_task_counter st) sid = Some n"
    "dict_get (ss_inbox st) sid = Some rows" "live_view ms b n rows"
proof -
  from assms have "view_ok (session_view st sid)" by (simp add: session_ok_def)
  then show thesis
    by (cases rule: view_ok_cases) (use assms(2) that in \<open>auto simp: session_view_def\<close>)
qed

lemma session_ok_absent:
  assumes "session_ok st" and "sid \<notin> fst ` set (ss_sessions st)"
  shows "dict_get (ss_messages st) sid = None" "dict_get (ss_tasks st) sid = None"
    "dict_get (ss_task_counter st) sid = None" "dict_get (ss_inbox st) sid = None"
proof -
  from assms have "view_ok (session_view st sid)" by (simp add: session_ok_def)
  then have "session_view st sid = (False, None, None, None, None)"
    by (cases rule: view_ok_cases) (use assms(2) in \<open>auto simp: session_view_def\<close>)
  then show "dict_get (ss_messages st) sid = None" "dict_get (ss_tasks st) sid = None"
    "dict_get (ss_task_counter st) sid = None" "dict_get (ss_inbox st) sid = None"
    by (simp_all add: session_view_def)
qed

lemma session_ok_task_session:
  assumes "session_ok st" and "get_task sid tid st = Some t"
  shows "sid \<in> fst ` set (ss_sessions st)"
  using assms session_ok_absent(2) [OF assms(1)]
  by (cases "sid \<in> fst ` set (ss_sessions st)") (auto simp: get_task_def get_list_def)

text \<open>One session changes, to something well-formed; the others stay.\<close>

lemma session_okI:
  assumes "session_ok st" and "\<And>s. s \<noteq> sid \<Longrightarrow> session_view st' s = session_view st s"
    and "view_ok (session_view st' sid)"
  shows "session_ok st'"
  using assms unfolding session_ok_def by metis

text \<open>Touching a session changes its time stamp and nothing else.\<close>

definition touched :: "string \<Rightarrow> string \<Rightarrow> session_store \<Rightarrow> session_store" where
  "touched sid ts st = fst (touch sid ts st ())"

lemma touch_eq:
  "touch sid ts st r =
     (touched sid ts st, if sid \<in> fst ` set (ss_sessions st) then Inr r else Inl KeyError)"
  by (auto simp: touched_def touch_def split: option.split dest: dict_get_keys keys_get
      dict_get_None_pair)

lemma touched_fields [simp]:
  "ss_messages (touched sid ts st) = ss_messages st" "ss_tasks (touched sid ts st) = ss_tasks st"
  "ss_task_counter (touched sid ts st) = ss_task_counter st"
  "ss_inbox (touched sid ts st) = ss_inbox st" "ss_snapshots (touched sid ts st) = ss_snapshots st"
  "ss_offloads (touched sid ts st) = ss_offloads st"
  "fst ` set (ss_sessions (touched sid ts st)) = fst ` set (ss_sessions st)"
  by (auto simp: touched_def touch_def split: option.split dest: dict_get_keys)

lemma session_view_touched [simp]: "session_view (touched sid ts st) s = session_view st s"
  by (simp add: session_view_def)

lemma session_ok_touched [simp]: "session_ok (touched sid ts st) = session_ok st"
  by (simp add: session_ok_def)

section \<open>Every operation keeps the store well-formed\<close>

lemma length_stamp_messages [simp]: "length (stamp_messages ts b ms) = length ms"
  by (simp add: stamp_messages_def)

lemma numbered_extend: "numbered b \<Longrightarrow> numbered (b @ stamp_messages ts b ms)"
proof -
  assume b: "numbered b"
  define st where "st = new_session_store\<lparr>ss_messages := [([], b)]\<rparr>"
  have rows: "get_list (ss_messages st) [] = b" by (simp add: st_def get_list_def)
  with b have "session_log.contiguous [] st" by (simp add: session_log_contiguous)
  from session_log.contiguous_append [OF this, of ts ms]
  have "numbered (get_list (ss_messages (extend_messages [] ts ms st)) [])"
    by (simp only: session_log_contiguous)
  then show ?thesis unfolding extend_messages_def rows by (simp add: get_list_def)
qed

lemma map_stamp_messages: "map sm_message (stamp_messages ts b ms) = ms"
  by (rule nth_equalityI) (simp_all add: stamp_messages_def)

lemma row_ok_mono: "row_ok m row \<Longrightarrow> m \<le> n \<Longrightarrow> row_ok n row"
  by (auto simp: row_ok_def split: option.splits)

lemma inbox_ok_mono: "inbox_ok m rows \<Longrightarrow> m \<le> n \<Longrightarrow> inbox_ok n rows"
  unfolding inbox_ok_def using row_ok_mono by fastforce

lemma committed_seqs_Cons [simp]:
  "committed_seqs ((k, row) # rows) =
     (case ib_message_seq row of None \<Rightarrow> committed_seqs rows | Some s \<Rightarrow> s # committed_seqs rows)"
  by (simp add: committed_seqs_def List.map_filter_simps split: option.split)

lemma committed_seqs_Nil [simp]: "committed_seqs [] = []"
  by (simp add: committed_seqs_def List.map_filter_simps)

lemma committed_seqs_append: "committed_seqs (xs @ ys) = committed_seqs xs @ committed_seqs ys"
  by (simp add: committed_seqs_def List.map_filter_def)

lemma committed_seqs_iff: "s \<in> set (committed_seqs rows) \<longleftrightarrow> (\<exists>(k, row) \<in> set rows. ib_message_seq row = Some s)"
  by (induction rows) (auto split: option.splits)

text \<open>Assigning positions: as many as there were pending messages, from the given one on.\<close>

lemma keys_assign_seqs [simp]: "map fst (assign_seqs s rows) = map fst rows"
  by (induction s rows rule: assign_seqs.induct) auto

lemma assign_seqs_ok:
  assumes "pending_messages env rows = Inr new"
    and "\<forall>(k, row) \<in> set rows. row_ok n row" and "distinct (committed_seqs rows)" and "int n < s"
  shows "distinct (committed_seqs (assign_seqs s rows))
       \<and> (\<forall>(k, row) \<in> set (assign_seqs s rows). row_ok (nat s + length new - 1) row)
       \<and> set (committed_seqs (assign_seqs s rows))
           \<subseteq> set (committed_seqs rows) \<union> {s ..< s + int (length new)}"
  using assms
proof (induction env rows arbitrary: new s rule: pending_messages.induct)
  case (2 env k row rows)
  show ?case
  proof (cases "ib_message_seq row")
    case (Some q)
    with 2(3-) have prems: "pending_messages env rows = Inr new" "\<forall>(k, row) \<in> set rows. row_ok n row"
      "distinct (committed_seqs rows)" "q \<notin> set (committed_seqs rows)" "row_ok n row" "1 \<le> q" "q \<le> int n"
      by (auto simp: row_ok_def)
    from 2(1) [OF _ prems(1-3) \<open>int n < s\<close>] Some
    have IH: "distinct (committed_seqs (assign_seqs s rows))"
      "\<forall>(k, row) \<in> set (assign_seqs s rows). row_ok (nat s + length new - 1) row"
      "set (committed_seqs (assign_seqs s rows)) \<subseteq> set (committed_seqs rows) \<union> {s ..< s + int (length new)}"
      by auto
    moreover have "row_ok (nat s + length new - 1) row"
      by (rule row_ok_mono [OF prems(5)]) (use \<open>int n < s\<close> in linarith)
    ultimately show ?thesis using Some prems(4-) \<open>int n < s\<close> by auto
  next
    case None
    with 2(3) obtain j m ms where new: "ib_message_json row = Some j" "decode_inbox_message env j = Inr m"
      "pending_messages env rows = Inr ms" "new = m # ms"
      by (auto simp: bind_result_Inr_iff split: option.splits)
    from 2(2) [OF _ new(1), of ms "s + 1"] None new 2(4-)
    have IH: "distinct (committed_seqs (assign_seqs (s + 1) rows))"
      "\<forall>(k, row) \<in> set (assign_seqs (s + 1) rows). row_ok (nat (s + 1) + length ms - 1) row"
      "set (committed_seqs (assign_seqs (s + 1) rows))
         \<subseteq> set (committed_seqs rows) \<union> {s + 1 ..< s + 1 + int (length ms)}"
      by auto
    have "s \<notin> set (committed_seqs rows)"
      using 2(4) \<open>int n < s\<close> by (fastforce simp: committed_seqs_iff row_ok_def)
    moreover have "nat (s + 1) + length ms - 1 = nat s + length new - 1"
      using new(4) \<open>int n < s\<close> by (simp add: nat_add_distrib)
    ultimately show ?thesis using None IH new(4) \<open>int n < s\<close> by (auto simp: row_ok_def)
  qed
qed simp

lemma inbox_ok_commit:
  assumes "inbox_ok n rows" and "pending_messages env rows = Inr new"
  shows "inbox_ok (n + length new) (assign_seqs (int n + 1) rows)"
proof -
  from assms have "dict_ok rows" "\<forall>(k, row) \<in> set rows. row_ok n row" "distinct (committed_seqs rows)"
    by (simp_all add: inbox_ok_def)
  from assign_seqs_ok [OF assms(2) this(2,3), of "int n + 1"] this(1) show ?thesis
    by (simp add: inbox_ok_def nat_add_distrib)
qed

lemma inbox_ok_enqueue:
  assumes "inbox_ok n rows" and "d \<notin> fst ` set rows"
    and "ib_message_seq row = None" and "ib_message_json row = Some j"
  shows "inbox_ok n (dict_set d row rows)"
  using assms by (auto simp: inbox_ok_def dict_set_fresh committed_seqs_append row_ok_def)

lemma board_ok_empty: "board_ok n []"
  by (simp add: board_ok_def symmetric_iff)

lemma next_task_id_Nil [simp]: "next_task_id [] = 1"
  by (simp add: next_task_id_def)

lemma session_ok_create: "session_ok st \<Longrightarrow> session_ok (fst (session_create uuid i meta ts st))"
proof -
  assume ok: "session_ok st"
  define sid where "sid = (case i of None \<Rightarrow> uuid | Some i \<Rightarrow> if i = [] then uuid else i)"
  show ?thesis
  proof (cases "dict_get (ss_sessions st) sid")
    case (Some rec)
    with ok show ?thesis by (simp add: session_create_def sid_def Let_def)
  next
    case None
    then have absent: "sid \<notin> fst ` set (ss_sessions st)" by (simp add: map_of_eq_None_iff)
    show ?thesis
    proof (rule session_okI [OF ok, of sid])
      fix s assume "s \<noteq> sid"
      with None session_ok_absent [OF ok absent]
      show "session_view (fst (session_create uuid i meta ts st)) s = session_view st s"
        by (simp add: session_create_def Let_def sid_def [symmetric] session_view_def)
    next
      show "view_ok (session_view (fst (session_create uuid i meta ts st)) sid)"
        using None session_ok_absent [OF ok absent]
        by (simp add: session_create_def Let_def sid_def [symmetric] session_view_def live_view_def
            get_list_def board_ok_empty inbox_ok_def numbered_def)
    qed
  qed
qed

text \<open>
  Replacing parts of one live session: what the other methods do, up to time stamps and data the
  invariant does not speak of.
\<close>

lemma session_ok_update:
  assumes "session_ok st" and "sid \<in> fst ` set (ss_sessions st)"
    and "\<And>s. s \<noteq> sid \<Longrightarrow> session_view st' s = session_view st s"
    and "\<And>ms b n rows. session_view st sid = (True, Some ms, Some b, Some n, Some rows) \<Longrightarrow>
           live_view ms b n rows \<Longrightarrow>
           \<exists>ms' b' n' rows'. session_view st' sid = (True, Some ms', Some b', Some n', Some rows')
                          \<and> live_view ms' b' n' rows'"
  shows "session_ok st'"
proof (rule session_okI [OF assms(1,3)])
  obtain ms b n rows where "dict_get (ss_messages st) sid = Some ms"
    "dict_get (ss_tasks st) sid = Some b" "dict_get (ss_task_counter st) sid = Some n"
    "dict_get (ss_inbox st) sid = Some rows" and live: "live_view ms b n rows"
    by (rule session_ok_live [OF assms(1,2)])
  with assms(2) have "session_view st sid = (True, Some ms, Some b, Some n, Some rows)"
    by (simp add: session_view_def)
  from assms(4) [OF this live] show "view_ok (session_view st' sid)" by auto
qed

lemma session_ok_extend:
  assumes "session_ok st" and "sid \<in> fst ` set (ss_sessions st)"
  shows "session_ok (extend_messages sid ts ms st)"
  by (rule session_ok_update [OF assms])
    (auto simp: session_view_def extend_messages_def get_list_def live_view_def numbered_extend
      intro: inbox_ok_mono)

lemma session_ok_append: "session_ok st \<Longrightarrow> session_ok (fst (append_messages rp sid ms ts st))"
  by (auto simp: append_messages_def touch_eq session_ok_extend split: option.split sum.split)

lemma session_ok_set_inbox:
  assumes "session_ok st" and "sid \<in> fst ` set (ss_sessions st)"
    and "\<And>n. inbox_ok n (get_list (ss_inbox st) sid) \<Longrightarrow> inbox_ok n rows'"
  shows "session_ok (st\<lparr>ss_inbox := dict_set sid rows' (ss_inbox st)\<rparr>)"
  by (rule session_ok_update [OF assms(1,2)])
    (use assms(3) in \<open>auto simp: session_view_def live_view_def get_list_def\<close>)

lemma setdefault_inbox:
  assumes "session_ok st" and "sid \<in> fst ` set (ss_sessions st)"
  shows "st\<lparr>ss_inbox := dict_setdefault sid [] (ss_inbox st)\<rparr> = st"
  by (rule session_ok_live [OF assms]) simp

lemma session_ok_enqueue:
  assumes "session_ok st" shows "session_ok (fst (enqueue_inbox env sid d st))"
proof (cases "sid \<in> fst ` set (ss_sessions st)")
  case True
  note default = setdefault_inbox [OF assms this]
  show ?thesis
    unfolding enqueue_inbox_def Let_def default
    using assms True
    by (auto split: option.split sum.split intro!: session_ok_set_inbox inbox_ok_enqueue
        simp: map_of_eq_None_iff)
qed (use assms in \<open>simp add: enqueue_inbox_def\<close>)

lemma session_ok_commit:
  assumes ok: "session_ok st" shows "session_ok (fst (commit_inbox env sid after_seq ts st))"
proof (cases "sid \<in> fst ` set (ss_sessions st)")
  case True
  note default = setdefault_inbox [OF ok this]
  obtain ms b n rows where live: "dict_get (ss_messages st) sid = Some ms"
    "dict_get (ss_tasks st) sid = Some b" "dict_get (ss_task_counter st) sid = Some n"
    "dict_get (ss_inbox st) sid = Some rows" "live_view ms b n rows"
    by (rule session_ok_live [OF ok True])
  have "session_ok (extend_messages sid ts new
      (st\<lparr>ss_inbox := dict_set sid (assign_seqs (int (length ms) + 1) rows) (ss_inbox st)\<rparr>))"
    if "pending_messages env rows = Inr new" for new
    by (rule session_ok_update [OF ok True])
      (use live inbox_ok_commit [OF _ that] in
        \<open>auto simp: session_view_def extend_messages_def get_list_def live_view_def numbered_extend\<close>)
  then show ?thesis
    unfolding commit_inbox_def Let_def default
    using ok True live by (auto simp: get_list_def touch_eq split: option.split sum.split)
qed (use ok in \<open>simp add: commit_inbox_def\<close>)

lemma session_ok_set_tasks:
  assumes "session_ok st" and "sid \<in> fst ` set (ss_sessions st)"
    and "\<And>n. board_ok n (get_list (ss_tasks st) sid) \<Longrightarrow> board_ok n b'"
  shows "session_ok (st\<lparr>ss_tasks := dict_set sid b' (ss_tasks st)\<rparr>)"
  by (rule session_ok_update [OF assms(1,2)])
    (use assms(3) in \<open>auto simp: session_view_def live_view_def get_list_def\<close>)

lemma session_ok_create_task:
  assumes ok: "session_ok st" shows "session_ok (fst (create_task sid input ts st))"
proof (cases "sid \<in> fst ` set (ss_sessions st)")
  case True
  obtain ms b n rows where live: "dict_get (ss_messages st) sid = Some ms"
    "dict_get (ss_tasks st) sid = Some b" "dict_get (ss_task_counter st) sid = Some n"
    "dict_get (ss_inbox st) sid = Some rows" "live_view ms b n rows"
    by (rule session_ok_live [OF ok True])
  have "session_ok (st\<lparr>ss_task_counter := dict_set sid (n + 1) (ss_task_counter st),
      ss_tasks := dict_set sid (board_create (new_task sid (show_int n) input ts) b) (ss_tasks st)\<rparr>)"
    by (rule session_ok_update [OF ok True])
      (use live board_ok_create in \<open>auto simp: session_view_def live_view_def new_task_def\<close>)
  then show ?thesis using True live by (simp add: create_task_def get_list_def touch_eq Let_def)
qed (use ok in \<open>simp add: create_task_def\<close>)

lemma session_ok_delete_task:
  assumes ok: "session_ok st" shows "session_ok (fst (delete_task sid tid ts st))"
proof (cases "tid \<in> keys_of (get_list (ss_tasks st) sid)")
  case True
  then obtain t where "get_task sid tid st = Some t" unfolding get_task_def by (metis keys_get)
  note sid = session_ok_task_session [OF ok this]
  show ?thesis using True
    by (simp add: delete_task_def touch_eq session_ok_set_tasks [OF ok sid] board_ok_delete)
qed (use ok in \<open>simp add: delete_task_def\<close>)

lemma session_ok_update_task:
  assumes ok: "session_ok st" shows "session_ok (fst (update_task sid tid p ts st))"
proof (cases "get_task sid tid st")
  case (Some t)
  note sid = session_ok_task_session [OF ok Some]
  have "tid \<in> keys_of (get_list (ss_tasks st) sid)"
    using Some by (auto simp: get_task_def dest: dict_get_keys)
  from board_ok_update [OF _ this] session_ok_delete_task [OF ok] Some show ?thesis
    by (simp add: update_task_def Let_def touch_eq session_ok_set_tasks [OF ok sid] case_prod_beta)
qed (use ok in \<open>simp add: update_task_def\<close>)

text \<open>Changing owner, status and time stamp of a task.\<close>

lemma session_ok_put_task:
  assumes "session_ok st" and task: "get_task sid tid st = Some t"
    and "tk_id t' = tk_id t" "tk_blocks t' = tk_blocks t" "tk_blocked_by t' = tk_blocked_by t"
  shows "session_ok (put_task sid tid t' st)"
  unfolding put_task_def
proof (rule session_ok_set_tasks [OF assms(1) session_ok_task_session [OF assms(1,2)]])
  fix n assume "board_ok n (get_list (ss_tasks st) sid)"
  moreover have "modify_task tid (\<lambda>_. t') b =
      modify_task tid (\<lambda>u. u\<lparr>tk_session_id := tk_session_id t', tk_subject := tk_subject t',
        tk_description := tk_description t', tk_active_form := tk_active_form t',
        tk_status := tk_status t', tk_owner := tk_owner t', tk_metadata := tk_metadata t',
        tk_created_at := tk_created_at t', tk_updated_at := tk_updated_at t'\<rparr>) b"
    if "dict_get b tid = Some t" for b
    using assms(3-) that by (cases t; cases t') (simp add: modify_task_def)
  ultimately show "board_ok n (modify_task tid (\<lambda>_. t') (get_list (ss_tasks st) sid))"
    using task by (simp add: get_task_def board_ok_modify)
qed

lemma session_ok_claim_release:
  assumes "session_ok st"
  shows "session_ok (fst (claim_task sid tid owner ts st))" "session_ok (fst (release_task sid tid ts st))"
  using assms
  by (auto simp: claim_task_def release_task_def touch_eq Let_def split: option.split
      intro: session_ok_put_task)

lemma session_ok_frame:
  "session_ok st \<Longrightarrow> session_view st' = session_view st \<Longrightarrow> session_ok st'"
  by (simp add: session_ok_def)

lemma session_ok_delete: "session_ok st \<Longrightarrow> session_ok (delete_session sid st)"
  by (rule session_okI [of _ sid]) (auto simp: delete_session_def session_view_def)

lemmas session_ok_operations =
  session_ok_create session_ok_append session_ok_enqueue session_ok_commit session_ok_delete
  session_ok_create_task session_ok_update_task session_ok_delete_task session_ok_claim_release

theorem session_step_ok: "session_step env keep st st' \<Longrightarrow> session_ok st \<Longrightarrow> session_ok st'"
proof (induction rule: session_step.induct)
  case (step_create_if_absent st uuid sid meta ts)
  then show ?case using session_ok_create [OF step_create_if_absent, of uuid "Some sid" meta ts]
    by (auto simp: create_if_absent_def split: prod.split)
next
  case (step_update_meta st sid meta ts)
  then show ?case
    by (rule session_ok_frame)
      (auto simp: fun_eq_iff update_meta_def session_view_def Let_def split: option.split dest: dict_get_keys)
next
  case (step_set_skills st sid skills ts)
  then show ?case
    by (rule session_ok_frame)
      (auto simp: fun_eq_iff set_invoked_skills_def session_view_def split: option.split dest: dict_get_keys)
next
  case (step_save_snapshot st sid s)
  then show ?case by (rule session_ok_frame) (simp add: save_provider_snapshot_def session_view_def fun_eq_iff)
next
  case (step_save_offload st sid path body)
  then show ?case by (rule session_ok_frame) (simp add: save_offload_def session_view_def fun_eq_iff)
qed (auto intro: session_ok_operations)

lemma session_ok_new: "session_ok new_session_store"
  by (simp add: session_ok_def session_view_def new_session_store_def)

lemma session_steps_ok: "(session_step env keep)\<^sup>*\<^sup>* st st' \<Longrightarrow> session_ok st \<Longrightarrow> session_ok st'"
  by (induction rule: rtranclp_induct) (auto intro: session_step_ok)

lemma reachable_session_ok: "session_reachable env st \<Longrightarrow> session_ok st"
  by (induction rule: rtranclp_induct) (auto simp: session_any_step_def session_ok_new intro: session_step_ok)

end
