(* ===== verification/Session_Inbox.thy ===== *)
theory Session_Inbox
  imports Session_Store
begin

text \<open>
  What the session store promises about its two orders: the message log only grows, and a
  delivery that was accepted into the inbox enters the log exactly once. The promise is stated as
  a contract of its own, \<open>dedup_inbox\<close>, which producers of deliveries rely on.
\<close>

section \<open>The contract of a deduplicating inbox\<close>

text \<open>
  \<open>entry s d\<close> is what the inbox knows of delivery \<open>d\<close>: the digest it was accepted with, and
  either its payload or its position in the log.
\<close>

locale dedup_inbox =
  fixes ok :: "'s \<Rightarrow> bool"
    and step :: "'s \<Rightarrow> 's \<Rightarrow> bool"
    and log :: "'s \<Rightarrow> 'm list"
    and entry :: "'s \<Rightarrow> 'i \<Rightarrow> ('g \<times> ('p + nat)) option"
    and decodes :: "'p \<Rightarrow> 'm \<Rightarrow> bool"
  assumes ok_step: "ok s \<Longrightarrow> step s s' \<Longrightarrow> ok s'"
    and log_step: "ok s \<Longrightarrow> step s s' \<Longrightarrow> \<exists>new. log s' = log s @ new"
    and entry_committed: "ok s \<Longrightarrow> step s s' \<Longrightarrow> entry s d = Some (g, Inr n) \<Longrightarrow> entry s' d = Some (g, Inr n)"
    and entry_pending: "ok s \<Longrightarrow> step s s' \<Longrightarrow> entry s d = Some (g, Inl p) \<Longrightarrow>
      entry s' d = Some (g, Inl p)
      \<or> (\<exists>n. entry s' d = Some (g, Inr n) \<and> n < length (log s') \<and> decodes p (log s' ! n))"
    and position_unique: "ok s \<Longrightarrow> entry s d = Some (g, Inr n) \<Longrightarrow> entry s d' = Some (g', Inr n) \<Longrightarrow> d' = d"
begin

lemma steps_ok: "step\<^sup>*\<^sup>* s s' \<Longrightarrow> ok s \<Longrightarrow> ok s'"
  by (induction rule: rtranclp_induct) (auto intro: ok_step)

lemma steps_log: "step\<^sup>*\<^sup>* s s' \<Longrightarrow> ok s \<Longrightarrow> \<exists>new. log s' = log s @ new"
proof (induction rule: rtranclp_induct)
  case (step t u)
  with log_step [OF steps_ok] show ?case by fastforce
qed simp

text \<open>An accepted delivery is pending with its payload, or has one position, with its message.\<close>

definition delivered :: "'s \<Rightarrow> 'i \<Rightarrow> 'g \<Rightarrow> 'p \<Rightarrow> bool" where
  "delivered s d g p \<longleftrightarrow>
     entry s d = Some (g, Inl p)
   \<or> (\<exists>n. entry s d = Some (g, Inr n) \<and> n < length (log s) \<and> decodes p (log s ! n))"

lemma delivered_step:
  assumes "ok s" and "step s s'" and "delivered s d g p"
  shows "delivered s' d g p"
proof (cases "entry s d = Some (g, Inl p)")
  case True
  from entry_pending [OF assms(1,2) True] show ?thesis by (auto simp: delivered_def)
next
  case False
  with assms(3) obtain n where n: "entry s d = Some (g, Inr n)" "n < length (log s)" "decodes p (log s ! n)"
    by (auto simp: delivered_def)
  from log_step [OF assms(1,2)] obtain new where "log s' = log s @ new" by blast
  with n entry_committed [OF assms(1,2) n(1)] show ?thesis by (auto simp: delivered_def nth_append)
qed

lemma delivered_once:
  assumes "ok s" and "entry s d = Some (g, Inl p)" and "step\<^sup>*\<^sup>* s s'"
  shows "delivered s' d g p"
  using assms(3)
proof (induction rule: rtranclp_induct)
  case base
  show ?case using assms(2) by (simp add: delivered_def)
next
  case (step t u)
  then show ?case using delivered_step [OF steps_ok [OF step(1) assms(1)]] by blast
qed

end

section \<open>The effect of a call on the log and the inbox of a session\<close>

inductive log_effect :: "json_env \<Rightarrow> stored_message list \<times> (string \<times> inbox_row) list
    \<Rightarrow> stored_message list \<times> (string \<times> inbox_row) list \<Rightarrow> bool" for env where
  effect_none: "log_effect env (rows, box) (rows, box)"
| effect_append: "log_effect env (rows, box) (rows @ stamp_messages ts rows new, box)"
| effect_enqueue: "d \<notin> fst ` set box \<Longrightarrow> ib_message_seq row = None \<Longrightarrow>
    log_effect env (rows, box) (rows, dict_set d row box)"
| effect_commit: "pending_messages env box = Inr new \<Longrightarrow>
    log_effect env (rows, box)
      (rows @ stamp_messages ts rows new, assign_seqs (int (length rows) + 1) box)"

inductive_cases log_effectE: "log_effect env (rows, box) (rows', box')"

definition log_and_box :: "string \<Rightarrow> session_store
    \<Rightarrow> stored_message list \<times> (string \<times> inbox_row) list" where
  "log_and_box sid st = (get_list (ss_messages st) sid, get_list (ss_inbox st) sid)"

lemma effect_same: "log_and_box keep st' = log_and_box keep st \<Longrightarrow>
    log_effect env (log_and_box keep st) (log_and_box keep st')"
  by (cases "log_and_box keep st") (simp add: effect_none)

lemma get_list_set [simp]: "get_list (dict_set k v d) k' = (if k' = k then v else get_list d k')"
  by (simp add: get_list_def)

lemma log_and_box_touched [simp]: "log_and_box keep (touched sid ts st) = log_and_box keep st"
  by (simp add: log_and_box_def)

lemma log_and_box_extend [simp]:
  "log_and_box keep (extend_messages sid ts ms st) =
     (if keep = sid
      then (get_list (ss_messages st) sid @ stamp_messages ts (get_list (ss_messages st) sid) ms,
            get_list (ss_inbox st) sid)
      else log_and_box keep st)"
  by (simp add: log_and_box_def extend_messages_def)

lemma append_effect:
  "log_effect env (log_and_box keep st) (log_and_box keep (fst (append_messages rp sid ms ts st)))"
proof (cases "log_and_box keep (fst (append_messages rp sid ms ts st)) = log_and_box keep st")
  case False
  then obtain copies where "map_result (copy_message rp) ms = Inr copies" "keep = sid"
    "log_and_box keep (fst (append_messages rp sid ms ts st))
       = log_and_box keep (extend_messages sid ts copies st)"
    by (auto simp: append_messages_def touch_eq split: option.splits sum.splits if_splits)
  then show ?thesis by (simp add: log_and_box_def [of sid st] effect_append)
qed (rule effect_same)

lemma enqueue_effect:
  assumes "session_ok st"
  shows "log_effect env (log_and_box keep st) (log_and_box keep (fst (enqueue_inbox env sid d st)))"
proof (cases "sid \<in> fst ` set (ss_sessions st)")
  case True
  note default = setdefault_inbox [OF assms this]
  show ?thesis
    unfolding enqueue_inbox_def Let_def default using True
    by (auto simp: log_and_box_def map_of_eq_None_iff split: option.split sum.split
        intro!: effect_none effect_enqueue)
qed (simp add: enqueue_inbox_def effect_same)

lemma commit_effect:
  assumes "session_ok st"
  shows "log_effect env (log_and_box keep st) (log_and_box keep (fst (commit_inbox env sid after_seq ts st)))"
proof (cases "sid \<in> fst ` set (ss_sessions st)")
  case True
  note default = setdefault_inbox [OF assms this]
  obtain ms where ms: "dict_get (ss_messages st) sid = Some ms" "get_list (ss_messages st) sid = ms"
    by (rule session_ok_live [OF assms True]) (auto simp: get_list_def)
  let ?st' = "fst (commit_inbox env sid after_seq ts st)"
  have "log_and_box keep ?st' = log_and_box keep st
      \<or> (\<exists>new. pending_messages env (get_list (ss_inbox st) sid) = Inr new
           \<and> log_and_box keep ?st' = log_and_box keep (extend_messages sid ts new
               (st\<lparr>ss_inbox := dict_set sid (assign_seqs (int (length ms) + 1)
                  (get_list (ss_inbox st) sid)) (ss_inbox st)\<rparr>)))"
    unfolding commit_inbox_def Let_def default using True
    by (auto simp: touch_eq ms split: option.split sum.split)
  then show ?thesis
  proof
    assume "\<exists>new. pending_messages env (get_list (ss_inbox st) sid) = Inr new
           \<and> log_and_box keep ?st' = log_and_box keep (extend_messages sid ts new
               (st\<lparr>ss_inbox := dict_set sid (assign_seqs (int (length ms) + 1)
                  (get_list (ss_inbox st) sid)) (ss_inbox st)\<rparr>))"
    then obtain new where new: "pending_messages env (get_list (ss_inbox st) sid) = Inr new"
      "log_and_box keep ?st' = log_and_box keep (extend_messages sid ts new
         (st\<lparr>ss_inbox := dict_set sid (assign_seqs (int (length ms) + 1)
            (get_list (ss_inbox st) sid)) (ss_inbox st)\<rparr>))" by blast
    show ?thesis
    proof (cases "keep = sid")
      case True
      with new(2) ms(2) effect_commit [OF new(1), of ms ts] show ?thesis
        by (simp add: log_and_box_def [of sid st])
    next
      case False
      then have "log_and_box keep (st\<lparr>ss_inbox := dict_set sid x (ss_inbox st)\<rparr>) = log_and_box keep st" for x
        by (simp add: log_and_box_def)
      with False new(2) show ?thesis by (intro effect_same) simp
    qed
  qed (rule effect_same)
qed (simp add: commit_inbox_def effect_same)

lemma create_effect:
  assumes "session_ok st"
  shows "log_and_box keep (fst (session_create uuid i meta ts st)) = log_and_box keep st"
proof -
  define sid where "sid = (case i of None \<Rightarrow> uuid | Some i \<Rightarrow> if i = [] then uuid else i)"
  show ?thesis
  proof (cases "dict_get (ss_sessions st) sid")
    case None
    then have "sid \<notin> fst ` set (ss_sessions st)" by (simp add: map_of_eq_None_iff)
    with None session_ok_absent [OF assms] show ?thesis
      by (simp add: session_create_def Let_def sid_def [symmetric] log_and_box_def get_list_def)
  qed (simp add: session_create_def Let_def sid_def [symmetric])
qed

lemma task_effects [simp]:
  "log_and_box keep (fst (create_task sid input ts st)) = log_and_box keep st"
  "log_and_box keep (fst (delete_task sid tid ts st)) = log_and_box keep st"
  "log_and_box keep (fst (claim_task sid tid owner ts st)) = log_and_box keep st"
  "log_and_box keep (fst (release_task sid tid ts st)) = log_and_box keep st"
  by (auto simp: create_task_def delete_task_def claim_task_def release_task_def put_task_def
      touch_eq Let_def log_and_box_def split: option.split)

lemma update_task_effect [simp]: "log_and_box keep (fst (update_task sid tid p ts st)) = log_and_box keep st"
  using task_effects(2) [of keep sid tid ts st]
  by (auto simp: update_task_def touch_eq Let_def log_and_box_def case_prod_beta split: option.split)

lemma other_effects [simp]:
  "log_and_box keep (fst (update_meta sid meta ts st)) = log_and_box keep st"
  "log_and_box keep (fst (set_invoked_skills sid skills ts st)) = log_and_box keep st"
  "log_and_box keep (save_provider_snapshot sid s st) = log_and_box keep st"
  "log_and_box keep (save_offload sid path body st) = log_and_box keep st"
  by (auto simp: update_meta_def set_invoked_skills_def save_provider_snapshot_def
      save_offload_def Let_def log_and_box_def split: option.split)

lemma session_step_effect:
  "session_step env keep st st' \<Longrightarrow> session_ok st \<Longrightarrow>
     log_effect env (log_and_box keep st) (log_and_box keep st')"
proof (induction rule: session_step.induct)
  case (step_create_if_absent st uuid sid meta ts)
  then show ?case using create_effect [OF step_create_if_absent, of keep uuid "Some sid" meta ts]
    by (auto simp: create_if_absent_def split: prod.split intro!: effect_same)
next
  case (step_delete sid st)
  then show ?case by (intro effect_same) (simp add: log_and_box_def delete_session_def get_list_def)
qed (simp_all add: append_effect enqueue_effect commit_effect create_effect effect_same)

section \<open>The session store satisfies the contract\<close>

definition message_log :: "string \<Rightarrow> session_store \<Rightarrow> message list" where
  "message_log sid st = map sm_message (get_list (ss_messages st) sid)"

definition inbox_entry :: "string \<Rightarrow> session_store \<Rightarrow> string \<Rightarrow> (string \<times> (string + nat)) option" where
  "inbox_entry sid st d = (case dict_get (get_list (ss_inbox st) sid) d of
       None \<Rightarrow> None
     | Some row \<Rightarrow> Some (ib_digest row, case ib_message_seq row of
           None \<Rightarrow> Inl (the (ib_message_json row))
         | Some s \<Rightarrow> Inr (nat (s - 1))))"

lemma get_assign_seqs:
  assumes "pending_messages env rows = Inr new" and "dict_get rows d = Some row"
  shows "case ib_message_seq row of
       Some q \<Rightarrow> dict_get (assign_seqs s rows) d = Some row
     | None \<Rightarrow> \<exists>i < length new. \<exists>row'. dict_get (assign_seqs s rows) d = Some row'
           \<and> ib_digest row' = ib_digest row \<and> ib_message_seq row' = Some (s + int i)
           \<and> decode_inbox_message env (the (ib_message_json row)) = Inr (new ! i)"
  using assms
proof (induction env rows arbitrary: new s rule: pending_messages.induct)
  case (2 env k row1 rows)
  show ?case
  proof (cases "ib_message_seq row1")
    case (Some q)
    show ?thesis
    proof (cases "k = d")
      case True
      with Some 2(4) show ?thesis by simp
    next
      case False
      with Some 2(3,4) 2(1) [of new s] show ?thesis by (simp split: option.splits)
    qed
  next
    case None
    with 2(3) obtain j m ms where new: "ib_message_json row1 = Some j" "decode_inbox_message env j = Inr m"
      "pending_messages env rows = Inr ms" "new = m # ms"
      by (auto simp: bind_result_Inr_iff split: option.splits)
    show ?thesis
    proof (cases "k = d")
      case True
      with None 2(4) new show ?thesis by (auto intro!: exI [of _ 0])
    next
      case False
      with 2(4) have "dict_get rows d = Some row" by simp
      note IH = 2(2) [OF _ new(1,3) this, of "s + 1"]
      show ?thesis
      proof (cases "ib_message_seq row")
        case None
        with IH \<open>ib_message_seq row1 = None\<close> obtain i row' where "i < length ms"
          "dict_get (assign_seqs (s + 1) rows) d = Some row'" "ib_digest row' = ib_digest row"
          "ib_message_seq row' = Some (s + 1 + int i)"
          "decode_inbox_message env (the (ib_message_json row)) = Inr (ms ! i)" by auto
        with None False \<open>ib_message_seq row1 = None\<close> new(4) show ?thesis
          by (auto intro!: exI [of _ "Suc i"])
      next
        case (Some q)
        with IH False \<open>ib_message_seq row1 = None\<close> show ?thesis by simp
      qed
    qed
  qed
qed simp

lemma committed_once:
  "distinct (committed_seqs rows) \<Longrightarrow> (d, row) \<in> set rows \<Longrightarrow> (d', row') \<in> set rows \<Longrightarrow>
   ib_message_seq row = Some s \<Longrightarrow> ib_message_seq row' = Some s \<Longrightarrow> d' = d"
  by (induction rows) (auto simp: committed_seqs_iff split: option.splits)

lemma session_ok_inbox:
  assumes "session_ok st"
  shows "inbox_ok (length (get_list (ss_messages st) sid)) (get_list (ss_inbox st) sid)"
proof (cases "sid \<in> fst ` set (ss_sessions st)")
  case True
  show ?thesis
    by (rule session_ok_live [OF assms True]) (simp add: get_list_def live_view_def)
next
  case False
  then show ?thesis
    using session_ok_absent [OF assms] by (simp add: get_list_def inbox_ok_def)
qed

lemma inbox_row:
  assumes "session_ok st" and "dict_get (get_list (ss_inbox st) sid) d = Some row"
  shows "row_ok (length (get_list (ss_messages st) sid)) row" "(d, row) \<in> set (get_list (ss_inbox st) sid)"
  using session_ok_inbox [OF assms(1), of sid] map_of_SomeD [OF assms(2)]
  by (auto simp: inbox_ok_def)

interpretation session_inbox: dedup_inbox session_ok "session_step env sid" "message_log sid"
  "inbox_entry sid" "\<lambda>p m. decode_inbox_message env p = Inr m" for env sid
proof
  fix st st' d g n
  assume ok: "session_ok st" and step: "session_step env sid st st'"
  show "session_ok st'" using session_step_ok [OF step ok] .
  define rows where "rows = get_list (ss_messages st) sid"
  define box where "box = get_list (ss_inbox st) sid"
  define rows' where "rows' = get_list (ss_messages st') sid"
  define box' where "box' = get_list (ss_inbox st') sid"
  have eff: "log_effect env (rows, box) (rows', box')"
    using session_step_effect [OF step ok]
    by (simp add: log_and_box_def rows_def box_def rows'_def box'_def)
  then have "\<exists>ts new. rows' = rows @ stamp_messages ts rows new"
    by (cases rule: log_effectE) (auto simp: stamp_messages_def intro: exI [of _ "[]"])
  then show "\<exists>new. message_log sid st' = message_log sid st @ new"
    by (auto simp: message_log_def rows_def rows'_def)
  have entry: "inbox_entry sid st d = (case dict_get box d of None \<Rightarrow> None | Some row \<Rightarrow>
      Some (ib_digest row, case ib_message_seq row of
         None \<Rightarrow> Inl (the (ib_message_json row)) | Some s \<Rightarrow> Inr (nat (s - 1))))"
    "inbox_entry sid st' d = (case dict_get box' d of None \<Rightarrow> None | Some row \<Rightarrow>
      Some (ib_digest row, case ib_message_seq row of
         None \<Rightarrow> Inl (the (ib_message_json row)) | Some s \<Rightarrow> Inr (nat (s - 1))))" for d
    by (simp_all add: inbox_entry_def box_def box'_def)
  show "inbox_entry sid st' d = Some (g, Inr n)" if c: "inbox_entry sid st d = Some (g, Inr n)"
  proof -
    from c obtain row s where row: "dict_get box d = Some row" "ib_message_seq row = Some s"
      "ib_digest row = g" "n = nat (s - 1)" by (auto simp: entry split: option.splits)
    from eff have "dict_get box' d = Some row"
      by (cases rule: log_effectE)
        (use row in \<open>auto dest: dict_get_keys get_assign_seqs [OF _ row(1)]\<close>)
    with row show ?thesis by (simp add: entry)
  qed
  show "inbox_entry sid st' d = Some (g, Inl p) \<or> (\<exists>n. inbox_entry sid st' d = Some (g, Inr n)
      \<and> n < length (message_log sid st') \<and> decode_inbox_message env p = Inr (message_log sid st' ! n))"
    if c: "inbox_entry sid st d = Some (g, Inl p)" for p
  proof -
    from c obtain row where row: "dict_get box d = Some row" "ib_message_seq row = None"
      "ib_digest row = g" "p = the (ib_message_json row)" by (auto simp: entry split: option.splits)
    show ?thesis
    proof (rule log_effectE [OF eff], goal_cases)
      case (4 new ts)
      from get_assign_seqs [OF 4(1) row(1), of "int (length rows) + 1"] row(2) obtain i row' where
        i: "i < length new" "dict_get box' d = Some row'" "ib_digest row' = g"
          "ib_message_seq row' = Some (int (length rows) + 1 + int i)"
          "decode_inbox_message env p = Inr (new ! i)" by (auto simp: row 4)
      have "message_log sid st' = map sm_message rows @ new"
        using 4 by (simp add: message_log_def rows'_def [symmetric] map_stamp_messages)
      with i show ?thesis
        by (intro disjI2 exI [of _ "length rows + i"]) (auto simp: entry nth_append)
    qed (use row in \<open>auto simp: entry dest: dict_get_keys\<close>)
  qed
next
  fix st d g n d' g'
  assume ok: "session_ok st" and c: "inbox_entry sid st d = Some (g, Inr n)"
    "inbox_entry sid st d' = Some (g', Inr n)"
  then obtain row row' s s' where rows: "dict_get (get_list (ss_inbox st) sid) d = Some row"
    "ib_message_seq row = Some s" "nat (s - 1) = n" "dict_get (get_list (ss_inbox st) sid) d' = Some row'"
    "ib_message_seq row' = Some s'" "nat (s' - 1) = n"
    by (auto simp: inbox_entry_def split: option.splits)
  note r = inbox_row [OF ok rows(1)] and r' = inbox_row [OF ok rows(4)]
  from r(1) r'(1) rows have "1 \<le> s" "1 \<le> s'" by (auto simp: row_ok_def)
  with rows have "s' = s" by linarith
  with r(2) r'(2) rows session_ok_inbox [OF ok, of sid] show "d' = d"
    by (auto simp: inbox_ok_def intro: committed_once)
qed

section \<open>Properties of the log and the inbox\<close>

lemma session_ok_numbered: "session_ok st \<Longrightarrow> numbered (get_list (ss_messages st) sid)"
proof (cases "sid \<in> fst ` set (ss_sessions st)")
  case True
  assume "session_ok st"
  then show ?thesis by (rule session_ok_live [OF _ True]) (simp add: get_list_def live_view_def)
next
  case False
  assume "session_ok st"
  from session_ok_absent [OF this False] show ?thesis by (simp add: get_list_def numbered_def)
qed

text \<open>
  The message log of a session only grows: whatever is called in between, short of deleting
  the session, the messages seen before are still there, at the same positions, and positions
  run from one without a gap.
\<close>

lemma message_log_append_only:
  assumes "session_reachable env st" and "(session_step env sid)\<^sup>*\<^sup>* st st'"
  shows "(\<exists>new. map sm_message (get_list (ss_messages st') sid)
              = map sm_message (get_list (ss_messages st) sid) @ new)
       \<and> map sm_seq (get_list (ss_messages st') sid)
           = map (\<lambda>i. 1 + int i) [0..<length (get_list (ss_messages st') sid)]"
  using session_inbox.steps_log [OF assms(2) reachable_session_ok [OF assms(1)]]
    session_ok_numbered [OF session_steps_ok [OF assms(2) reachable_session_ok [OF assms(1)]], of sid]
  by (simp add: message_log_def numbered_def)

lemma enqueue_fresh:
  assumes ok: "session_ok st" and enq: "enqueue_inbox env sid d st = (st1, Inr ())"
    and fresh: "dict_get (get_list (ss_inbox st) sid) (dl_delivery_id d) = None"
  shows "session_ok st1 \<and> sid \<in> fst ` set (ss_sessions st1)
       \<and> (\<exists>message_json src md. encode_inbox_delivery env d = Inr (message_json, src, md)
            \<and> inbox_entry sid st1 (dl_delivery_id d) = Some (dl_digest d, Inl message_json))"
proof -
  have sid: "sid \<in> fst ` set (ss_sessions st)" using enq by (simp add: enqueue_inbox_def split: if_splits)
  note default = setdefault_inbox [OF ok sid]
  from enq sid fresh obtain mj src md where "encode_inbox_delivery env d = Inr (mj, src, md)"
    "st1 = st\<lparr>ss_inbox := dict_set sid (dict_set (dl_delivery_id d)
         \<lparr>ib_digest = dl_digest d, ib_message_json = Some mj, ib_source = Some src,
          ib_metadata_json = Some md, ib_message_seq = None\<rparr> (get_list (ss_inbox st) sid)) (ss_inbox st)\<rparr>"
    unfolding enqueue_inbox_def Let_def default by (auto split: sum.splits)
  with sid session_ok_enqueue [OF ok, of env sid d] enq show ?thesis
    by (simp add: inbox_entry_def)
qed

lemma enqueue_known:
  assumes ok: "session_ok st" and "inbox_entry sid st (dl_delivery_id d) = Some (dl_digest d, v)"
  shows "enqueue_inbox env sid d st = (st, Inr ())"
proof -
  have sid: "sid \<in> fst ` set (ss_sessions st)"
    using assms(2) session_ok_absent(4) [OF ok, of sid]
    by (cases "sid \<in> fst ` set (ss_sessions st)") (auto simp: inbox_entry_def get_list_def)
  show ?thesis
    using assms(2) sid unfolding enqueue_inbox_def Let_def setdefault_inbox [OF ok sid]
    by (auto simp: inbox_entry_def split: option.splits)
qed

lemma numbered_tail:
  assumes "numbered rows" and "0 \<le> n"
  shows "filter (\<lambda>row. n < sm_seq row) rows = drop (nat n) rows"
proof -
  have seq: "sm_seq (rows ! i) = 1 + int i" if "i < length rows" for i
    using arg_cong [OF assms(1) [unfolded numbered_def], of "\<lambda>xs. xs ! i"] that by simp
  have "filter (\<lambda>row. n < sm_seq row) (take (nat n) rows) = []"
    using seq assms(2) by (fastforce simp: filter_empty_conv in_set_conv_nth)
  moreover have "filter (\<lambda>row. n < sm_seq row) (drop (nat n) rows) = drop (nat n) rows"
    using seq assms(2) by (fastforce simp: filter_id_conv in_set_conv_nth)
  ultimately show ?thesis by (metis append.left_neutral append_take_drop_id filter_append)
qed

lemma assign_seqs_committed: "\<forall>(k, row) \<in> set (assign_seqs s rows). ib_message_seq row \<noteq> None"
  by (induction s rows rule: assign_seqs.induct) auto

lemma pending_none: "\<forall>(k, row) \<in> set rows. ib_message_seq row \<noteq> None \<Longrightarrow> pending_messages env rows = Inr []"
  by (induction env rows rule: pending_messages.induct) auto

lemma commit_Inr:
  assumes ok: "session_ok st" and c: "commit_inbox env sid (JInt n) ts st = (st', Inr tail)"
  shows "\<exists>new. pending_messages env (get_list (ss_inbox st) sid) = Inr new \<and> 0 \<le> n
      \<and> get_list (ss_messages st') sid = get_list (ss_messages st) sid
          @ stamp_messages ts (get_list (ss_messages st) sid) new
      \<and> get_list (ss_inbox st') sid
          = assign_seqs (int (length (get_list (ss_messages st) sid)) + 1) (get_list (ss_inbox st) sid)
      \<and> tail = filter (\<lambda>row. n < sm_seq row) (get_list (ss_messages st') sid)"
proof -
  have sid: "sid \<in> fst ` set (ss_sessions st)" using c by (simp add: commit_inbox_def split: if_splits)
  obtain ms where ms: "dict_get (ss_messages st) sid = Some ms" "get_list (ss_messages st) sid = ms"
    by (rule session_ok_live [OF ok sid]) (auto simp: get_list_def)
  show ?thesis
    using c sid unfolding commit_inbox_def Let_def setdefault_inbox [OF ok sid] ms
    by (auto simp: touch_eq ms extend_messages_def split: sum.splits if_splits)
qed

lemma pending_messages_length:
  "pending_messages env rows = Inr new \<Longrightarrow> length new = length (filter (\<lambda>(k, row). ib_message_seq row = None) rows)"
  by (induction env rows arbitrary: new rule: pending_messages.induct)
    (auto simp: bind_result_Inr_iff split: option.splits if_splits)

text \<open>What a commit adds to the log, and what is left waiting.\<close>

lemma commit_adds_pending:
  assumes ok: "session_ok st" and c: "commit_inbox env sid after_seq ts st = (st', r)"
  shows "\<exists>new. map sm_message (get_list (ss_messages st') sid)
              = map sm_message (get_list (ss_messages st) sid) @ new
          \<and> (case r of
               Inl e \<Rightarrow> new = []
             | Inr tail \<Rightarrow>
                 length new = length (filter (\<lambda>(k, row). ib_message_seq row = None) (get_list (ss_inbox st) sid))
               \<and> (\<forall>(k, row)\<in>set (get_list (ss_inbox st') sid). ib_message_seq row \<noteq> None))"
proof (cases r)
  case (Inl e)
  have "get_list (ss_messages st') sid = get_list (ss_messages st) sid"
  proof (cases "sid \<in> fst ` set (ss_sessions st)")
    case True
    then show ?thesis
      using c Inl by (auto simp: commit_inbox_def Let_def touch_eq extend_messages_def
          split: json.splits if_splits option.splits sum.splits)
  qed (use c in \<open>simp add: commit_inbox_def\<close>)
  with Inl show ?thesis by simp
next
  case (Inr tail)
  with c obtain n where "after_seq = JInt n"
    by (auto simp: commit_inbox_def split: json.splits if_splits)
  with c Inr have c': "commit_inbox env sid (JInt n) ts st = (st', Inr tail)" by simp
  from commit_Inr [OF ok c'] obtain new where new:
    "pending_messages env (get_list (ss_inbox st) sid) = Inr new"
    "get_list (ss_messages st') sid = get_list (ss_messages st) sid
       @ stamp_messages ts (get_list (ss_messages st) sid) new"
    "get_list (ss_inbox st') sid
       = assign_seqs (int (length (get_list (ss_messages st) sid)) + 1) (get_list (ss_inbox st) sid)" by blast
  with Inr assign_seqs_committed pending_messages_length [OF new(1)] show ?thesis
    by (auto simp: map_stamp_messages)
qed

text \<open>
  C39: A delivery that the inbox accepted enters the message log exactly once. However often it
  is enqueued again and whatever else happens to the session, its row still holds its payload, or
  it has one position in the log, which holds its message and belongs to no other delivery.
  Enqueueing it again is accepted and changes nothing, and each commit that returns appends one
  message for each delivery that waits, none for those that have a position, and leaves none
  waiting; a commit that raises appends nothing.
\<close>

theorem delivery_enters_log_once:
  assumes "session_reachable env st" and "enqueue_inbox env sid d st = (st1, Inr ())"
    and "dict_get (get_list (ss_inbox st) sid) (dl_delivery_id d) = None"
    and "(session_step env sid)\<^sup>*\<^sup>* st1 st2"
  shows "enqueue_inbox env sid d st2 = (st2, Inr ())
       \<and> (\<exists>payload src md row. encode_inbox_delivery env d = Inr (payload, src, md)
            \<and> dict_get (get_list (ss_inbox st2) sid) (dl_delivery_id d) = Some row
            \<and> (case ib_message_seq row of
                 None \<Rightarrow> ib_message_json row = Some payload
               | Some s \<Rightarrow>
                   1 \<le> s \<and> s \<le> int (length (get_list (ss_messages st2) sid))
                 \<and> decode_inbox_message env payload
                     = Inr (sm_message (get_list (ss_messages st2) sid ! nat (s - 1)))
                 \<and> (\<forall>(k, other) \<in> set (get_list (ss_inbox st2) sid).
                      ib_message_seq other = Some s \<longrightarrow> k = dl_delivery_id d)))
       \<and> (\<forall>after ts st3 r. commit_inbox env sid after ts st2 = (st3, r) \<longrightarrow>
            (\<exists>new. map sm_message (get_list (ss_messages st3) sid)
                 = map sm_message (get_list (ss_messages st2) sid) @ new
               \<and> (case r of
                    Inl e \<Rightarrow> new = []
                  | Inr tail \<Rightarrow>
                      length new = length (filter (\<lambda>(k, row). ib_message_seq row = None) (get_list (ss_inbox st2) sid))
                    \<and> (\<forall>(k, row)\<in>set (get_list (ss_inbox st3) sid). ib_message_seq row \<noteq> None))))"
proof -
  from enqueue_fresh [OF reachable_session_ok [OF assms(1)] assms(2,3)] obtain payload src md where
    ok1: "session_ok st1" and enc: "encode_inbox_delivery env d = Inr (payload, src, md)"
    and e1: "inbox_entry sid st1 (dl_delivery_id d) = Some (dl_digest d, Inl payload)" by blast
  note ok2 = session_steps_ok [OF assms(4) ok1]
  from session_inbox.delivered_once [OF ok1 e1 assms(4)]
  have del: "session_inbox.delivered sid env st2 (dl_delivery_id d) (dl_digest d) payload" .
  then obtain v where v: "inbox_entry sid st2 (dl_delivery_id d) = Some (dl_digest d, v)"
    by (auto simp: session_inbox.delivered_def)
  then obtain row where row: "dict_get (get_list (ss_inbox st2) sid) (dl_delivery_id d) = Some row"
    by (auto simp: inbox_entry_def split: option.splits)
  note rok = inbox_row [OF ok2 row]
  show ?thesis
  proof (intro conjI exI)
    show "enqueue_inbox env sid d st2 = (st2, Inr ())" by (rule enqueue_known [OF ok2 v])
    show "\<forall>after ts st3 r. commit_inbox env sid after ts st2 = (st3, r) \<longrightarrow>
            (\<exists>new. map sm_message (get_list (ss_messages st3) sid)
                 = map sm_message (get_list (ss_messages st2) sid) @ new
               \<and> (case r of
                    Inl e \<Rightarrow> new = []
                  | Inr tail \<Rightarrow>
                      length new = length (filter (\<lambda>(k, row). ib_message_seq row = None) (get_list (ss_inbox st2) sid))
                    \<and> (\<forall>(k, row)\<in>set (get_list (ss_inbox st3) sid). ib_message_seq row \<noteq> None)))"
      using commit_adds_pending [OF ok2] by blast
    show "encode_inbox_delivery env d = Inr (payload, src, md)" by (rule enc)
    show "dict_get (get_list (ss_inbox st2) sid) (dl_delivery_id d) = Some row" by (rule row)
    have once: "k = dl_delivery_id d" if "(k, other) \<in> set (get_list (ss_inbox st2) sid)"
      "ib_message_seq other = Some s" "ib_message_seq row = Some s" for k other s
      using session_ok_inbox [OF ok2, of sid] committed_once [OF _ rok(2) that(1,3,2)]
      by (simp add: inbox_ok_def)
    show "case ib_message_seq row of
        None \<Rightarrow> ib_message_json row = Some payload
      | Some s \<Rightarrow> 1 \<le> s \<and> s \<le> int (length (get_list (ss_messages st2) sid))
          \<and> decode_inbox_message env payload
              = Inr (sm_message (get_list (ss_messages st2) sid ! nat (s - 1)))
          \<and> (\<forall>(k, other) \<in> set (get_list (ss_inbox st2) sid).
               ib_message_seq other = Some s \<longrightarrow> k = dl_delivery_id d)"
    proof (cases "ib_message_seq row")
      case None
      with del row rok(1) show ?thesis
        by (auto simp: session_inbox.delivered_def inbox_entry_def row_ok_def)
    next
      case (Some s)
      with rok(1) have "1 \<le> s" "s \<le> int (length (get_list (ss_messages st2) sid))"
        by (simp_all add: row_ok_def)
      with Some del row once show ?thesis
        by (auto simp: session_inbox.delivered_def inbox_entry_def message_log_def)
    qed
  qed
qed

text \<open>
  A commit moves exactly the waiting deliveries into the log, in the order they were
  enqueued, and returns exactly the part of the log after the position asked for; nothing waits
  afterwards, so a second commit adds nothing to the log.
\<close>

lemma commit_inbox_exact:
  assumes "session_reachable env st" and "commit_inbox env sid (JInt n) ts st = (st', Inr tail)"
  shows "(\<exists>new. pending_messages env (get_list (ss_inbox st) sid) = Inr new
            \<and> map sm_message (get_list (ss_messages st') sid)
                = map sm_message (get_list (ss_messages st) sid) @ new)
       \<and> tail = drop (nat n) (get_list (ss_messages st') sid)
       \<and> pending_messages env (get_list (ss_inbox st') sid) = Inr []"
proof -
  note ok = reachable_session_ok [OF assms(1)]
  from commit_Inr [OF ok assms(2)] obtain new where
    new: "pending_messages env (get_list (ss_inbox st) sid) = Inr new" "0 \<le> n"
      "get_list (ss_messages st') sid = get_list (ss_messages st) sid
         @ stamp_messages ts (get_list (ss_messages st) sid) new"
      "get_list (ss_inbox st') sid
         = assign_seqs (int (length (get_list (ss_messages st) sid)) + 1) (get_list (ss_inbox st) sid)"
      "tail = filter (\<lambda>row. n < sm_seq row) (get_list (ss_messages st') sid)" by blast
  have "session_ok st'" using session_ok_commit [OF ok, of env sid "JInt n" ts] assms(2) by simp
  from numbered_tail [OF session_ok_numbered [OF this] new(2)]
  have tail: "tail = drop (nat n) (get_list (ss_messages st') sid)" by (simp add: new(5))
  have "pending_messages env (get_list (ss_inbox st') sid) = Inr []"
    unfolding new(4) by (rule pending_none [OF assign_seqs_committed])
  with tail new(1,3) show ?thesis by (simp add: map_stamp_messages)
qed

section \<open>A concrete session\<close>

definition hello :: message where
  "hello = \<lparr>role = role_user, content = [TextBlock ''hi''], provider_metadata = None\<rparr>"

text \<open>An encoder that knows one message; the digest is the text itself.\<close>

definition env_example :: json_env where
  "env_example =
     \<lparr>native_dumps = (\<lambda>v. Some (if v = JDict (message_to_dict hello) then ''m'' else ''o'')),
      json_dumps = (\<lambda>_. None),
      json_loads = (\<lambda>s. Inr (JDict (if s = ''m'' then message_to_dict hello else []))),
      sha256 = (\<lambda>s. s), str_of = (\<lambda>_. ''?'')\<rparr>"

definition delivery_example :: inbox_delivery where
  "delivery_example = \<lparr>dl_delivery_id = ''d1'', dl_message = hello, dl_source = ''host'',
     dl_metadata = [], dl_digest = ''o''\<rparr>"

definition session_one :: session_store where
  "session_one = fst (session_create ''u'' (Some ''s'') None ''t0'' new_session_store)"

definition session_queued :: session_store where
  "session_queued = fst (enqueue_inbox env_example ''s'' delivery_example session_one)"

definition session_committed :: session_store where
  "session_committed = fst (commit_inbox env_example ''s'' (JInt 0) ''t1'' session_queued)"

lemma hello_roundtrip: "message_from_dict rp (message_to_dict hello) = Inr hello"
  by (rule message_decode_encode) (simp add: hello_def wf_message_def)

lemma new_delivery_example:
  "new_inbox_delivery env_example ''d1'' hello ''host'' [] = Inr delivery_example"
  by (simp add: new_inbox_delivery_def strict_json_def load_message_def delivery_envelope_def
      env_example_def delivery_example_def hello_roundtrip)
    (simp add: hello_def message_to_dict_def)

lemma session_one_eq:
  "session_one = \<lparr>ss_sessions = [(''s'', \<lparr>sr_id = ''s'', sr_created_at = ''t0'',
       sr_updated_at = ''t0'', sr_meta = [], sr_invoked_skills = []\<rparr>)],
     ss_messages = [(''s'', [])], ss_snapshots = [], ss_tasks = [(''s'', [])],
     ss_task_counter = [(''s'', 1)], ss_offloads = [], ss_inbox = [(''s'', [])]\<rparr>"
  by (simp add: session_one_def session_create_def new_session_store_def get_list_def Let_def)

lemma session_one_reachable: "session_reachable env session_one"
  unfolding session_one_def session_any_step_def
  by (rule r_into_rtranclp) (blast intro: step_create)

lemma encode_example: "encode_inbox_delivery env_example delivery_example = Inr (''m'', ''host'', ''o'')"
  by (simp add: encode_inbox_delivery_def delivery_example_def strict_json_def delivery_envelope_def
      env_example_def) (simp add: hello_def message_to_dict_def)

lemma enqueue_example: "enqueue_inbox env_example ''s'' delivery_example session_one = (session_queued, Inr ())"
  by (simp add: session_queued_def enqueue_inbox_def session_one_eq encode_example get_list_def Let_def)

lemma session_queued_reachable: "session_reachable env_example session_queued"
  unfolding session_queued_def
  by (rule rtranclp.rtrancl_into_rtrancl [OF session_one_reachable])
    (auto simp: session_any_step_def intro: step_enqueue)

lemma session_queued_eq:
  "session_queued = session_one\<lparr>ss_inbox := [(''s'', [(''d1'', \<lparr>ib_digest = ''o'',
     ib_message_json = Some ''m'', ib_source = Some ''host'', ib_metadata_json = Some ''o'',
     ib_message_seq = None\<rparr>)])]\<rparr>"
  using enqueue_example [symmetric]
  by (simp add: enqueue_inbox_def session_one_eq encode_example get_list_def Let_def)
    (simp add: delivery_example_def)

lemma commit_example:
  "commit_inbox env_example ''s'' (JInt 0) ''t1'' session_queued
     = (session_committed, Inr [\<lparr>sm_seq = 1, sm_appended_at = ''t1'', sm_message = hello\<rparr>])"
proof -
  have "decode_inbox_message env_example ''m'' = Inr hello"
    by (simp add: decode_inbox_message_def env_example_def hello_roundtrip)
  then show ?thesis
    by (simp add: session_committed_def commit_inbox_def session_queued_eq session_one_eq
        get_list_def Let_def extend_messages_def stamp_messages_def touch_def)
qed

theorem delivery_enters_log_once_witness:
  "enqueue_inbox env_example ''s'' delivery_example session_committed = (session_committed, Inr ())"
proof -
  have "(session_step env_example ''s'')\<^sup>*\<^sup>* session_queued session_committed"
    unfolding session_committed_def by (rule r_into_rtranclp) (rule step_commit)
  from delivery_enters_log_once [OF session_one_reachable enqueue_example _ this]
  show ?thesis by (simp add: session_one_eq get_list_def)
qed

end
