(* ===== verification/Session_Board.thy ===== *)
theory Session_Board
  imports Session_Inbox
begin

text \<open>
  What the task methods of the session store promise: dependencies recorded on both sides, ids
  that are never reused, exclusive claims, and a ready list that is exactly the startable tasks.
\<close>

lemma reachable_board:
  assumes "session_reachable env st"
  shows "\<exists>n. board_ok n (get_list (ss_tasks st) sid)"
proof (cases "sid \<in> fst ` set (ss_sessions st)")
  case True
  show ?thesis
    by (rule session_ok_live [OF reachable_session_ok [OF assms] True])
      (auto simp: get_list_def live_view_def)
next
  case False
  from session_ok_absent [OF reachable_session_ok [OF assms] False] show ?thesis
    using board_ok_empty by (simp add: get_list_def)
qed

text \<open>
  C40: Both ends of a dependency always agree: of two tasks of a session, one lists the other as
  blocked exactly when the other lists it as a blocker, after any history of creations, patches
  that add or remove edges on either side, claims and deletions.
\<close>

theorem task_dependencies_agree:
  assumes "session_reachable env st"
    and "get_task sid a st = Some t" and "get_task sid b st = Some u"
  shows "b \<in> set (tk_blocks t) \<longleftrightarrow> a \<in> set (tk_blocked_by u)"
proof -
  from reachable_board [OF assms(1), of sid] obtain n where
    "board_ok n (get_list (ss_tasks st) sid)" ..
  with assms(2,3) show ?thesis by (auto simp: board_ok_def symmetric_iff get_task_def)
qed

section \<open>Ids\<close>

lemma counter_unchanged [simp]:
  "ss_task_counter (fst (append_messages rp sid ms ts st)) = ss_task_counter st"
  "ss_task_counter (fst (enqueue_inbox env sid d st)) = ss_task_counter st"
  "ss_task_counter (fst (commit_inbox env sid after_seq ts st)) = ss_task_counter st"
  "ss_task_counter (save_provider_snapshot sid s st) = ss_task_counter st"
  "ss_task_counter (save_offload sid path body st) = ss_task_counter st"
  "ss_task_counter (fst (update_meta sid meta ts st)) = ss_task_counter st"
  "ss_task_counter (fst (set_invoked_skills sid skills ts st)) = ss_task_counter st"
  "ss_task_counter (fst (delete_task sid tid ts st)) = ss_task_counter st"
  "ss_task_counter (fst (claim_task sid tid owner ts st)) = ss_task_counter st"
  "ss_task_counter (fst (release_task sid tid ts st)) = ss_task_counter st"
  by (auto simp: append_messages_def extend_messages_def enqueue_inbox_def commit_inbox_def
      save_provider_snapshot_def save_offload_def update_meta_def set_invoked_skills_def
      delete_task_def claim_task_def release_task_def put_task_def touch_eq Let_def
      split: option.split sum.split prod.split)

lemma counter_update_task [simp]:
  "ss_task_counter (fst (update_task sid tid p ts st)) = ss_task_counter st"
  using counter_unchanged(8) [of sid tid ts st]
  by (auto simp: update_task_def touch_eq Let_def case_prod_beta split: option.split)

lemma counter_create:
  "dict_get (ss_task_counter st) k = Some n \<Longrightarrow>
   dict_get (ss_task_counter (fst (session_create uuid i meta ts st))) k = Some n"
  by (auto simp: session_create_def Let_def split: option.split)

lemma counter_step:
  "session_step env keep st st' \<Longrightarrow> dict_get (ss_task_counter st) keep = Some n \<Longrightarrow>
     \<exists>m. dict_get (ss_task_counter st') keep = Some m \<and> n \<le> m"
proof (induction rule: session_step.induct)
  case (step_create_if_absent st uuid sid meta ts)
  then show ?case using counter_create [OF step_create_if_absent, of uuid "Some sid" meta ts]
    by (auto simp: create_if_absent_def split: prod.split)
next
  case (step_create_task st sid input ts)
  then show ?case by (auto simp: create_task_def touch_eq Let_def)
next
  case (step_delete sid st)
  then show ?case by (simp add: delete_session_def)
qed (auto simp: counter_create)

lemma counter_steps:
  "(session_step env keep)\<^sup>*\<^sup>* st st' \<Longrightarrow> dict_get (ss_task_counter st) keep = Some n \<Longrightarrow>
     \<exists>m. dict_get (ss_task_counter st') keep = Some m \<and> n \<le> m"
  by (induction rule: rtranclp_induct) (force dest: counter_step intro: order_trans)+

lemma create_task_id:
  assumes "session_ok st" and "create_task sid input ts st = (st', Inr t)"
  shows "\<exists>n. 0 \<le> n \<and> dict_get (ss_task_counter st) sid = Some n \<and> tk_id t = show_int n
           \<and> dict_get (ss_task_counter st') sid = Some (n + 1)"
proof -
  from assms(2) have sid: "sid \<in> fst ` set (ss_sessions st)"
    by (simp add: create_task_def split: if_splits)
  show ?thesis
    by (rule session_ok_live [OF assms(1) sid])
      (use assms(2) sid in \<open>auto simp: create_task_def touch_eq Let_def live_view_def
        link_existing_fold new_task_def\<close>)
qed

text \<open>
  Task ids are never reused within a session: two tasks created at different times have
  different ids, also when the first was deleted in between.
\<close>

lemma task_ids_never_reused:
  assumes "session_reachable env st" and "create_task sid input1 ts1 st = (st1, Inr t1)"
    and "(session_step env sid)\<^sup>*\<^sup>* st1 st2" and "create_task sid input2 ts2 st2 = (st3, Inr t2)"
  shows "tk_id t1 \<noteq> tk_id t2"
proof -
  note ok = reachable_session_ok [OF assms(1)]
  have ok1: "session_ok st1" using session_ok_create_task [OF ok, of sid input1 ts1] assms(2) by simp
  from create_task_id [OF ok assms(2)] obtain n where n: "0 \<le> n" "tk_id t1 = show_int n"
    "dict_get (ss_task_counter st1) sid = Some (n + 1)" by blast
  from counter_steps [OF assms(3) n(3)] obtain m where m: "dict_get (ss_task_counter st2) sid = Some m"
    "n + 1 \<le> m" by blast
  from create_task_id [OF session_steps_ok [OF assms(3) ok1] assms(4)] m have "tk_id t2 = show_int m"
    by auto
  with n m show ?thesis by (simp add: show_int_nonneg)
qed

section \<open>Claims and the ready list\<close>

lemma board_ok_key: "board_ok n b \<Longrightarrow> k \<in> keys_of b \<Longrightarrow> \<exists>x. k = show_nat x"
  unfolding board_ok_def by (metis keys_get)

lemma board_ok_values:
  assumes "board_ok n b" and "t \<in> set (dict_values b)"
  shows "dict_get b (tk_id t) = Some t"
  using assms filed_values [of n b t] by (simp add: board_ok_filed del: list.set_map)

lemma board_ok_py_int:
  assumes "board_ok n b" and "t \<in> set (dict_values b)"
  shows "py_int (tk_id t) = Inr (int (decimal_value (tk_id t)))"
  using board_ok_key [OF assms(1) dict_get_keys [OF board_ok_values [OF assms]]] by auto

lemma board_ok_ids:
  assumes "board_ok n b"
  shows "map tk_id (dict_values b) = dict_keys b"
proof (rule nth_equalityI)
  fix i assume "i < length (map tk_id (dict_values b))"
  then have i: "i < length b" by simp
  then have "(fst (b ! i), snd (b ! i)) \<in> set b" by simp
  with assms have "dict_get b (fst (b ! i)) = Some (snd (b ! i))" by (simp add: board_ok_def)
  with assms i show "map tk_id (dict_values b) ! i = dict_keys b ! i" by (simp add: board_ok_def)
qed simp

lemma board_ok_ids_inject:
  assumes "board_ok n b"
  shows "distinct (map (\<lambda>t. int (decimal_value (tk_id t))) (dict_values b))"
proof -
  have "map (\<lambda>t. int (decimal_value (tk_id t))) (dict_values b)
      = map (\<lambda>k. int (decimal_value k)) (map tk_id (dict_values b))" by simp
  also have "\<dots> = map (\<lambda>k. int (decimal_value k)) (dict_keys b)"
    by (simp only: board_ok_ids [OF assms])
  finally have ids: "map (\<lambda>t. int (decimal_value (tk_id t))) (dict_values b)
      = map (\<lambda>k. int (decimal_value k)) (dict_keys b)" .
  have "inj_on (\<lambda>k. int (decimal_value k)) (set (dict_keys b))"
  proof (rule inj_onI)
    fix k l assume k: "k \<in> set (dict_keys b)" "l \<in> set (dict_keys b)"
      and eq: "int (decimal_value k) = int (decimal_value l)"
    from k board_ok_key [OF assms] obtain x y where "k = show_nat x" "l = show_nat y" by fastforce
    with eq show "k = l" by simp
  qed
  then have "distinct (map (\<lambda>k. int (decimal_value k)) (dict_keys b))"
    using assms by (subst distinct_map) (simp add: board_ok_def)
  then show ?thesis unfolding ids .
qed

lemma sorted_tasks_ok:
  assumes "board_ok n b"
  shows "\<exists>ts. sorted_tasks b = Inr ts \<and> set ts = set (dict_values b)
           \<and> sorted_wrt (<) (map (\<lambda>t. int (decimal_value (tk_id t))) ts)"
proof -
  let ?k = "\<lambda>t. int (decimal_value (tk_id t))"
  let ?ts = "sort_key ?k (dict_values b)"
  have "sorted_tasks b = Inr ?ts"
    unfolding sorted_tasks_def by (rule sorted_by_total) (rule board_ok_py_int [OF assms])
  moreover have "distinct (map ?k ?ts)"
    using board_ok_ids_inject [OF assms] by (simp only: distinct_map distinct_sort set_sort)
  then have "sorted_wrt (<) (map ?k ?ts)" by (simp add: strict_sorted_iff sorted_sort_key)
  ultimately show ?thesis by auto
qed

text \<open>
  The ready list never fails and is exact: it holds exactly the tasks that are pending, have
  no owner and whose blockers all exist and are completed, each once, in the order of their
  numbers.
\<close>

lemma ready_tasks_exact:
  assumes "session_reachable env st"
  shows "\<exists>ts. ready_tasks sid st = Inr ts
           \<and> sorted_wrt (<) (map (\<lambda>t. decimal_value (tk_id t)) ts)
           \<and> (\<forall>t. t \<in> set ts \<longleftrightarrow>
                get_task sid (tk_id t) st = Some t \<and> tk_status t = ''pending'' \<and> tk_owner t = None
                \<and> (\<forall>bid \<in> set (tk_blocked_by t).
                     \<exists>u. get_task sid bid st = Some u \<and> tk_status u = ''completed''))"
proof -
  from reachable_board [OF assms, of sid] obtain n where b: "board_ok n (get_list (ss_tasks st) sid)" ..
  from sorted_tasks_ok [OF b] obtain ts where ts: "sorted_tasks (get_list (ss_tasks st) sid) = Inr ts"
    "set ts = set (dict_values (get_list (ss_tasks st) sid))"
    "sorted_wrt (<) (map (\<lambda>t. int (decimal_value (tk_id t))) ts)" by blast
  let ?ts = "filter (task_ready (get_list (ss_tasks st) sid)) ts"
  have "ready_tasks sid st = Inr ?ts" by (simp add: ready_tasks_def board_ready_def ts(1))
  moreover have "sorted_wrt (<) (map (\<lambda>t. decimal_value (tk_id t)) ?ts)"
    using ts(3) by (simp add: sorted_wrt_map sorted_wrt_filter)
  moreover have "t \<in> set ?ts \<longleftrightarrow>
      get_task sid (tk_id t) st = Some t \<and> tk_status t = ''pending'' \<and> tk_owner t = None
      \<and> (\<forall>bid \<in> set (tk_blocked_by t).
           \<exists>u. get_task sid bid st = Some u \<and> tk_status u = ''completed'')" for t
    using filed_values [OF b [unfolded board_ok_filed, THEN conjunct1], of t]
    by (auto simp: ts(2) task_ready_def get_task_def list_all_iff simp del: list.set_map split: option.splits)
  ultimately show ?thesis by blast
qed

text \<open>
  Claiming a task is exclusive: it succeeds only for a pending task without owner, and then
  every further claim, by whomever, is refused and changes nothing; once it is released it can be claimed again.
\<close>

lemma claim_task_exclusive:
  assumes "session_reachable env st" and "claim_task sid tid owner ts st = (st1, Inr (Some t))"
  shows "(\<exists>u. get_task sid tid st = Some u \<and> tk_status u = ''pending'' \<and> tk_owner u = None
            \<and> t = u\<lparr>tk_owner := Some owner, tk_updated_at := ts\<rparr>)
       \<and> claim_task sid tid owner2 ts2 st1 = (st1, Inr None)
       \<and> (\<exists>st2 v. release_task sid tid ts3 st1 = (st2, Inr (Some v))
            \<and> (\<exists>st3 w. claim_task sid tid owner2 ts4 st2 = (st3, Inr (Some w)) \<and> tk_owner w = Some owner2))"
proof -
  from assms(2) obtain u where u: "get_task sid tid st = Some u" "claimable_task u"
    "t = u\<lparr>tk_owner := Some owner, tk_updated_at := ts\<rparr>"
    "sid \<in> fst ` set (ss_sessions st)" "st1 = touched sid ts (put_task sid tid t st)"
    by (auto simp: claim_task_def touch_eq Let_def put_task_def split: option.splits if_splits)
  have put: "get_task sid tid (put_task sid tid x s) = Some x" if "get_task sid tid s = Some y" for x y s
    using that by (simp add: get_task_def put_task_def get_list_def get_modify_task)
  have touch: "get_task sid tid (touched sid x s) = get_task sid tid s" for x s
    by (simp add: get_task_def)
  have st1: "get_task sid tid st1 = Some t" using u put by (simp add: touch)
  have sessions: "fst ` set (ss_sessions (put_task sid tid x s)) = fst ` set (ss_sessions s)" for x s
    by (simp add: put_task_def)
  define v where "v = t\<lparr>tk_owner := None, tk_status := ''pending'', tk_updated_at := ts3\<rparr>"
  define st2 where "st2 = touched sid ts3 (put_task sid tid v st1)"
  have 2: "release_task sid tid ts3 st1 = (st2, Inr (Some v))"
    using st1 u by (simp add: release_task_def claimable_task_def touch_eq Let_def sessions v_def st2_def)
  have st2: "get_task sid tid st2 = Some v" using put [OF st1] by (simp add: st2_def touch)
  have 3: "\<exists>st3 w. claim_task sid tid owner2 ts4 st2 = (st3, Inr (Some w)) \<and> tk_owner w = Some owner2"
    using st2 u by (simp add: claim_task_def claimable_task_def touch_eq Let_def sessions v_def st2_def)
  have 1: "claim_task sid tid owner2 ts2 st1 = (st1, Inr None)"
    using st1 u(3) by (simp add: claim_task_def claimable_task_def)
  from 1 2 3 u(1,2,3) show ?thesis by (auto simp: claimable_task_def)
qed

section \<open>A concrete board\<close>

definition input_example :: create_task_input where
  "input_example = \<lparr>ct_subject = ''a'', ct_description = ''b'', ct_active_form = None, ct_metadata = None\<rparr>"

definition store_first :: session_store where
  "store_first = fst (create_task ''s'' input_example ''t1'' session_one)"

definition store_second :: session_store where
  "store_second = fst (create_task ''s'' input_example ''t2'' store_first)"

definition block_patch :: task_patch where
  "block_patch = empty_patch\<lparr>tp_add_blocks := Some [''2'']\<rparr>"

definition store_linked :: session_store where
  "store_linked = fst (update_task ''s'' ''1'' block_patch ''t3'' store_second)"

definition store_claimed :: session_store where
  "store_claimed = fst (claim_task ''s'' ''1'' ''w'' ''t4'' store_linked)"

lemma store_first_reachable: "session_reachable env store_first"
  unfolding store_first_def
  by (rule rtranclp.rtrancl_into_rtrancl [OF session_one_reachable])
    (auto simp: session_any_step_def intro: step_create_task)

lemma store_second_reachable: "session_reachable env store_second"
  unfolding store_second_def
  by (rule rtranclp.rtrancl_into_rtrancl [OF store_first_reachable])
    (auto simp: session_any_step_def intro: step_create_task)

lemma store_linked_reachable: "session_reachable env store_linked"
  unfolding store_linked_def
  by (rule rtranclp.rtrancl_into_rtrancl [OF store_second_reachable])
    (auto simp: session_any_step_def intro: step_update_task)

lemma show_int_small: "show_int 1 = ''1''" "show_int 2 = ''2''"
  by (simp_all add: show_int_def show_nat.simps digit_char_def char_of_eq_iff)

lemmas board_example_simps =
  create_task_def get_list_def touch_def Let_def
  new_task_def board_create_def link_existing_def show_int_small input_example_def

lemma create_example_1:
  "create_task ''s'' input_example ''t1'' session_one = (store_first, Inr (new_task ''s'' ''1'' input_example ''t1''))"
  by (simp add: store_first_def session_one_eq board_example_simps)

lemma create_example_2:
  "create_task ''s'' input_example ''t2'' store_first = (store_second, Inr (new_task ''s'' ''2'' input_example ''t2''))"
  by (simp add: store_second_def store_first_def session_one_eq board_example_simps)

lemma linked_tasks:
  "get_task ''s'' ''1'' store_linked = Some ((new_task ''s'' ''1'' input_example ''t1'')
      \<lparr>tk_blocks := [''2''], tk_updated_at := ''t3''\<rparr>)"
  "get_task ''s'' ''2'' store_linked = Some ((new_task ''s'' ''2'' input_example ''t2'')
      \<lparr>tk_blocked_by := [''1'']\<rparr>)"
  by (simp_all add: store_linked_def store_second_def store_first_def session_one_eq
      board_example_simps get_task_def update_task_def board_update_def block_patch_def
      empty_patch_def list_or_empty_def insert_blocks_def insert_blocked_by_def session_defs
      modify_task_def patch_fields_def)

lemma claim_example_eq:
  "claim_task ''s'' ''1'' ''w'' ''t4'' store_linked = (store_claimed, Inr (Some
     ((new_task ''s'' ''1'' input_example ''t1'')
        \<lparr>tk_blocks := [''2''], tk_owner := Some ''w'', tk_updated_at := ''t4''\<rparr>)))"
proof -
  have "''s'' \<in> fst ` set (ss_sessions store_linked)"
    using session_ok_task_session [OF reachable_session_ok [OF store_linked_reachable] linked_tasks(1)] .
  then show ?thesis
    by (simp add: store_claimed_def claim_task_def linked_tasks claimable_task_def touch_eq
        put_task_def Let_def) (simp add: new_task_def)
qed

theorem task_dependencies_agree_witness:
  "''2'' \<in> set [''2''] \<longleftrightarrow> ''1'' \<in> set (tk_blocked_by (the (get_task ''s'' ''2'' store_linked)))"
  using task_dependencies_agree [OF store_linked_reachable linked_tasks] by (simp add: linked_tasks)

end
