(* ===== verification/Projections.thy ===== *)
theory Projections
  imports Durability
begin

text \<open>
  \<^verbatim>\<open>src/linch/model_calls.py\<close>, the journal records: the bounded JSON that may enter the
  journal (\<^verbatim>\<open>check_journal_json\<close> of the native extension,
  \<^verbatim>\<open>linch-rust/crates/linch-python/src/journal.rs\<close>), the projections that tie model input to
  receipts, and the checks between projections, receipts and intents.
\<close>

section \<open>Journal JSON\<close>

text \<open>Containers nest at most 64 levels below the root and floats are finite.\<close>

fun journal_json :: "nat \<Rightarrow> json \<Rightarrow> bool" where
  "journal_json depth (JFloat f) = is_finite f"
| "journal_json depth (JList xs) = (depth \<le> 64 \<and> (\<forall>x \<in> set xs. journal_json (depth + 1) x))"
| "journal_json depth (JDict d) = (depth \<le> 64 \<and> (\<forall>(k, x) \<in> set d. journal_json (depth + 1) x))"
| "journal_json depth v = True"

definition copy_json_object :: "json_obj \<Rightarrow> json_obj result" where
  "copy_json_object raw = (if journal_json 0 (JDict raw) then Inr raw else Inl invalid)"

text \<open>
  Python's \<^verbatim>\<open>==\<close> on such values: dictionaries compare without regard to order, and numbers
  by value across \<^verbatim>\<open>bool\<close>, \<^verbatim>\<open>int\<close> and \<^verbatim>\<open>float\<close>.
\<close>

fun json_number :: "json \<Rightarrow> rat option" where
  "json_number (JBool b) = Some (if b then 1 else 0)"
| "json_number (JInt n) = Some (of_int n)"
| "json_number (JFloat (Fin q)) = Some q"
| "json_number _ = None"

function (sequential) json_eq :: "json \<Rightarrow> json \<Rightarrow> bool" where
  "json_eq JNull w = (w = JNull)"
| "json_eq (JStr s) w = (w = JStr s)"
| "json_eq (JList xs) w = (case w of
       JList ys \<Rightarrow> length xs = length ys \<and> (\<forall>(x, y) \<in> set (zip xs ys). json_eq x y)
     | _ \<Rightarrow> False)"
| "json_eq (JDict d) w = (case w of
       JDict e \<Rightarrow> fst ` set d = fst ` set e
         \<and> (\<forall>(k, x) \<in> set d. \<exists>(l, y) \<in> set e. l = k \<and> json_eq x y)
     | _ \<Rightarrow> False)"
| "json_eq (JFloat PInf) w = (w = JFloat PInf)"
| "json_eq (JFloat NInf) w = (w = JFloat NInf)"
| "json_eq (JFloat NaN) w = False"
| "json_eq v w = (json_number v \<noteq> None \<and> json_number v = json_number w)"
  by pat_completeness auto
termination
proof (relation "measure (\<lambda>(v, w). size v)", goal_cases)
  case (2 xs w ys z x y)
  then have "x \<in> set xs" by (auto dest: set_zip_leftD)
  with size_list_estimation' [OF this, of "size x" size] 2 show ?case by (auto simp: less_Suc_eq_le)
next
  case (3 d w e z k x a l y)
  then have "(k, x) \<in> set d" by simp
  from size_list_estimation' [OF this, of "size x" "size_prod (\<lambda>_. 0) size"] 3 show ?case
    by (auto simp: less_Suc_eq_le)
qed simp

definition same_record :: "json_obj \<Rightarrow> json_obj \<Rightarrow> bool" where
  "same_record a b = json_eq (JDict a) (JDict b)"

definition fingerprint :: "json_env \<Rightarrow> json \<Rightarrow> string result" where
  "fingerprint env v = bind_result (strict_json env v) (\<lambda>s. Inr (sha256 env s))"

section \<open>Projections\<close>

definition stop_reasons :: "string list" where
  "stop_reasons = [''end_turn'', ''tool_use'', ''max_tokens'', ''stop_sequence'', ''refusal'',
     ''error'', ''lease_lost'', ''interrupted'']"

definition sha256_hex :: "string \<Rightarrow> bool" where
  "sha256_hex s = (length s = 64 \<and> list_all (\<lambda>c. c \<in> set ''0123456789abcdef'') s)"

definition digest_field :: "json \<Rightarrow> string result" where
  "digest_field v = bind_result (string_field False v)
     (\<lambda>s. if sha256_hex s then Inr s else Inl invalid)"

definition primary_projection_fields :: "string list" where
  "primary_projection_fields = [''projection_kind'', ''projection_id'', ''run_id'',
     ''logical_call_id'', ''delivery_attempt_id'', ''turn_index'', ''snapshot_id'',
     ''request_fingerprint'', ''full_history_base_count'', ''full_history_base_fingerprint'',
     ''assistant_sha256'', ''assistant_stop_reason'', ''after_action'', ''after_feedback'',
     ''control_message_sha256'']"

definition compaction_projection_fields :: "string list" where
  "compaction_projection_fields = [''projection_kind'', ''projection_id'', ''source_receipt_ids'',
     ''strategy_id'', ''strategy_config'', ''source_context_fingerprint'',
     ''target_context_fingerprint'', ''full_history_base_count'', ''full_history_base_fingerprint'',
     ''source_message_fingerprints'', ''reminder_fingerprints'']"

definition compaction_source_fields :: "string list" where
  "compaction_source_fields =
     filter (\<lambda>f. f \<notin> {''source_receipt_ids'', ''target_context_fingerprint''})
       compaction_projection_fields
     @ [''run_id'', ''logical_call_id'', ''delivery_attempt_id'', ''turn_index'', ''request_fingerprint'']"

text \<open>Running the checks of a loop over field names.\<close>

definition each_field :: "(json \<Rightarrow> 'a result) \<Rightarrow> string list \<Rightarrow> json_obj \<Rightarrow> unit result" where
  "each_field check names raw =
     bind_result (map_result (\<lambda>n. check (raw_field raw n)) names) (\<lambda>_. Inr ())"

definition validate_primary_projection :: "json_obj \<Rightarrow> unit result" where
  "validate_primary_projection raw =
     bind_result (versioned raw primary_projection_fields) (\<lambda>_.
     bind_result (each_field (string_field False)
       [''run_id'', ''logical_call_id'', ''delivery_attempt_id'', ''request_fingerprint''] raw) (\<lambda>_.
     bind_result (integer_field (raw_field raw ''turn_index'')) (\<lambda>_.
     bind_result (optional_string (raw_field raw ''snapshot_id'')) (\<lambda>_.
     bind_result (digest_field (raw_field raw ''assistant_sha256'')) (\<lambda>_.
     bind_result (check_that (raw_field raw ''assistant_stop_reason'' \<in> JStr ` set stop_reasons)) (\<lambda>_.
     bind_result (check_that (raw_field raw ''after_action''
                                \<in> {JNull, JStr ''continue'', JStr ''stop''})) (\<lambda>_.
     bind_result (if raw_field raw ''after_feedback'' = JNull then Inr ()
                  else bind_result (string_field True (raw_field raw ''after_feedback'')) (\<lambda>s.
                    check_that (utf8_length s \<le> accepted_text_max_bytes))) (\<lambda>_.
       if raw_field raw ''after_action'' = JStr ''continue''
       then bind_result (digest_field (raw_field raw ''control_message_sha256'')) (\<lambda>_. Inr ())
       else check_that (raw_field raw ''control_message_sha256'' = JNull)))))))))"

definition validate_strategy_config :: "json \<Rightarrow> unit result" where
  "validate_strategy_config v = (case v of
       JDict config \<Rightarrow>
         bind_result (check_that (fst ` set config
           = {''implementation'', ''keep_recent_turns'', ''max_output_tokens'', ''prompt_sha256''})) (\<lambda>_.
         bind_result (check_that (raw_field config ''implementation''
                                    \<in> {JStr ''default_v1'', JStr ''detailed_v1''})) (\<lambda>_.
         bind_result (each_field (\<lambda>v. bind_result (integer_field v) (\<lambda>n. check_that (1 \<le> n)))
                        [''keep_recent_turns'', ''max_output_tokens''] config) (\<lambda>_.
         bind_result (digest_field (raw_field config ''prompt_sha256'')) (\<lambda>_. Inr ()))))
     | _ \<Rightarrow> Inl invalid)"

definition digest_list :: "bool \<Rightarrow> json \<Rightarrow> string list result" where
  "digest_list nonempty v = (case v of
       JList ids \<Rightarrow> if nonempty \<and> ids = [] then Inl invalid else map_result digest_field ids
     | _ \<Rightarrow> Inl invalid)"

definition validate_compaction_projection :: "bool \<Rightarrow> json_obj \<Rightarrow> unit result" where
  "validate_compaction_projection source raw =
     bind_result (versioned raw (if source then compaction_source_fields
                                 else compaction_projection_fields)) (\<lambda>_.
     bind_result (if source
       then bind_result (each_field (string_field False)
              [''run_id'', ''logical_call_id'', ''delivery_attempt_id'', ''request_fingerprint''] raw) (\<lambda>_.
            bind_result (optional_integer (raw_field raw ''turn_index'')) (\<lambda>_. Inr ()))
       else Inr ()) (\<lambda>_.
     bind_result (string_field False (raw_field raw ''strategy_id'')) (\<lambda>_.
     bind_result (validate_strategy_config (raw_field raw ''strategy_config'')) (\<lambda>_.
     bind_result (digest_field (raw_field raw ''source_context_fingerprint'')) (\<lambda>_.
     bind_result (digest_list True (raw_field raw ''source_message_fingerprints'')) (\<lambda>_.
     bind_result (digest_list False (raw_field raw ''reminder_fingerprints'')) (\<lambda>reminders.
     bind_result (check_that (distinct reminders)) (\<lambda>_.
       if source then Inr ()
       else bind_result (digest_field (raw_field raw ''target_context_fingerprint'')) (\<lambda>_.
            case raw_field raw ''source_receipt_ids'' of
              JList [i] \<Rightarrow> bind_result (string_field False i) (\<lambda>_. Inr ())
            | _ \<Rightarrow> Inl invalid)))))))))"

text \<open>The kind of a projection.\<close>

abbreviation projection_kind :: "json_obj \<Rightarrow> json" where
  "projection_kind raw \<equiv> raw_field raw ''projection_kind''"

abbreviation is_source :: "json_obj \<Rightarrow> bool" where
  "is_source raw \<equiv> projection_kind raw = JStr ''compaction_source''"

definition validate_projection :: "json_env \<Rightarrow> json_obj \<Rightarrow> unit result" where
  "validate_projection env raw =
     bind_result
       (if projection_kind raw = JStr ''primary_append'' then validate_primary_projection raw
        else if projection_kind raw \<in> {JStr ''compaction'', JStr ''compaction_source''}
        then validate_compaction_projection (is_source raw) raw
        else Inl invalid) (\<lambda>_.
     bind_result (integer_field (raw_field raw ''full_history_base_count'')) (\<lambda>_.
     bind_result (digest_field (raw_field raw ''full_history_base_fingerprint'')) (\<lambda>_.
     bind_result (digest_field (raw_field raw ''projection_id'')) (\<lambda>pid.
     bind_result (fingerprint env (JDict (filter (\<lambda>(k, v). k \<noteq> ''projection_id'') raw))) (\<lambda>expected.
       check_that (pid = expected))))))"

definition projection_record :: "json_env \<Rightarrow> json_obj \<Rightarrow> json_obj result" where
  "projection_record env values =
     (let raw = (''version'', JInt wire_version) # values in
      bind_result (fingerprint env (JDict raw)) (\<lambda>pid.
      (let full = dict_set ''projection_id'' (JStr pid) raw in
       bind_result (validate_projection env full) (\<lambda>_. Inr full))))"

section \<open>Journal envelopes\<close>

definition record_kinds :: "string list" where
  "record_kinds = [''intent'', ''dispatch_started'', ''receipt'', ''abandoned'', ''projection'']"

definition abandoned_fields :: "string list" where
  "abandoned_fields = [''intent'', ''reason'', ''usage_status'']"

text \<open>\<^verbatim>\<open>intent_from_dict\<close> of a value that may not be a mapping.\<close>

definition intent_from_json :: "json \<Rightarrow> intent result" where
  "intent_from_json v = (case v of
       JDict d \<Rightarrow> intent_from_dict d | _ \<Rightarrow> Inl UnsupportedWireVersionError)"

definition check_run :: "string \<Rightarrow> string \<Rightarrow> unit result" where
  "check_run expected run = (if run = expected then Inr () else Inl (ModelCallError ''identity_mismatch''))"

definition copy_model_call_record ::
  "json_env \<Rightarrow> string \<Rightarrow> string \<Rightarrow> json_obj \<Rightarrow> string option \<Rightarrow> json \<Rightarrow> json_obj result" where
  "copy_model_call_record env run_id kind record owner version =
     bind_result (require_wire_version (Some version)) (\<lambda>_.
     bind_result (string_field False (JStr run_id)) (\<lambda>_.
     bind_result (optional_string (json_opt_string owner)) (\<lambda>_.
     bind_result (check_that (kind \<in> set record_kinds)) (\<lambda>_.
     bind_result (copy_json_object record) (\<lambda>owned.
       if kind \<in> {''intent'', ''dispatch_started''} then
         bind_result (intent_from_dict owned) (\<lambda>i.
         bind_result (check_run run_id (in_run_id i)) (\<lambda>_. Inr owned))
       else if kind = ''receipt'' then
         bind_result (receipt_from_dict (sha256 env) owned) (\<lambda>r.
         bind_result (check_run run_id (rc_run_id r)) (\<lambda>_. Inr owned))
       else if kind = ''abandoned'' then
         bind_result (versioned owned abandoned_fields) (\<lambda>_.
         bind_result (intent_from_json (raw_field owned ''intent'')) (\<lambda>i.
         bind_result (string_field False (raw_field owned ''reason'')) (\<lambda>reason.
         bind_result (check_that (utf8_length reason \<le> 1024)) (\<lambda>_.
         bind_result (check_that (raw_field owned ''usage_status''
                                    \<in> {JStr ''unknown'', JStr ''not_dispatched''})) (\<lambda>_.
         bind_result (check_run run_id (in_run_id i)) (\<lambda>_. Inr owned))))))
       else
         bind_result (validate_projection env owned) (\<lambda>_.
           if projection_kind owned \<in> {JStr ''primary_append'', JStr ''compaction_source''}
              \<and> raw_field owned ''run_id'' \<noteq> JStr run_id
           then Inl (ModelCallError ''identity_mismatch'') else Inr owned))))))"

section \<open>Projections against receipts and intents\<close>

text \<open>The fields intents and receipts share, \<^verbatim>\<open>_IDENTITY_FIELDS\<close>.\<close>

record call_identity =
  ci_logical_call_id :: string
  ci_delivery_attempt_id :: string
  ci_kind :: string
  ci_run_id :: string
  ci_turn_index :: "int option"
  ci_request_fingerprint :: string
  ci_strategy_id :: "string option"

definition intent_identity :: "intent \<Rightarrow> call_identity" where
  "intent_identity i =
     \<lparr>ci_logical_call_id = in_logical_call_id i, ci_delivery_attempt_id = in_delivery_attempt_id i,
      ci_kind = in_kind i, ci_run_id = in_run_id i, ci_turn_index = in_turn_index i,
      ci_request_fingerprint = in_request_fingerprint i, ci_strategy_id = in_strategy_id i\<rparr>"

definition receipt_identity :: "receipt \<Rightarrow> call_identity" where
  "receipt_identity r =
     \<lparr>ci_logical_call_id = rc_logical_call_id r, ci_delivery_attempt_id = rc_delivery_attempt_id r,
      ci_kind = rc_kind r, ci_run_id = rc_run_id r, ci_turn_index = rc_turn_index r,
      ci_request_fingerprint = rc_request_fingerprint r, ci_strategy_id = rc_strategy_id r\<rparr>"

definition match_receipt :: "intent \<Rightarrow> receipt \<Rightarrow> unit result" where
  "match_receipt i r = (if intent_identity i = receipt_identity r then Inr ()
                        else Inl (ModelCallError ''identity_mismatch''))"

text \<open>The fields of a projection that name its physical delivery, as the identity has them.\<close>

definition names_delivery :: "json_obj \<Rightarrow> call_identity \<Rightarrow> bool" where
  "names_delivery raw i =
     (raw_field raw ''run_id'' = JStr (ci_run_id i)
    \<and> raw_field raw ''logical_call_id'' = JStr (ci_logical_call_id i)
    \<and> raw_field raw ''delivery_attempt_id'' = JStr (ci_delivery_attempt_id i)
    \<and> raw_field raw ''turn_index'' = json_opt_int (ci_turn_index i)
    \<and> raw_field raw ''request_fingerprint'' = JStr (ci_request_fingerprint i))"

definition delivery_of :: "json_obj \<Rightarrow> string" where
  "delivery_of raw = as_string (raw_field raw ''delivery_attempt_id'')"

definition source_ids :: "json_obj \<Rightarrow> string list" where
  "source_ids raw = (case raw_field raw ''source_receipt_ids'' of
       JList ids \<Rightarrow> map as_string ids | _ \<Rightarrow> [])"

text \<open>The paid projection's loop over its source receipts.\<close>

definition check_paid_source ::
  "(string, receipt) dict \<Rightarrow> json_obj \<Rightarrow> string \<Rightarrow> unit result" where
  "check_paid_source receipts raw rid = (case dict_get receipts rid of
       None \<Rightarrow> Inl invalid
     | Some r \<Rightarrow>
         if rc_kind r \<noteq> ''compaction'' \<or> rc_disposition r \<noteq> ''accepted'' then Inl invalid
         else if json_opt_string (rc_strategy_id r) \<noteq> raw_field raw ''strategy_id''
                 \<or> json_opt_string (rc_source_context_fingerprint r)
                     \<noteq> raw_field raw ''source_context_fingerprint''
         then Inl (ModelCallError ''identity_mismatch'') else Inr ())"

definition validate_projection_receipts ::
  "json_obj \<Rightarrow> (string, receipt) dict \<Rightarrow> (string, intent) dict \<Rightarrow> unit result" where
  "validate_projection_receipts raw receipts intents =
     (if is_source raw then
        (let did = delivery_of raw in
         case (case dict_get intents did of
                 Some i \<Rightarrow> Some (intent_identity i)
               | None \<Rightarrow> map_option receipt_identity (dict_get receipts did)) of
           None \<Rightarrow> Inl invalid
         | Some ident \<Rightarrow>
             if ci_kind ident \<noteq> ''compaction'' then Inl invalid
             else if \<not> names_delivery raw ident
                     \<or> raw_field raw ''strategy_id'' \<noteq> json_opt_string (ci_strategy_id ident)
             then Inl (ModelCallError ''identity_mismatch'')
             else (case dict_get receipts did of
                     None \<Rightarrow> Inr ()
                   | Some r \<Rightarrow>
                       if raw_field raw ''source_context_fingerprint''
                          \<noteq> json_opt_string (rc_source_context_fingerprint r)
                       then Inl (ModelCallError ''identity_mismatch'') else Inr ()))
      else if projection_kind raw = JStr ''primary_append'' then
        (case dict_get receipts (delivery_of raw) of
           None \<Rightarrow> Inl invalid
         | Some r \<Rightarrow>
             if rc_kind r \<noteq> ''primary'' \<or> rc_disposition r \<noteq> ''accepted'' then Inl invalid
             else if \<not> names_delivery raw (receipt_identity r)
             then Inl (ModelCallError ''identity_mismatch'') else Inr ())
      else bind_result (map_result (check_paid_source receipts raw) (source_ids raw)) (\<lambda>_. Inr ()))"

definition linked_receipts :: "json_obj \<Rightarrow> string list" where
  "linked_receipts raw =
     (if projection_kind raw \<in> {JStr ''primary_append'', JStr ''compaction_source''}
      then [delivery_of raw] else source_ids raw)"

text \<open>The fields in which a paid projection must repeat its source.\<close>

definition shared_recipe :: "json_obj \<Rightarrow> json_obj \<Rightarrow> bool" where
  "shared_recipe paid source =
     list_all (\<lambda>n. json_eq (raw_field paid n) (raw_field source n))
       (filter (\<lambda>n. n \<notin> {''projection_kind'', ''projection_id'', ''source_receipt_ids'',
                          ''target_context_fingerprint''}) compaction_projection_fields)"

definition differs_from_source :: "json_obj \<Rightarrow> json_obj \<Rightarrow> bool" where
  "differs_from_source record v =
     ({projection_kind v, projection_kind record} = {JStr ''compaction'', JStr ''compaction_source''}
      \<and> (let (paid, source) = (if projection_kind record = JStr ''compaction''
                               then (record, v) else (v, record))
         in delivery_of source \<in> set (source_ids paid) \<and> \<not> shared_recipe paid source))"

definition check_projection_conflict ::
  "json_obj \<Rightarrow> (string, json_obj) dict \<Rightarrow> unit result" where
  "check_projection_conflict record projections =
     (if list_ex (\<lambda>v. projection_kind v = projection_kind record
                      \<and> list_ex (\<lambda>i. i \<in> set (linked_receipts v)) (linked_receipts record)
                      \<and> \<not> same_record v record) (dict_values projections)
      then Inl invalid
      else if projection_kind record = JStr ''compaction''
              \<and> \<not> list_ex (\<lambda>v. is_source v \<and> delivery_of v \<in> set (linked_receipts record))
                    (dict_values projections)
      then Inl invalid
      else check_that (\<not> list_ex (differs_from_source record) (dict_values projections)))"

end
