(* ===== verification/Ledger.thy ===== *)
theory Ledger
  imports Projections Budget
begin

text \<open>
  The model-call ledger of one run, \<^verbatim>\<open>_ModelCallLedger\<close> of \<^verbatim>\<open>src/linch/model_calls.py\<close>:
  intents, dispatch marks, receipts, abandonments and projections, each written to the run's
  journal before it is recorded, and the charging of the shared budget. The lock makes every
  operation one step. The persistence callback is an outcome given to the step; an operation
  returns the ledger, the events that reached the journal, and its result. \<open>new_id\<close> is the
  \<^verbatim>\<open>uuid4\<close> the budget would draw.
\<close>

section \<open>State\<close>

record model_call_event =
  ev_run_id :: string
  ev_record_kind :: string
  ev_record :: json_obj
  ev_budget_owner_id :: "string option"
  ev_schema_version :: json

record ledger =
  lg_run_id :: string
  lg_budget :: "budget option"
  lg_budget_owner_id :: string
  lg_intents :: "(string, intent) dict"
  lg_started :: "string set"
  lg_abandoned :: "string set"
  lg_receipts :: "(string, receipt) dict"
  lg_consumed :: "string set"
  lg_journal_count :: int
  lg_projections :: "(string, json_obj) dict"
  lg_total_usage :: usage
  lg_total_cost_usd :: "pyfloat option"
  lg_has_unknown_usage :: bool
  lg_persistence_failed :: bool

text \<open>
  What the persistence callback does: there is none, it returns, it raises \<^verbatim>\<open>LeaseLostError\<close>,
  or it raises another exception or a cancellation; in the last two cases the event may or may
  not have reached the journal.
\<close>

datatype persist_outcome =
  NoCallback | Persisted | LeaseLost | PersistFailed bool | PersistCancelled bool

definition new_ledger :: "string \<Rightarrow> string \<Rightarrow> budget option \<Rightarrow> ledger result" where
  "new_ledger run_id uuid b =
     bind_result (string_field False (JStr run_id)) (\<lambda>rid.
       Inr \<lparr>lg_run_id = rid, lg_budget = b,
            lg_budget_owner_id = (case b of
                None \<Rightarrow> uuid
              | Some bu \<Rightarrow> (case budget_owner_id bu of
                    None \<Rightarrow> uuid | Some owner \<Rightarrow> if owner = [] then uuid else owner)),
            lg_intents = [], lg_started = {}, lg_abandoned = {}, lg_receipts = [],
            lg_consumed = {}, lg_journal_count = 0, lg_projections = [],
            lg_total_usage = usage_zero, lg_total_cost_usd = None,
            lg_has_unknown_usage = False, lg_persistence_failed = False\<rparr>)"

section \<open>Helpers\<close>

definition healthy :: "ledger \<Rightarrow> unit result" where
  "healthy L = (if lg_persistence_failed L then Inl (ModelCallError ''persistence_failed'') else Inr ())"

definition bind_budget :: "string \<Rightarrow> ledger \<Rightarrow> ledger" where
  "bind_budget new_id L = (case lg_budget L of
       None \<Rightarrow> L
     | Some b \<Rightarrow> (case receipt_owner new_id b of
           (b', owner) \<Rightarrow> L\<lparr>lg_budget := Some b', lg_budget_owner_id := owner\<rparr>))"

definition assert_may_start :: "ledger \<Rightarrow> unit result" where
  "assert_may_start L =
     bind_result (healthy L) (\<lambda>_. case lg_budget L of
        None \<Rightarrow> Inr ()
      | Some b \<Rightarrow>
          if is_capped b \<and> (lg_has_unknown_usage L \<or> unknown_delivery_ids b \<noteq> {})
          then Inl (ModelCallError ''budget_accounting_unknown'')
          else if exceeded b then Inl (ModelCallError ''budget_exceeded'') else Inr ())"

definition own_intent :: "intent \<Rightarrow> ledger \<Rightarrow> intent result" where
  "own_intent i L =
     bind_result (intent_from_dict (intent_raw i)) (\<lambda>owned.
     bind_result (check_run (lg_run_id L) (in_run_id owned)) (\<lambda>_. Inr owned))"

definition pending_intent :: "intent \<Rightarrow> ledger \<Rightarrow> intent result" where
  "pending_intent i L =
     bind_result (own_intent i L) (\<lambda>owned.
       if dict_get (lg_intents L) (in_delivery_attempt_id owned) \<noteq> Some owned
          \<or> in_delivery_attempt_id owned \<in> fst ` set (lg_receipts L)
       then Inl (ModelCallError ''identity_mismatch'') else Inr owned)"

definition ledger_event :: "string \<Rightarrow> json_obj \<Rightarrow> ledger \<Rightarrow> model_call_event" where
  "ledger_event kind record L =
     \<lparr>ev_run_id = lg_run_id L, ev_record_kind = kind, ev_record = record,
      ev_budget_owner_id = Some (lg_budget_owner_id L), ev_schema_version = JInt wire_version\<rparr>"

definition ledger_write ::
  "persist_outcome \<Rightarrow> string \<Rightarrow> json_obj \<Rightarrow> ledger \<Rightarrow> ledger \<times> model_call_event list \<times> unit result" where
  "ledger_write out kind record L =
     (let counted = L\<lparr>lg_journal_count := lg_journal_count L + 1\<rparr>;
          failed = L\<lparr>lg_persistence_failed := True\<rparr>;
          ev = ledger_event kind record L
      in case out of
           NoCallback \<Rightarrow> (counted, [], Inr ())
         | Persisted \<Rightarrow> (counted, [ev], Inr ())
         | LeaseLost \<Rightarrow> (L, [], Inl LeaseLostError)
         | PersistFailed reached \<Rightarrow>
             (failed, if reached then [ev] else [], Inl (ModelCallError ''persistence_failed''))
         | PersistCancelled reached \<Rightarrow>
             (failed, if reached then [ev] else [], Inl CancelledError))"

text \<open>An operation that fails before it writes leaves no event.\<close>

abbreviation refuse :: "ledger \<Rightarrow> py_error \<Rightarrow> ledger \<times> model_call_event list \<times> 'a result" where
  "refuse L e \<equiv> (L, [], Inl e)"

text \<open>Writing a record, then updating the ledger if that succeeded.\<close>

definition write_then ::
  "persist_outcome \<Rightarrow> string \<Rightarrow> json_obj \<Rightarrow> (ledger \<Rightarrow> ledger) \<Rightarrow> 'a \<Rightarrow> ledger
   \<Rightarrow> ledger \<times> model_call_event list \<times> 'a result" where
  "write_then out kind record f r L =
     (case ledger_write out kind record L of
        (L', evs, Inl e) \<Rightarrow> (L', evs, Inl e)
      | (L', evs, Inr _) \<Rightarrow> (f L', evs, Inr r))"

section \<open>Operations\<close>

definition ledger_begin ::
  "persist_outcome \<Rightarrow> string \<Rightarrow> intent \<Rightarrow> ledger \<Rightarrow> ledger \<times> model_call_event list \<times> unit result" where
  "ledger_begin out new_id i L =
     (case bind_result (healthy L) (\<lambda>_. own_intent i L) of
        Inl e \<Rightarrow> refuse L e
      | Inr owned \<Rightarrow>
          (let did = in_delivery_attempt_id owned in
           if did \<in> fst ` set (lg_intents L) \<or> did \<in> fst ` set (lg_receipts L)
           then refuse L (ModelCallError ''conflicting_delivery'')
           else write_then out ''intent'' (intent_raw owned)
                  (\<lambda>L. L\<lparr>lg_intents := dict_set did owned (lg_intents L)\<rparr>) () (bind_budget new_id L)))"

definition mark_dispatch_started ::
  "persist_outcome \<Rightarrow> intent \<Rightarrow> ledger \<Rightarrow> ledger \<times> model_call_event list \<times> unit result" where
  "mark_dispatch_started out i L =
     (case bind_result (healthy L) (\<lambda>_. pending_intent i L) of
        Inl e \<Rightarrow> refuse L e
      | Inr owned \<Rightarrow>
          (let did = in_delivery_attempt_id owned in
           if did \<in> lg_started L \<or> did \<in> lg_abandoned L
           then refuse L (ModelCallError ''invalid_state'')
           else write_then out ''dispatch_started'' (intent_raw owned)
                  (\<lambda>L. L\<lparr>lg_started := insert did (lg_started L)\<rparr>) () L))"

definition require_dispatched_receipt :: "receipt \<Rightarrow> unit result" where
  "require_dispatched_receipt r =
     (if rc_usage_status r = ''not_dispatched'' then Inl (ModelCallError ''invalid_state'') else Inr ())"

text \<open>The compaction sources recorded for a delivery must agree with its receipt.\<close>

definition check_sources ::
  "receipt \<Rightarrow> (string, json_obj) dict \<Rightarrow> (string, intent) dict \<Rightarrow> unit result" where
  "check_sources r projections intents =
     bind_result (map_result
       (\<lambda>p. validate_projection_receipts p [(rc_delivery_attempt_id r, r)] intents)
       (filter (\<lambda>p. is_source p \<and> delivery_of p = rc_delivery_attempt_id r) (dict_values projections)))
       (\<lambda>_. Inr ())"

definition settle_budget ::
  "string \<Rightarrow> receipt \<Rightarrow> ledger \<Rightarrow> ledger \<times> unit result" where
  "settle_budget new_id r L = (case lg_budget L of
       None \<Rightarrow> (L, Inr ())
     | Some b \<Rightarrow>
         (case rc_usage r of
            Some u \<Rightarrow>
              (case charge_receipt new_id (rc_delivery_attempt_id r) u (rc_cost_usd r) b of
                 (b', Inl e) \<Rightarrow> (L\<lparr>lg_budget := Some b'\<rparr>, Inl e)
               | (b', Inr _) \<Rightarrow> (L\<lparr>lg_budget := Some b'\<rparr>, Inr ()))
          | None \<Rightarrow>
              if rc_usage_status r = ''unknown''
              then (L\<lparr>lg_budget := Some (register_unresolved_delivery new_id
                        (rc_delivery_attempt_id r) b)\<rparr>, Inr ())
              else (L, Inr ())))"

definition next_cost :: "receipt \<Rightarrow> pyfloat option \<Rightarrow> pyfloat option result" where
  "next_cost r spent = (case rc_cost_usd r of
       None \<Rightarrow> Inr spent
     | Some c \<Rightarrow> checked_cost (Some (pf_add (cost_or_zero spent) c)))"

definition next_usage :: "receipt \<Rightarrow> usage \<Rightarrow> usage result" where
  "next_usage r spent = (case rc_usage r of
       None \<Rightarrow> copy_usage spent | Some u \<Rightarrow> Inr (usage_add spent u))"

definition ledger_settle ::
  "json_env \<Rightarrow> persist_outcome \<Rightarrow> string \<Rightarrow> receipt \<Rightarrow> ledger
   \<Rightarrow> ledger \<times> model_call_event list \<times> bool result" where
  "ledger_settle env out new_id receipt L =
     (case bind_result (healthy L) (\<lambda>_.
             bind_result (receipt_raw receipt) (\<lambda>raw.
             bind_result (receipt_from_dict (sha256 env) raw) (\<lambda>owned.
             bind_result (require_dispatched_receipt owned) (\<lambda>_.
             bind_result (receipt_raw owned) (\<lambda>record. Inr (owned, record)))))) of
        Inl e \<Rightarrow> refuse L e
      | Inr (owned, record) \<Rightarrow>
          (let did = rc_delivery_attempt_id owned in
           case dict_get (lg_receipts L) did of
             Some prev \<Rightarrow>
               if prev \<noteq> owned then refuse L (ModelCallError ''conflicting_delivery'')
               else (L, [], Inr False)
           | None \<Rightarrow>
               (case dict_get (lg_intents L) did of
                  None \<Rightarrow> refuse L (ModelCallError ''invalid_state'')
                | Some i \<Rightarrow>
                    if did \<notin> lg_started L \<or> did \<in> lg_abandoned L
                    then refuse L (ModelCallError ''invalid_state'')
                    else
                      (case bind_result (match_receipt i owned) (\<lambda>_.
                              bind_result (check_sources owned (lg_projections L) (lg_intents L)) (\<lambda>_.
                              bind_result (next_usage owned (lg_total_usage L)) (\<lambda>u.
                              bind_result (next_cost owned (lg_total_cost_usd L)) (\<lambda>c. Inr (u, c))))) of
                         Inl e \<Rightarrow> refuse L e
                       | Inr (u, c) \<Rightarrow>
                           (case settle_budget new_id owned L of
                              (L1, Inl e) \<Rightarrow> refuse L1 e
                            | (L1, Inr _) \<Rightarrow>
                                write_then out ''receipt'' record
                                  (\<lambda>L. L\<lparr>lg_receipts := dict_set did owned (lg_receipts L),
                                         lg_started := lg_started L - {did}\<rparr>) True
                                  (L1\<lparr>lg_total_usage := u, lg_total_cost_usd := c,
                                      lg_has_unknown_usage := lg_has_unknown_usage L1
                                        \<or> rc_usage_status owned = ''unknown''\<rparr>))))))"

definition abandoned_record :: "intent \<Rightarrow> string \<Rightarrow> string \<Rightarrow> json_obj" where
  "abandoned_record i reason status =
     [(''version'', JInt wire_version), (''intent'', JDict (intent_raw i)), (''reason'', JStr reason),
      (''usage_status'', JStr status)]"

definition abandon_budget :: "string \<Rightarrow> string \<Rightarrow> ledger \<Rightarrow> ledger" where
  "abandon_budget new_id did L = (case lg_budget L of
       None \<Rightarrow> L | Some b \<Rightarrow> L\<lparr>lg_budget := Some (register_unresolved_delivery new_id did b)\<rparr>)"

definition ledger_abandon ::
  "json_env \<Rightarrow> persist_outcome \<Rightarrow> string \<Rightarrow> intent \<Rightarrow> string \<Rightarrow> bool \<Rightarrow> ledger
   \<Rightarrow> ledger \<times> model_call_event list \<times> unit result" where
  "ledger_abandon env out new_id i reason not_dispatched L =
     (case bind_result (healthy L) (\<lambda>_. pending_intent i L) of
        Inl e \<Rightarrow> refuse L e
      | Inr owned \<Rightarrow>
          (let did = in_delivery_attempt_id owned in
           if did \<in> lg_abandoned L then refuse L (ModelCallError ''invalid_state'')
           else
             (let status = (if did \<in> lg_started L \<and> \<not> not_dispatched then ''unknown''
                            else ''not_dispatched'');
                  record = abandoned_record owned reason status
              in case copy_model_call_record env (lg_run_id L) ''abandoned'' record
                        (Some (lg_budget_owner_id L)) (JInt wire_version) of
                   Inl e \<Rightarrow> refuse L e
                 | Inr _ \<Rightarrow>
                     write_then out ''abandoned'' record
                       (\<lambda>L. L\<lparr>lg_started := (if status = ''not_dispatched'' then lg_started L - {did}
                                             else lg_started L),
                              lg_abandoned := insert did (lg_abandoned L)\<rparr>) ()
                       (if status = ''unknown''
                        then abandon_budget new_id did (L\<lparr>lg_has_unknown_usage := True\<rparr>)
                        else L))))"

definition record_projection ::
  "json_env \<Rightarrow> persist_outcome \<Rightarrow> json_obj \<Rightarrow> ledger
   \<Rightarrow> ledger \<times> model_call_event list \<times> unit result" where
  "record_projection env out record L =
     (case bind_result (healthy L) (\<lambda>_.
             bind_result (copy_model_call_record env (lg_run_id L) ''projection'' record
                            (Some (lg_budget_owner_id L)) (JInt wire_version)) (\<lambda>owned.
             bind_result (validate_projection_receipts owned (lg_receipts L) (lg_intents L)) (\<lambda>_.
               Inr owned))) of
        Inl e \<Rightarrow> refuse L e
      | Inr owned \<Rightarrow>
          (let key = as_string (raw_field owned ''projection_id'') in
           case dict_get (lg_projections L) key of
             Some p \<Rightarrow> if \<not> same_record p owned then refuse L invalid else (L, [], Inr ())
           | None \<Rightarrow>
               if is_source owned \<and> (delivery_of owned \<in> lg_started L
                                      \<or> delivery_of owned \<in> fst ` set (lg_receipts L))
               then refuse L invalid
               else
                 (case check_projection_conflict owned (lg_projections L) of
                    Inl e \<Rightarrow> refuse L e
                  | Inr _ \<Rightarrow>
                      write_then out ''projection'' owned
                        (\<lambda>L. L\<lparr>lg_projections := dict_set key owned (lg_projections L)\<rparr>) () L)))"

definition consume_auxiliary_receipts :: "ledger \<Rightarrow> ledger \<times> receipt list" where
  "consume_auxiliary_receipts L =
     (let fresh = filter (\<lambda>(did, r). rc_kind r = ''compaction'' \<and> did \<notin> lg_consumed L) (lg_receipts L)
      in (L\<lparr>lg_consumed := lg_consumed L \<union> fst ` set fresh\<rparr>, map snd fresh))"

definition projections_of :: "string \<Rightarrow> ledger \<Rightarrow> json_obj list" where
  "projections_of kind L = filter (\<lambda>p. projection_kind p = JStr kind) (dict_values (lg_projections L))"

definition receipt_for :: "string \<Rightarrow> ledger \<Rightarrow> receipt option" where
  "receipt_for did L = dict_get (lg_receipts L) did"

definition intent_for :: "string \<Rightarrow> ledger \<Rightarrow> intent option" where
  "intent_for did L = dict_get (lg_intents L) did"

section \<open>Recovery from the journal\<close>

record recovery =
  rv_run_id :: string
  rv_owner_id :: string
  rv_owner_bound :: bool
  rv_receipts :: "(string, receipt) dict"
  rv_intents :: "(string, intent) dict"
  rv_started :: "string set"
  rv_abandoned :: "string set"
  rv_consumed :: "string set"
  rv_abandoned_records :: "(string, json_obj) dict"
  rv_projections :: "(string, json_obj) dict"
  rv_late :: "string set"

definition new_recovery :: "string \<Rightarrow> string \<Rightarrow> recovery" where
  "new_recovery run_id owner =
     \<lparr>rv_run_id = run_id, rv_owner_id = owner, rv_owner_bound = False, rv_receipts = [],
      rv_intents = [], rv_started = {}, rv_abandoned = {}, rv_consumed = {},
      rv_abandoned_records = [], rv_projections = [], rv_late = {}\<rparr>"

definition recover_owner :: "string option \<Rightarrow> recovery \<Rightarrow> recovery result" where
  "recover_owner owner rv = (case owner of
       None \<Rightarrow> Inr rv
     | Some o' \<Rightarrow>
         bind_result (string_field False (JStr o')) (\<lambda>_.
           if rv_owner_bound rv \<and> o' \<noteq> rv_owner_id rv then Inl (ModelCallError ''identity_mismatch'')
           else Inr (rv\<lparr>rv_owner_id := o', rv_owner_bound := True\<rparr>)))"

definition recover_receipt :: "json_env \<Rightarrow> json_obj \<Rightarrow> recovery \<Rightarrow> recovery result" where
  "recover_receipt env raw rv =
     bind_result (receipt_from_dict (sha256 env) raw) (\<lambda>receipt.
     bind_result (require_dispatched_receipt receipt) (\<lambda>_.
     (let did = rc_delivery_attempt_id receipt in
      case dict_get (rv_receipts rv) did of
        Some prev \<Rightarrow>
          bind_result (receipt_to_dict (sha256 env) prev) (\<lambda>d.
            if \<not> same_record d raw then Inl (ModelCallError ''conflicting_delivery'')
            else Inr (rv\<lparr>rv_late := insert did (rv_late rv)\<rparr>))
      | None \<Rightarrow>
          if did \<notin> rv_started rv \<or> did \<in> rv_abandoned rv then Inl (ModelCallError ''invalid_state'')
          else (case dict_get (rv_intents rv) did of
              None \<Rightarrow> Inl KeyError
            | Some i \<Rightarrow>
                bind_result (match_receipt i receipt) (\<lambda>_.
                bind_result (check_sources receipt (rv_projections rv) (rv_intents rv)) (\<lambda>_.
                  Inr (rv\<lparr>rv_receipts := dict_set did receipt (rv_receipts rv),
                          rv_late := insert did (rv_late rv)\<rparr>)))))))"

definition recover_abandoned :: "string \<Rightarrow> json_obj \<Rightarrow> recovery \<Rightarrow> recovery result" where
  "recover_abandoned did raw rv =
     (if did \<in> fst ` set (rv_receipts rv) then Inl (ModelCallError ''invalid_state'')
      else if raw_field raw ''usage_status'' = JStr ''unknown'' \<and> did \<notin> rv_started rv then Inl invalid
      else if (case dict_get (rv_abandoned_records rv) did of
                 None \<Rightarrow> False | Some r \<Rightarrow> \<not> same_record r raw)
      then Inl (ModelCallError ''conflicting_delivery'')
      else Inr (rv\<lparr>rv_started := (if raw_field raw ''usage_status'' = JStr ''not_dispatched''
                                  then rv_started rv - {did} else rv_started rv),
                   rv_abandoned := insert did (rv_abandoned rv),
                   rv_abandoned_records := dict_set did raw (rv_abandoned_records rv)\<rparr>))"

definition recover_intent :: "string \<Rightarrow> json_obj \<Rightarrow> recovery \<Rightarrow> recovery result" where
  "recover_intent kind raw rv =
     bind_result (if kind = ''abandoned'' then intent_from_json (raw_field raw ''intent'')
                  else intent_from_dict raw) (\<lambda>i.
     (let did = in_delivery_attempt_id i;
          previous = dict_get (rv_intents rv) did
      in if previous \<noteq> None \<and> previous \<noteq> Some i then Inl (ModelCallError ''conflicting_delivery'')
         else
           bind_result (case dict_get (rv_receipts rv) did of
                          None \<Rightarrow> Inr () | Some r \<Rightarrow> match_receipt i r) (\<lambda>_.
             if kind = ''intent'' then Inr (rv\<lparr>rv_intents := dict_set did i (rv_intents rv)\<rparr>)
             else if previous = None then Inl (ModelCallError ''invalid_state'')
             else
               bind_result
                 (if kind = ''dispatch_started''
                  then (if did \<in> fst ` set (rv_abandoned_records rv)
                        then Inl (ModelCallError ''invalid_state'')
                        else Inr (rv\<lparr>rv_started := insert did (rv_started rv)\<rparr>))
                  else recover_abandoned did raw rv) (\<lambda>rv'.
                 Inr (rv'\<lparr>rv_late := insert did (rv_late rv')\<rparr>)))))"

definition recover_projection :: "json_obj \<Rightarrow> recovery \<Rightarrow> recovery result" where
  "recover_projection raw rv =
     bind_result (validate_projection_receipts raw (rv_receipts rv) (rv_intents rv)) (\<lambda>_.
     (let key = as_string (raw_field raw ''projection_id'');
          known = dict_get (rv_projections rv) key
      in if (case known of None \<Rightarrow> False | Some p \<Rightarrow> \<not> same_record p raw) then Inl invalid
         else if is_source raw \<and> known = None \<and> delivery_of raw \<in> rv_late rv then Inl invalid
         else
           bind_result (check_projection_conflict raw (rv_projections rv)) (\<lambda>_.
             Inr (rv\<lparr>rv_projections := dict_set key raw (rv_projections rv)\<rparr>))))"

definition recover_event :: "json_env \<Rightarrow> model_call_event \<Rightarrow> recovery \<Rightarrow> recovery result" where
  "recover_event env ev rv =
     bind_result (copy_model_call_record env (ev_run_id ev) (ev_record_kind ev) (ev_record ev)
                    (ev_budget_owner_id ev) (ev_schema_version ev)) (\<lambda>raw.
     bind_result (check_run (rv_run_id rv) (ev_run_id ev)) (\<lambda>_.
     bind_result (recover_owner (ev_budget_owner_id ev) rv) (\<lambda>rv1.
       if ev_record_kind ev = ''receipt'' then recover_receipt env raw rv1
       else if ev_record_kind ev \<in> {''intent'', ''dispatch_started'', ''abandoned''}
       then recover_intent (ev_record_kind ev) raw rv1
       else recover_projection raw rv1)))"

fun recover_journal :: "json_env \<Rightarrow> model_call_event list \<Rightarrow> recovery \<Rightarrow> recovery result" where
  "recover_journal env [] rv = Inr rv"
| "recover_journal env (ev # evs) rv = bind_result (recover_event env ev rv) (recover_journal env evs)"

text \<open>\<^verbatim>\<open>_totals\<close>.\<close>

fun receipt_totals :: "receipt list \<Rightarrow> usage \<Rightarrow> pyfloat option \<Rightarrow> (usage \<times> pyfloat option) result" where
  "receipt_totals [] u c = Inr (u, c)"
| "receipt_totals (r # rs) u c =
     (let u' = (case rc_usage r of None \<Rightarrow> u | Some v \<Rightarrow> usage_add u v) in
      case rc_cost_usd r of
        None \<Rightarrow> receipt_totals rs u' c
      | Some d \<Rightarrow>
          (let c' = pf_add (cost_or_zero c) d
           in if is_finite c' then receipt_totals rs u' (Some c') else Inl invalid))"

definition unknown_deliveries :: "recovery \<Rightarrow> string set" where
  "unknown_deliveries rv =
     rc_delivery_attempt_id ` {r \<in> set (dict_values (rv_receipts rv)). rc_usage_status r = ''unknown''}
     \<union> (rv_started rv - fst ` set (rv_receipts rv))"

definition check_consumed :: "recovery \<Rightarrow> string list \<Rightarrow> unit result" where
  "check_consumed rv ids =
     (if \<not> distinct ids then Inl invalid
      else bind_result (map_result (\<lambda>did.
             bind_result (string_field False (JStr did)) (\<lambda>_.
               case dict_get (rv_receipts rv) did of
                 None \<Rightarrow> Inl invalid
               | Some r \<Rightarrow> check_that (rc_kind r = ''compaction''))) ids) (\<lambda>_. Inr ()))"

text \<open>The last part of \<^verbatim>\<open>restore\<close>: adopting the recovered state.\<close>

definition adopt_recovery ::
  "recovery \<Rightarrow> int \<Rightarrow> usage \<Rightarrow> pyfloat option \<Rightarrow> ledger \<Rightarrow> ledger" where
  "adopt_recovery rv count usage cost L =
     L\<lparr>lg_budget_owner_id := rv_owner_id rv, lg_receipts := rv_receipts rv,
       lg_intents := rv_intents rv, lg_started := rv_started rv - fst ` set (rv_receipts rv),
       lg_abandoned := rv_abandoned rv, lg_consumed := rv_consumed rv,
       lg_has_unknown_usage := unknown_deliveries rv \<noteq> {}, lg_total_usage := usage,
       lg_total_cost_usd := cost, lg_journal_count := count, lg_projections := rv_projections rv\<rparr>"

definition ledger_restore ::
  "json_env \<Rightarrow> string \<Rightarrow> model_call_event list \<Rightarrow> string list \<Rightarrow> ledger \<Rightarrow> ledger \<times> unit result" where
  "ledger_restore env new_id journal consumed L =
     (case bind_result (healthy L) (\<lambda>_.
             bind_result (recover_journal env journal
                            (new_recovery (lg_run_id L) (lg_budget_owner_id L))) (\<lambda>rv0.
             bind_result (check_consumed rv0 consumed) (\<lambda>_.
             bind_result (receipt_totals (dict_values (rv_receipts rv0)) usage_zero None) (\<lambda>(u, c).
               Inr (rv0\<lparr>rv_consumed := rv_consumed rv0 \<union> set consumed\<rparr>, u, c))))) of
        Inl e \<Rightarrow> (L, Inl e)
      | Inr (rv, u, c) \<Rightarrow>
          (let adopt = adopt_recovery rv (int (length journal)) u c in
           case lg_budget L of
             None \<Rightarrow> (adopt L, Inr ())
           | Some b \<Rightarrow>
               (case restore_receipts (sha256 env) new_id (rv_owner_id rv)
                       (dict_values (rv_receipts rv)) b of
                  (b1, Inl e) \<Rightarrow> (L\<lparr>lg_budget := Some b1\<rparr>, Inl e)
                | (b1, Inr mode) \<Rightarrow>
                    (case restore_unresolved_deliveries (unknown_deliveries rv)
                            (mode = FreshAdopted) b1 of
                       (b2, Inl e) \<Rightarrow> (L\<lparr>lg_budget := Some b2\<rparr>, Inl e)
                     | (b2, Inr _) \<Rightarrow> (adopt (L\<lparr>lg_budget := Some b2\<rparr>), Inr ())))))"

end
