(* ===== verification/Ledger_Recovery.thy ===== *)
theory Ledger_Recovery
  imports Ledger
begin

text \<open>
  The ledger against its journal: every history of ledger operations leaves a journal that
  \<^verbatim>\<open>restore\<close> accepts, and restoring it gives the accounting state back. The journal is what the
  persistence callback stored, also when its outcome was ambiguous; the simulation between a
  ledger and the recovery of its journal is kept by every operation.
\<close>

section \<open>Codecs of the records a ledger writes\<close>

lemma versioned_intent_raw [simp]: "versioned (intent_raw i) intent_fields = Inr ()"
  by (auto simp: versioned_def intent_raw_def intent_fields_def require_wire_version_def check_that_def)

lemma intent_decode_encode:
  assumes "intent_from_dict (intent_raw i) = Inr j"
  shows "j = i"
proof -
  have fields: "raw_field (intent_raw i) ''logical_call_id'' = JStr (in_logical_call_id i)"
    "raw_field (intent_raw i) ''delivery_attempt_id'' = JStr (in_delivery_attempt_id i)"
    "raw_field (intent_raw i) ''parent_logical_call_id'' = json_opt_string (in_parent_logical_call_id i)"
    "raw_field (intent_raw i) ''kind'' = JStr (in_kind i)"
    "raw_field (intent_raw i) ''run_id'' = JStr (in_run_id i)"
    "raw_field (intent_raw i) ''turn_index'' = json_opt_int (in_turn_index i)"
    "raw_field (intent_raw i) ''requested_model'' = JStr (in_requested_model i)"
    "raw_field (intent_raw i) ''request_fingerprint'' = JStr (in_request_fingerprint i)"
    "raw_field (intent_raw i) ''strategy_id'' = json_opt_string (in_strategy_id i)"
    by (simp_all add: intent_raw_def raw_field_def)
  from assms show ?thesis
    unfolding intent_from_dict_def fields
    by (auto simp: bind_result_Inr_iff as_string_JStr_iff optional_string_json intro: intent.equality)
qed

lemma journal_intent_raw [simp]: "journal_json n (JDict (intent_raw i)) \<longleftrightarrow> n \<le> 64"
  by (auto simp: intent_raw_def json_opt_string_def json_opt_int_def split: option.splits)

lemma copy_intent_raw [simp]: "copy_json_object (intent_raw i) = Inr (intent_raw i)"
  by (simp only: copy_json_object_def journal_intent_raw) simp

lemma journal_receipt_raw:
  assumes "receipt_raw r = Inr raw" and "receipt_from_dict sha raw = Inr r'"
  shows "copy_json_object raw = Inr raw"
proof -
  from assms(1) obtain u where u: "(case rc_usage r of None \<Rightarrow> Inr JNull | Some x \<Rightarrow> usage_dict x) = Inr u"
    and raw: "raw = [(''version'', JInt wire_version),
            (''logical_call_id'', JStr (rc_logical_call_id r)),
            (''delivery_attempt_id'', JStr (rc_delivery_attempt_id r)),
            (''kind'', JStr (rc_kind r)), (''run_id'', JStr (rc_run_id r)),
            (''turn_index'', json_opt_int (rc_turn_index r)),
            (''actual_model'', JStr (rc_actual_model r)),
            (''usage_status'', JStr (rc_usage_status r)), (''usage'', u),
            (''cost_usd'', json_opt_float (rc_cost_usd r)),
            (''disposition'', JStr (rc_disposition r)),
            (''rejection_reason'', json_opt_string (rc_rejection_reason r)),
            (''accepted_text'', json_opt_string (rc_accepted_text r)),
            (''accepted_text_sha256'', json_opt_string (rc_accepted_text_sha256 r)),
            (''duration_ms'', JInt (rc_duration_ms r)),
            (''request_fingerprint'', JStr (rc_request_fingerprint r)),
            (''strategy_id'', json_opt_string (rc_strategy_id r)),
            (''source_context_fingerprint'', json_opt_string (rc_source_context_fingerprint r))]"
    by (auto simp: receipt_raw_def bind_result_Inr_iff)
  have usage: "journal_json 1 u"
    using u by (auto simp: usage_dict_def bind_result_Inr_iff split: option.splits)
  have field: "raw_field raw ''cost_usd'' = json_opt_float (rc_cost_usd r)"
    unfolding raw by (simp add: raw_field_def)
  from assms(2) have "\<exists>c. cost_field (json_opt_float (rc_cost_usd r)) = Inr c"
    by (rule receipt_from_dict_InrE) (auto simp: field)
  then have "journal_json 1 (json_opt_float (rc_cost_usd r))"
    by (cases "rc_cost_usd r") (auto simp: json_opt_float_def finite_nonneg_def cost_field_def split: if_splits)
  with usage show ?thesis
    unfolding copy_json_object_def raw
    by (simp add: json_opt_string_def json_opt_int_def split: option.split)
qed

section \<open>Histories\<close>

text \<open>
  The ledger of one run with the journal written so far. A lost lease ends the run, so it does
  not occur in between; the other agents of the tree may use the budget at any time. The code
  records a compaction source right after the intent of its delivery, never after abandoning it.
\<close>

definition journaled :: "persist_outcome \<Rightarrow> bool" where
  "journaled out \<longleftrightarrow> out \<notin> {NoCallback, LeaseLost}"

definition budget_good :: "budget option \<Rightarrow> bool" where
  "budget_good bo \<longleftrightarrow> (\<forall>b. bo = Some b \<longrightarrow>
     budget_inv b \<and> (\<forall>own. budget_owner_id b = Some own \<longrightarrow> \<not> blank own))"

inductive ledger_history :: "json_env \<Rightarrow> string \<Rightarrow> ledger \<Rightarrow> model_call_event list \<Rightarrow> bool"
  for env run where
  hist_new: "new_ledger run uuid b = Inr L \<Longrightarrow> \<not> blank uuid \<Longrightarrow> budget_good b \<Longrightarrow>
    ledger_history env run L []"
| hist_begin: "ledger_history env run L J \<Longrightarrow> journaled out \<Longrightarrow> \<not> blank new_id \<Longrightarrow>
    ledger_begin out new_id i L = (L', evs, res) \<Longrightarrow> ledger_history env run L' (J @ evs)"
| hist_dispatch: "ledger_history env run L J \<Longrightarrow> journaled out \<Longrightarrow>
    mark_dispatch_started out i L = (L', evs, res) \<Longrightarrow> ledger_history env run L' (J @ evs)"
| hist_settle: "ledger_history env run L J \<Longrightarrow> journaled out \<Longrightarrow> \<not> blank new_id \<Longrightarrow>
    ledger_settle env out new_id r L = (L', evs, fresh) \<Longrightarrow> ledger_history env run L' (J @ evs)"
| hist_abandon: "ledger_history env run L J \<Longrightarrow> journaled out \<Longrightarrow> \<not> blank new_id \<Longrightarrow>
    ledger_abandon env out new_id i reason nd L = (L', evs, res) \<Longrightarrow> ledger_history env run L' (J @ evs)"
| hist_projection: "ledger_history env run L J \<Longrightarrow> journaled out \<Longrightarrow>
    (is_source p \<Longrightarrow> delivery_of p \<notin> lg_abandoned L) \<Longrightarrow>
    record_projection env out p L = (L', evs, res) \<Longrightarrow> ledger_history env run L' (J @ evs)"
| hist_consume: "ledger_history env run L J \<Longrightarrow>
    ledger_history env run (fst (consume_auxiliary_receipts L)) J"
| hist_budget: "ledger_history env run L J \<Longrightarrow> lg_budget L = Some b \<Longrightarrow> budget_step b b' \<Longrightarrow>
    budget_good (Some b') \<Longrightarrow> ledger_history env run (L\<lparr>lg_budget := Some b'\<rparr>) J"

section \<open>The simulation\<close>

text \<open>The accounting state and what of it the journal determines.\<close>

definition owner_agrees :: "ledger \<Rightarrow> recovery \<Rightarrow> bool" where
  "owner_agrees L rv \<longleftrightarrow>
     (if lg_intents L = [] then \<not> rv_owner_bound rv
      else rv_owner_bound rv \<and> rv_owner_id rv = lg_budget_owner_id L
         \<and> (\<forall>b. lg_budget L = Some b \<longrightarrow> budget_owner_id b = Some (lg_budget_owner_id L)))"

definition ledger_ok :: "json_env \<Rightarrow> ledger \<Rightarrow> bool" where
  "ledger_ok env L \<longleftrightarrow>
     \<not> blank (lg_run_id L) \<and> \<not> blank (lg_budget_owner_id L) \<and> budget_good (lg_budget L)
   \<and> dict_ok (lg_receipts L)
   \<and> (\<forall>(d, i) \<in> set (lg_intents L). in_run_id i = lg_run_id L)
   \<and> lg_started L \<inter> fst ` set (lg_receipts L) = {} \<and> lg_abandoned L \<inter> fst ` set (lg_receipts L) = {}
   \<and> lg_started L \<union> lg_abandoned L \<union> fst ` set (lg_receipts L) \<subseteq> fst ` set (lg_intents L)
   \<and> (\<forall>(d, r) \<in> set (lg_receipts L). rc_delivery_attempt_id r = d
        \<and> (\<exists>raw. receipt_to_dict (sha256 env) r = Inr raw))
   \<and> receipt_totals (dict_values (lg_receipts L)) usage_zero None
       = Inr (lg_total_usage L, lg_total_cost_usd L)
   \<and> (lg_has_unknown_usage L \<longleftrightarrow>
        (\<exists>(d, r) \<in> set (lg_receipts L). rc_usage_status r = ''unknown'')
        \<or> lg_started L \<inter> lg_abandoned L \<noteq> {})"

definition recovered :: "ledger \<Rightarrow> recovery \<Rightarrow> bool" where
  "recovered L rv \<longleftrightarrow>
     rv_run_id rv = lg_run_id L \<and> owner_agrees L rv
   \<and> rv_receipts rv = lg_receipts L \<and> rv_intents rv = lg_intents L
   \<and> rv_projections rv = lg_projections L \<and> rv_abandoned rv = lg_abandoned L
   \<and> rv_started rv = lg_started L \<union> fst ` set (lg_receipts L)
   \<and> fst ` set (rv_abandoned_records rv) = lg_abandoned L
   \<and> rv_late rv \<subseteq> lg_started L \<union> lg_abandoned L \<union> fst ` set (lg_receipts L)
   \<and> lg_abandoned L \<subseteq> rv_late rv
   \<and> rv_consumed rv = {}"

definition sim :: "json_env \<Rightarrow> ledger \<Rightarrow> recovery \<Rightarrow> bool" where
  "sim env L rv \<longleftrightarrow> ledger_ok env L \<and> recovered L rv"

lemma recover_journal_append:
  "recover_journal env (xs @ ys) rv = bind_result (recover_journal env xs rv) (recover_journal env ys)"
proof (induction xs arbitrary: rv)
  case (Cons x xs)
  then show ?case by (cases "recover_event env x rv") simp_all
qed simp

text \<open>
  A step keeps the simulation if the events it wrote are accepted. When its journal failed the
  journal may be ahead of the ledger: it then describes the ledger the step would have made.
\<close>

definition receipts_grow :: "ledger \<Rightarrow> ledger \<Rightarrow> bool" where
  "receipts_grow L L' \<longleftrightarrow> (\<exists>rs. lg_receipts L' = lg_receipts L @ rs)"

lemma receipts_grow_same [simp]: "lg_receipts L = lg_receipts L' \<Longrightarrow> receipts_grow L L'"
  by (simp add: receipts_grow_def)

lemma receipts_grow_trans: "receipts_grow L L' \<Longrightarrow> receipts_grow L' L'' \<Longrightarrow> receipts_grow L L''"
  by (auto simp: receipts_grow_def)

definition keeps_sim ::
  "json_env \<Rightarrow> ledger \<Rightarrow> recovery \<Rightarrow> ledger \<times> model_call_event list \<times> 'a result \<Rightarrow> bool" where
  "keeps_sim env L rv step \<longleftrightarrow> (case step of (L', evs, _) \<Rightarrow>
     receipts_grow L L' \<and> lg_consumed L' = lg_consumed L
   \<and> (\<exists>rv' L''. recover_journal env evs rv = Inr rv' \<and> sim env L'' rv'
        \<and> (\<not> lg_persistence_failed L' \<longrightarrow> L'' = L') \<and> receipts_grow L' L''))"

lemma keeps_sim_refuse: "sim env L rv \<Longrightarrow> keeps_sim env L rv (refuse L e)"
  by (auto simp: keeps_sim_def)

lemma keeps_sim_quiet: "sim env L rv \<Longrightarrow> keeps_sim env L rv (L, [], r)"
  by (auto simp: keeps_sim_def)

lemma keeps_sim_refuse_budget:
  "sim env L1 rv \<Longrightarrow> L1 = L\<lparr>lg_budget := bo\<rparr> \<Longrightarrow> keeps_sim env L rv (refuse L1 e)"
  by (auto simp: keeps_sim_def)

lemma keeps_sim_write:
  assumes "journaled out" and "recover_event env (ledger_event kind record L) rv = Inr rv'"
    and "sim env (f (L\<lparr>lg_journal_count := lg_journal_count L + 1\<rparr>)) rv'" and "sim env L0 rv"
    and "lg_receipts L = lg_receipts L0" and "lg_consumed L = lg_consumed L0"
    and "receipts_grow L (f (L\<lparr>lg_journal_count := lg_journal_count L + 1\<rparr>))"
    and "lg_consumed (f (L\<lparr>lg_journal_count := lg_journal_count L + 1\<rparr>)) = lg_consumed L"
  shows "keeps_sim env L0 rv (write_then out kind record f r L)"
proof (cases out)
  case (PersistFailed reached)
  with assms show ?thesis
    by (cases reached) (auto simp: keeps_sim_def write_then_def ledger_write_def Let_def receipts_grow_def)
next
  case (PersistCancelled reached)
  with assms show ?thesis
    by (cases reached) (auto simp: keeps_sim_def write_then_def ledger_write_def Let_def receipts_grow_def)
next
  case Persisted
  with assms show ?thesis
    by (auto simp: keeps_sim_def write_then_def ledger_write_def Let_def receipts_grow_def)
qed (use assms in \<open>simp_all add: journaled_def\<close>)

text \<open>A freshly written event is accepted up to its effect.\<close>

definition bound :: "ledger \<Rightarrow> recovery \<Rightarrow> recovery" where
  "bound L rv = rv\<lparr>rv_owner_id := lg_budget_owner_id L, rv_owner_bound := True\<rparr>"

lemma recover_own_event:
  assumes "sim env L rv"
    and "copy_model_call_record env (lg_run_id L) kind record (Some (lg_budget_owner_id L)) (JInt wire_version)
           = Inr record"
  shows "recover_event env (ledger_event kind record L) rv =
     (if kind = ''receipt'' then recover_receipt env record (bound L rv)
      else if kind \<in> {''intent'', ''dispatch_started'', ''abandoned''}
      then recover_intent kind record (bound L rv)
      else recover_projection record (bound L rv))"
proof -
  have "recover_owner (Some (lg_budget_owner_id L)) rv = Inr (bound L rv)"
    using assms(1)
    by (auto simp: recover_owner_def sim_def recovered_def owner_agrees_def ledger_ok_def bound_def
        string_field_def split: if_splits)
  with assms show ?thesis
    by (simp add: recover_event_def ledger_event_def check_run_def sim_def recovered_def)
qed

lemma recovered_bound:
  "recovered L rv \<Longrightarrow>
     rv_run_id (bound L rv) = lg_run_id L \<and> rv_receipts (bound L rv) = lg_receipts L
   \<and> rv_intents (bound L rv) = lg_intents L \<and> rv_projections (bound L rv) = lg_projections L
   \<and> rv_abandoned (bound L rv) = lg_abandoned L
   \<and> rv_started (bound L rv) = lg_started L \<union> fst ` set (lg_receipts L)
   \<and> fst ` set (rv_abandoned_records (bound L rv)) = lg_abandoned L
   \<and> rv_late (bound L rv) \<subseteq> lg_started L \<union> lg_abandoned L \<union> fst ` set (lg_receipts L)
   \<and> lg_abandoned L \<subseteq> rv_late (bound L rv)
   \<and> rv_consumed (bound L rv) = {} \<and> rv_owner_bound (bound L rv)
   \<and> rv_owner_id (bound L rv) = lg_budget_owner_id L"
  by (simp add: recovered_def bound_def)

lemma copy_ok_intent:
  assumes "ledger_ok env L" and "kind \<in> {''intent'', ''dispatch_started''}"
    and "intent_from_dict (intent_raw i) = Inr i" and "in_run_id i = lg_run_id L"
  shows "copy_model_call_record env (lg_run_id L) kind (intent_raw i)
           (Some (lg_budget_owner_id L)) (JInt wire_version) = Inr (intent_raw i)"
  using assms
  by (auto simp: copy_model_call_record_def require_wire_version_def string_field_def ledger_ok_def
      optional_string_def json_opt_string_def record_kinds_def check_that_def check_run_def)

lemma own_intent_Inr:
  "own_intent i L = Inr owned \<longleftrightarrow>
     owned = i \<and> intent_from_dict (intent_raw i) = Inr i \<and> in_run_id i = lg_run_id L"
  by (auto simp: own_intent_def bind_result_Inr_iff check_run_def dest: intent_decode_encode split: if_splits)

lemma pending_intent_Inr:
  "pending_intent i L = Inr owned \<longleftrightarrow>
     owned = i \<and> intent_from_dict (intent_raw i) = Inr i \<and> in_run_id i = lg_run_id L
   \<and> dict_get (lg_intents L) (in_delivery_attempt_id i) = Some i
   \<and> in_delivery_attempt_id i \<notin> fst ` set (lg_receipts L)"
  by (auto simp: pending_intent_def bind_result_Inr_iff own_intent_Inr split: if_splits)

lemma sim_get_receipt_None:
  "d \<notin> fst ` set (lg_receipts L) \<Longrightarrow> dict_get (lg_receipts L) d = None"
  by (simp add: map_of_eq_None_iff)

section \<open>Every operation keeps the simulation\<close>

lemma receipt_owner_good:
  assumes "budget_good (Some b)" and "\<not> blank new_id"
  shows "budget_good (Some (fst (receipt_owner new_id b))) \<and> \<not> blank (snd (receipt_owner new_id b))
       \<and> budget_owner_id (fst (receipt_owner new_id b)) = Some (snd (receipt_owner new_id b))
       \<and> (\<forall>own. budget_owner_id b = Some own \<longrightarrow> receipt_owner new_id b = (b, own))"
  using assms receipt_owner_inv [of b new_id]
  by (auto simp: budget_good_def receipt_owner_def split: option.splits)

lemma bind_budget_sim:
  assumes "sim env L rv" and "\<not> blank new_id"
  shows "sim env (bind_budget new_id L) rv
       \<and> (\<forall>b. lg_budget (bind_budget new_id L) = Some b \<longrightarrow>
              budget_owner_id b = Some (lg_budget_owner_id (bind_budget new_id L)))"
proof (cases "lg_budget L")
  case None
  with assms show ?thesis by (simp add: bind_budget_def)
next
  case (Some b)
  with assms(1) have good: "budget_good (Some b)" by (simp add: sim_def ledger_ok_def)
  obtain b' own where o': "receipt_owner new_id b = (b', own)" by (cases "receipt_owner new_id b")
  note r = receipt_owner_good [OF good assms(2), unfolded o' fst_conv snd_conv]
  have eq: "bind_budget new_id L = L\<lparr>lg_budget := Some b', lg_budget_owner_id := own\<rparr>"
    using Some o' by (simp add: bind_budget_def)
  have same: "lg_intents L \<noteq> [] \<Longrightarrow> own = lg_budget_owner_id L"
    using assms(1) Some r o' by (auto simp: sim_def recovered_def owner_agrees_def)
  from assms(1) r same show ?thesis
    unfolding eq sim_def by (auto simp: ledger_ok_def recovered_def owner_agrees_def)
qed

lemma budget_good_step:
  assumes "sim env L rv" and "lg_budget L = Some b" and "budget_grows b b'" and "budget_good (Some b')"
  shows "sim env (L\<lparr>lg_budget := Some b'\<rparr>) rv"
  using assms by (auto simp: sim_def ledger_ok_def recovered_def owner_agrees_def budget_grows_def)

lemma begin_sim:
  assumes "sim env L rv" and "journaled out" and "\<not> blank new_id"
  shows "keeps_sim env L rv (ledger_begin out new_id i L)"
proof (cases "bind_result (healthy L) (\<lambda>_. own_intent i L)")
  case (Inl e)
  with assms(1) show ?thesis by (simp add: ledger_begin_def keeps_sim_refuse)
next
  case (Inr owned)
  then have i: "owned = i" "intent_from_dict (intent_raw i) = Inr i" "in_run_id i = lg_run_id L"
    by (auto simp: bind_result_Inr_iff own_intent_Inr)
  let ?did = "in_delivery_attempt_id i" and ?L = "bind_budget new_id L"
  show ?thesis
  proof (cases "?did \<in> fst ` set (lg_intents L) \<or> ?did \<in> fst ` set (lg_receipts L)")
    case True
    with Inr i assms(1) show ?thesis by (simp add: ledger_begin_def keeps_sim_refuse Let_def)
  next
    case False
    note bs = bind_budget_sim [OF assms(1,3)]
    have frame: "lg_intents ?L = lg_intents L" "lg_receipts ?L = lg_receipts L" "lg_run_id ?L = lg_run_id L"
      "lg_consumed ?L = lg_consumed L"
      by (simp_all add: bind_budget_def split: option.split prod.split)
    have ok: "ledger_ok env ?L" and rec: "recovered ?L rv" using bs by (simp_all add: sim_def)
    note b = recovered_bound [OF rec]
    have none: "dict_get (lg_intents L) ?did = None" "dict_get (lg_receipts L) ?did = None"
      using False by (simp_all add: map_of_eq_None_iff)
    let ?rv' = "(bound ?L rv)\<lparr>rv_intents := dict_set ?did i (lg_intents ?L)\<rparr>"
    have ev_ok: "recover_event env (ledger_event ''intent'' (intent_raw i) ?L) rv = Inr ?rv'"
      using recover_own_event [OF bs [THEN conjunct1] copy_ok_intent [OF ok]] i frame b none
      by (simp add: recover_intent_def Let_def)
    let ?f = "\<lambda>L. L\<lparr>lg_intents := dict_set ?did i (lg_intents L)\<rparr>"
    have sim_ok: "sim env (?f (?L\<lparr>lg_journal_count := lg_journal_count ?L + 1\<rparr>)) ?rv'"
    proof -
      have "dict_set ?did i (lg_intents ?L) \<noteq> []" by (cases "lg_intents ?L") auto
      moreover have "dict_set ?did i (lg_intents ?L) = lg_intents ?L @ [(?did, i)]"
        using False frame by (simp add: dict_set_fresh)
      ultimately show ?thesis
        using ok b bs i(3) frame by (auto simp: sim_def ledger_ok_def recovered_def owner_agrees_def)
    qed
    have step: "ledger_begin out new_id i L = write_then out ''intent'' (intent_raw i) ?f () ?L"
      using Inr i(1) False by (simp add: ledger_begin_def Let_def)
    show ?thesis
      unfolding step by (rule keeps_sim_write [OF assms(2) ev_ok _ assms(1)])
        (use sim_ok frame in simp_all)
  qed
qed

lemma sim_intents_bound:
  assumes "sim env L rv" and "dict_get (lg_intents L) d = Some i"
  shows "rv_owner_bound rv \<and> rv_owner_id rv = lg_budget_owner_id L
       \<and> (\<forall>b. lg_budget L = Some b \<longrightarrow> budget_owner_id b = Some (lg_budget_owner_id L)) \<and> bound L rv = rv"
proof -
  have "lg_intents L \<noteq> []" using assms(2) by auto
  with assms(1) show ?thesis by (simp add: sim_def recovered_def owner_agrees_def bound_def)
qed

lemma dispatch_sim:
  assumes "sim env L rv" and "journaled out"
  shows "keeps_sim env L rv (mark_dispatch_started out i L)"
proof (cases "bind_result (healthy L) (\<lambda>_. pending_intent i L)")
  case (Inl e)
  with assms(1) show ?thesis by (simp add: mark_dispatch_started_def keeps_sim_refuse)
next
  case (Inr owned)
  then have i: "owned = i" "intent_from_dict (intent_raw i) = Inr i" "in_run_id i = lg_run_id L"
    "dict_get (lg_intents L) (in_delivery_attempt_id i) = Some i"
    "in_delivery_attempt_id i \<notin> fst ` set (lg_receipts L)"
    by (auto simp: bind_result_Inr_iff pending_intent_Inr)
  let ?did = "in_delivery_attempt_id i"
  show ?thesis
  proof (cases "?did \<in> lg_started L \<or> ?did \<in> lg_abandoned L")
    case True
    with Inr i assms(1) show ?thesis by (simp add: mark_dispatch_started_def keeps_sim_refuse Let_def)
  next
    case False
    have ok: "ledger_ok env L" and rec: "recovered L rv" using assms(1) by (simp_all add: sim_def)
    note b = recovered_bound [OF rec] and bd = sim_intents_bound [OF assms(1) i(4)]
    let ?rv' = "(bound L rv)\<lparr>rv_started := insert ?did (rv_started rv), rv_late := insert ?did (rv_late rv)\<rparr>"
    have ev_ok: "recover_event env (ledger_event ''dispatch_started'' (intent_raw i) L) rv = Inr ?rv'"
      using recover_own_event [OF assms(1) copy_ok_intent [OF ok _ i(2,3)]] i b bd False
        sim_get_receipt_None [OF i(5)]
      by (simp add: recover_intent_def Let_def)
    let ?f = "\<lambda>L. L\<lparr>lg_started := insert ?did (lg_started L)\<rparr>"
    have sim_ok: "sim env (?f (L\<lparr>lg_journal_count := lg_journal_count L + 1\<rparr>)) ?rv'"
      using ok rec bd i False dict_get_keys [OF i(4)]
      by (auto simp: sim_def ledger_ok_def recovered_def owner_agrees_def)
    have step: "mark_dispatch_started out i L = write_then out ''dispatch_started'' (intent_raw i) ?f () L"
      using Inr i(1) False by (simp add: mark_dispatch_started_def Let_def)
    show ?thesis
      unfolding step by (rule keeps_sim_write [OF assms(2) ev_ok _ assms(1)]) (use sim_ok in simp_all)
  qed
qed

lemma abandon_sim:
  assumes "sim env L rv" and "journaled out"  and "\<not> blank new_id"
  shows "keeps_sim env L rv (ledger_abandon env out new_id i reason nd L)"
proof (cases "bind_result (healthy L) (\<lambda>_. pending_intent i L)")
  case (Inl e)
  with assms(1) show ?thesis by (simp add: ledger_abandon_def keeps_sim_refuse)
next
  case (Inr owned)
  then have i: "owned = i" "intent_from_dict (intent_raw i) = Inr i" "in_run_id i = lg_run_id L"
    "dict_get (lg_intents L) (in_delivery_attempt_id i) = Some i"
    "in_delivery_attempt_id i \<notin> fst ` set (lg_receipts L)"
    by (auto simp: bind_result_Inr_iff pending_intent_Inr)
  let ?did = "in_delivery_attempt_id i"
  define status where "status = (if ?did \<in> lg_started L \<and> \<not> nd then ''unknown'' else ''not_dispatched'')"
  let ?rcd = "abandoned_record i reason status"
  let ?copy = "copy_model_call_record env (lg_run_id L) ''abandoned'' ?rcd
    (Some (lg_budget_owner_id L)) (JInt wire_version)"
  show ?thesis
  proof (cases "?did \<in> lg_abandoned L \<or> (\<exists>e. ?copy = Inl e)")
    case True
    with Inr i assms(1) show ?thesis
      by (auto simp: ledger_abandon_def keeps_sim_refuse Let_def status_def [symmetric])
  next
    case False
    then have nab: "?did \<notin> lg_abandoned L" by simp
    obtain r where "?copy = Inr r" using False by (cases ?copy) auto
    moreover from this have "r = ?rcd"
      by (auto simp: copy_model_call_record_def bind_result_Inr_iff copy_json_object_def split: if_splits)
    ultimately have copy: "?copy = Inr ?rcd" by simp
    have ok: "ledger_ok env L" and rec: "recovered L rv" using assms(1) by (simp_all add: sim_def)
    note b = recovered_bound [OF rec] and bd = sim_intents_bound [OF assms(1) i(4)]
    let ?L = "if status = ''unknown'' then abandon_budget new_id ?did (L\<lparr>lg_has_unknown_usage := True\<rparr>) else L"
    have frame: "lg_run_id ?L = lg_run_id L" "lg_budget_owner_id ?L = lg_budget_owner_id L"
      by (simp_all add: abandon_budget_def split: option.split)
    then have ev: "ledger_event ''abandoned'' ?rcd ?L = ledger_event ''abandoned'' ?rcd L"
      by (simp add: ledger_event_def)
    define started where "started = (if status = ''not_dispatched'' then lg_started L - {?did} else lg_started L)"
    let ?rv' = "(bound L rv)\<lparr>rv_started := started \<union> fst ` set (lg_receipts L),
      rv_abandoned := insert ?did (lg_abandoned L),
      rv_abandoned_records := dict_set ?did ?rcd (rv_abandoned_records rv),
      rv_late := insert ?did (rv_late rv)\<rparr>"
    have raw: "raw_field ?rcd ''usage_status'' = JStr status" "raw_field ?rcd ''intent'' = JDict (intent_raw i)"
      by (simp_all add: abandoned_record_def raw_field_def)
    have norec: "dict_get (rv_abandoned_records rv) ?did = None"
      using nab rec by (simp add: recovered_def map_of_eq_None_iff)
    have swap: "lg_started L \<union> fst ` set (lg_receipts L) - {?did} = lg_started L - {?did} \<union> fst ` set (lg_receipts L)"
      using i(5) by blast
    have ev_ok: "recover_event env (ledger_event ''abandoned'' ?rcd ?L) rv = Inr ?rv'"
      unfolding ev
      using recover_own_event [OF assms(1) copy] i b bd nab norec sim_get_receipt_None [OF i(5)] raw rec swap
      by (auto simp: recover_intent_def recover_abandoned_def intent_from_json_def Let_def started_def
          status_def recovered_def split: if_splits)
    let ?f = "\<lambda>L. L\<lparr>lg_started := (if status = ''not_dispatched'' then lg_started L - {?did} else lg_started L),
        lg_abandoned := insert ?did (lg_abandoned L)\<rparr>"
    have sim_ok: "sim env (?f (?L\<lparr>lg_journal_count := lg_journal_count ?L + 1\<rparr>)) ?rv'"
    proof (cases "status = ''unknown''")
      case True
      then have st: "?did \<in> lg_started L" by (simp add: status_def split: if_splits)
      have good: "budget_good (Some (register_unresolved_delivery new_id ?did bu))
          \<and> budget_owner_id (register_unresolved_delivery new_id ?did bu) = Some (lg_budget_owner_id L)"
        if "lg_budget L = Some bu" for bu
        using that bd ok register_inv [of bu new_id ?did] register_grows [of bu new_id ?did]
        by (auto simp: budget_good_def ledger_ok_def budget_grows_def)
      show ?thesis
      proof (cases "lg_budget L")
        case None
        with True st ok rec bd i nab dict_get_keys [OF i(4)] show ?thesis
          by (auto simp: sim_def ledger_ok_def recovered_def owner_agrees_def abandon_budget_def started_def)
      next
        case (Some bu)
        with True st ok rec bd i nab good [OF Some] dict_get_keys [OF i(4)] show ?thesis
          by (auto simp: sim_def ledger_ok_def recovered_def owner_agrees_def abandon_budget_def started_def)
      qed
    next
      case False
      then have "status = ''not_dispatched''" by (simp add: status_def split: if_splits)
      with ok rec bd i nab dict_get_keys [OF i(4)] show ?thesis
        by (auto simp: sim_def ledger_ok_def recovered_def owner_agrees_def started_def)
    qed
    have step: "ledger_abandon env out new_id i reason nd L =
        write_then out ''abandoned'' ?rcd ?f () ?L"
      using Inr i(1) nab copy by (simp add: ledger_abandon_def Let_def status_def [symmetric])
    show ?thesis
      unfolding step by (rule keeps_sim_write [OF assms(2) ev_ok _ assms(1)], rule sim_ok)
        (simp_all add: abandon_budget_def split: option.split)
  qed
qed

lemma settle_budget_sim:
  assumes "sim env L rv" and "dict_get (lg_intents L) d = Some i" and "settle_budget new_id r L = (L1, res)"
  shows "sim env L1 rv \<and> (\<exists>bo. L1 = L\<lparr>lg_budget := bo\<rparr>)"
proof (cases "lg_budget L")
  case None
  with assms show ?thesis by (auto simp: settle_budget_def intro: exI [of _ None])
next
  case (Some b)
  have inv: "budget_inv b" and owner: "budget_owner_id b = Some (lg_budget_owner_id L)"
    and nb: "\<not> blank (lg_budget_owner_id L)"
    using assms(1) Some sim_intents_bound [OF assms(1,2)]
    by (auto simp: sim_def ledger_ok_def budget_good_def)
  have step: "sim env (L\<lparr>lg_budget := Some b'\<rparr>) rv" if "budget_grows b b'" "budget_inv b'" for b'
    using that owner nb by (intro budget_good_step [OF assms(1) Some])
      (auto simp: budget_good_def budget_grows_def)
  note charge = step [OF charge_receipt_grows [OF inv] charge_receipt_inv [OF inv]]
    and register = step [OF register_grows register_inv [OF inv]]
  from assms(3) Some show ?thesis
  proof (cases "rc_usage r")
    case (Some u)
    with \<open>lg_budget L = Some b\<close> assms(3) charge [of new_id "rc_delivery_attempt_id r" u "rc_cost_usd r"]
    show ?thesis by (auto simp: settle_budget_def split: prod.splits sum.splits)
  next
    case None
    with \<open>lg_budget L = Some b\<close> assms(3) register assms(1)
    show ?thesis by (auto simp: settle_budget_def split: if_splits intro: exI [of _ "Some b"])
  qed
qed

lemma receipt_totals_append:
  "receipt_totals (rs @ ss) u c = bind_result (receipt_totals rs u c) (\<lambda>(u, c). receipt_totals ss u c)"
  by (induction rs u c rule: receipt_totals.induct) (simp_all add: Let_def split: option.split)

lemma next_totals:
  assumes "next_usage r u = Inr u'" and "next_cost r c = Inr c'"
  shows "receipt_totals [r] u c = Inr (u', c')"
  using assms
  by (auto simp: next_usage_def next_cost_def checked_cost_def copy_usage_def Let_def finite_nonneg_def
      split: option.splits if_splits)

lemma settled_receipt:
  assumes "receipt_raw r = Inr raw" and "receipt_from_dict sha raw = Inr owned"
  shows "owned = r" and "receipt_to_dict sha r = Inr raw" and "copy_json_object raw = Inr raw"
proof -
  show to: "receipt_to_dict sha r = Inr raw" using assms by (simp add: receipt_to_dict_def)
  with assms receipt_decode_encode show "owned = r" by fastforce
  show "copy_json_object raw = Inr raw" by (rule journal_receipt_raw [OF assms])
qed

lemma copy_ok_receipt:
  assumes "ledger_ok env L" and "receipt_from_dict (sha256 env) raw = Inr r"
    and "copy_json_object raw = Inr raw" and "rc_run_id r = lg_run_id L"
  shows "copy_model_call_record env (lg_run_id L) ''receipt'' raw
           (Some (lg_budget_owner_id L)) (JInt wire_version) = Inr raw"
  using assms
  by (auto simp: copy_model_call_record_def require_wire_version_def string_field_def ledger_ok_def
      optional_string_def json_opt_string_def record_kinds_def check_that_def check_run_def)

lemma settle_event:
  assumes "sim env L rv" and "receipt_from_dict (sha256 env) raw = Inr r" and "copy_json_object raw = Inr raw"
    and "require_dispatched_receipt r = Inr ()"
    and "dict_get (lg_receipts L) (rc_delivery_attempt_id r) = None"
    and "dict_get (lg_intents L) (rc_delivery_attempt_id r) = Some i"
    and "rc_delivery_attempt_id r \<in> lg_started L" and "rc_delivery_attempt_id r \<notin> lg_abandoned L"
    and "match_receipt i r = Inr ()" and "check_sources r (lg_projections L) (lg_intents L) = Inr ()"
  shows "recover_event env (ledger_event ''receipt'' raw L) rv =
     Inr ((bound L rv)\<lparr>rv_receipts := dict_set (rc_delivery_attempt_id r) r (lg_receipts L),
            rv_late := insert (rc_delivery_attempt_id r) (rv_late rv)\<rparr>)"
proof -
  have ok: "ledger_ok env L" and rec: "recovered L rv" using assms(1) by (simp_all add: sim_def)
  have "in_run_id i = lg_run_id L"
    using ok map_of_SomeD [OF assms(6)] by (auto simp: ledger_ok_def)
  with assms(9) have run: "rc_run_id r = lg_run_id L"
    by (simp add: match_receipt_def intent_identity_def receipt_identity_def split: if_splits)
  note b = recovered_bound [OF rec] and bd = sim_intents_bound [OF assms(1,6)]
  show ?thesis
    using recover_own_event [OF assms(1) copy_ok_receipt [OF ok assms(2,3) run]] assms b bd
    by (simp add: recover_receipt_def Let_def)
qed

lemma settle_totals:
  assumes "ledger_ok env L" and "dict_get (lg_receipts L) (rc_delivery_attempt_id r) = None"
    and "next_usage r (lg_total_usage L) = Inr u" and "next_cost r (lg_total_cost_usd L) = Inr c"
  shows "receipt_totals (dict_values (dict_set (rc_delivery_attempt_id r) r (lg_receipts L))) usage_zero None
         = Inr (u, c)"
proof -
  have "dict_set (rc_delivery_attempt_id r) r (lg_receipts L)
      = lg_receipts L @ [(rc_delivery_attempt_id r, r)]"
    using assms(2) by (simp add: dict_set_fresh map_of_eq_None_iff)
  with assms(1) next_totals [OF assms(3,4)] show ?thesis
    by (simp add: receipt_totals_append ledger_ok_def del: receipt_totals.simps)
qed

lemma settled_ledger_ok:
  assumes "ledger_ok env L" and "rc_delivery_attempt_id r \<notin> fst ` set (lg_receipts L)"
    and "rc_delivery_attempt_id r \<in> fst ` set (lg_intents L)" and "rc_delivery_attempt_id r \<notin> lg_abandoned L"
    and "receipt_to_dict (sha256 env) r = Inr raw"
    and "receipt_totals (dict_values (lg_receipts L @ [(rc_delivery_attempt_id r, r)])) usage_zero None = Inr (u, c)"
  shows "ledger_ok env (L\<lparr>lg_total_usage := u, lg_total_cost_usd := c,
      lg_has_unknown_usage := lg_has_unknown_usage L \<or> rc_usage_status r = ''unknown'',
      lg_journal_count := n, lg_receipts := lg_receipts L @ [(rc_delivery_attempt_id r, r)],
      lg_started := lg_started L - {rc_delivery_attempt_id r}\<rparr>)"
proof -
  let ?d = "rc_delivery_attempt_id r" and ?R = "lg_receipts L"
  note ok = assms(1) [unfolded ledger_ok_def]
  from ok have base: "\<not> blank (lg_run_id L)" "\<not> blank (lg_budget_owner_id L)" "budget_good (lg_budget L)"
      "dict_ok ?R" "\<forall>(d, i) \<in> set (lg_intents L). in_run_id i = lg_run_id L"
    and sets: "lg_started L \<inter> fst ` set ?R = {}" "lg_abandoned L \<inter> fst ` set ?R = {}"
      "lg_started L \<union> lg_abandoned L \<union> fst ` set ?R \<subseteq> fst ` set (lg_intents L)"
    and each: "\<forall>(d, r) \<in> set ?R. rc_delivery_attempt_id r = d
        \<and> (\<exists>raw. receipt_to_dict (sha256 env) r = Inr raw)"
    and flag: "lg_has_unknown_usage L \<longleftrightarrow> (\<exists>(d, r) \<in> set ?R. rc_usage_status r = ''unknown'')
        \<or> lg_started L \<inter> lg_abandoned L \<noteq> {}"
    by - (elim conjE, assumption)+
  have sets': "(lg_started L - {?d}) \<inter> fst ` set (?R @ [(?d, r)]) = {}"
      "lg_abandoned L \<inter> fst ` set (?R @ [(?d, r)]) = {}"
      "(lg_started L - {?d}) \<union> lg_abandoned L \<union> fst ` set (?R @ [(?d, r)]) \<subseteq> fst ` set (lg_intents L)"
    using sets assms(3,4) by auto
  have each': "\<forall>(d, r) \<in> set (?R @ [(?d, r)]). rc_delivery_attempt_id r = d
        \<and> (\<exists>raw. receipt_to_dict (sha256 env) r = Inr raw)"
    using each assms(5) by simp
  have flag': "(lg_has_unknown_usage L \<or> rc_usage_status r = ''unknown'') \<longleftrightarrow>
        (\<exists>(d, r) \<in> set (?R @ [(?d, r)]). rc_usage_status r = ''unknown'')
        \<or> (lg_started L - {?d}) \<inter> lg_abandoned L \<noteq> {}"
    unfolding flag using assms(4) by auto
  have keys: "dict_ok (?R @ [(?d, r)])" using base(4) assms(2) by simp
  show ?thesis
    unfolding ledger_ok_def
    by (intro conjI) (use base(1) in simp, use base(2) in simp, use base(3) in simp, use keys in simp,
        use base(5) in simp, use sets'(1) in simp, use sets'(2) in simp, use sets'(3) in simp,
        use each' in simp, use assms(6) in simp, use flag' in simp)
qed

lemma settle_sim:
  assumes "sim env L rv" and "journaled out"  and "\<not> blank new_id"
  shows "keeps_sim env L rv (ledger_settle env out new_id r L)"
proof (cases "bind_result (healthy L) (\<lambda>_.
             bind_result (receipt_raw r) (\<lambda>raw.
             bind_result (receipt_from_dict (sha256 env) raw) (\<lambda>owned.
             bind_result (require_dispatched_receipt owned) (\<lambda>_.
             bind_result (receipt_raw owned) (\<lambda>record. Inr (owned, record))))))")
  case (Inl e)
  with assms(1) show ?thesis by (simp add: ledger_settle_def keeps_sim_refuse)
next
  case (Inr pair)
  then obtain raw owned where raw0: "receipt_raw r = Inr raw" "receipt_from_dict (sha256 env) raw = Inr owned"
    "require_dispatched_receipt owned = Inr ()" by (auto simp: bind_result_Inr_iff)
  note sr = settled_receipt [OF raw0(1,2)]
  have pair: "pair = (r, raw)" using Inr raw0 sr(1) by (auto simp: bind_result_Inr_iff)
  let ?did = "rc_delivery_attempt_id r"
  let ?sums = "bind_result (next_usage r (lg_total_usage L)) (\<lambda>u.
     bind_result (next_cost r (lg_total_cost_usd L)) (\<lambda>c. Inr (u, c)))"
  let ?checks = "\<lambda>i. bind_result (match_receipt i r) (\<lambda>_.
     bind_result (check_sources r (lg_projections L) (lg_intents L)) (\<lambda>_. ?sums))"
  note settle = ledger_settle_def [of env out new_id r L, unfolded Inr pair]
  show ?thesis
  proof (cases "\<exists>i u c. dict_get (lg_receipts L) ?did = None \<and> dict_get (lg_intents L) ?did = Some i
      \<and> ?did \<in> lg_started L \<and> ?did \<notin> lg_abandoned L \<and> ?checks i = Inr (u, c)")
    case False
    then consider (known) prev where "dict_get (lg_receipts L) ?did = Some prev"
      | (orphan) "dict_get (lg_receipts L) ?did = None" "dict_get (lg_intents L) ?did = None"
      | (dead) i where "dict_get (lg_receipts L) ?did = None" "dict_get (lg_intents L) ?did = Some i"
          "?did \<notin> lg_started L \<or> ?did \<in> lg_abandoned L"
      | (failed) i e where "dict_get (lg_receipts L) ?did = None" "dict_get (lg_intents L) ?did = Some i"
          "\<not> (?did \<notin> lg_started L \<or> ?did \<in> lg_abandoned L)" "?checks i = Inl e"
    proof (cases "dict_get (lg_receipts L) ?did")
      case None
      then show ?thesis
      proof (cases "dict_get (lg_intents L) ?did")
        case (Some i)
        with None False dead failed show ?thesis by (cases "?checks i") auto
      qed (rule orphan)
    qed (rule known)
    then show ?thesis
    proof cases
      case known
      with assms(1) show ?thesis by (simp add: settle Let_def keeps_sim_refuse keeps_sim_quiet)
    next
      case orphan
      with assms(1) show ?thesis by (simp add: settle Let_def keeps_sim_refuse)
    next
      case dead
      with assms(1) show ?thesis by (simp add: settle Let_def keeps_sim_refuse)
    next
      case failed
      with assms(1) show ?thesis by (simp add: settle Let_def keeps_sim_refuse)
    qed
  next
    case True
    then obtain i u c where new: "dict_get (lg_receipts L) ?did = None" "dict_get (lg_intents L) ?did = Some i"
      and live: "?did \<in> lg_started L" "?did \<notin> lg_abandoned L" and checks: "?checks i = Inr (u, c)"
      by blast
    from checks have ck: "match_receipt i r = Inr ()"
      "check_sources r (lg_projections L) (lg_intents L) = Inr ()"
      and sums: "next_usage r (lg_total_usage L) = Inr u" "next_cost r (lg_total_cost_usd L) = Inr c"
      by (auto simp: bind_result_Inr_iff)
    obtain L1 res where sb: "settle_budget new_id r L = (L1, res)" by (cases "settle_budget new_id r L")
    from settle_budget_sim [OF assms(1) new(2) sb] obtain bo
      where sim1: "sim env L1 rv" and L1: "L1 = L\<lparr>lg_budget := bo\<rparr>" by blast
    show ?thesis
    proof (cases res)
      case (Inl e)
      with new live checks sb keeps_sim_refuse_budget [OF sim1 L1] show ?thesis
        by (simp add: settle Let_def)
    next
      case (Inr x)
      let ?L = "L1\<lparr>lg_total_usage := u, lg_total_cost_usd := c,
        lg_has_unknown_usage := lg_has_unknown_usage L1 \<or> rc_usage_status r = ''unknown''\<rparr>"
      let ?f = "\<lambda>L. L\<lparr>lg_receipts := dict_set ?did r (lg_receipts L), lg_started := lg_started L - {?did}\<rparr>"
      let ?rv' = "(bound L rv)\<lparr>rv_receipts := dict_set ?did r (lg_receipts L),
        rv_late := insert ?did (rv_late rv)\<rparr>"
      have step: "ledger_settle env out new_id r L = write_then out ''receipt'' raw ?f True ?L"
        using new live checks sb Inr by (simp add: settle Let_def)
      have "ledger_event ''receipt'' raw ?L = ledger_event ''receipt'' raw L"
        by (simp add: ledger_event_def L1)
      with settle_event [OF assms(1) raw0(2) sr(3) raw0(3)] sr(1) new live ck raw0
      have ev_ok: "recover_event env (ledger_event ''receipt'' raw ?L) rv = Inr ?rv'" by simp
      have ok: "ledger_ok env L1" and rec: "recovered L1 rv" and okL: "ledger_ok env L"
        using sim1 assms(1) by (simp_all add: sim_def)
      note bd = sim_intents_bound [OF assms(1) new(2)] and tot = settle_totals [OF _ new(1) sums]
      have fresh: "dict_set ?did r (lg_receipts L) = lg_receipts L @ [(?did, r)]"
        using new(1) by (simp add: dict_set_fresh map_of_eq_None_iff)
      have sim_ok: "sim env (?f (?L\<lparr>lg_journal_count := lg_journal_count ?L + 1\<rparr>)) ?rv'"
        unfolding sim_def
      proof
        have "ledger_ok env (?L\<lparr>lg_journal_count := lg_journal_count ?L + 1,
            lg_receipts := lg_receipts L1 @ [(?did, r)], lg_started := lg_started L1 - {?did}\<rparr>)"
          by (rule settled_ledger_ok [OF ok _ _ _ sr(2)])
            (use new(1) live(2) dict_get_keys [OF new(2)] tot okL in \<open>simp_all add: L1 fresh map_of_eq_None_iff\<close>)
        then show "ledger_ok env (?f (?L\<lparr>lg_journal_count := lg_journal_count ?L + 1\<rparr>))"
          by (simp add: L1 fresh)
        from rec bd live show "recovered (?f (?L\<lparr>lg_journal_count := lg_journal_count ?L + 1\<rparr>)) ?rv'"
          by (auto simp: recovered_def owner_agrees_def L1)
      qed
      show ?thesis
        unfolding step by (rule keeps_sim_write [OF assms(2) ev_ok _ assms(1)], rule sim_ok)
          (simp_all add: L1 fresh receipts_grow_def)
    qed
  qed
qed

text \<open>A valid projection refers to a delivery the ledger knows.\<close>

lemma compaction_has_source:
  assumes "validate_projection env p = Inr ()" and "projection_kind p \<noteq> JStr ''primary_append''"
    and "\<not> is_source p"
  shows "source_ids p \<noteq> []"
proof -
  from assms have "(case raw_field p ''source_receipt_ids'' of
              JList [i] \<Rightarrow> bind_result (string_field False i) (\<lambda>_. Inr ())
            | _ \<Rightarrow> Inl invalid) = Inr ()"
    by (auto simp: validate_projection_def validate_compaction_projection_def bind_result_Inr_iff
        split: if_splits)
  then show ?thesis
    by (auto simp: source_ids_def split: json.splits list.splits)
qed

lemma projection_needs_intent:
  assumes "validate_projection env p = Inr ()"
    and "validate_projection_receipts p (lg_receipts L) (lg_intents L) = Inr ()" and "ledger_ok env L"
  shows "lg_intents L \<noteq> []"
proof
  assume none: "lg_intents L = []"
  with assms(3) have "lg_receipts L = []" by (simp add: ledger_ok_def)
  with assms(2) none have "projection_kind p \<noteq> JStr ''primary_append''" "\<not> is_source p"
    and paid: "map_result (check_paid_source [] p) (source_ids p) \<noteq> Inl invalid"
    by (auto simp: validate_projection_receipts_def Let_def bind_result_Inr_iff split: if_splits)
  from compaction_has_source [OF assms(1) this(1,2)] paid show False
    by (cases "source_ids p") (simp_all add: check_paid_source_def)
qed

lemma copy_projection:
  assumes "copy_model_call_record env rid ''projection'' p own v = Inr q"
  shows "q = p" and "validate_projection env p = Inr ()"
  using assms
  by (auto simp: copy_model_call_record_def copy_json_object_def bind_result_Inr_iff split: if_splits)

lemma projection_sim:
  assumes "sim env L rv" and "journaled out" and "is_source p \<Longrightarrow> delivery_of p \<notin> lg_abandoned L"
  shows "keeps_sim env L rv (record_projection env out p L)"
proof (cases "bind_result (healthy L) (\<lambda>_.
             bind_result (copy_model_call_record env (lg_run_id L) ''projection'' p
                            (Some (lg_budget_owner_id L)) (JInt wire_version)) (\<lambda>owned.
             bind_result (validate_projection_receipts owned (lg_receipts L) (lg_intents L)) (\<lambda>_.
               Inr owned)))")
  case (Inl e)
  with assms(1) show ?thesis by (simp add: record_projection_def keeps_sim_refuse)
next
  case (Inr owned)
  then have copy: "copy_model_call_record env (lg_run_id L) ''projection'' p
      (Some (lg_budget_owner_id L)) (JInt wire_version) = Inr p" and own: "owned = p"
    and valid: "validate_projection env p = Inr ()"
    and receipts: "validate_projection_receipts p (lg_receipts L) (lg_intents L) = Inr ()"
    by (auto simp: bind_result_Inr_iff dest: copy_projection)
  let ?key = "as_string (raw_field p ''projection_id'')"
  note rp = record_projection_def [of env out p L, unfolded Inr own]
  consider (known) q where "dict_get (lg_projections L) ?key = Some q"
    | (late) "dict_get (lg_projections L) ?key = None"
        "is_source p \<and> (delivery_of p \<in> lg_started L \<or> delivery_of p \<in> fst ` set (lg_receipts L))"
    | (conflict) e where "dict_get (lg_projections L) ?key = None"
        "\<not> (is_source p \<and> (delivery_of p \<in> lg_started L \<or> delivery_of p \<in> fst ` set (lg_receipts L)))"
        "check_projection_conflict p (lg_projections L) = Inl e"
    | (new) "dict_get (lg_projections L) ?key = None"
        "\<not> (is_source p \<and> (delivery_of p \<in> lg_started L \<or> delivery_of p \<in> fst ` set (lg_receipts L)))"
        "check_projection_conflict p (lg_projections L) = Inr ()"
    by (cases "check_projection_conflict p (lg_projections L)"; cases "dict_get (lg_projections L) ?key") auto
  then show ?thesis
  proof cases
    case known
    with assms(1) show ?thesis by (simp add: rp Let_def keeps_sim_refuse keeps_sim_quiet)
  next
    case late
    then have "record_projection env out p L = refuse L invalid" by (simp add: rp Let_def)
    with assms(1) show ?thesis by (simp add: keeps_sim_refuse)
  next
    case conflict
    then have "record_projection env out p L = refuse L e" by (auto simp: rp Let_def)
    with assms(1) show ?thesis by (simp add: keeps_sim_refuse)
  next
    case new
    have ok: "ledger_ok env L" and rec: "recovered L rv" using assms(1) by (simp_all add: sim_def)
    note b = recovered_bound [OF rec] and some = projection_needs_intent [OF valid receipts ok]
    let ?f = "\<lambda>L. L\<lparr>lg_projections := dict_set ?key p (lg_projections L)\<rparr>"
    let ?rv' = "(bound L rv)\<lparr>rv_projections := dict_set ?key p (lg_projections L)\<rparr>"
    have step: "record_projection env out p L = write_then out ''projection'' p ?f () L"
      using new by (auto simp: rp Let_def)
    have "\<not> (is_source p \<and> delivery_of p \<in> rv_late (bound L rv))"
      using new(2) assms(3) b by blast
    then have ev_ok: "recover_event env (ledger_event ''projection'' p L) rv = Inr ?rv'"
      using recover_own_event [OF assms(1) copy] new b receipts
      by (auto simp: recover_projection_def Let_def)
    have sim_ok: "sim env (?f (L\<lparr>lg_journal_count := lg_journal_count L + 1\<rparr>)) ?rv'"
      using ok rec b some by (simp add: sim_def ledger_ok_def recovered_def owner_agrees_def bound_def)
    show ?thesis
      unfolding step by (rule keeps_sim_write [OF assms(2) ev_ok _ assms(1)], rule sim_ok) simp_all
  qed
qed


text \<open>
  The premise of the projection step is needed: a compaction source recorded for an abandoned
  delivery is accepted by \<^verbatim>\<open>record_projection\<close>, which asks only whether the delivery is in flight
  or settled, and refused by the recovery, which asks whether any later phase was journaled.
\<close>

lemma source_after_abandon_unrecoverable:
  assumes "sim env L rv" and "is_source p" and "delivery_of p \<in> lg_abandoned L"
    and "record_projection env Persisted p L = (L', [ev], Inr ())"
  shows "recover_journal env [ev] rv = Inl invalid"
proof -
  let ?key = "as_string (raw_field p ''projection_id'')"
  have ok: "ledger_ok env L" and rec: "recovered L rv" using assms(1) by (simp_all add: sim_def)
  from assms(4) have ev: "ev = ledger_event ''projection'' p L"
    and copy: "copy_model_call_record env (lg_run_id L) ''projection'' p
      (Some (lg_budget_owner_id L)) (JInt wire_version) = Inr p"
    and new: "dict_get (lg_projections L) ?key = None"
    and receipts: "validate_projection_receipts p (lg_receipts L) (lg_intents L) = Inr ()"
    by (auto simp: record_projection_def Let_def bind_result_Inr_iff write_then_def ledger_write_def
        split: sum.splits option.splits if_splits dest: copy_projection)
  have "recover_projection p (bound L rv) = Inl invalid"
    using recovered_bound [OF rec] new receipts assms(2,3)
    by (auto simp: recover_projection_def Let_def)
  then show ?thesis
    unfolding ev using recover_own_event [OF assms(1) copy] by simp
qed

end
