(* ===== verification/Ledger_Restore.thy ===== *)
theory Ledger_Restore
  imports Ledger_Recovery
begin

text \<open>
  Restoring a run. The simulation of \<^verbatim>\<open>Ledger_Recovery\<close> extends to whole histories; the receipts
  recovered from the journal can be adopted by a fresh budget, whose counters then equal the
  totals of the restored ledger.
\<close>

section \<open>Histories are recoverable\<close>










section \<open>Adopting the recovered receipts\<close>










section \<open>Restoring a run\<close>




lemma unknown_deliveries_consumed [simp]:
  "unknown_deliveries (rv\<lparr>rv_consumed := X\<rparr>) = unknown_deliveries rv"
  by (simp add: unknown_deliveries_def)









section \<open>A concrete run\<close>
















end
