(* ===== verification/Tool_Batches.thy ===== *)
theory Tool_Batches
  imports Permission_Engine "HOL-Library.Multiset"
begin

text \<open>
  \<^verbatim>\<open>src/linch/scheduler.py\<close>, how the tool calls of one turn are laid out in batches: which
  calls may run concurrently, which conflict on a resource, and the two packing strategies. The
  loops of the packing are partial functions: they return for a concurrency limit of at least
  one, which is what \<^verbatim>\<open>_max_concurrency\<close> guarantees.
\<close>

section \<open>Resources\<close>

datatype access_mode = ReadAccess | WriteAccess

record resource_access =
  ac_resource :: string
  ac_mode :: access_mode

definition resources_conflict :: "resource_access list \<Rightarrow> resource_access list \<Rightarrow> bool" where
  "resources_conflict left right =
     list_ex (\<lambda>a. list_ex (\<lambda>b. ac_resource a = ac_resource b
                              \<and> (ac_mode a = WriteAccess \<or> ac_mode b = WriteAccess)) right) left"

section \<open>Packing\<close>

record 'c pending_item =
  pi_call :: 'c
  pi_idx :: nat
  pi_decision :: permission_decision
  pi_resources :: "resource_access list"
  pi_parallel :: bool

record 'c batch =
  ba_parallel :: bool
  ba_calls :: "('c \<times> nat \<times> permission_decision) list"

definition batch_of :: "'c pending_item list \<Rightarrow> 'c batch" where
  "batch_of selected =
     \<lparr>ba_parallel = (1 < length selected),
      ba_calls = map (\<lambda>item. (pi_call item, pi_idx item, pi_decision item)) selected\<rparr>"

text \<open>The inner loop of the greedy packing: it stops at the first call that does not fit.\<close>

fun greedy_select ::
  "int \<Rightarrow> 'c pending_item list \<Rightarrow> resource_access list \<Rightarrow> 'c pending_item list \<Rightarrow> 'c pending_item list" where
  "greedy_select cap selected used [] = selected"
| "greedy_select cap selected used (item # rest) =
     (if cap \<le> int (length selected) then selected
      else if \<not> pi_parallel item then selected
      else if resources_conflict used (pi_resources item) then selected
      else greedy_select cap (selected @ [item]) (used @ pi_resources item) rest)"

partial_function (option) greedy_groups ::
  "int \<Rightarrow> 'c pending_item list \<Rightarrow> 'c pending_item list list option" where
  "greedy_groups cap pending = (case pending of
       [] \<Rightarrow> Some []
     | first # rest \<Rightarrow>
         if \<not> pi_parallel first
         then Option.bind (greedy_groups cap rest) (\<lambda>gs. Some ([first] # gs))
         else (let selected = greedy_select cap [] [] pending in
               Option.bind (greedy_groups cap (drop (length selected) pending)) (\<lambda>gs.
                 Some (selected # gs))))"

text \<open>The inner loop of the maximal packing: a call that does not fit is left for a later batch.\<close>

fun maximal_select ::
  "int \<Rightarrow> 'c pending_item list \<Rightarrow> resource_access list \<Rightarrow> 'c pending_item list \<Rightarrow> 'c pending_item list
   \<Rightarrow> 'c pending_item list \<times> 'c pending_item list" where
  "maximal_select cap selected used leftover [] = (selected, leftover)"
| "maximal_select cap selected used leftover (item # rest) =
     (if cap \<le> int (length selected) \<or> resources_conflict used (pi_resources item)
      then maximal_select cap selected used (leftover @ [item]) rest
      else maximal_select cap (selected @ [item]) (used @ pi_resources item) leftover rest)"

partial_function (option) pack_run ::
  "int \<Rightarrow> 'c pending_item list \<Rightarrow> 'c pending_item list list option" where
  "pack_run cap remaining =
     (if remaining = [] then Some []
      else case maximal_select cap [] [] [] remaining of (selected, leftover) \<Rightarrow>
        Option.bind (pack_run cap leftover) (\<lambda>gs. Some (selected # gs)))"

partial_function (option) maximal_groups ::
  "int \<Rightarrow> 'c pending_item list \<Rightarrow> 'c pending_item list list option" where
  "maximal_groups cap pending = (case pending of
       [] \<Rightarrow> Some []
     | item # rest \<Rightarrow>
         if \<not> pi_parallel item
         then Option.bind (maximal_groups cap rest) (\<lambda>gs. Some ([item] # gs))
         else Option.bind (pack_run cap (takeWhile pi_parallel pending)) (\<lambda>gs.
              Option.bind (maximal_groups cap (dropWhile pi_parallel pending)) (\<lambda>hs. Some (gs @ hs))))"

datatype batching_strategy = Greedy | Maximal

definition batch_groups ::
  "batching_strategy \<Rightarrow> int \<Rightarrow> 'c pending_item list \<Rightarrow> 'c pending_item list list option" where
  "batch_groups strategy cap pending =
     (if strategy = Maximal then maximal_groups cap pending else greedy_groups cap pending)"

definition partition_batches ::
  "batching_strategy \<Rightarrow> int \<Rightarrow> 'c pending_item list \<Rightarrow> 'c batch list option" where
  "partition_batches strategy cap pending = map_option (map batch_of) (batch_groups strategy cap pending)"


section \<open>One batch\<close>

abbreviation items_agree :: "'c pending_item \<Rightarrow> 'c pending_item \<Rightarrow> bool" where
  "items_agree x y \<equiv> \<not> resources_conflict (pi_resources x) (pi_resources y)"

abbreviation used_by :: "'c pending_item list \<Rightarrow> resource_access list" where
  "used_by xs \<equiv> concat (map pi_resources xs)"

lemma conflict_used_by [simp]:
  "resources_conflict (used_by xs) r \<longleftrightarrow> (\<exists>x \<in> set xs. resources_conflict (pi_resources x) r)"
  by (auto simp: resources_conflict_def list_ex_iff)

lemma conflict_Nil [simp]: "\<not> resources_conflict [] r"
  by (simp add: resources_conflict_def)

lemma greedy_select_spec:
  assumes "sorted_wrt items_agree selected" and "int (length selected) \<le> cap"
    and "\<forall>x \<in> set selected. pi_parallel x"
  shows "\<exists>k. greedy_select cap selected (used_by selected) xs = selected @ take k xs
     \<and> k \<le> length xs \<and> int (length selected + k) \<le> cap
     \<and> sorted_wrt items_agree (selected @ take k xs) \<and> (\<forall>x \<in> set (selected @ take k xs). pi_parallel x)"
  using assms
proof (induction xs arbitrary: selected)
  case (Cons x xs)
  show ?case
  proof (cases "cap \<le> int (length selected) \<or> \<not> pi_parallel x
      \<or> resources_conflict (used_by selected) (pi_resources x)")
    case True
    with Cons.prems show ?thesis by (intro exI [of _ 0]) auto
  next
    case False
    with Cons.prems Cons.IH [of "selected @ [x]"] obtain k where
      "greedy_select cap (selected @ [x]) (used_by (selected @ [x])) xs = (selected @ [x]) @ take k xs"
      "k \<le> length xs" "int (length (selected @ [x]) + k) \<le> cap"
      "sorted_wrt items_agree ((selected @ [x]) @ take k xs)"
      "\<forall>x \<in> set ((selected @ [x]) @ take k xs). pi_parallel x"
      by (auto simp: sorted_wrt_append)
    with False show ?thesis by (intro exI [of _ "Suc k"]) auto
  qed
qed simp

lemma maximal_select_spec:
  assumes "sorted_wrt items_agree selected" and "int (length selected) \<le> cap"
    and "maximal_select cap selected (used_by selected) leftover xs = (sel, rest)"
  shows "mset sel + mset rest = mset selected + mset leftover + mset xs
     \<and> sorted_wrt items_agree sel \<and> int (length sel) \<le> cap \<and> length selected \<le> length sel
     \<and> (selected = [] \<longrightarrow> 1 \<le> cap \<longrightarrow> xs \<noteq> [] \<longrightarrow> sel \<noteq> [])"
  using assms
proof (induction xs arbitrary: selected leftover)
  case (Cons x xs)
  show ?case
  proof (cases "cap \<le> int (length selected) \<or> resources_conflict (used_by selected) (pi_resources x)")
    case True
    with Cons.prems Cons.IH [of selected "leftover @ [x]"] show ?thesis by auto
  next
    case False
    with Cons.prems Cons.IH [of "selected @ [x]" leftover] show ?thesis
      by (auto simp: sorted_wrt_append)
  qed
qed simp

section \<open>All batches\<close>

definition good_groups :: "int \<Rightarrow> 'c pending_item list list \<Rightarrow> bool" where
  "good_groups cap gs \<longleftrightarrow> (\<forall>g \<in> set gs. g \<noteq> [] \<and> int (length g) \<le> cap \<and> sorted_wrt items_agree g
     \<and> (1 < length g \<longrightarrow> (\<forall>x \<in> set g. pi_parallel x)))"

lemma good_groups_simps [simp]:
  "good_groups cap []"
  "good_groups cap (g # gs) \<longleftrightarrow> (g \<noteq> [] \<and> int (length g) \<le> cap \<and> sorted_wrt items_agree g
     \<and> (1 < length g \<longrightarrow> (\<forall>x \<in> set g. pi_parallel x))) \<and> good_groups cap gs"
  "good_groups cap (gs @ hs) \<longleftrightarrow> good_groups cap gs \<and> good_groups cap hs"
  by (auto simp: good_groups_def)

lemma greedy_groups_spec:
  assumes "1 \<le> cap"
  shows "\<exists>gs. greedy_groups cap pending = Some gs \<and> concat gs = pending \<and> good_groups cap gs"
proof (induction pending rule: length_induct)
  case (1 pending)
  show ?case
  proof (cases pending)
    case Nil
    then show ?thesis by (simp add: greedy_groups.simps)
  next
    case (Cons x xs)
    show ?thesis
    proof (cases "pi_parallel x")
      case False
      from 1 Cons obtain gs where "greedy_groups cap xs = Some gs" "concat gs = xs" "good_groups cap gs" by auto
      with Cons False assms show ?thesis by (subst greedy_groups.simps) simp
    next
      case True
      let ?sel = "greedy_select cap [] [] pending"
      from greedy_select_spec [of "[]" cap pending] assms obtain k where
        sel: "?sel = take k pending" "k \<le> length pending" "int k \<le> cap" "sorted_wrt items_agree (take k pending)"
          "\<forall>x \<in> set (take k pending). pi_parallel x" by auto
      have "?sel = greedy_select cap [x] (used_by [x]) xs" using Cons True assms by simp
      with greedy_select_spec [of "[x]" cap xs] assms True have "?sel \<noteq> []" by auto
      with sel have k: "0 < k" by auto
      with Cons have "length (drop k pending) < length pending" by simp
      with 1 obtain gs where gs: "greedy_groups cap (drop k pending) = Some gs"
        "concat gs = drop k pending" "good_groups cap gs" by blast
      have "length ?sel = k" using sel by simp
      with gs sel Cons True have "greedy_groups cap pending = Some (take k pending # gs)"
        by (subst greedy_groups.simps) (simp add: Let_def)
      with gs sel k Cons show ?thesis by auto
    qed
  qed
qed

lemma pack_run_spec:
  assumes "1 \<le> cap" and "\<forall>x \<in> set remaining. pi_parallel x"
  shows "\<exists>gs. pack_run cap remaining = Some gs \<and> mset (concat gs) = mset remaining \<and> good_groups cap gs"
  using assms(2)
proof (induction remaining rule: length_induct)
  case (1 remaining)
  show ?case
  proof (cases "remaining = []")
    case True
    then show ?thesis by (simp add: pack_run.simps)
  next
    case False
    obtain sel rest where sel: "maximal_select cap [] [] [] remaining = (sel, rest)" by fastforce
    with maximal_select_spec [of "[]" cap "[]" remaining sel rest] assms(1) False
    have spec: "mset sel + mset rest = mset remaining" "sorted_wrt items_agree sel" "int (length sel) \<le> cap"
      "sel \<noteq> []" by auto
    from spec(1) have len: "length sel + length rest = length remaining" by (metis mset_append size_mset size_union)
    from spec(1) have sets: "set sel \<union> set rest = set remaining" by (metis set_mset_mset set_mset_union)
    from len spec(4) have "length rest < length remaining" by (cases sel) auto
    with 1 sets obtain gs where "pack_run cap rest = Some gs" "mset (concat gs) = mset rest" "good_groups cap gs"
      by blast
    with False sel spec sets 1(2) show ?thesis by (subst pack_run.simps) auto
  qed
qed

lemma maximal_groups_spec:
  assumes "1 \<le> cap"
  shows "\<exists>gs. maximal_groups cap pending = Some gs \<and> mset (concat gs) = mset pending \<and> good_groups cap gs"
proof (induction pending rule: length_induct)
  case (1 pending)
  show ?case
  proof (cases pending)
    case Nil
    then show ?thesis by (simp add: maximal_groups.simps)
  next
    case (Cons x xs)
    show ?thesis
    proof (cases "pi_parallel x")
      case False
      from 1 Cons obtain gs where "maximal_groups cap xs = Some gs" "mset (concat gs) = mset xs" "good_groups cap gs"
        by auto
      with Cons False assms show ?thesis by (subst maximal_groups.simps) simp
    next
      case True
      have "\<forall>x \<in> set (takeWhile pi_parallel pending). pi_parallel x" by (auto dest: set_takeWhileD)
      from pack_run_spec [OF assms this] obtain gs where gs: "pack_run cap (takeWhile pi_parallel pending) = Some gs"
        "mset (concat gs) = mset (takeWhile pi_parallel pending)" "good_groups cap gs" by blast
      have "length (dropWhile pi_parallel pending) < length pending"
        using Cons True by (simp add: le_imp_less_Suc length_dropWhile_le)
      with 1 obtain hs where hs: "maximal_groups cap (dropWhile pi_parallel pending) = Some hs"
        "mset (concat hs) = mset (dropWhile pi_parallel pending)" "good_groups cap hs" by blast
      have "mset (concat (gs @ hs)) = mset pending"
        using gs(2) hs(2) by (metis concat_append mset_append takeWhile_dropWhile_id)
      with gs hs Cons True show ?thesis by (subst maximal_groups.simps) simp
    qed
  qed
qed


lemma batch_groups_spec:
  assumes "1 \<le> cap"
  shows "\<exists>gs. batch_groups strategy cap pending = Some gs \<and> mset (concat gs) = mset pending
     \<and> (strategy = Greedy \<longrightarrow> concat gs = pending) \<and> good_groups cap gs"
  using greedy_groups_spec [OF assms, of pending] maximal_groups_spec [OF assms, of pending]
  by (cases strategy) (auto simp: batch_groups_def)

text \<open>
  C4: Laying out the calls of a turn always ends, for any concurrency limit the configuration
  can give, and gives every call exactly one place; the greedy strategy keeps the order of the
  calls throughout.
\<close>

theorem batches_cover_calls:
  "\<exists>bs. partition_batches strategy (max 1 limit) pending = Some bs
     \<and> mset (concat (map ba_calls bs)) = mset (map (\<lambda>i. (pi_call i, pi_idx i, pi_decision i)) pending)
     \<and> (strategy = Greedy \<longrightarrow>
          concat (map ba_calls bs) = map (\<lambda>i. (pi_call i, pi_idx i, pi_decision i)) pending)"
proof -
  let ?f = "\<lambda>i. (pi_call i, pi_idx i, pi_decision i)"
  obtain gs where gs: "batch_groups strategy (max 1 limit) pending = Some gs"
    "mset (concat gs) = mset pending" "strategy = Greedy \<longrightarrow> concat gs = pending"
    using batch_groups_spec [of "max 1 limit" strategy pending] by auto
  have flat: "concat (map ba_calls (map batch_of gs)) = map ?f (concat gs)"
    by (induction gs) (simp_all add: batch_of_def)
  have "mset (map ?f (concat gs)) = mset (map ?f pending)"
    using gs(2) by (metis mset_map)
  with gs flat show ?thesis by (simp add: partition_batches_def)
qed

text \<open>
  C3: A batch never holds more calls than the limit; a batch that runs concurrently holds only
  calls declared safe to run so, no two of which touch the same resource with one of them
  writing it.
\<close>

theorem batches_are_safe:
  assumes "1 \<le> cap" and "partition_batches strategy cap pending = Some bs" and "b \<in> set bs"
  shows "\<exists>g. b = batch_of g \<and> set g \<subseteq> set pending \<and> 0 < length (ba_calls b) \<and> int (length (ba_calls b)) \<le> cap
     \<and> (ba_parallel b \<longrightarrow> (\<forall>x \<in> set g. pi_parallel x)
          \<and> (\<forall>i < length g. \<forall>j < length g. i \<noteq> j \<longrightarrow>
               (\<forall>a \<in> set (pi_resources (g ! i)). \<forall>c \<in> set (pi_resources (g ! j)).
                  ac_resource a = ac_resource c \<longrightarrow> ac_mode a = ReadAccess \<and> ac_mode c = ReadAccess)))"
proof -
  obtain gs where gs: "batch_groups strategy cap pending = Some gs" "mset (concat gs) = mset pending" "good_groups cap gs"
    using batch_groups_spec [OF assms(1)] by blast
  with assms(2,3) obtain g where g: "g \<in> set gs" "b = batch_of g" by (auto simp: partition_batches_def)
  from gs(2) have "set (concat gs) = set pending" by (metis set_mset_mset)
  with g have sub: "set g \<subseteq> set pending" by auto
  have calls: "length (ba_calls b) = length g" using g by (simp add: batch_of_def)
  from gs(3) g have good: "g \<noteq> []" "int (length g) \<le> cap" "sorted_wrt items_agree g"
    "1 < length g \<longrightarrow> (\<forall>x \<in> set g. pi_parallel x)" by (auto simp: good_groups_def)
  have agree: "ac_mode a = ReadAccess \<and> ac_mode c = ReadAccess"
    if "i < length g" "j < length g" "i \<noteq> j" "a \<in> set (pi_resources (g ! i))" "c \<in> set (pi_resources (g ! j))"
      "ac_resource a = ac_resource c" for i j a c
  proof -
    have "i < j \<or> j < i" using that by auto
    then have "items_agree (g ! i) (g ! j) \<or> items_agree (g ! j) (g ! i)"
      using good(3) that by (auto simp: sorted_wrt_iff_nth_less)
    with that(4-6) have "ac_mode a \<noteq> WriteAccess \<and> ac_mode c \<noteq> WriteAccess"
      by (auto simp: resources_conflict_def list_ex_iff)
    then show ?thesis by (cases "ac_mode a"; cases "ac_mode c") auto
  qed
  show ?thesis
  proof (intro exI [of _ g] conjI impI ballI allI)
    show "b = batch_of g" by (rule g(2))
    show "set g \<subseteq> set pending" by (rule sub)
    show "0 < length (ba_calls b)" using calls good by simp
    show "int (length (ba_calls b)) \<le> cap" using calls good by simp
  next
    fix x assume "ba_parallel b" "x \<in> set g"
    with good(4) g(2) show "pi_parallel x" by (simp add: batch_of_def)
  qed (use agree in blast)+
qed

section \<open>The strategies agree without conflicts\<close>

lemma greedy_select_free:
  assumes "\<forall>x \<in> set xs \<union> set selected. \<forall>y \<in> set xs. items_agree x y"
  shows "greedy_select cap selected (used_by selected) xs
       = selected @ take (nat cap - length selected) (takeWhile pi_parallel xs)"
  using assms
proof (induction xs arbitrary: selected)
  case (Cons x xs)
  show ?case
  proof (cases "cap \<le> int (length selected) \<or> \<not> pi_parallel x")
    case True
    then show ?thesis by auto
  next
    case False
    then have "nat cap - length selected = Suc (nat cap - length (selected @ [x]))" by auto
    with False Cons.prems Cons.IH [of "selected @ [x]"] show ?thesis by auto
  qed
qed simp

lemma maximal_select_free:
  assumes "\<forall>x \<in> set xs \<union> set selected. \<forall>y \<in> set xs. items_agree x y"
  shows "maximal_select cap selected (used_by selected) leftover xs
       = (selected @ take (nat cap - length selected) xs, leftover @ drop (nat cap - length selected) xs)"
  using assms
proof (induction xs arbitrary: selected leftover)
  case (Cons x xs)
  show ?case
  proof (cases "cap \<le> int (length selected)")
    case True
    then have "nat cap - length selected = 0" by auto
    with True Cons.prems Cons.IH [of selected "leftover @ [x]"] show ?thesis by auto
  next
    case False
    then have "nat cap - length selected = Suc (nat cap - length (selected @ [x]))" by auto
    with False Cons.prems Cons.IH [of "selected @ [x]" leftover] show ?thesis by auto
  qed
qed simp

lemma greedy_select_stop:
  "rest = [] \<or> \<not> pi_parallel (hd rest) \<Longrightarrow>
     greedy_select cap selected used (run @ rest) = greedy_select cap selected used run"
proof (induction run arbitrary: selected used)
  case Nil
  then show ?case by (cases rest) auto
qed auto

lemma greedy_run:
  assumes "1 \<le> cap" and "\<forall>x \<in> set run. pi_parallel x" and "rest = [] \<or> \<not> pi_parallel (hd rest)"
    and "\<forall>x \<in> set run. \<forall>y \<in> set run. items_agree x y"
    and "pack_run cap run = Some gs" and "greedy_groups cap rest = Some hs"
  shows "greedy_groups cap (run @ rest) = Some (gs @ hs)"
  using assms(2,4,5)
proof (induction run arbitrary: gs rule: length_induct)
  case (1 run)
  show ?case
  proof (cases run)
    case Nil
    with 1 assms(6) show ?thesis by (simp add: pack_run.simps)
  next
    case (Cons x xs)
    have tw: "takeWhile pi_parallel (run @ rest) = run"
      using 1(2) assms(3) by (cases rest) (auto simp: takeWhile_append)
    have agree: "\<forall>x \<in> set run. \<forall>y \<in> set run. items_agree x y" by (rule 1(3))
    obtain k where k: "nat cap = Suc k" using assms(1) by (cases "nat cap") auto
    have "maximal_select cap [] [] [] run = (take (nat cap) run, drop (nat cap) run)"
      using maximal_select_free [of run "[]" cap "[]"] agree by simp
    with 1(4) Cons obtain gs' where gs': "pack_run cap (drop (nat cap) run) = Some gs'"
      "gs = take (nat cap) run # gs'"
      by (subst (asm) pack_run.simps) (auto split: Option.bind_splits)
    have "length (drop (nat cap) run) < length run" using Cons k by simp
    moreover have "\<forall>x \<in> set (drop (nat cap) run). pi_parallel x"
      "\<forall>x \<in> set (drop (nat cap) run). \<forall>y \<in> set (drop (nat cap) run). items_agree x y"
      using 1(2,3) by (auto dest!: in_set_dropD)
    ultimately have IH: "greedy_groups cap (drop (nat cap) run @ rest) = Some (gs' @ hs)"
      using 1(1) gs'(1) by blast
    have all: "takeWhile pi_parallel run = run" using 1(2) by (simp add: takeWhile_eq_all_conv)
    have "greedy_select cap [] [] run = take (nat cap) (takeWhile pi_parallel run)"
      using greedy_select_free [of run "[]" cap] agree by simp
    with all greedy_select_stop [OF assms(3)] have sel: "greedy_select cap [] [] (run @ rest) = take (nat cap) run"
      by metis
    have "drop (length (take (nat cap) run)) (run @ rest) = drop (nat cap) run @ rest"
      by (cases "length run \<le> nat cap") simp_all
    with sel IH Cons 1(2) gs'(2) show ?thesis
      by (subst greedy_groups.simps) (simp add: Let_def)
  qed
qed


text \<open>
  When no two concurrency-safe calls of the turn conflict, the two strategies lay out the
  turn identically, as the documentation of the maximal strategy says.
\<close>

lemma strategies_agree:
  assumes "1 \<le> cap" and "\<forall>x \<in> set pending. \<forall>y \<in> set pending. pi_parallel x \<longrightarrow> pi_parallel y \<longrightarrow>
      \<not> resources_conflict (pi_resources x) (pi_resources y)"
  shows "partition_batches Maximal cap pending = partition_batches Greedy cap pending"
proof -
  have "maximal_groups cap pending = greedy_groups cap pending"
    using assms(2)
  proof (induction pending rule: length_induct)
    case (1 pending)
    show ?case
    proof (cases pending)
      case Nil
      then show ?thesis by (simp add: maximal_groups.simps greedy_groups.simps)
    next
      case (Cons x xs)
      show ?thesis
      proof (cases "pi_parallel x")
        case False
        with 1 Cons have "maximal_groups cap xs = greedy_groups cap xs" by auto
        with Cons False show ?thesis by (subst maximal_groups.simps, subst greedy_groups.simps) simp
      next
        case True
        let ?run = "takeWhile pi_parallel pending" and ?rest = "dropWhile pi_parallel pending"
        have par: "\<forall>x \<in> set ?run. pi_parallel x" by (auto dest: set_takeWhileD)
        have agree: "\<forall>x \<in> set ?run. \<forall>y \<in> set ?run. items_agree x y"
          using 1(2) by (auto dest!: set_takeWhileD)
        have stop: "?rest = [] \<or> \<not> pi_parallel (hd ?rest)" using hd_dropWhile [of pi_parallel pending] by auto
        from pack_run_spec [OF assms(1) par] obtain gs where gs: "pack_run cap ?run = Some gs" by blast
        from greedy_groups_spec [OF assms(1)] obtain hs where hs: "greedy_groups cap ?rest = Some hs" by blast
        have "length ?rest < length pending" using Cons True by (simp add: le_imp_less_Suc length_dropWhile_le)
        moreover have "\<forall>x \<in> set ?rest. \<forall>y \<in> set ?rest. pi_parallel x \<longrightarrow> pi_parallel y \<longrightarrow> items_agree x y"
          using 1(2) by (auto dest!: set_dropWhileD)
        ultimately have "maximal_groups cap ?rest = Some hs" using 1(1) hs by metis
        with gs Cons True have "maximal_groups cap pending = Some (gs @ hs)"
          by (subst maximal_groups.simps) simp
        moreover have "greedy_groups cap (?run @ ?rest) = Some (gs @ hs)"
          by (rule greedy_run [OF assms(1) par stop agree gs hs])
        ultimately show ?thesis by simp
      qed
    qed
  qed
  then show ?thesis by (simp add: partition_batches_def batch_groups_def)
qed

section \<open>Concrete turns\<close>

definition item_example :: "nat \<Rightarrow> (string \<times> access_mode) list \<Rightarrow> unit pending_item" where
  "item_example n accesses =
     \<lparr>pi_call = (), pi_idx = n, pi_decision = bare_decision DAllow,
      pi_resources = map (\<lambda>(r, m). \<lparr>ac_resource = r, ac_mode = m\<rparr>) accesses, pi_parallel = True\<rparr>"

text \<open>
  Maximal packing can run a call before an earlier one it conflicts with: the second call waits
  for the first, and the third, which conflicts with the second only, joins the first batch.
\<close>

lemma maximal_reorders_conflicting_calls:
  defines "a \<equiv> item_example 0 [(''x'', WriteAccess)]"
    and "b \<equiv> item_example 1 [(''x'', WriteAccess), (''y'', ReadAccess)]"
    and "c \<equiv> item_example 2 [(''y'', WriteAccess)]"
  shows "resources_conflict (pi_resources b) (pi_resources c)"
    and "maximal_groups 8 [a, b, c] = Some [[a, c], [b]]"
proof -
  have items: "pi_parallel a" "pi_parallel b" "pi_parallel c"
    "\<not> resources_conflict (pi_resources a) (pi_resources c)" "resources_conflict (pi_resources a) (pi_resources b)"
    by (simp_all add: a_def b_def c_def item_example_def resources_conflict_def)
  show "resources_conflict (pi_resources b) (pi_resources c)"
    by (simp add: b_def c_def item_example_def resources_conflict_def)
  have none: "pack_run 8 [] = Some ([] :: unit pending_item list list)" by (simp add: pack_run.simps)
  have one: "pack_run 8 [b] = Some [[b]]" by (subst pack_run.simps) (simp add: none)
  have "pack_run 8 [a, b, c] = Some [[a, c], [b]]" by (subst pack_run.simps) (simp add: one items)
  then show "maximal_groups 8 [a, b, c] = Some [[a, c], [b]]"
    by (subst maximal_groups.simps) (simp add: items maximal_groups.simps [of 8 "[]"])
qed

text \<open>Two readers of one file share a batch.\<close>

theorem batches_are_safe_witness:
  "\<exists>g. batch_of [item_example 0 [(''f'', ReadAccess)], item_example 1 [(''f'', ReadAccess)]] = batch_of g
     \<and> int (length g) \<le> 2"
proof -
  let ?p = "[item_example 0 [(''f'', ReadAccess)], item_example 1 [(''f'', ReadAccess)]]"
  have "greedy_groups 2 ?p = Some [?p]"
    by (subst greedy_groups.simps)
      (simp add: item_example_def resources_conflict_def greedy_groups.simps [of 2 "[]"])
  then have "partition_batches Greedy 2 ?p = Some [batch_of ?p]"
    by (simp add: partition_batches_def batch_groups_def)
  from batches_are_safe [OF _ this, of "batch_of ?p"] show ?thesis
    by (auto simp: batch_of_def)
qed

text \<open>Two calls in one greedy turn keep their order.\<close>

theorem batches_cover_calls_witness:
  "\<exists>bs. partition_batches Greedy (max 1 2) [item_example 0 [], item_example 1 []] = Some bs
     \<and> map (\<lambda>(c, i, d). i) (concat (map ba_calls bs)) = [0, 1]"
  using batches_cover_calls [of Greedy 2 "[item_example 0 [], item_example 1 []]"]
  by (auto simp: item_example_def)

end
