(* ===== verification/Tool_Calls.thy ===== *)
theory Tool_Calls
  imports Tool_Batches Loop_Guard Decimal Receipts
begin

text \<open>
  \<^verbatim>\<open>src/linch/scheduler.py\<close>, from the tool calls a provider proposed to the calls that run:
  resolution against the registry, the tools offered this turn, the input after the
  \<^verbatim>\<open>PreToolUse\<close> hooks, the two permission passes, and the gate in front of the tool's body.
  Tools, hooks and the host callback are functions given to the model.
\<close>

section \<open>Tools and calls\<close>

datatype parallel_attr = ParallelFlag bool | ParallelFun "json_obj \<Rightarrow> bool option"

datatype resource_item = AccessItem resource_access | DictItem json_obj | OtherItem

datatype resources_outcome =
    ResourcesRaised
  | ResourcesNone
  | ResourcesOne resource_access
  | ResourcesMany "resource_item list"
  | ResourcesOther

text \<open>What the scheduler uses of a tool; \<open>st_validate\<close> raises with a message.\<close>

record sched_tool =
  st_tool :: tool
  st_validate :: "json_obj \<Rightarrow> string + json"
  st_parallel :: parallel_attr
  st_resources :: "(json_obj \<Rightarrow> resources_outcome) option"
  st_retryable :: bool

record resolved_call =
  sc_id :: string
  sc_block_name :: string
  sc_tool :: "sched_tool option"
  sc_input :: json_obj
  sc_summary :: string
  sc_immediate_error :: bool
  sc_error_reason :: "string option"
  sc_principal :: "principal option"

definition quoted :: "string \<Rightarrow> string" where
  "quoted s = CHR 0x27 # s @ [CHR 0x27]"

definition failed_call ::
  "string \<Rightarrow> string \<Rightarrow> sched_tool option \<Rightarrow> json_obj \<Rightarrow> string \<Rightarrow> string \<Rightarrow> resolved_call" where
  "failed_call i name t inp why reason =
     \<lparr>sc_id = i, sc_block_name = name, sc_tool = t, sc_input = inp, sc_summary = name @ why,
      sc_immediate_error = True, sc_error_reason = Some reason, sc_principal = None\<rparr>"

definition resolve_call ::
  "(json \<Rightarrow> string) \<Rightarrow> (string \<Rightarrow> sched_tool option) \<Rightarrow> string \<Rightarrow> string \<Rightarrow> json_obj \<Rightarrow> string option
   \<Rightarrow> resolved_call" where
  "resolve_call str_of tools i name inp error_reason =
     (if error_reason \<notin> {None, Some []}
      then failed_call i name None inp ''(unavailable)'' (the error_reason)
      else if (case dict_get inp ''__invalid_json'' of None \<Rightarrow> False | Some v \<Rightarrow> truthy v)
      then failed_call i name None inp ''(invalid JSON)''
             (''Tool input was not valid JSON: ''
                @ (case dict_get inp ''raw'' of None \<Rightarrow> [] | Some v \<Rightarrow> str_of v))
      else case tools name of
        None \<Rightarrow> failed_call i name None inp ''(unknown)''
                  (''Tool '' @ quoted name @ '' is not registered'')
      | Some t \<Rightarrow>
          (case st_validate t inp of
             Inl msg \<Rightarrow> failed_call i name (Some t) inp ''(invalid input)'' msg
           | Inr (JDict validated) \<Rightarrow>
               \<lparr>sc_id = i, sc_block_name = name, sc_tool = Some t, sc_input = validated,
                sc_summary = (case tl_summarize (st_tool t) validated of
                    Some s \<Rightarrow> s | None \<Rightarrow> name @ ''(...)''),
                sc_immediate_error = False, sc_error_reason = None, sc_principal = None\<rparr>
           | Inr _ \<Rightarrow> failed_call i name (Some t) inp ''(invalid input)''
                       ''tool.validate() must return a dict''))"

definition call_name :: "resolved_call \<Rightarrow> string" where
  "call_name call = (case sc_tool call of Some t \<Rightarrow> tl_name (st_tool t) | None \<Rightarrow> sc_block_name call)"

definition call_scope :: "resolved_call \<Rightarrow> string" where
  "call_scope call = (case sc_tool call of Some t \<Rightarrow> tl_scope (st_tool t) | None \<Rightarrow> ''exec'')"

definition skill_name_from_input :: "resolved_call \<Rightarrow> json_obj \<Rightarrow> string option" where
  "skill_name_from_input call inp =
     (if sc_immediate_error call then None
      else if sc_tool call = None \<or> call_name call \<noteq> ''Skill'' then None
      else case dict_get inp ''skill'' of
        Some (JStr raw) \<Rightarrow> if blank raw then None
                           else Some (if startswith ''/'' raw then tl raw else raw)
      | _ \<Rightarrow> None)"

definition tool_retryable :: "resolved_call \<Rightarrow> bool" where
  "tool_retryable call =
     ((case sc_tool call of None \<Rightarrow> False | Some t \<Rightarrow> st_retryable t) \<or> call_scope call = ''read'')"

section \<open>Concurrency and resources\<close>

definition tool_parallel :: "resolved_call \<Rightarrow> bool" where
  "tool_parallel call =
     (if sc_immediate_error call then False
      else case sc_tool call of
        None \<Rightarrow> False
      | Some t \<Rightarrow>
          (case st_parallel t of
             ParallelFun f \<Rightarrow> (case f (sc_input call) of Some b \<Rightarrow> b | None \<Rightarrow> False)
           | ParallelFlag b \<Rightarrow> if call_scope call \<noteq> ''read'' then False else b))"

text \<open>One element of the tool's list; testing membership of an unhashable mode raises.\<close>

fun resource_of_item :: "resource_item \<Rightarrow> resource_access list result" where
  "resource_of_item (AccessItem a) = Inr [a]"
| "resource_of_item (DictItem d) = (case dict_get d ''resource'' of
       Some (JStr r) \<Rightarrow>
         (case dict_get d ''mode'' of
            None \<Rightarrow> Inr [\<lparr>ac_resource = r, ac_mode = ReadAccess\<rparr>]
          | Some (JStr m) \<Rightarrow>
              if m = ''read'' then Inr [\<lparr>ac_resource = r, ac_mode = ReadAccess\<rparr>]
              else if m = ''write'' then Inr [\<lparr>ac_resource = r, ac_mode = WriteAccess\<rparr>] else Inr []
          | Some (JList _) \<Rightarrow> Inl TypeError
          | Some (JDict _) \<Rightarrow> Inl TypeError
          | Some _ \<Rightarrow> Inr [])
     | _ \<Rightarrow> Inr [])"
| "resource_of_item OtherItem = Inr []"

definition resource_accesses :: "resolved_call \<Rightarrow> resource_access list result" where
  "resource_accesses call =
     (let own = [\<lparr>ac_resource = ''tool:'' @ call_name call, ac_mode = WriteAccess\<rparr>] in
      if sc_immediate_error call then Inr []
      else case sc_tool call of
        None \<Rightarrow> Inr []
      | Some t \<Rightarrow>
          (case st_resources t of
             None \<Rightarrow> Inr []
           | Some f \<Rightarrow>
               (case f (sc_input call) of
                  ResourcesRaised \<Rightarrow> Inr (if call_scope call = ''read'' then [] else own)
                | ResourcesNone \<Rightarrow> Inr []
                | ResourcesOne a \<Rightarrow> Inr [a]
                | ResourcesOther \<Rightarrow> Inr own
                | ResourcesMany items \<Rightarrow>
                    bind_result (map_result resource_of_item items) (\<lambda>xss. Inr (concat xss)))))"

text \<open>
  The configured limit: \<^verbatim>\<open>int\<close> of it, one if that is no number; an infinite float raises.
\<close>

definition max_concurrency :: "json \<Rightarrow> int result" where
  "max_concurrency raw =
     bind_result
       (case raw of
          JInt n \<Rightarrow> Inr n
        | JBool b \<Rightarrow> Inr (if b then 1 else 0)
        | JStr s \<Rightarrow> (case py_int s of Inr n \<Rightarrow> Inr n | Inl _ \<Rightarrow> Inr 1)
        | JFloat (Fin q) \<Rightarrow> Inr (if 0 \<le> q then \<lfloor>q\<rfloor> else \<lceil>q\<rceil>)
        | JFloat NaN \<Rightarrow> Inr 1
        | JFloat _ \<Rightarrow> Inl OverflowError
        | _ \<Rightarrow> Inr 1)
       (\<lambda>n. Inr (max 1 n))"

definition pending_item_of ::
  "nat \<Rightarrow> resolved_call \<Rightarrow> permission_decision \<Rightarrow> resolved_call pending_item result" where
  "pending_item_of i call d =
     bind_result (resource_accesses call) (\<lambda>rs.
       Inr \<lparr>pi_call = call, pi_idx = i, pi_decision = d, pi_resources = rs,
            pi_parallel = tool_parallel call\<rparr>)"

definition plan_batches ::
  "batching_strategy \<Rightarrow> int \<Rightarrow> resolved_call list \<Rightarrow> permission_decision list
   \<Rightarrow> resolved_call batch list option result" where
  "plan_batches strategy cap calls decisions =
     bind_result (map_result (\<lambda>(i, call, d). pending_item_of i call d)
                    (zip [0..<length calls] (zip calls decisions)))
       (\<lambda>items. Inr (partition_batches strategy cap items))"

section \<open>The tools offered this turn\<close>

definition enforce_availability :: "string list option \<Rightarrow> resolved_call \<Rightarrow> resolved_call" where
  "enforce_availability allowed call = (case allowed of
       None \<Rightarrow> call
     | Some offered \<Rightarrow>
         if sc_immediate_error call \<or> call_name call \<in> set offered then call
         else call\<lparr>sc_immediate_error := True,
                   sc_error_reason := Some (''Tool '' @ quoted (call_name call)
                                            @ '' was not offered for the current turn''),
                   sc_summary := call_name call @ ''(unavailable)''\<rparr>)"


section \<open>The hooks before a call\<close>

text \<open>
  What the chain of \<^verbatim>\<open>PreToolUse\<close> hooks returned for a call; \<open>hr_output\<close> is present if the hooks
  served a result or an output, and \<open>hr_context_input\<close> is the input after all rewrites.
\<close>

record 'p hook_result =
  hr_action :: string
  hr_input :: "json option"
  hr_reason :: "string option"
  hr_feedback :: "string option"
  hr_output :: "'p option"
  hr_context_input :: json

definition or_text :: "string option \<Rightarrow> string \<Rightarrow> string" where
  "or_text v other = (case v of None \<Rightarrow> other | Some s \<Rightarrow> if s = [] then other else s)"

definition pre_tool_use :: "bool \<Rightarrow> 'p hook_result \<Rightarrow> json \<times> string option \<times> 'p option" where
  "pre_tool_use v2 r =
     (let final_input = hr_context_input r;
          why = (\<lambda>default. Some (or_text (hr_reason r) (or_text (hr_feedback r) default)))
      in if hr_action r = ''resolve'' then
           (case hr_output r of
              Some out \<Rightarrow> (final_input, None, Some out)
            | None \<Rightarrow> (final_input, why (if v2 then ''resolve hook returned no tool_output''
                                         else ''resolve hook returned no tool_result''), None))
         else if hr_action r = ''mutate'' \<and> hr_input r \<noteq> None then (the (hr_input r), None, None)
         else if hr_action r \<in> {''block'', ''stop''} then (final_input, why ''Tool call blocked'', None)
         else if hr_action r \<noteq> ''continue'' then
           (final_input, Some (''PreToolUse hook returned unsupported action '' @ quoted (hr_action r)
              @ ''; tool call blocked (supported: continue, mutate, block, stop, resolve)''), None)
         else (final_input, None, None))"

definition canonicalize_hook_input :: "json \<Rightarrow> resolved_call \<Rightarrow> resolved_call \<times> string option" where
  "canonicalize_hook_input inp call = (case sc_tool call of
       None \<Rightarrow> (call, Some (or_text (sc_error_reason call) ''tool is not registered''))
     | Some t \<Rightarrow>
         (case inp of
            JDict d \<Rightarrow>
              (case st_validate t d of
                 Inl msg \<Rightarrow> (call, Some (''PreToolUse produced invalid input: '' @ msg))
               | Inr (JDict validated) \<Rightarrow>
                   (call\<lparr>sc_input := validated,
                         sc_summary := (case tl_summarize (st_tool t) validated of
                            Some s \<Rightarrow> s | None \<Rightarrow> call_name call @ ''(...)'')\<rparr>, None)
               | Inr _ \<Rightarrow> (call, Some (''PreToolUse produced invalid input: ''
                                       @ ''tool.validate() must return a dict'')))
          | _ \<Rightarrow> (call, Some ''PreToolUse input must be a dict'')))"

text \<open>
  One call in the loop: the refusals and the served results are dictionaries keyed by the id of
  the call.
\<close>

definition pre_hook_call ::
  "bool \<times> 'p hook_result \<Rightarrow> resolved_call \<Rightarrow> (string, string) dict \<Rightarrow> (string, 'p) dict
   \<Rightarrow> resolved_call \<times> (string, string) dict \<times> (string, 'p) dict" where
  "pre_hook_call answer call errors served =
     (case pre_tool_use (fst answer) (snd answer) of (inp, blocked, out) \<Rightarrow>
       (case canonicalize_hook_input inp call of
          (call', Some reason) \<Rightarrow> (call', dict_set (sc_id call) reason errors, served)
        | (call', None) \<Rightarrow>
            (case blocked of
               Some reason \<Rightarrow> (call', dict_set (sc_id call) reason errors, served)
             | None \<Rightarrow>
                (case out of
                   Some p \<Rightarrow> (call', errors, dict_set (sc_id call) p served)
                 | None \<Rightarrow> (call', errors, served)))))"

text \<open>The loop over the calls; the \<open>i\<close>-th call is given the hooks' answer \<open>hook i\<close>.\<close>

fun run_pre_hooks ::
  "(nat \<Rightarrow> resolved_call \<Rightarrow> bool \<times> 'p hook_result) \<Rightarrow> nat \<Rightarrow> resolved_call list
   \<Rightarrow> (string, string) dict \<Rightarrow> (string, 'p) dict
   \<Rightarrow> resolved_call list \<times> (string, string) dict \<times> (string, 'p) dict" where
  "run_pre_hooks hook i [] errors served = ([], errors, served)"
| "run_pre_hooks hook i (call # calls) errors served =
     (case (if sc_immediate_error call then (call, errors, served)
            else pre_hook_call (hook i call) call errors served) of
        (call', errors', served') \<Rightarrow>
          (case run_pre_hooks hook (Suc i) calls errors' served' of
             (rest, errs, srvd) \<Rightarrow> (call' # rest, errs, srvd)))"

section \<open>Permission\<close>

definition permission_of_call :: "string \<Rightarrow> resolved_call \<Rightarrow> pending_call" where
  "permission_of_call cwd call =
     \<lparr>cl_tool_use_id = JStr (sc_id call), cl_tool = map_option st_tool (sc_tool call),
      cl_input = JDict (sc_input call), cl_cwd = Some cwd, cl_principal = sc_principal call\<rparr>"

text \<open>A stored decision; the code that stores one writes a text or \<^verbatim>\<open>null\<close> for the reason.\<close>

definition permission_decision_to_dict :: "permission_decision \<Rightarrow> json" where
  "permission_decision_to_dict d = JDict
     [(''schema_version'', JInt wire_version),
      (''decision'', JStr (case pd_decision d of DAllow \<Rightarrow> ''allow'' | DDeny \<Rightarrow> ''deny'' | DAsk \<Rightarrow> ''ask'')),
      (''reason'', json_opt_string (pd_reason d))]"

definition permission_decision_from_dict :: "json \<Rightarrow> permission_decision result" where
  "permission_decision_from_dict raw = (case raw of
       JDict d \<Rightarrow>
         bind_result (require_wire_version (dict_get d ''schema_version'')) (\<lambda>_.
         bind_result (case dict_get d ''decision'' of
             Some (JStr s) \<Rightarrow> if s = ''allow'' then Inr DAllow
                             else if s = ''deny'' then Inr DDeny else Inl ValueError
           | Some (JList _) \<Rightarrow> Inl TypeError
           | Some (JDict _) \<Rightarrow> Inl TypeError
           | _ \<Rightarrow> Inl ValueError) (\<lambda>decision.
           if dict_get d ''updated_input'' \<notin> {None, Some JNull} then Inl ValueError
           else Inr \<lparr>pd_decision = decision,
                     pd_reason = (case dict_get d ''reason'' of Some (JStr s) \<Rightarrow> Some s | _ \<Rightarrow> None)\<rparr>))
     | _ \<Rightarrow> Inl UnsupportedWireVersionError)"

text \<open>
  The first pass, for one call: its decision and whether it still has to be resolved. \<open>key\<close> is
  \<^const>\<open>permission_decision_key\<close> and \<open>evaluate\<close> the engine on the call.
\<close>

definition first_decision ::
  "(resolved_call \<Rightarrow> permission_decision) \<Rightarrow> (string \<Rightarrow> json_obj \<Rightarrow> string)
   \<Rightarrow> (string, json) dict option \<Rightarrow> string list option \<Rightarrow> (string, string) dict \<Rightarrow> resolved_call
   \<Rightarrow> (permission_decision \<times> bool) result" where
  "first_decision evaluate key stored allowed errors call =
     (if sc_immediate_error call
      then Inr (\<lparr>pd_decision = DDeny, pd_reason = sc_error_reason call\<rparr>, False)
      else case dict_get errors (sc_id call) of
        Some reason \<Rightarrow> Inr (\<lparr>pd_decision = DDeny, pd_reason = Some reason\<rparr>, False)
      | None \<Rightarrow>
          (let initial = evaluate call in
           if pd_decision initial \<noteq> DAsk then Inr (initial, False)
           else case (case stored of None \<Rightarrow> None
                      | Some d \<Rightarrow> dict_get d (key (call_name call) (sc_input call))) of
             Some raw \<Rightarrow>
               (case permission_decision_from_dict raw of
                  Inr d \<Rightarrow> Inr (d, False)
                | Inl UnsupportedWireVersionError \<Rightarrow> Inl UnsupportedWireVersionError
                | Inl _ \<Rightarrow> Inr (initial, True))
           | None \<Rightarrow>
               if (case allowed of None \<Rightarrow> False | Some names \<Rightarrow>
                     sc_tool call \<noteq> None \<and> call_name call \<in> set names)
               then Inr (bare_decision DAllow, False) else Inr (initial, True)))"

text \<open>
  The second pass over the calls to be asked about, in order. A decision is remembered for a
  later resumption; an abort or a cancellation ends the turn, any other failure is a denial.
\<close>

fun resolve_asks ::
  "(nat \<Rightarrow> resolved_call \<Rightarrow> permission_decision result) \<Rightarrow> (string \<Rightarrow> json_obj \<Rightarrow> string) \<Rightarrow> nat
   \<Rightarrow> (resolved_call \<times> permission_decision \<times> bool) list \<Rightarrow> (string, json) dict option
   \<Rightarrow> (permission_decision list \<times> (string, json) dict option) result" where
  "resolve_asks ask key i [] stored = Inr ([], stored)"
| "resolve_asks ask key i ((call, d, pending) # rest) stored =
     bind_result
       (if \<not> pending then Inr (d, stored)
        else case ask i call of
          Inl e \<Rightarrow>
            if e \<in> {AbortError, CancelledError} then Inl e
            else Inr (\<lparr>pd_decision = DDeny,
                       pd_reason = Some (''Permission resolution failed for '' @ call_name call)\<rparr>, stored)
        | Inr d' \<Rightarrow>
            Inr (d', if pd_decision d' \<in> {DAllow, DDeny}
                     then map_option (dict_set (key (call_name call) (sc_input call))
                                        (permission_decision_to_dict d')) stored
                     else stored))
       (\<lambda>(d', stored'). bind_result (resolve_asks ask key (Suc i) rest stored') (\<lambda>(ds, st).
         Inr (d' # ds, st)))"

section \<open>The gate\<close>

datatype 'p gate = Refused string | Served 'p | Runs sched_tool json_obj

text \<open>
  The first part of \<^verbatim>\<open>_execute_one\<close>, up to the decision to run the tool's body. A call whose tool
  is missing is an immediate error, so the last case asserts in the code.
\<close>

definition execution_gate ::
  "(string, string) dict \<Rightarrow> (string, 'p) dict \<Rightarrow> resolved_call \<Rightarrow> permission_decision \<Rightarrow> 'p gate" where
  "execution_gate errors served call d =
     (if sc_immediate_error call then Refused (or_text (sc_error_reason call) ''unknown error'')
      else case dict_get errors (sc_id call) of
        Some reason \<Rightarrow> Refused reason
      | None \<Rightarrow>
          if pd_decision d = DDeny
          then Refused (''Tool call denied: '' @ or_text (pd_reason d) ''permission denied'')
          else case (if pd_decision d = DAllow then dict_get served (sc_id call) else None) of
            Some p \<Rightarrow> Served p
          | None \<Rightarrow>
              (case sc_tool call of
                 Some t \<Rightarrow> Runs t (sc_input call)
               | None \<Rightarrow> Refused ''AssertionError''))"

section \<open>One turn\<close>

definition prepare_turn ::
  "(json \<Rightarrow> string) \<Rightarrow> (string \<Rightarrow> sched_tool option) \<Rightarrow> string list option \<Rightarrow> principal option
   \<Rightarrow> (nat \<Rightarrow> resolved_call \<Rightarrow> bool \<times> 'p hook_result) option
   \<Rightarrow> (string \<times> string \<times> json_obj \<times> string option) list
   \<Rightarrow> resolved_call list \<times> (string, string) dict \<times> (string, 'p) dict" where
  "prepare_turn str_of tools allowed caller hooks blocks =
     (let calls = map (\<lambda>(i, name, inp, reason). resolve_call str_of tools i name inp reason) blocks;
          calls = map (\<lambda>c. if caller \<noteq> None then c\<lparr>sc_principal := caller\<rparr> else c) calls;
          calls = map (enforce_availability allowed) calls
      in case hooks of None \<Rightarrow> (calls, [], []) | Some hook \<Rightarrow> run_pre_hooks hook 0 calls [] [])"

definition decide_turn ::
  "(resolved_call \<Rightarrow> permission_decision) \<Rightarrow> (nat \<Rightarrow> resolved_call \<Rightarrow> permission_decision result)
   \<Rightarrow> (string \<Rightarrow> json_obj \<Rightarrow> string) \<Rightarrow> (string, json) dict option \<Rightarrow> string list option
   \<Rightarrow> (string, string) dict \<Rightarrow> resolved_call list
   \<Rightarrow> (permission_decision list \<times> (string, json) dict option) result" where
  "decide_turn evaluate ask key stored allowed errors calls =
     bind_result (map_result (first_decision evaluate key stored allowed errors) calls) (\<lambda>firsts.
       resolve_asks ask key 0 (zip calls firsts) stored)"


section \<open>What the preparation guarantees\<close>

definition validated_call :: "resolved_call \<Rightarrow> bool" where
  "validated_call c \<longleftrightarrow> (\<exists>t raw. sc_tool c = Some t \<and> st_validate t raw = Inr (JDict (sc_input c)))"

definition call_ready ::
  "(string \<Rightarrow> sched_tool option) \<Rightarrow> string list option \<Rightarrow> resolved_call \<Rightarrow> bool" where
  "call_ready tools allowed c \<longleftrightarrow> sc_immediate_error c
     \<or> (validated_call c \<and> (\<exists>name. tools name = sc_tool c)
        \<and> (\<forall>offered. allowed = Some offered \<longrightarrow> call_name c \<in> set offered))"

lemma resolve_call_ready: "call_ready tools None (resolve_call str_of tools i name inp reason)"
  by (auto simp: resolve_call_def failed_call_def call_ready_def validated_call_def
      split: option.splits sum.splits json.splits)

lemma enforce_ready:
  "call_ready tools None c \<Longrightarrow> call_ready tools allowed (enforce_availability allowed c)"
  by (auto simp: enforce_availability_def call_ready_def validated_call_def split: option.split)

lemma principal_ready [simp]: "call_ready tools allowed (c\<lparr>sc_principal := p\<rparr>) \<longleftrightarrow> call_ready tools allowed c"
  by (cases "sc_tool c") (simp_all add: call_ready_def validated_call_def call_name_def)

lemma canonicalize_ready:
  assumes "call_ready tools allowed c" and "canonicalize_hook_input inp c = (c', bad)"
  shows "call_ready tools allowed c'"
  using assms
  by (auto simp: canonicalize_hook_input_def call_ready_def validated_call_def call_name_def
      split: option.splits json.splits sum.splits)

lemma pre_hook_call_ready:
  assumes "call_ready tools allowed c"
  shows "call_ready tools allowed (fst (pre_hook_call answer c errors served))"
proof -
  obtain inp blocked out where p: "pre_tool_use (fst answer) (snd answer) = (inp, blocked, out)"
    by (metis prod_cases3)
  obtain c' bad where c: "canonicalize_hook_input inp c = (c', bad)" by fastforce
  have "fst (pre_hook_call answer c errors served) = c'"
    by (simp add: pre_hook_call_def p c split: option.split)
  with canonicalize_ready [OF assms c] show ?thesis by simp
qed

lemma run_pre_hooks_ready:
  assumes "run_pre_hooks hook i calls errors served = (calls', errors', served')"
    and "\<forall>c \<in> set calls. call_ready tools allowed c"
  shows "length calls' = length calls \<and> (\<forall>c \<in> set calls'. call_ready tools allowed c)"
  using assms
proof (induction calls arbitrary: i errors served calls')
  case (Cons call calls)
  obtain c1 e1 s1 where step: "(if sc_immediate_error call then (call, errors, served)
            else pre_hook_call (hook i call) call errors served) = (c1, e1, s1)"
    by (metis prod_cases3)
  from Cons.prems(2) pre_hook_call_ready [of tools allowed call "hook i call" errors served] step
  have one: "call_ready tools allowed c1" by (auto split: if_splits)
  obtain rest errs srvd where rest: "run_pre_hooks hook (Suc i) calls e1 s1 = (rest, errs, srvd)"
    by (metis prod_cases3)
  with Cons.prems(1) step have "calls' = c1 # rest" "(errs, srvd) = (errors', served')" by simp_all
  with Cons.IH [of "Suc i" e1 s1 rest] rest one Cons.prems(2) show ?case by auto
qed simp

lemma prepare_turn_ready:
  assumes "prepare_turn str_of tools allowed caller hooks blocks = (calls, errors, served)"
  shows "length calls = length blocks \<and> (\<forall>c \<in> set calls. call_ready tools allowed c)"
proof -
  let ?calls = "map (enforce_availability allowed)
      (map (\<lambda>c. if caller \<noteq> None then c\<lparr>sc_principal := caller\<rparr> else c)
        (map (\<lambda>(i, name, inp, reason). resolve_call str_of tools i name inp reason) blocks))"
  have ready: "\<forall>c \<in> set ?calls. call_ready tools allowed c"
    by (auto intro!: enforce_ready simp: resolve_call_ready)
  show ?thesis
  proof (cases hooks)
    case None
    with assms ready show ?thesis by (auto simp: prepare_turn_def Let_def)
  next
    case (Some hook)
    with assms have "run_pre_hooks hook 0 ?calls [] [] = (calls, errors, served)"
      by (simp add: prepare_turn_def Let_def comp_assoc)
    from run_pre_hooks_ready [OF this ready] show ?thesis by simp
  qed
qed

section \<open>Only permitted calls run\<close>

lemma map_result_nth:
  "map_result f xs = Inr ys \<Longrightarrow> i < length xs \<Longrightarrow> f (xs ! i) = Inr (ys ! i)"
proof (induction xs arbitrary: ys i)
  case (Cons x xs)
  then show ?case by (cases i) (auto simp: bind_result_Inr_iff)
qed simp

lemma resolve_asks_Cons:
  "resolve_asks ask key k ((c, d, pending) # rest) stored = Inr (ds, stored') \<Longrightarrow>
     \<exists>d' s ds'. ds = d' # ds' \<and> resolve_asks ask key (Suc k) rest s = Inr (ds', stored')
       \<and> (if pending then ask k c = Inr d' \<or> pd_decision d' = DDeny else d' = d)"
  by (auto simp: bind_result_Inr_iff split: if_splits sum.splits)

lemma resolve_asks_nth:
  assumes "resolve_asks ask key k xs stored = Inr (ds, stored')"
  shows "length ds = length xs \<and> (\<forall>i < length xs. case xs ! i of (c, d, pending) \<Rightarrow>
     if pending then ask (k + i) c = Inr (ds ! i) \<or> pd_decision (ds ! i) = DDeny else ds ! i = d)"
  using assms
proof (induction xs arbitrary: k stored ds)
  case (Cons x xs)
  obtain c d pending where x: "x = (c, d, pending)" by (metis prod_cases3)
  from resolve_asks_Cons [OF Cons.prems [unfolded x]] obtain d' s ds' where
    ds: "ds = d' # ds'" and rest: "resolve_asks ask key (Suc k) xs s = Inr (ds', stored')"
    and first: "if pending then ask k c = Inr d' \<or> pd_decision d' = DDeny else d' = d" by blast
  from Cons.IH [OF rest] ds first show ?case by (auto simp: x nth_Cons split: nat.split)
qed simp

lemma callback_decision_decides: "pd_decision (callback_decision n r) \<noteq> DAsk"
  by (auto simp: callback_decision_def invalid_callback_response_def denied_def bare_decision_def
      split: json.split option.split)

lemma resolve_permission_decides:
  assumes "resolve_permission resolve rx en cb aborted pc = Inr d"
    and "pd_decision (engine_evaluate resolve rx en pc) = DAsk"
  shows "pd_decision d = DDeny \<or> (pd_decision d = DAllow \<and> \<not> aborted
     \<and> (\<exists>f response. cb = Some f \<and> f (callback_request en pc) = CbReturned response
          \<and> d = callback_decision (call_tool_name pc) response))"
proof (cases cb)
  case None
  with assms show ?thesis by (auto simp: resolve_permission_def denied_def Let_def)
next
  case (Some f)
  show ?thesis
  proof (cases "f (callback_request en pc)")
    case (CbReturned response)
    have "pd_decision (callback_decision (call_tool_name pc) response) = DDeny
        \<or> pd_decision (callback_decision (call_tool_name pc) response) = DAllow"
      using callback_decision_decides by (metis tool_decision.exhaust)
    with CbReturned Some assms show ?thesis
      by (auto simp: resolve_permission_def denied_def Let_def split: if_splits)
  qed (use Some assms in \<open>auto simp: resolve_permission_def denied_def Let_def split: if_splits\<close>)
qed


text \<open>
  How a call the engine would ask about can have been approved: by the decision recorded for it,
  if there is one, and otherwise because the allowlist of the turn names its tool or because the
  host approved it.
\<close>

definition host_approves ::
  "engine \<Rightarrow> (can_use_tool_request \<Rightarrow> callback_outcome) option \<Rightarrow> string \<Rightarrow> resolved_call \<Rightarrow> bool" where
  "host_approves en cb cwd c \<longleftrightarrow>
     (\<exists>f response. cb = Some f \<and> f (callback_request en (permission_of_call cwd c)) = CbReturned response
        \<and> pd_decision (callback_decision (call_name c) response) = DAllow)"

definition recorded_answer ::
  "(string \<Rightarrow> json_obj \<Rightarrow> string) \<Rightarrow> (string, json) dict option \<Rightarrow> resolved_call \<Rightarrow> json option" where
  "recorded_answer key stored c = (case stored of None \<Rightarrow> None
     | Some s \<Rightarrow> dict_get s (key (call_name c) (sc_input c)))"

definition approved ::
  "(string \<Rightarrow> json_obj \<Rightarrow> string) \<Rightarrow> (string, json) dict option \<Rightarrow> string list option \<Rightarrow> engine
   \<Rightarrow> (can_use_tool_request \<Rightarrow> callback_outcome) option \<Rightarrow> string \<Rightarrow> resolved_call \<Rightarrow> bool" where
  "approved key stored allowed en cb cwd c =
     (case recorded_answer key stored c of
        Some raw \<Rightarrow> (case permission_decision_from_dict raw of
            Inr d \<Rightarrow> pd_decision d = DAllow | Inl _ \<Rightarrow> host_approves en cb cwd c)
      | None \<Rightarrow> (\<exists>names. allowed = Some names \<and> call_name c \<in> set names) \<or> host_approves en cb cwd c)"

lemma permission_decision_from_dict_decides:
  "permission_decision_from_dict raw = Inr d \<Longrightarrow> pd_decision d = DAllow \<or> pd_decision d = DDeny"
  by (auto simp: permission_decision_from_dict_def bind_result_Inr_iff split: json.splits option.splits if_splits)

lemma call_tool_name_of: "validated_call c \<Longrightarrow> call_tool_name (permission_of_call cwd c) = call_name c"
  by (auto simp: validated_call_def call_tool_name_def permission_of_call_def call_name_def)

lemma first_decision_cases:
  assumes "first_decision evaluate key stored allowed errors c = Inr (d, pending)"
    and "\<not> sc_immediate_error c" and "dict_get errors (sc_id c) = None"
  obtains (settled) "pd_decision (evaluate c) \<noteq> DAsk" "d = evaluate c" "\<not> pending"
    | (stored) raw where "pd_decision (evaluate c) = DAsk" "recorded_answer key stored c = Some raw"
        "permission_decision_from_dict raw = Inr d" "\<not> pending"
    | (offered) names where "pd_decision (evaluate c) = DAsk" "recorded_answer key stored c = None"
        "allowed = Some names" "call_name c \<in> set names" "d = bare_decision DAllow" "\<not> pending"
    | (pending) "pd_decision (evaluate c) = DAsk" "pending"
        "\<And>raw. recorded_answer key stored c = Some raw \<Longrightarrow> \<exists>e. permission_decision_from_dict raw = Inl e"
proof (cases "pd_decision (evaluate c) = DAsk")
  case True
  let ?raw = "recorded_answer key stored c"
  from True assms(2,3) have eq: "first_decision evaluate key stored allowed errors c =
      (case ?raw of
         Some raw \<Rightarrow>
           (case permission_decision_from_dict raw of
              Inr d \<Rightarrow> Inr (d, False)
            | Inl UnsupportedWireVersionError \<Rightarrow> Inl UnsupportedWireVersionError
            | Inl _ \<Rightarrow> Inr (evaluate c, True))
       | None \<Rightarrow>
           if (case allowed of None \<Rightarrow> False | Some names \<Rightarrow> sc_tool c \<noteq> None \<and> call_name c \<in> set names)
           then Inr (bare_decision DAllow, False) else Inr (evaluate c, True))"
    unfolding first_decision_def Let_def recorded_answer_def by simp
  show ?thesis
  proof (cases ?raw)
    case None
    show ?thesis
    proof (cases allowed)
      case None
      with \<open>?raw = None\<close> eq assms(1) True that(4) show ?thesis by simp
    next
      case (Some names)
      with \<open>?raw = None\<close> eq assms(1) True that(3,4) show ?thesis
        by (cases "(\<exists>y. sc_tool c = Some y) \<and> call_name c \<in> set names") auto
    qed
  next
    case (Some raw)
    show ?thesis
    proof (cases "permission_decision_from_dict raw")
      case (Inl e)
      with Some eq assms(1) True that(4) show ?thesis by (cases e) simp_all
    next
      case (Inr d0)
      with Some eq assms(1) True that(2) show ?thesis by simp
    qed
  qed
next
  case False
  with assms have "d = evaluate c \<and> \<not> pending" unfolding first_decision_def Let_def by simp
  with False that(1) show ?thesis by blast
qed

lemma execution_gate_open:
  assumes "execution_gate errors served c d = g" and "\<forall>why. g \<noteq> Refused why"
  shows "\<not> sc_immediate_error c \<and> dict_get errors (sc_id c) = None \<and> pd_decision d \<noteq> DDeny
     \<and> (\<forall>t. sc_tool c = Some t \<longrightarrow> g = Runs t (sc_input c) \<or> (\<exists>p. g = Served p))"
proof -
  have shut: "\<exists>why. execution_gate errors served c d = Refused why"
    if "sc_immediate_error c \<or> dict_get errors (sc_id c) \<noteq> None \<or> pd_decision d = DDeny"
    using that
    by (cases "sc_immediate_error c"; cases "dict_get errors (sc_id c)") (auto simp: execution_gate_def)
  with assms have ok: "\<not> sc_immediate_error c" "dict_get errors (sc_id c) = None" "pd_decision d \<noteq> DDeny"
    by blast+
  then have eq: "execution_gate errors served c d =
      (case (if pd_decision d = DAllow then dict_get served (sc_id c) else None) of
         Some p \<Rightarrow> Served p
       | None \<Rightarrow> (case sc_tool c of Some t \<Rightarrow> Runs t (sc_input c) | None \<Rightarrow> Refused ''AssertionError''))"
    by (simp add: execution_gate_def)
  show ?thesis
  proof (cases "if pd_decision d = DAllow then dict_get served (sc_id c) else None")
    case None
    with eq assms(1) ok show ?thesis by (simp split: option.split)
  next
    case (Some p)
    with eq assms(1) ok show ?thesis by simp
  qed
qed

lemma decided_call_approved:
  assumes "decide_turn (\<lambda>c. engine_evaluate resolve rx en (permission_of_call cwd c))
           (\<lambda>i c. resolve_permission resolve rx en (cb i) (aborted i) (permission_of_call cwd c))
           key stored allowed errors calls = Inr (ds, stored')"
    and "i < length calls" and "\<not> sc_immediate_error (calls ! i)" and "dict_get errors (sc_id (calls ! i)) = None"
    and "pd_decision (ds ! i) \<noteq> DDeny" and valid: "validated_call (calls ! i)"
  shows "pd_decision (engine_evaluate resolve rx en (permission_of_call cwd (calls ! i))) = DAllow
      \<or> pd_decision (engine_evaluate resolve rx en (permission_of_call cwd (calls ! i))) = DAsk
        \<and> approved key stored allowed en (cb i) cwd (calls ! i)"
proof -
  let ?c = "calls ! i" and ?eval = "\<lambda>c. engine_evaluate resolve rx en (permission_of_call cwd c)"
  from assms(1) [unfolded decide_turn_def bind_result_Inr_iff] obtain firsts where firsts: "map_result (first_decision ?eval key stored allowed errors) calls = Inr firsts"
    and asks: "resolve_asks (\<lambda>i c. resolve_permission resolve rx en (cb i) (aborted i) (permission_of_call cwd c)) key 0
                 (zip calls firsts) stored = Inr (ds, stored')"
    by blast
  have len: "length firsts = length calls" by (rule map_result_length [OF firsts])
  obtain d pending where dp: "firsts ! i = (d, pending)" by fastforce
  from map_result_nth [OF firsts assms(2)] dp have first: "first_decision ?eval key stored allowed errors ?c = Inr (d, pending)" by simp
  from resolve_asks_nth [OF asks] len assms(2) dp have second:
    "if pending then resolve_permission resolve rx en (cb i) (aborted i) (permission_of_call cwd ?c) = Inr (ds ! i)
                     \<or> pd_decision (ds ! i) = DDeny else ds ! i = d"
    by fastforce
  let ?ask = "resolve_permission resolve rx en (cb i) (aborted i) (permission_of_call cwd ?c) = Inr (ds ! i)"
  from first assms(3,4) show ?thesis
  proof (cases rule: first_decision_cases)
    case settled
    with second assms(5) have "pd_decision (?eval ?c) \<noteq> DDeny" by simp
    with settled(1) show ?thesis by (cases "pd_decision (?eval ?c)") simp_all
  next
    case (stored raw)
    with second assms(5) permission_decision_from_dict_decides [OF stored(3)] have "pd_decision d = DAllow" by simp
    with stored(1-3) show ?thesis by (simp add: approved_def)
  next
    case (offered names)
    then show ?thesis by (simp add: approved_def)
  next
    case pending
    with second assms(5) have ?ask by simp
    from resolve_permission_decides [OF this pending(1)] assms(5) obtain f response where
      "cb i = Some f" "f (callback_request en (permission_of_call cwd ?c)) = CbReturned response"
      "pd_decision (callback_decision (call_name ?c) response) = DAllow"
      using call_tool_name_of [OF valid] by auto
    then have "host_approves en (cb i) cwd ?c" unfolding host_approves_def by blast
    with pending(1) pending(3) show ?thesis by (force simp: approved_def split: option.split)
  qed
qed

text \<open>The calls of a turn as they are handed to the hooks.\<close>

definition offered_call ::
  "(json \<Rightarrow> string) \<Rightarrow> (string \<Rightarrow> sched_tool option) \<Rightarrow> string list option \<Rightarrow> principal option
   \<Rightarrow> string \<times> string \<times> json_obj \<times> string option \<Rightarrow> resolved_call" where
  "offered_call str_of tools allowed caller = (\<lambda>(i, name, inp, reason).
     let c = resolve_call str_of tools i name inp reason
     in enforce_availability allowed (if caller \<noteq> None then c\<lparr>sc_principal := caller\<rparr> else c))"

text \<open>The input a hook leaves to the call.\<close>

definition hook_input :: "'p hook_result \<Rightarrow> json" where
  "hook_input r = (if hr_action r = ''mutate'' \<and> hr_input r \<noteq> None then the (hr_input r) else hr_context_input r)"

lemma prepare_turn_offered:
  "prepare_turn str_of tools allowed caller hooks blocks =
     (let calls = map (offered_call str_of tools allowed caller) blocks
      in case hooks of None \<Rightarrow> (calls, [], []) | Some hook \<Rightarrow> run_pre_hooks hook 0 calls [] [])"
proof -
  have "map (enforce_availability allowed) (map (\<lambda>c. if caller \<noteq> None then c\<lparr>sc_principal := caller\<rparr> else c)
      (map (\<lambda>(i, name, inp, reason). resolve_call str_of tools i name inp reason) blocks))
    = map (offered_call str_of tools allowed caller) blocks"
    by (auto simp: offered_call_def Let_def)
  then show ?thesis unfolding prepare_turn_def Let_def by presburger
qed

lemma resolve_call_valid:
  assumes "\<not> sc_immediate_error (resolve_call str_of tools i name inp reason)"
  shows "\<exists>t. sc_tool (resolve_call str_of tools i name inp reason) = Some t
    \<and> st_validate t inp = Inr (JDict (sc_input (resolve_call str_of tools i name inp reason)))"
  using assms
  by (auto simp: resolve_call_def failed_call_def split: option.splits sum.splits json.splits if_splits)

lemma offered_call_valid:
  assumes "\<not> sc_immediate_error (offered_call str_of tools allowed caller (i, name, inp, reason))"
  shows "\<exists>t. sc_tool (offered_call str_of tools allowed caller (i, name, inp, reason)) = Some t
    \<and> st_validate t inp = Inr (JDict (sc_input (offered_call str_of tools allowed caller (i, name, inp, reason))))"
proof -
  let ?c = "resolve_call str_of tools i name inp reason"
  have "\<not> sc_immediate_error ?c" and "sc_tool (offered_call str_of tools allowed caller (i, name, inp, reason)) = sc_tool ?c"
    and "sc_input (offered_call str_of tools allowed caller (i, name, inp, reason)) = sc_input ?c"
    using assms by (cases caller; simp add: offered_call_def enforce_availability_def Let_def
        split: option.splits if_splits)+
  with resolve_call_valid show ?thesis by metis
qed

lemma pre_tool_use_passed:
  assumes "pre_tool_use v2 r = (inp, None, out)"
  shows "hr_action r \<in> {''continue'', ''mutate'', ''resolve''}" and "inp = hook_input r"
    and "out = Some p \<Longrightarrow> hr_action r = ''resolve'' \<and> hr_output r = Some p"
  using assms by (auto simp: pre_tool_use_def Let_def hook_input_def split: if_splits option.splits)

lemma canonicalize_passed:
  assumes "canonicalize_hook_input inp c = (c', None)"
  obtains t d where "inp = JDict d" and "sc_tool c = Some t" and "sc_tool c' = Some t"
    and "st_validate t d = Inr (JDict (sc_input c'))"
  using assms that
  by (auto simp: canonicalize_hook_input_def split: option.splits json.splits sum.splits)

lemma canonicalize_keeps:
  "sc_id (fst (canonicalize_hook_input inp c)) = sc_id c"
  "sc_immediate_error (fst (canonicalize_hook_input inp c)) = sc_immediate_error c"
  by (simp_all add: canonicalize_hook_input_def split: option.splits json.splits sum.splits)

lemma pre_hook_call_cases:
  assumes "pre_hook_call answer c errors served = (c', errors', served')"
  obtains (refused) why where "errors' = dict_set (sc_id c) why errors" and "served' = served" and "sc_id c' = sc_id c"
    | (passed) inp out where "pre_tool_use (fst answer) (snd answer) = (inp, None, out)"
        and "canonicalize_hook_input inp c = (c', None)" and "errors' = errors"
        and "served' = (case out of None \<Rightarrow> served | Some p \<Rightarrow> dict_set (sc_id c) p served)" and "sc_id c' = sc_id c"
proof -
  obtain inp blocked out where p: "pre_tool_use (fst answer) (snd answer) = (inp, blocked, out)"
    by (metis prod_cases3)
  obtain c1 bad where c: "canonicalize_hook_input inp c = (c1, bad)" by fastforce
  from canonicalize_keeps(1) [of inp c] c have "sc_id c1 = sc_id c" by simp
  with assms that p c show thesis
    by (cases bad; cases blocked; cases out) (auto simp: pre_hook_call_def)
qed

definition passed_hook ::
  "bool \<times> 'p hook_result \<Rightarrow> resolved_call \<Rightarrow> resolved_call \<Rightarrow> bool" where
  "passed_hook answer c c' = (\<exists>inp out. pre_tool_use (fst answer) (snd answer) = (inp, None, out)
     \<and> canonicalize_hook_input inp c = (c', None))"

lemma run_pre_hooks_Cons:
  assumes "run_pre_hooks hook i (c # cs) errors served = (calls', errors', served')"
  obtains c1 e1 s1 rest where "calls' = c1 # rest"
    and "run_pre_hooks hook (Suc i) cs e1 s1 = (rest, errors', served')"
    and "(if sc_immediate_error c then (c, errors, served) else pre_hook_call (hook i c) c errors served) = (c1, e1, s1)"
proof -
  obtain c1 e1 s1 where one: "(if sc_immediate_error c then (c, errors, served)
            else pre_hook_call (hook i c) c errors served) = (c1, e1, s1)"
    by (metis prod_cases3)
  obtain rest errs srvd where "run_pre_hooks hook (Suc i) cs e1 s1 = (rest, errs, srvd)"
    by (metis prod_cases3)
  with assms one have "calls' = c1 # rest" "run_pre_hooks hook (Suc i) cs e1 s1 = (rest, errors', served')"
    by simp_all
  from that [OF this one] show thesis .
qed

lemma run_pre_hooks_errors:
  "run_pre_hooks hook i cs errors served = (calls', errors', served') \<Longrightarrow>
     dict_get errors' k = None \<Longrightarrow> dict_get errors k = None"
proof (induction cs arbitrary: i errors served calls')
  case (Cons c cs)
  from Cons.prems(1) obtain c1 e1 s1 rest where
    rest: "run_pre_hooks hook (Suc i) cs e1 s1 = (rest, errors', served')"
    and one: "(if sc_immediate_error c then (c, errors, served) else pre_hook_call (hook i c) c errors served) = (c1, e1, s1)"
    by (rule run_pre_hooks_Cons)
  from Cons.IH [OF rest Cons.prems(2)] have e1: "dict_get e1 k = None" .
  show ?case
  proof (cases "sc_immediate_error c")
    case False
    with one have "pre_hook_call (hook i c) c errors served = (c1, e1, s1)" by simp
    then show ?thesis
      by (cases rule: pre_hook_call_cases) (use e1 in \<open>auto split: if_splits\<close>)
  qed (use one e1 in simp)
qed simp

lemma run_pre_hooks_passed:
  assumes "run_pre_hooks hook i cs errors served = (calls', errors', served')" and "j < length cs"
    and "\<not> sc_immediate_error (calls' ! j)" and "dict_get errors' (sc_id (calls' ! j)) = None"
  shows "passed_hook (hook (i + j) (cs ! j)) (cs ! j) (calls' ! j) \<and> sc_id (calls' ! j) = sc_id (cs ! j)"
  using assms
proof (induction cs arbitrary: i errors served calls' j)
  case (Cons c cs)
  from Cons.prems(1) obtain c1 e1 s1 rest where calls: "calls' = c1 # rest"
    and rest: "run_pre_hooks hook (Suc i) cs e1 s1 = (rest, errors', served')"
    and one: "(if sc_immediate_error c then (c, errors, served) else pre_hook_call (hook i c) c errors served) = (c1, e1, s1)"
    by (rule run_pre_hooks_Cons)
  show ?case
  proof (cases j)
    case 0
    with Cons.prems(3) calls one have "\<not> sc_immediate_error c" by (auto split: if_splits)
    with one have "pre_hook_call (hook i c) c errors served = (c1, e1, s1)" by simp
    then show ?thesis
    proof (cases rule: pre_hook_call_cases)
      case (refused why)
      with run_pre_hooks_errors [OF rest Cons.prems(4)] 0 calls show ?thesis by simp
    next
      case (passed inp out)
      with 0 calls show ?thesis by (auto simp: passed_hook_def)
    qed
  next
    case (Suc k)
    with Cons.IH [OF rest, of k] Cons.prems(2-4) calls show ?thesis by simp
  qed
qed simp

lemma run_pre_hooks_served:
  assumes "run_pre_hooks hook i cs errors served = (calls', errors', served')" and "dict_get served' k = Some p"
  shows "dict_get served k = Some p \<or> (\<exists>j < length cs. sc_id (cs ! j) = k
     \<and> hr_action (snd (hook (i + j) (cs ! j))) = ''resolve'' \<and> hr_output (snd (hook (i + j) (cs ! j))) = Some p)"
  using assms
proof (induction cs arbitrary: i errors served calls')
  case (Cons c cs)
  from Cons.prems(1) obtain c1 e1 s1 rest where
    rest: "run_pre_hooks hook (Suc i) cs e1 s1 = (rest, errors', served')"
    and one: "(if sc_immediate_error c then (c, errors, served) else pre_hook_call (hook i c) c errors served) = (c1, e1, s1)"
    by (rule run_pre_hooks_Cons)
  have first: "dict_get served k = Some p \<or> sc_id c = k
     \<and> hr_action (snd (hook i c)) = ''resolve'' \<and> hr_output (snd (hook i c)) = Some p"
    if s1: "dict_get s1 k = Some p"
  proof (cases "sc_immediate_error c")
    case False
    with one have "pre_hook_call (hook i c) c errors served = (c1, e1, s1)" by simp
    then show ?thesis
    proof (cases rule: pre_hook_call_cases)
      case (passed inp out)
      with s1 pre_tool_use_passed(3) [OF passed(1)] show ?thesis by (auto split: option.splits if_splits)
    qed (use s1 in simp)
  qed (use one s1 in simp)
  from Cons.IH [OF rest Cons.prems(2)] show ?case
  proof
    assume "dict_get s1 k = Some p"
    from first [OF this] show ?thesis by force
  next
    assume "\<exists>j < length cs. sc_id (cs ! j) = k \<and> hr_action (snd (hook (Suc i + j) (cs ! j))) = ''resolve''
      \<and> hr_output (snd (hook (Suc i + j) (cs ! j))) = Some p"
    then obtain j where "j < length cs" "sc_id (cs ! j) = k" "hr_action (snd (hook (i + Suc j) (cs ! j))) = ''resolve''"
      "hr_output (snd (hook (i + Suc j) (cs ! j))) = Some p" by auto
    then show ?thesis by (intro disjI2 exI [of _ "Suc j"]) simp
  qed
qed simp

text \<open>What the hooks let pass: the input that was validated is the one they left.\<close>

lemma prepared_call:
  assumes "prepare_turn str_of tools allowed caller hooks blocks = (calls, errors, served)"
    and "i < length blocks" and "\<not> sc_immediate_error (calls ! i)" and "dict_get errors (sc_id (calls ! i)) = None"
    and "sc_tool (calls ! i) = Some t"
  shows "case hooks of
      None \<Rightarrow> st_validate t (fst (snd (snd (blocks ! i)))) = Inr (JDict (sc_input (calls ! i)))
    | Some hook \<Rightarrow>
       (let r = snd (hook i (offered_call str_of tools allowed caller (blocks ! i)))
        in hr_action r \<in> {''continue'', ''mutate'', ''resolve''}
         \<and> (\<exists>d. hook_input r = JDict d \<and> st_validate t d = Inr (JDict (sc_input (calls ! i)))))"
proof (cases hooks)
  case None
  obtain n name inp reason where b: "blocks ! i = (n, name, inp, reason)" by (metis prod_cases4)
  from assms(1) None have "calls = map (offered_call str_of tools allowed caller) blocks"
    by (simp add: prepare_turn_offered)
  with assms(2) b have "calls ! i = offered_call str_of tools allowed caller (n, name, inp, reason)" by simp
  with offered_call_valid [of str_of tools allowed caller n name inp reason] assms(3,5) b None
  show ?thesis by simp
next
  case (Some hook)
  let ?calls = "map (offered_call str_of tools allowed caller) blocks"
  from assms(1) Some have "run_pre_hooks hook 0 ?calls [] [] = (calls, errors, served)"
    by (simp add: prepare_turn_offered)
  from run_pre_hooks_passed [OF this _ assms(3,4)] assms(2) obtain inp out where
    p: "pre_tool_use (fst (hook i (?calls ! i))) (snd (hook i (?calls ! i))) = (inp, None, out)"
    and c: "canonicalize_hook_input inp (?calls ! i) = (calls ! i, None)"
    by (auto simp: passed_hook_def)
  from c obtain t' d where "inp = JDict d" "sc_tool (calls ! i) = Some t'" "st_validate t' d = Inr (JDict (sc_input (calls ! i)))"
    by (rule canonicalize_passed)
  with pre_tool_use_passed(2) [OF p] assms(2,5) have "hook_input (snd (hook i (?calls ! i))) = JDict d"
    "st_validate t d = Inr (JDict (sc_input (calls ! i)))" by simp_all
  with pre_tool_use_passed(1) [OF p] assms(2) Some show ?thesis unfolding Let_def by simp
qed

lemma prepared_served:
  assumes "prepare_turn str_of tools allowed caller hooks blocks = (calls, errors, served)"
    and "dict_get served k = Some p"
  shows "\<exists>hook j. hooks = Some hook \<and> j < length blocks
    \<and> (let c = offered_call str_of tools allowed caller (blocks ! j); r = snd (hook j c)
       in sc_id c = k \<and> hr_action r = ''resolve'' \<and> hr_output r = Some p)"
proof (cases hooks)
  case None
  with assms show ?thesis by (simp add: prepare_turn_offered)
next
  case (Some hook)
  with assms(1) have "run_pre_hooks hook 0 (map (offered_call str_of tools allowed caller) blocks) [] []
      = (calls, errors, served)" by (simp add: prepare_turn_offered)
  from run_pre_hooks_served [OF this assms(2)] Some show ?thesis by (auto simp: Let_def)
qed

text \<open>
  C2: Nothing runs that was not permitted. If the gate lets a call of the turn through, to the
  tool's body or to a result a hook served for it, then the tool is registered and was offered
  this turn; no hook refused the call; the input is what the tool's own validation made of the
  input the hooks left; a served result is one a resolving hook gave for the id of the call; and
  the policy allows the call, or it asks and the recorded answer allows it, or there is no answer
  on record that can be read and the host allows it, or there is none on record and the allowlist
  of the turn names the tool.
\<close>

theorem only_permitted_calls_run:
  assumes "prepare_turn str_of tools allowed caller hooks blocks = (calls, errors, served)"
    and "decide_turn (\<lambda>c. engine_evaluate resolve rx en (permission_of_call cwd c))
           (\<lambda>i c. resolve_permission resolve rx en (cb i) (aborted i) (permission_of_call cwd c))
           key stored allowed errors calls = Inr (ds, stored')"
    and "i < length blocks" and "execution_gate errors served (calls ! i) (ds ! i) = g" and "\<forall>why. g \<noteq> Refused why"
  shows "\<exists>t name. sc_tool (calls ! i) = Some t \<and> tools name = Some t
     \<and> (\<forall>offered. allowed = Some offered \<longrightarrow> tl_name (st_tool t) \<in> set offered)
     \<and> (case hooks of
          None \<Rightarrow> st_validate t (fst (snd (snd (blocks ! i)))) = Inr (JDict (sc_input (calls ! i)))
        | Some hook \<Rightarrow>
           (let r = snd (hook i (offered_call str_of tools allowed caller (blocks ! i)))
            in hr_action r \<in> {''continue'', ''mutate'', ''resolve''}
             \<and> (\<exists>d. hook_input r = JDict d \<and> st_validate t d = Inr (JDict (sc_input (calls ! i))))))
     \<and> (g = Runs t (sc_input (calls ! i)) \<or> (\<exists>p hook j. g = Served p \<and> hooks = Some hook \<and> j < length blocks
          \<and> (let c = offered_call str_of tools allowed caller (blocks ! j); r = snd (hook j c)
             in sc_id c = sc_id (calls ! i) \<and> hr_action r = ''resolve'' \<and> hr_output r = Some p)))
     \<and> (let d = pd_decision (engine_evaluate resolve rx en (permission_of_call cwd (calls ! i))) in
         d = DAllow \<or> d = DAsk \<and> approved key stored allowed en (cb i) cwd (calls ! i))"
proof -
  let ?c = "calls ! i" and ?eval = "\<lambda>c. engine_evaluate resolve rx en (permission_of_call cwd c)"
  from prepare_turn_ready [OF assms(1)] assms(3) have i: "i < length calls" by simp
  have open_gate: "\<not> sc_immediate_error ?c" "dict_get errors (sc_id ?c) = None" "pd_decision (ds ! i) \<noteq> DDeny"
    using execution_gate_open [OF assms(4,5)] by simp_all
  have "call_ready tools allowed ?c" using prepare_turn_ready [OF assms(1)] nth_mem [OF i] by blast
  with open_gate(1) obtain t raw name where t: "sc_tool ?c = Some t" "st_validate t raw = Inr (JDict (sc_input ?c))"
    "tools name = Some t" "\<forall>offered. allowed = Some offered \<longrightarrow> call_name ?c \<in> set offered"
    unfolding call_ready_def validated_call_def by metis
  have name: "call_name ?c = tl_name (st_tool t)" using t(1) by (simp add: call_name_def)
  have valid: "validated_call ?c" using t(1,2) unfolding validated_call_def by blast
  have policy: "pd_decision (?eval ?c) = DAllow
      \<or> pd_decision (?eval ?c) = DAsk \<and> approved key stored allowed en (cb i) cwd ?c"
    by (rule decided_call_approved [OF assms(2) i open_gate valid])
  have gate: "g = Runs t (sc_input ?c) \<or> (\<exists>p. g = Served p \<and> dict_get served (sc_id ?c) = Some p)"
    using assms(4,5) execution_gate_open [OF assms(4,5)] t(1)
    by (auto simp: execution_gate_def split: option.splits if_splits)
  note hooked = prepared_call [OF assms(1,3) open_gate(1,2) t(1)]
  have "g = Runs t (sc_input ?c) \<or> (\<exists>p hook j. g = Served p \<and> hooks = Some hook \<and> j < length blocks
      \<and> (let c = offered_call str_of tools allowed caller (blocks ! j); r = snd (hook j c)
         in sc_id c = sc_id ?c \<and> hr_action r = ''resolve'' \<and> hr_output r = Some p))"
    using gate prepared_served [OF assms(1)] by blast
  moreover have "\<forall>offered. allowed = Some offered \<longrightarrow> tl_name (st_tool t) \<in> set offered"
    using t(4) name by simp
  ultimately show ?thesis using t(1,3) hooked policy unfolding Let_def by blast
qed

section \<open>Decisions survive a resumption\<close>

lemma permission_decision_roundtrip:
  "pd_decision d \<noteq> DAsk \<Longrightarrow> permission_decision_from_dict (permission_decision_to_dict d) = Inr d"
  by (cases "pd_decision d"; cases "pd_reason d")
    (auto simp: permission_decision_from_dict_def permission_decision_to_dict_def require_wire_version_def
      json_opt_string_def intro!: permission_decision.equality)

definition asked_keys ::
  "(string \<Rightarrow> json_obj \<Rightarrow> string) \<Rightarrow> (resolved_call \<times> permission_decision \<times> bool) list \<Rightarrow> string list" where
  "asked_keys key xs = map (\<lambda>(c, _). key (call_name c) (sc_input c)) (filter (\<lambda>(_, _, pending). pending) xs)"

lemma asked_keys_Cons [simp]:
  "asked_keys key [] = []"
  "asked_keys key ((c, d, pending) # xs)
   = (if pending then [key (call_name c) (sc_input c)] else []) @ asked_keys key xs"
  by (simp_all add: asked_keys_def)

lemma asked_keys_nth: "i < length xs \<Longrightarrow> xs ! i = (c, d, True) \<Longrightarrow> key (call_name c) (sc_input c) \<in> set (asked_keys key xs)"
  by (force simp: asked_keys_def dest: nth_mem)

lemma resolve_asks_stored:
  assumes "resolve_asks ask key k xs (Some s) = Inr (ds, stored')"
  shows "\<exists>s'. stored' = Some s'
     \<and> (\<forall>K. K \<notin> set (asked_keys key xs) \<longrightarrow> dict_get s' K = dict_get s K)
     \<and> (distinct (asked_keys key xs) \<longrightarrow>
         (\<forall>i < length xs. \<forall>c d. xs ! i = (c, d, True) \<longrightarrow> ask (k + i) c = Inr (ds ! i) \<longrightarrow> pd_decision (ds ! i) \<noteq> DAsk
           \<longrightarrow> dict_get s' (key (call_name c) (sc_input c)) = Some (permission_decision_to_dict (ds ! i))))"
  using assms
proof (induction xs arbitrary: k s ds)
  case (Cons x xs)
  obtain c d pending where x: "x = (c, d, pending)" by (metis prod_cases3)
  let ?key = "key (call_name c) (sc_input c)"
  from Cons.prems obtain d' s1 ds' where ds: "ds = d' # ds'"
    and rest: "resolve_asks ask key (Suc k) xs (Some s1) = Inr (ds', stored')"
    and frame: "s1 = s \<or> pending \<and> s1 = dict_set ?key (permission_decision_to_dict d') s"
    and made: "pending \<Longrightarrow> ask k c = Inr d' \<Longrightarrow> pd_decision d' \<noteq> DAsk \<Longrightarrow> s1 = dict_set ?key (permission_decision_to_dict d') s"
    unfolding x
    by (cases "ask k c"; cases pending; cases "pd_decision (projr (ask k c))")
      (auto simp: bind_result_Inr_iff split: if_splits)
  from Cons.IH [OF rest] obtain s' where s': "stored' = Some s'"
    and same: "\<And>K. K \<notin> set (asked_keys key xs) \<Longrightarrow> dict_get s' K = dict_get s1 K"
    and known: "distinct (asked_keys key xs) \<Longrightarrow> \<forall>i < length xs. \<forall>c d. xs ! i = (c, d, True) \<longrightarrow>
        ask (Suc k + i) c = Inr (ds' ! i) \<longrightarrow> pd_decision (ds' ! i) \<noteq> DAsk
        \<longrightarrow> dict_get s' (key (call_name c) (sc_input c)) = Some (permission_decision_to_dict (ds' ! i))"
    by blast
  have "dict_get s' K = dict_get s K" if "K \<notin> set (asked_keys key (x # xs))" for K
    using that same [of K] frame by (auto simp: x split: if_splits)
  moreover have "dict_get s' (key (call_name c1) (sc_input c1)) = Some (permission_decision_to_dict (ds ! i))"
    if dis: "distinct (asked_keys key (x # xs))" and i: "i < length (x # xs)" "(x # xs) ! i = (c1, d1, True)"
      and a: "ask (k + i) c1 = Inr (ds ! i)" "pd_decision (ds ! i) \<noteq> DAsk" for i c1 d1
  proof (cases i)
    case 0
    with i x have "c1 = c" "pending" by simp_all
    with 0 a ds made dis same [of ?key] show ?thesis by (simp add: x)
  next
    case (Suc j)
    from dis have "distinct (asked_keys key xs)" by (auto simp: x)
    from known [OF this] Suc i a ds show ?thesis by simp
  qed
  ultimately show ?case using s' by blast
qed auto

lemma resolve_asks_answer:
  assumes "resolve_asks ask key k xs stored = Inr (ds, stored')"
    and "i < length xs" and "xs ! i = (c, d, True)" and "ask (k + i) c = Inr d'"
  shows "ds ! i = d'"
  using assms
proof (induction xs arbitrary: k stored ds i)
  case (Cons x xs)
  show ?case
  proof (cases i)
    case 0
    with Cons.prems show ?thesis by (auto simp: bind_result_Inr_iff)
  next
    case (Suc j)
    obtain c1 d1 pending where x: "x = (c1, d1, pending)" by (metis prod_cases3)
    from resolve_asks_Cons [OF Cons.prems(1) [unfolded x]] obtain d2 s ds' where
      "ds = d2 # ds'" "resolve_asks ask key (Suc k) xs s = Inr (ds', stored')" by blast
    with Cons.IH [of "Suc k" s ds' j] Cons.prems(2-4) Suc show ?thesis by simp
  qed
qed simp

text \<open>Which calls the policy asks about, and which of them the first pass leaves to the host.\<close>

definition asks_about :: "(resolved_call \<Rightarrow> permission_decision) \<Rightarrow> (string, string) dict \<Rightarrow> resolved_call \<Rightarrow> bool" where
  "asks_about evaluate errors c = (\<not> sc_immediate_error c \<and> dict_get errors (sc_id c) = None
     \<and> pd_decision (evaluate c) = DAsk)"

lemma pending_asks_about:
  "first_decision evaluate key stored allowed errors c = Inr (d, True) \<Longrightarrow> asks_about evaluate errors c"
  by (auto simp: first_decision_def Let_def asks_about_def split: if_splits option.splits)

lemma asked_keys_distinct:
  assumes "\<And>i j. i < j \<Longrightarrow> j < length xs \<Longrightarrow> snd (snd (xs ! i)) \<Longrightarrow> snd (snd (xs ! j)) \<Longrightarrow>
      key (call_name (fst (xs ! i))) (sc_input (fst (xs ! i))) \<noteq> key (call_name (fst (xs ! j))) (sc_input (fst (xs ! j)))"
  shows "distinct (asked_keys key xs)"
  using assms
proof (induction xs)
  case (Cons x xs)
  obtain c d pending where x: "x = (c, d, pending)" by (metis prod_cases3)
  have "distinct (asked_keys key xs)"
    using Cons.prems [of "Suc i" "Suc j" for i j] by (intro Cons.IH) simp
  moreover have "key (call_name c) (sc_input c) \<notin> set (asked_keys key xs)" if "pending"
  proof
    assume "key (call_name c) (sc_input c) \<in> set (asked_keys key xs)"
    then obtain y where "y \<in> set xs" "snd (snd y)" "key (call_name (fst y)) (sc_input (fst y)) = key (call_name c) (sc_input c)"
      by (auto simp: asked_keys_def)
    moreover from this(1) obtain j where "j < length xs" "xs ! j = y" by (metis in_set_conv_nth)
    ultimately show False using Cons.prems [of 0 "Suc j"] that x by auto
  qed
  ultimately show ?case by (simp add: x)
qed simp

lemma map_result_all:
  "length ys = length xs \<Longrightarrow> (\<And>i. i < length xs \<Longrightarrow> f (xs ! i) = Inr (ys ! i)) \<Longrightarrow> map_result f xs = Inr ys"
proof (induction xs arbitrary: ys)
  case (Cons x xs)
  then obtain y ys' where ys: "ys = y # ys'" by (cases ys) auto
  from Cons.prems(2) [of 0] ys have "f x = Inr y" by simp
  moreover have "map_result f xs = Inr ys'"
    using Cons.prems(1) Cons.prems(2) [of "Suc i" for i] ys by (intro Cons.IH) auto
  ultimately show ?case by (simp add: ys)
qed simp

lemma resolve_asks_settled:
  "length ds = length calls \<Longrightarrow>
     resolve_asks ask key k (zip calls (map (\<lambda>d. (d, False)) ds)) stored = Inr (ds, stored)"
proof (induction calls arbitrary: ds k)
  case (Cons c calls)
  then show ?case by (cases ds) simp_all
qed simp

text \<open>The first pass of the resumed turn settles every call as before.\<close>

lemma resumed_first_decision:
  assumes "first_decision evaluate key (Some s) allowed errors c = Inr (d, pending)"
    and "\<not> pending \<Longrightarrow> d' = d \<and> (asks_about evaluate errors c \<longrightarrow>
           dict_get s' (key (call_name c) (sc_input c)) = dict_get s (key (call_name c) (sc_input c)))"
    and "pending \<Longrightarrow> pd_decision d' \<noteq> DAsk \<and>
           dict_get s' (key (call_name c) (sc_input c)) = Some (permission_decision_to_dict d')"
  shows "first_decision evaluate key (Some s') allowed errors c = Inr (d', False)"
proof (cases pending)
  case True
  with assms(1) have "asks_about evaluate errors c" by (intro pending_asks_about) simp
  with assms(3) [OF True] permission_decision_roundtrip [of d'] show ?thesis
    by (simp add: first_decision_def asks_about_def Let_def)
next
  case False
  with assms(2) have "d' = d" by blast
  show ?thesis
  proof (cases "asks_about evaluate errors c")
    case True
    with assms(2) [OF False] have "first_decision evaluate key (Some s') allowed errors c
        = first_decision evaluate key (Some s) allowed errors c"
      by (simp add: first_decision_def asks_about_def Let_def)
    with assms(1) False \<open>d' = d\<close> show ?thesis by simp
  next
    case no: False
    with assms(1) False \<open>d' = d\<close> show ?thesis
      by (auto simp: first_decision_def asks_about_def Let_def split: if_splits option.splits)
  qed
qed

text \<open>
  C5: Answers of the host survive a resumption. A turn recorded the answers the host gave to its
  questions. Run again on those records, with the same calls, hook refusals and policy, it decides
  every call exactly as before, whatever the host would say now: nothing is asked again, and the
  records stay as they are. This needs that every question was answered, rather than failing, and
  that the calls the policy asks about have different keys.
\<close>

theorem answers_survive_resumption:
  assumes "decide_turn evaluate ask key (Some s) allowed errors calls = Inr (ds, stored')"
    and "inj_on (\<lambda>i. key (call_name (calls ! i)) (sc_input (calls ! i)))
           {i. i < length calls \<and> asks_about evaluate errors (calls ! i)}"
    and "\<forall>i < length calls. \<forall>d. first_decision evaluate key (Some s) allowed errors (calls ! i) = Inr (d, True)
           \<longrightarrow> (\<exists>d'. ask i (calls ! i) = Inr d' \<and> pd_decision d' \<noteq> DAsk)"
  shows "decide_turn evaluate ask2 key stored' allowed errors calls = Inr (ds, stored')"
proof -
  let ?key = "\<lambda>c. key (call_name c) (sc_input c)"
  from assms(1) obtain firsts where
    firsts: "map_result (first_decision evaluate key (Some s) allowed errors) calls = Inr firsts"
    and asks: "resolve_asks ask key 0 (zip calls firsts) (Some s) = Inr (ds, stored')"
    by (auto simp: decide_turn_def bind_result_Inr_iff)
  have len: "length firsts = length calls" by (rule map_result_length [OF firsts])
  have first: "first_decision evaluate key (Some s) allowed errors (calls ! i) = Inr (firsts ! i)"
    if "i < length calls" for i
    using map_result_nth [OF firsts that] .
  have about: "asks_about evaluate errors (calls ! i)" if "i < length calls" "snd (firsts ! i)" for i
    using first [OF that(1)] that(2) pending_asks_about by (cases "firsts ! i") simp
  have dis: "distinct (asked_keys key (zip calls firsts))"
  proof (rule asked_keys_distinct)
    fix i j assume "i < j" "j < length (zip calls firsts)"
      and "snd (snd (zip calls firsts ! i))" "snd (snd (zip calls firsts ! j))"
    with len about [of i] about [of j] inj_onD [OF assms(2), of i j]
    show "?key (fst (zip calls firsts ! i)) \<noteq> ?key (fst (zip calls firsts ! j))" by auto
  qed
  obtain s' where s': "stored' = Some s'"
    and frame: "\<forall>K. K \<notin> set (asked_keys key (zip calls firsts)) \<longrightarrow> dict_get s' K = dict_get s K"
    and answers: "distinct (asked_keys key (zip calls firsts)) \<longrightarrow>
         (\<forall>i < length (zip calls firsts). \<forall>c d. zip calls firsts ! i = (c, d, True) \<longrightarrow> ask (0 + i) c = Inr (ds ! i)
           \<longrightarrow> pd_decision (ds ! i) \<noteq> DAsk \<longrightarrow> dict_get s' (?key c) = Some (permission_decision_to_dict (ds ! i)))"
    using resolve_asks_stored [OF asks] by blast
  note same = frame [rule_format] and kept = answers [rule_format, OF dis]
  note second = resolve_asks_nth [OF asks]
  have settled: "first_decision evaluate key (Some s') allowed errors (calls ! i) = Inr (ds ! i, False)"
    if i: "i < length calls" for i
  proof -
    obtain d pending where f: "firsts ! i = (d, pending)" by fastforce
    from second i len have "case zip calls firsts ! i of (c, d, pending) \<Rightarrow>
        if pending then ask (0 + i) c = Inr (ds ! i) \<or> pd_decision (ds ! i) = DDeny else ds ! i = d" by simp
    with f i len have now: "\<not> pending \<Longrightarrow> ds ! i = d" by simp
    from first [OF i] f have one: "first_decision evaluate key (Some s) allowed errors (calls ! i) = Inr (d, pending)" by simp
    show ?thesis
    proof (rule resumed_first_decision [OF one])
      assume no: "\<not> pending"
      have "?key (calls ! i) \<notin> set (asked_keys key (zip calls firsts))" if "asks_about evaluate errors (calls ! i)"
      proof
        assume "?key (calls ! i) \<in> set (asked_keys key (zip calls firsts))"
        then obtain j where j: "j < length calls" "snd (firsts ! j)" "?key (calls ! j) = ?key (calls ! i)"
          using len by (auto simp: asked_keys_def set_zip) (metis snd_conv)
        with about [OF j(1,2)] inj_onD [OF assms(2) j(3)] i that have "j = i" by simp
        with j(2) f no show False by simp
      qed
      with now no same show "ds ! i = d \<and> (asks_about evaluate errors (calls ! i) \<longrightarrow>
          dict_get s' (?key (calls ! i)) = dict_get s (?key (calls ! i)))" by simp
    next
      assume yes: "pending"
      from one yes have "first_decision evaluate key (Some s) allowed errors (calls ! i) = Inr (d, True)" by simp
      with assms(3) i obtain d' where d': "ask i (calls ! i) = Inr d'" "pd_decision d' \<noteq> DAsk" by blast
      with resolve_asks_answer [OF asks, of i "calls ! i" d d'] i len f yes have "ds ! i = d'" by simp
      with kept [of i "calls ! i" d] d' i len f yes show "pd_decision (ds ! i) \<noteq> DAsk \<and>
          dict_get s' (?key (calls ! i)) = Some (permission_decision_to_dict (ds ! i))" by simp
    qed
  qed
  have lends: "length ds = length calls" using second len by simp
  have "map_result (first_decision evaluate key stored' allowed errors) calls = Inr (map (\<lambda>d. (d, False)) ds)"
    using lends settled by (intro map_result_all) (simp_all add: s')
  then show ?thesis by (simp add: decide_turn_def resolve_asks_settled [OF lends])
qed

text \<open>
  An answer that is a failure of the callback, a network error for instance, is recorded like a
  denial of the host, since \<^verbatim>\<open>resolve\<close> turns it into one before the second pass sees it.
\<close>

lemma failed_callback_is_recorded:
  assumes "engine_evaluate resolve rx en pc = bare_decision DAsk" and "cb (callback_request en pc) = CbFailed"
  shows "resolve_asks (\<lambda>i c. resolve_permission resolve rx en (Some cb) False pc) key 0 [(c, bare_decision DAsk, True)] (Some s)
     = Inr ([denied (call_tool_name pc) ''permission callback failed or aborted.''],
            Some (dict_set (key (call_name c) (sc_input c))
              (permission_decision_to_dict (denied (call_tool_name pc) ''permission callback failed or aborted.'')) s))"
  using assms by (simp add: resolve_permission_def bare_decision_def denied_def Let_def)

section \<open>A concrete turn\<close>

text \<open>A tool that takes any input, called once; the host approves.\<close>

definition echo_tool :: sched_tool where
  "echo_tool = \<lparr>st_tool = \<lparr>tl_name = ''Echo'', tl_scope = ''exec'', tl_is_process = False, tl_summarize = (\<lambda>_. None)\<rparr>,
     st_validate = (\<lambda>d. Inr (JDict d)), st_parallel = ParallelFlag False, st_resources = None, st_retryable = False\<rparr>"

definition echo_call :: resolved_call where
  "echo_call = \<lparr>sc_id = ''c1'', sc_block_name = ''Echo'', sc_tool = Some echo_tool, sc_input = [],
     sc_summary = ''Echo(...)'', sc_immediate_error = False, sc_error_reason = None, sc_principal = None\<rparr>"

definition ask_engine :: engine where
  "ask_engine = \<lparr>en_mode = ''default'', en_rules = [], en_project_root = ''/w'', en_rule_set = None\<rparr>"

definition host_allows :: "can_use_tool_request \<Rightarrow> callback_outcome" where
  "host_allows r = CbReturned (JDict [(''behavior'', JStr ''allow'')])"

abbreviation plain_key :: "string \<Rightarrow> json_obj \<Rightarrow> string" where
  "plain_key \<equiv> \<lambda>name inp. name"

lemma echo_prepared:
  "prepare_turn (\<lambda>_. []) (\<lambda>n. if n = ''Echo'' then Some echo_tool else None) None None None [(''c1'', ''Echo'', [], None)]
   = ([echo_call], [], [] :: (string, unit) dict)"
  by (simp add: prepare_turn_def resolve_call_def echo_tool_def echo_call_def enforce_availability_def)

lemma echo_asked: "engine_evaluate resolve rx ask_engine (permission_of_call cwd echo_call) = bare_decision DAsk"
  by (simp add: engine_evaluate_def ask_engine_def permission_of_call_def echo_call_def echo_tool_def
      validate_pending_call_def evaluate_rule_list_def mode_default_def task_tool_names_def bare_decision_def
      blank_iff is_space_def call_tool_name_def call_object_def)

lemma echo_decided:
  "decide_turn (\<lambda>c. engine_evaluate resolve rx ask_engine (permission_of_call ''/w'' c))
     (\<lambda>i c. resolve_permission resolve rx ask_engine (Some host_allows) False (permission_of_call ''/w'' c))
     plain_key (Some []) None [] [echo_call]
   = Inr ([bare_decision DAllow], Some [(''Echo'', permission_decision_to_dict (bare_decision DAllow))])"
  by (simp add: decide_turn_def first_decision_def echo_asked resolve_permission_def host_allows_def Let_def
      bare_decision_def callback_decision_def)
    (simp add: echo_call_def echo_tool_def call_name_def)

theorem only_permitted_calls_run_witness:
  "\<exists>t. sc_tool echo_call = Some t \<and> approved plain_key (Some []) None ask_engine (Some host_allows) ''/w'' echo_call"
proof -
  have gate: "execution_gate [] ([] :: (string, unit) dict) ([echo_call] ! 0) ([bare_decision DAllow] ! 0) = Runs echo_tool []"
    by (simp add: execution_gate_def echo_call_def bare_decision_def)
  from only_permitted_calls_run [OF echo_prepared echo_decided [of id "\<lambda>_. None"] _ gate] show ?thesis
    by (auto simp: echo_asked bare_decision_def)
qed

theorem answers_survive_resumption_witness:
  "decide_turn (\<lambda>c. engine_evaluate id (\<lambda>_. None) ask_engine (permission_of_call ''/w'' c)) (\<lambda>_ _. Inl TimeoutError) plain_key
     (Some [(''Echo'', permission_decision_to_dict (bare_decision DAllow))]) None [] [echo_call]
   = Inr ([bare_decision DAllow], Some [(''Echo'', permission_decision_to_dict (bare_decision DAllow))])"
proof -
  have "resolve_permission id (\<lambda>_. None) ask_engine (Some host_allows) False (permission_of_call ''/w'' echo_call)
      = Inr (bare_decision DAllow)"
    by (simp add: resolve_permission_def echo_asked host_allows_def callback_decision_def Let_def bare_decision_def)
  then show ?thesis
    by (intro answers_survive_resumption [OF echo_decided]) (auto simp: inj_on_def bare_decision_def)
qed

end
