(* ===== verification/Tool_Output.thy ===== *)
theory Tool_Output
  imports Messages Decimal Durability
begin

text \<open>
  \<^verbatim>\<open>src/linch/tools/base.py\<close> and the first codecs of \<^verbatim>\<open>src/linch/events.py\<close>: tool results,
  citations, attachments and canonical tool outputs, their normalisation, and the dictionaries
  they are stored as. The record \<open>py_conv\<close> holds the two conversions of the decoders whose
  result on arbitrary text is left open: \<^verbatim>\<open>str()\<close> of a value that is not a string and
  \<^verbatim>\<open>float()\<close> of a string; neither is reached on data the encoders wrote.
\<close>

record py_conv =
  text_of :: "json \<Rightarrow> string"
  float_of_text :: "string \<Rightarrow> pyfloat result"

section \<open>Python conversions used by the codecs\<close>

text \<open>\<^verbatim>\<open>int(value)\<close>.\<close>

fun to_int :: "json \<Rightarrow> int result" where
  "to_int (JInt n) = Inr n"
| "to_int (JBool b) = Inr (if b then 1 else 0)"
| "to_int (JFloat (Fin q)) = Inr (if q < 0 then \<lceil>q\<rceil> else \<lfloor>q\<rfloor>)"
| "to_int (JFloat NaN) = Inl ValueError"
| "to_int (JFloat f) = Inl OverflowError"
| "to_int (JStr s) = py_int s"
| "to_int v = Inl TypeError"

text \<open>\<^verbatim>\<open>float(value)\<close>.\<close>

fun to_float :: "(string \<Rightarrow> pyfloat result) \<Rightarrow> json \<Rightarrow> pyfloat result" where
  "to_float rd (JInt n) = (case float_of_int n of None \<Rightarrow> Inl OverflowError | Some f \<Rightarrow> Inr f)"
| "to_float rd (JBool b) = Inr (Fin (if b then 1 else 0))"
| "to_float rd (JFloat f) = Inr f"
| "to_float rd (JStr s) = rd s"
| "to_float rd v = Inl TypeError"

text \<open>\<^verbatim>\<open>str(raw.get(k, ""))\<close> and \<^verbatim>\<open>int(raw.get(k, 0) or 0)\<close>.\<close>

definition text_field :: "py_conv \<Rightarrow> json_obj \<Rightarrow> string \<Rightarrow> string" where
  "text_field cv raw k = py_str (text_of cv) (raw_get raw k (JStr []))"

definition int_field :: "json_obj \<Rightarrow> string \<Rightarrow> int result" where
  "int_field raw k = (let v = raw_get raw k (JInt 0) in if truthy v then to_int v else Inr 0)"

definition bool_field :: "json_obj \<Rightarrow> string \<Rightarrow> bool" where
  "bool_field raw k = truthy (raw_get raw k (JBool False))"

text \<open>\<^verbatim>\<open>dict(raw.get(k, {}))\<close>, and the guarded forms that ignore a value of another type.\<close>

definition dict_field :: "json_obj \<Rightarrow> string \<Rightarrow> json_obj result" where
  "dict_field raw k = py_dict (raw_get raw k (JDict []))"

definition dict_or_empty :: "json_obj \<Rightarrow> string \<Rightarrow> json_obj" where
  "dict_or_empty raw k = (case dict_get raw k of Some (JDict d) \<Rightarrow> d | _ \<Rightarrow> [])"

definition dict_or_none :: "json_obj \<Rightarrow> string \<Rightarrow> json_obj option" where
  "dict_or_none raw k = (case dict_get raw k of Some (JDict d) \<Rightarrow> Some d | _ \<Rightarrow> None)"

definition text_or_none :: "json_obj \<Rightarrow> string \<Rightarrow> string option" where
  "text_or_none raw k = str_or_none (dict_get raw k)"

text \<open>\<^verbatim>\<open>float(v) if isinstance(v, (int, float)) else None\<close>; a \<^verbatim>\<open>bool\<close> is an \<^verbatim>\<open>int\<close>.\<close>

definition float_or_none :: "py_conv \<Rightarrow> json_obj \<Rightarrow> string \<Rightarrow> pyfloat option result" where
  "float_or_none cv raw k = (case dict_get raw k of
       Some (JInt n) \<Rightarrow> map_sum id Some (to_float (float_of_text cv) (JInt n))
     | Some (JBool b) \<Rightarrow> map_sum id Some (to_float (float_of_text cv) (JBool b))
     | Some (JFloat f) \<Rightarrow> Inr (Some f)
     | _ \<Rightarrow> Inr None)"

text \<open>An optional value as JSON, and an optional key of a dictionary literal.\<close>

definition json_opt :: "('a \<Rightarrow> json) \<Rightarrow> 'a option \<Rightarrow> json" where
  "json_opt f v = (case v of None \<Rightarrow> JNull | Some x \<Rightarrow> f x)"

definition opt_key :: "string \<Rightarrow> ('a \<Rightarrow> json) \<Rightarrow> 'a option \<Rightarrow> json_obj" where
  "opt_key k f v = (case v of None \<Rightarrow> [] | Some x \<Rightarrow> [(k, f x)])"

named_theorems codec_simps "the reading and writing of single fields"

lemmas [codec_simps] = text_field_def int_field_def bool_field_def dict_field_def
  dict_or_empty_def dict_or_none_def text_or_none_def float_or_none_def raw_get_def
  str_or_none_def

lemma opt_key_simps [simp]: "opt_key k f None = []" "opt_key k f (Some x) = [(k, f x)]"
  by (simp_all add: opt_key_def)

lemma json_opt_simps [simp]: "json_opt f None = JNull" "json_opt f (Some x) = f x"
  by (simp_all add: json_opt_def)

lemma dict_get_opt_key [simp]:
  "dict_get (opt_key k f v @ d) k'
   = (if k' = k \<and> v \<noteq> None then map_option f v else dict_get d k')"
  by (cases v) auto

lemma dict_get_opt_key_last [simp]:
  "dict_get (opt_key k f v) k' = (if k' = k then map_option f v else None)"
  by (cases v) auto

section \<open>Depth limits\<close>

definition ignorable_max_depth :: nat where
  "ignorable_max_depth = 100"

text \<open>
  \<^verbatim>\<open>_json_safe\<close>: a value nested too deeply is replaced by a marker. Values are trees of the
  JSON types here, so the branches for reference cycles and foreign objects do not arise.
\<close>

fun json_safe :: "nat \<Rightarrow> json \<Rightarrow> json" where
  "json_safe depth (JDict d) =
     (if depth \<ge> ignorable_max_depth then JStr ''<max-depth>''
      else JDict (map (\<lambda>(k, v). (k, json_safe (depth + 1) v)) d))"
| "json_safe depth (JList xs) =
     (if depth \<ge> ignorable_max_depth then JStr ''<max-depth>''
      else JList (map (json_safe (depth + 1)) xs))"
| "json_safe depth v = v"

text \<open>\<^verbatim>\<open>_within_depth\<close>: no container below the limit; its stack visits every value once.\<close>

fun within_depth :: "nat \<Rightarrow> nat \<Rightarrow> json \<Rightarrow> bool" where
  "within_depth limit depth (JDict d) =
     (depth < limit \<and> (\<forall>(k, v) \<in> set d. within_depth limit (depth + 1) v))"
| "within_depth limit depth (JList xs) =
     (depth < limit \<and> (\<forall>v \<in> set xs. within_depth limit (depth + 1) v))"
| "within_depth limit depth v = True"

text \<open>\<^verbatim>\<open>json.dumps\<close> accepts every tree of JSON values that is not too deep.\<close>

definition is_json_serializable :: "json \<Rightarrow> bool" where
  "is_json_serializable v = within_depth ignorable_max_depth 0 v"

lemma json_safe_within:
  "within_depth ignorable_max_depth depth v \<Longrightarrow> json_safe depth v = v"
proof (induction depth v rule: json_safe.induct)
  case (1 depth d)
  then have "map (\<lambda>(k, v). (k, json_safe (depth + 1) v)) d = d"
    by (intro map_idI) force
  with 1 show ?case by simp
next
  case (2 depth xs)
  then have "map (json_safe (depth + 1)) xs = xs"
    by (intro map_idI) auto
  with 2 show ?case by simp
qed simp_all

lemma json_safe_bounded:
  "depth \<le> ignorable_max_depth \<Longrightarrow> within_depth ignorable_max_depth depth (json_safe depth v)"
  by (induction depth v rule: json_safe.induct) (auto simp: not_le)

section \<open>Tool results\<close>

record citation =
  ct_id :: string
  ct_source :: string
  ct_label :: "string option"
  ct_chunk :: "string option"
  ct_score :: "pyfloat option"
  ct_metadata :: json_obj

record tool_result =
  tr_content :: string
  tr_summary :: string
  tr_is_error :: bool
  tr_metadata :: json_obj
  tr_citations :: "citation list"
  tr_attachments :: "json list"
  tr_duration_ms :: int
  tr_truncated :: bool
  tr_recovery_hint :: string

definition citation_to_dict :: "citation \<Rightarrow> json_obj" where
  "citation_to_dict c =
     [(''id'', JStr (ct_id c)), (''source'', JStr (ct_source c)),
      (''label'', json_opt JStr (ct_label c)), (''chunk'', json_opt JStr (ct_chunk c)),
      (''score'', json_opt JFloat (ct_score c)),
      (''metadata'', json_safe 0 (JDict (ct_metadata c)))]"

definition citation_from_dict :: "py_conv \<Rightarrow> json_obj \<Rightarrow> citation result" where
  "citation_from_dict cv raw =
     bind_result (float_or_none cv raw ''score'') (\<lambda>score.
       Inr \<lparr>ct_id = text_field cv raw ''id'', ct_source = text_field cv raw ''source'',
            ct_label = text_or_none raw ''label'', ct_chunk = text_or_none raw ''chunk'',
            ct_score = score, ct_metadata = dict_or_empty raw ''metadata''\<rparr>)"

definition tool_result_to_dict :: "tool_result \<Rightarrow> json_obj" where
  "tool_result_to_dict r =
     [(''content'', JStr (tr_content r)), (''summary'', JStr (tr_summary r)),
      (''is_error'', JBool (tr_is_error r)), (''metadata'', json_safe 0 (JDict (tr_metadata r))),
      (''citations'', JList (map (\<lambda>c. JDict (citation_to_dict c)) (tr_citations r))),
      (''duration_ms'', JInt (tr_duration_ms r)), (''truncated'', JBool (tr_truncated r))]
     @ (if tr_recovery_hint r \<noteq> [] then [(''recovery_hint'', JStr (tr_recovery_hint r))] else [])
     @ (if tr_attachments r \<noteq> [] \<and> list_all is_json_serializable (tr_attachments r)
        then [(''attachments'', JList (tr_attachments r))] else [])"

definition dicts_of :: "json list \<Rightarrow> json_obj list" where
  "dicts_of = List.map_filter (\<lambda>v. case v of JDict d \<Rightarrow> Some d | _ \<Rightarrow> None)"

definition tool_result_from_dict :: "py_conv \<Rightarrow> json_obj \<Rightarrow> tool_result result" where
  "tool_result_from_dict cv raw =
     bind_result (py_iter (raw_get raw ''citations'' (JList []))) (\<lambda>items.
     bind_result (map_result (citation_from_dict cv) (dicts_of items)) (\<lambda>cs.
     bind_result (int_field raw ''duration_ms'') (\<lambda>duration.
       Inr \<lparr>tr_content = text_field cv raw ''content'', tr_summary = text_field cv raw ''summary'',
            tr_is_error = bool_field raw ''is_error'', tr_metadata = dict_or_empty raw ''metadata'',
            tr_citations = cs,
            tr_attachments = (case raw_get raw ''attachments'' (JList []) of JList xs \<Rightarrow> xs | _ \<Rightarrow> []),
            tr_duration_ms = duration, tr_truncated = bool_field raw ''truncated'',
            tr_recovery_hint = text_field cv raw ''recovery_hint''\<rparr>)))"

text \<open>What survives the store: metadata and attachments within the depth limit.\<close>

definition storable_metadata :: "json_obj \<Rightarrow> bool" where
  "storable_metadata d = within_depth ignorable_max_depth 0 (JDict d)"

definition storable_result :: "tool_result \<Rightarrow> bool" where
  "storable_result r =
     (storable_metadata (tr_metadata r) \<and> list_all (storable_metadata \<circ> ct_metadata) (tr_citations r)
      \<and> list_all is_json_serializable (tr_attachments r))"

lemma json_safe_metadata [simp]: "storable_metadata d \<Longrightarrow> json_safe 0 (JDict d) = JDict d"
  unfolding storable_metadata_def by (rule json_safe_within)

lemma citation_roundtrip:
  assumes "storable_metadata (ct_metadata c)"
  shows "citation_from_dict cv (citation_to_dict c) = Inr c"
  using assms
  by (cases c) (auto simp: citation_from_dict_def citation_to_dict_def codec_simps json_opt_def
      simp del: json_safe.simps split: option.splits)

lemma dicts_of_map [simp]: "dicts_of (map (\<lambda>x. JDict (g x)) xs) = map g xs"
  by (induction xs) (simp_all add: dicts_of_def List.map_filter_def)

lemma tool_result_roundtrip:
  assumes "storable_result r"
  shows "tool_result_from_dict cv (tool_result_to_dict r) = Inr r"
proof -
  have "map_result (citation_from_dict cv) (map citation_to_dict (tr_citations r))
      = Inr (map id (tr_citations r))"
    using assms by (intro map_result_all_Inr)
      (simp add: citation_roundtrip storable_result_def list_all_iff)
  with assms show ?thesis
    by (cases r) (auto simp: tool_result_from_dict_def tool_result_to_dict_def codec_simps
        storable_result_def simp del: json_safe.simps)
qed

section \<open>Canonical tool outputs\<close>

text \<open>
  The dataclasses do not check their fields, so a field that \<^verbatim>\<open>normalize_tool_output\<close> checks
  holds the value it was given; \<^verbatim>\<open>None\<close> is \<^const>\<open>JNull\<close>.
\<close>

record tool_attachment =
  at_reference :: json
  at_name :: json
  at_media_type :: json
  at_metadata :: json

record tool_output_value =
  to_value :: json
  to_attachments :: "tool_attachment list"
  to_metadata :: json

record tool_output_error =
  oe_message :: json
  oe_code :: json
  oe_details :: json
  oe_attachments :: "tool_attachment list"
  oe_metadata :: json

datatype tool_output = ToolOutput tool_output_value | ToolOutputError tool_output_error

text \<open>Rebuilding a tree gives the tree back; what fails the check of \<^verbatim>\<open>walk_json\<close> raises.\<close>

definition normalize_json_value :: "json \<Rightarrow> json result" where
  "normalize_json_value v = (if validate_json 0 v then Inr v else Inl ValueError)"

definition normalize_metadata :: "json \<Rightarrow> json result" where
  "normalize_metadata v = bind_result (normalize_json_value v) (\<lambda>n.
     case n of JDict _ \<Rightarrow> Inr n | _ \<Rightarrow> Inl ValueError)"

definition text_or_null :: "json \<Rightarrow> bool" where
  "text_or_null v = (case v of JNull \<Rightarrow> True | JStr _ \<Rightarrow> True | _ \<Rightarrow> False)"

definition normalize_attachment :: "tool_attachment \<Rightarrow> tool_attachment result" where
  "normalize_attachment a =
     (if \<not> text_or_null (at_name a) then Inl ValueError
      else if \<not> text_or_null (at_media_type a) then Inl ValueError
      else bind_result (normalize_json_value (at_reference a)) (\<lambda>reference.
           bind_result (normalize_metadata (at_metadata a)) (\<lambda>metadata.
             Inr \<lparr>at_reference = reference, at_name = at_name a, at_media_type = at_media_type a,
                  at_metadata = metadata\<rparr>)))"

definition normalize_tool_output :: "tool_output \<Rightarrow> tool_output result" where
  "normalize_tool_output out = (case out of
       ToolOutputError e \<Rightarrow>
         (case oe_message e of
            JStr _ \<Rightarrow>
              if \<not> text_or_null (oe_code e) then Inl ValueError
              else bind_result (normalize_json_value (oe_details e)) (\<lambda>details.
                   bind_result (map_result normalize_attachment (oe_attachments e)) (\<lambda>attachments.
                   bind_result (normalize_metadata (oe_metadata e)) (\<lambda>metadata.
                     Inr (ToolOutputError
                       \<lparr>oe_message = oe_message e, oe_code = oe_code e, oe_details = details,
                        oe_attachments = attachments, oe_metadata = metadata\<rparr>))))
          | _ \<Rightarrow> Inl ValueError)
     | ToolOutput v \<Rightarrow>
         bind_result (normalize_json_value (to_value v)) (\<lambda>val.
         bind_result (map_result normalize_attachment (to_attachments v)) (\<lambda>attachments.
         bind_result (normalize_metadata (to_metadata v)) (\<lambda>metadata.
           Inr (ToolOutput
             \<lparr>to_value = val, to_attachments = attachments, to_metadata = metadata\<rparr>)))))"

text \<open>One attachment, normalised as the only attachment of an empty output.\<close>

definition lone_attachment :: "tool_attachment \<Rightarrow> tool_attachment result" where
  "lone_attachment a =
     bind_result (normalize_tool_output
                    (ToolOutput \<lparr>to_value = JNull, to_attachments = [a], to_metadata = JDict []\<rparr>))
       (\<lambda>out. case out of
          ToolOutput v \<Rightarrow> (case to_attachments v of x # _ \<Rightarrow> Inr x | [] \<Rightarrow> Inl IndexError)
        | ToolOutputError _ \<Rightarrow> Inl TypeError)"

definition tool_attachment_to_dict :: "tool_attachment \<Rightarrow> json_obj result" where
  "tool_attachment_to_dict a = bind_result (lone_attachment a) (\<lambda>item.
     Inr [(''reference'', at_reference item), (''name'', at_name item),
          (''media_type'', at_media_type item), (''metadata'', at_metadata item)])"

definition tool_attachment_from_dict :: "json_obj \<Rightarrow> tool_attachment result" where
  "tool_attachment_from_dict raw =
     lone_attachment
       \<lparr>at_reference = raw_get raw ''reference'' JNull, at_name = raw_get raw ''name'' JNull,
        at_media_type = raw_get raw ''media_type'' JNull,
        at_metadata = raw_get raw ''metadata'' (JDict [])\<rparr>"

definition tool_output_to_dict :: "tool_output \<Rightarrow> json_obj result" where
  "tool_output_to_dict out =
     bind_result (normalize_tool_output out) (\<lambda>normalized.
       case normalized of
         ToolOutputError e \<Rightarrow>
           bind_result (map_result tool_attachment_to_dict (oe_attachments e)) (\<lambda>items.
             Inr [(''kind'', JStr ''error''), (''message'', oe_message e), (''code'', oe_code e),
                  (''details'', oe_details e), (''attachments'', JList (map JDict items)),
                  (''metadata'', oe_metadata e)])
       | ToolOutput v \<Rightarrow>
           bind_result (map_result tool_attachment_to_dict (to_attachments v)) (\<lambda>items.
             Inr [(''kind'', JStr ''success''), (''value'', to_value v),
                  (''attachments'', JList (map JDict items)), (''metadata'', to_metadata v)]))"

fun attachment_from_json :: "json \<Rightarrow> tool_attachment result" where
  "attachment_from_json (JDict d) = tool_attachment_from_dict d"
| "attachment_from_json _ = Inl ValueError"

definition tool_output_from_dict :: "json_obj \<Rightarrow> tool_output result" where
  "tool_output_from_dict raw =
     (case raw_get raw ''attachments'' (JList []) of
        JList items \<Rightarrow>
          bind_result (map_result attachment_from_json items) (\<lambda>attachments.
          (let metadata = raw_get raw ''metadata'' (JDict []);
               kind = raw_get raw ''kind'' (JStr ''success'')
           in if kind = JStr ''error'' then
                (case raw_get raw ''message'' JNull of
                   JStr m \<Rightarrow>
                     normalize_tool_output (ToolOutputError
                       \<lparr>oe_message = JStr m, oe_code = raw_get raw ''code'' JNull,
                        oe_details = raw_get raw ''details'' JNull,
                        oe_attachments = attachments, oe_metadata = metadata\<rparr>)
                 | _ \<Rightarrow> Inl ValueError)
              else if kind = JStr ''success'' then
                normalize_tool_output (ToolOutput
                  \<lparr>to_value = raw_get raw ''value'' JNull, to_attachments = attachments,
                   to_metadata = metadata\<rparr>)
              else Inl ValueError))
      | _ \<Rightarrow> Inl ValueError)"

subsection \<open>Normalisation is a check\<close>

lemma normalize_json_Inr [simp]: "normalize_json_value v = Inr w \<longleftrightarrow> validate_json 0 v \<and> w = v"
  by (auto simp: normalize_json_value_def)

lemma normalize_metadata_Inr:
  "normalize_metadata v = Inr w \<longleftrightarrow> (\<exists>d. v = JDict d) \<and> validate_json 0 v \<and> w = v"
  by (auto simp: normalize_metadata_def bind_result_Inr_iff split: json.splits)

lemma map_result_check:
  assumes "\<And>x y. f x = Inr y \<Longrightarrow> y = x" and "map_result f xs = Inr ys"
  shows "ys = xs"
  using assms(2) by (induction xs arbitrary: ys) (auto simp: bind_result_Inr_iff dest: assms(1))

lemma normalize_attachment_same: "normalize_attachment a = Inr b \<Longrightarrow> b = a"
  by (cases a) (auto simp: normalize_attachment_def normalize_metadata_Inr bind_result_Inr_iff
      split: if_splits)

lemma normalize_value_Inr:
  "normalize_tool_output (ToolOutput v) = Inr out \<longleftrightarrow>
     validate_json 0 (to_value v) \<and> map_result normalize_attachment (to_attachments v) = Inr (to_attachments v)
     \<and> normalize_metadata (to_metadata v) = Inr (to_metadata v) \<and> out = ToolOutput v"
proof -
  have eq: "normalize_metadata m = Inr n \<Longrightarrow> n = m" for m n
    by (simp add: normalize_metadata_Inr)
  show ?thesis
    using map_result_check [OF normalize_attachment_same, of _ "to_attachments v"]
    by (cases v) (auto simp: normalize_tool_output_def bind_result_Inr_iff dest: eq)
qed

lemma normalize_error_Inr:
  "normalize_tool_output (ToolOutputError e) = Inr out \<longleftrightarrow>
     (\<exists>m. oe_message e = JStr m) \<and> text_or_null (oe_code e) \<and> validate_json 0 (oe_details e)
     \<and> map_result normalize_attachment (oe_attachments e) = Inr (oe_attachments e)
     \<and> normalize_metadata (oe_metadata e) = Inr (oe_metadata e) \<and> out = ToolOutputError e"
proof -
  have eq: "normalize_metadata m = Inr n \<Longrightarrow> n = m" for m n
    by (simp add: normalize_metadata_Inr)
  show ?thesis
    using map_result_check [OF normalize_attachment_same, of _ "oe_attachments e"]
    by (cases e) (auto simp: normalize_tool_output_def bind_result_Inr_iff dest: eq split: json.splits)
qed

lemma normalize_same: "normalize_tool_output out = Inr out' \<Longrightarrow> out' = out"
  by (cases out) (simp_all add: normalize_value_Inr normalize_error_Inr)

lemma lone_attachment_eq [simp]: "lone_attachment a = normalize_attachment a"
proof (cases "normalize_attachment a")
  case (Inr b)
  then show ?thesis
    by (simp add: lone_attachment_def normalize_tool_output_def normalize_json_value_def
        normalize_metadata_def strict_json_max_depth_def)
qed (simp add: lone_attachment_def normalize_tool_output_def normalize_json_value_def)

definition normalized :: "tool_output \<Rightarrow> bool" where
  "normalized out \<longleftrightarrow> normalize_tool_output out = Inr out"

lemma attachment_roundtrip:
  assumes "normalize_attachment a = Inr b"
  shows "\<exists>d. tool_attachment_to_dict a = Inr d \<and> attachment_from_json (JDict d) = Inr a"
  using assms normalize_attachment_same [OF assms]
  by (cases a) (auto simp: tool_attachment_to_dict_def tool_attachment_from_dict_def raw_get_def)

lemma attachments_roundtrip:
  assumes "map_result normalize_attachment xs = Inr ys"
  shows "\<exists>ds. map_result tool_attachment_to_dict xs = Inr ds
              \<and> map_result attachment_from_json (map JDict ds) = Inr xs"
  using assms
proof (induction xs arbitrary: ys)
  case (Cons x xs)
  then obtain y zs where y: "normalize_attachment x = Inr y"
    and zs: "map_result normalize_attachment xs = Inr zs"
    by (auto simp: bind_result_Inr_iff)
  from attachment_roundtrip [OF y] Cons.IH [OF zs] show ?case by auto
qed simp

lemma tool_output_roundtrip:
  assumes "normalized out"
  shows "\<exists>d. tool_output_to_dict out = Inr d \<and> tool_output_from_dict d = Inr out"
proof (cases out)
  case (ToolOutput v)
  from assms ToolOutput have n: "normalize_tool_output (ToolOutput v) = Inr (ToolOutput v)"
    by (simp add: normalized_def)
  with attachments_roundtrip obtain ds where
    "map_result tool_attachment_to_dict (to_attachments v) = Inr ds"
    "map_result attachment_from_json (map JDict ds) = Inr (to_attachments v)"
    by (fastforce simp: normalize_value_Inr)
  with n ToolOutput show ?thesis
    by (cases v) (simp add: tool_output_to_dict_def tool_output_from_dict_def raw_get_def)
next
  case (ToolOutputError e)
  from assms ToolOutputError have n: "normalize_tool_output (ToolOutputError e) = Inr (ToolOutputError e)"
    by (simp add: normalized_def)
  then obtain m where m: "oe_message e = JStr m" by (auto simp: normalize_error_Inr)
  from n attachments_roundtrip obtain ds where
    "map_result tool_attachment_to_dict (oe_attachments e) = Inr ds"
    "map_result attachment_from_json (map JDict ds) = Inr (oe_attachments e)"
    by (fastforce simp: normalize_error_Inr)
  with n m ToolOutputError show ?thesis
    by (cases e) (simp add: tool_output_to_dict_def tool_output_from_dict_def raw_get_def)
qed

lemma tool_output_from_dict_normalized:
  assumes "tool_output_from_dict raw = Inr out"
  shows "normalized out"
proof -
  from assms have "\<exists>x. normalize_tool_output x = Inr out"
    unfolding tool_output_from_dict_def Let_def
    by (cases "raw_get raw ''attachments'' (JList [])"; cases "raw_get raw ''message'' JNull")
      (auto simp: bind_result_Inr_iff split: if_splits)
  then show ?thesis using normalize_same by (auto simp: normalized_def)
qed

section \<open>Usage\<close>

definition usage_to_dict :: "usage \<Rightarrow> json_obj" where
  "usage_to_dict u =
     [(''input_tokens'', JInt (input_tokens u)), (''output_tokens'', JInt (output_tokens u)),
      (''cache_read_tokens'', JInt (cache_read_tokens u)),
      (''cache_creation_tokens'', JInt (cache_creation_tokens u))]"

definition usage_from_dict :: "json_obj \<Rightarrow> usage result" where
  "usage_from_dict raw =
     bind_result (int_field raw ''input_tokens'') (\<lambda>i.
     bind_result (int_field raw ''output_tokens'') (\<lambda>out.
     bind_result (int_field raw ''cache_read_tokens'') (\<lambda>r.
     bind_result (int_field raw ''cache_creation_tokens'') (\<lambda>c.
       Inr \<lparr>input_tokens = i, output_tokens = out, cache_read_tokens = r,
            cache_creation_tokens = c\<rparr>))))"

lemma usage_roundtrip [simp]: "usage_from_dict (usage_to_dict u) = Inr u"
  by (cases u) (simp add: usage_from_dict_def usage_to_dict_def codec_simps)

end
