(* ===== verification/Events.thy ===== *)
theory Events
  imports Tool_Output Ledger
begin

text \<open>
  The event classes of \<^verbatim>\<open>src/linch/events.py\<close>, one record per dataclass in the order of the
  source, their union, the type guards, and the validation of the envelope that carries an
  event of an unknown type. Literal-typed fields are strings, because the constructors do not
  check them; \<open>event_typed\<close> says which values the annotations allow. The class of an event
  that wraps another one, \<^verbatim>\<open>SubagentEvent\<close>, is a constructor with its five fields.
\<close>

section \<open>Event classes\<close>

record system_event =
  sy_session_id :: string
  sy_run_id :: string
  sy_model :: string
  sy_tools :: "string list"
  sy_permission_mode :: string
  sy_cwd :: string
  sy_trace_id :: "string option"

record user_event =
  ue_message :: message
  ue_subtype :: string

record assistant_event =
  ae_message :: message
  ae_stop_reason :: string

record partial_assistant_event =
  pe_delta :: json_obj

record tool_call_start_event =
  ts_tool_use_id :: string
  ts_tool_name :: string
  ts_input :: json_obj
  ts_summary :: string

record tool_call_end_event =
  te_tool_use_id :: string
  te_tool_name :: string
  te_result :: string
  te_is_error :: bool
  te_duration_ms :: int
  te_tool_result :: "tool_result option"
  te_tool_output :: "tool_output option"

record tool_progress_event =
  tp_tool_use_id :: string
  tp_tool_name :: string
  tp_message :: string
  tp_data :: "json_obj option"

record permission_request_item =
  pq_tool_use_id :: string
  pq_tool_name :: string
  pq_input :: json_obj
  pq_summary :: string

record permission_request_event =
  pr_requests :: "permission_request_item list"

record usage_event =
  ug_usage :: usage
  ug_cumulative :: usage
  ug_cost_usd :: "pyfloat option"
  ug_cumulative_cost_usd :: "pyfloat option"
  ug_source :: "string option"
  ug_call_id :: "string option"
  ug_logical_call_id :: "string option"
  ug_model :: "string option"

record budget_event =
  be_kind :: string
  be_spent_tokens :: int
  be_spent_usd :: pyfloat
  be_max_tokens :: "int option"
  be_max_cost_usd :: "pyfloat option"

record result_event =
  re_subtype :: string
  re_stop_reason :: string
  re_total_usage :: usage
  re_duration_ms :: int
  re_final_text :: "string option"
  re_structured_output :: "json_obj option"
  re_structured_error :: "string option"
  re_total_cost_usd :: "pyfloat option"
  re_usage_complete :: bool
  re_trace_id :: "string option"

record error_event =
  er_error :: json_obj

record compaction_event =
  ce_messages_before :: int
  ce_messages_after :: int
  ce_tokens_before :: int
  ce_tokens_after :: int
  ce_strategy :: string

record model_fallback_event =
  mf_from_model :: string
  mf_to_model :: string
  mf_reason :: string

record context_build_event =
  cb_system_blocks :: int
  cb_messages :: int
  cb_selected_tools :: "string list option"
  cb_budget :: json_obj
  cb_metadata :: json_obj

record skills_loaded_event =
  sl_skills :: "json list"

record skill_invoked_event =
  sk_name :: string
  sk_args :: "string option"
  sk_model_override :: "string option"
  sk_allowed_tools :: "string list option"

record skill_completed_event =
  sd_name :: string
  sd_is_error :: bool

record background_worker_event =
  bw_worker_id :: string
  bw_status :: string
  bw_display_name :: string

record loop_guard_event =
  lv_reason :: string
  lv_detail :: string
  lv_action :: string

record verification_event =
  ve_verifier :: string
  ve_action :: string
  ve_feedback :: string
  ve_attempt :: int

record hook_event_record =
  he_event :: string
  he_hook :: string
  he_action :: string
  he_reason :: string

record schedule_event =
  se_schedule_id :: string
  se_status :: string
  se_payload :: string

record workflow_event =
  we_kind :: string
  we_title :: string
  we_call_key :: string
  we_occurrence :: int
  we_subagent_type :: string
  we_result_text :: "string option"
  we_structured_output :: "json_obj option"
  we_structured_error :: "string option"

record prompt_cache_advisory_event =
  pc_reason :: string
  pc_detail :: string

record reliability_event =
  rl_mechanism :: string
  rl_action :: string
  rl_reason :: string
  rl_turn_index :: int
  rl_correction_count :: int

record ignorable_event =
  ig_original_type :: string
  ig_raw :: json_obj

datatype event =
    SystemEvent system_event
  | UserEvent user_event
  | AssistantEvent assistant_event
  | PartialAssistantEvent partial_assistant_event
  | ToolCallStartEvent tool_call_start_event
  | ToolProgressEvent tool_progress_event
  | ToolCallEndEvent tool_call_end_event
  | PermissionRequestEvent permission_request_event
  | UsageEvent usage_event
  | BudgetEvent budget_event
  | ModelCallEvent model_call_event
  | CompactionEvent compaction_event
  | ModelFallbackEvent model_fallback_event
  | ContextBuildEvent context_build_event
  | ResultEvent result_event
  | ErrorEvent error_event
  | SkillsLoadedEvent skills_loaded_event
  | SkillInvokedEvent skill_invoked_event
  | SkillCompletedEvent skill_completed_event
  | SubagentEvent string string string string event
  | BackgroundWorkerEvent background_worker_event
  | LoopGuardEvent loop_guard_event
  | VerificationEvent verification_event
  | HookEventRecord hook_event_record
  | ScheduleEvent schedule_event
  | WorkflowEvent workflow_event
  | PromptCacheAdvisoryEvent prompt_cache_advisory_event
  | ReliabilityEvent reliability_event
  | IgnorableEvent ignorable_event

text \<open>The field \<^verbatim>\<open>type\<close>, constant in every class but \<^verbatim>\<open>IgnorableEvent\<close>.\<close>

fun event_type :: "event \<Rightarrow> string" where
  "event_type (SystemEvent _) = ''system''"
| "event_type (UserEvent _) = ''user''"
| "event_type (AssistantEvent _) = ''assistant''"
| "event_type (PartialAssistantEvent _) = ''partial_assistant''"
| "event_type (ToolCallStartEvent _) = ''tool_call_start''"
| "event_type (ToolProgressEvent _) = ''tool_progress''"
| "event_type (ToolCallEndEvent _) = ''tool_call_end''"
| "event_type (PermissionRequestEvent _) = ''permission_request''"
| "event_type (UsageEvent _) = ''usage''"
| "event_type (BudgetEvent _) = ''budget''"
| "event_type (ModelCallEvent _) = ''model_call''"
| "event_type (CompactionEvent _) = ''compaction''"
| "event_type (ModelFallbackEvent _) = ''model_fallback''"
| "event_type (ContextBuildEvent _) = ''context_build''"
| "event_type (ResultEvent _) = ''result''"
| "event_type (ErrorEvent _) = ''error''"
| "event_type (SkillsLoadedEvent _) = ''skills_loaded''"
| "event_type (SkillInvokedEvent _) = ''skill_invoked''"
| "event_type (SkillCompletedEvent _) = ''skill_completed''"
| "event_type (SubagentEvent _ _ _ _ _) = ''subagent_event''"
| "event_type (BackgroundWorkerEvent _) = ''background_worker''"
| "event_type (LoopGuardEvent _) = ''loop_guard''"
| "event_type (VerificationEvent _) = ''verification''"
| "event_type (HookEventRecord _) = ''hook''"
| "event_type (ScheduleEvent _) = ''schedule''"
| "event_type (WorkflowEvent _) = ''workflow''"
| "event_type (PromptCacheAdvisoryEvent _) = ''prompt_cache_advisory''"
| "event_type (ReliabilityEvent _) = ''reliability''"
| "event_type (IgnorableEvent e) = ig_original_type e"

definition known_event_types :: "string list" where
  "known_event_types =
     [''assistant'', ''background_worker'', ''budget'', ''compaction'', ''context_build'',
      ''error'', ''hook'', ''loop_guard'', ''model_fallback'', ''model_call'',
      ''partial_assistant'', ''permission_request'', ''prompt_cache_advisory'', ''reliability'',
      ''result'', ''schedule'', ''skill_completed'', ''skill_invoked'', ''skills_loaded'',
      ''subagent_event'', ''system'', ''tool_call_end'', ''tool_call_start'', ''tool_progress'',
      ''usage'', ''user'', ''verification'', ''workflow'']"

definition workflow_event_kinds :: "string list" where
  "workflow_event_kinds =
     [''phase'', ''agent_start'', ''agent_end'', ''agent_replayed'', ''step_start'', ''step_end'',
      ''step_replayed'', ''interrupt_requested'', ''interrupt_resolved'', ''interrupt_replayed'']"

definition user_event_subtypes :: "string list" where
  "user_event_subtypes = [''prompt'', ''tool_result'', ''alignment'', ''notification'']"

definition prompt_cache_advisory_reasons :: "string list" where
  "prompt_cache_advisory_reasons = [''tool_set_changed'', ''model_changed'']"

definition result_subtypes :: "string list" where
  "result_subtypes = [''success'', ''error'', ''aborted'', ''interrupted'']"

definition event_stop_reasons :: "string list" where
  "event_stop_reasons =
     [''end_turn'', ''tool_use'', ''max_tokens'', ''stop_sequence'', ''refusal'', ''error'',
      ''lease_lost'', ''interrupted'']"

section \<open>Events of unknown type\<close>

text \<open>
  The traversal is that of \<^const>\<open>validate_json\<close>, with the same bound on the nesting and the
  same treatment of floats; here a violation is a \<^verbatim>\<open>ValueError\<close>.
\<close>

definition validate_ignorable_json_value :: "nat \<Rightarrow> json \<Rightarrow> unit result" where
  "validate_ignorable_json_value depth v =
     (if validate_json depth v then Inr () else Inl ValueError)"

definition validate_ignorable_envelope :: "json_obj \<Rightarrow> string option \<Rightarrow> nat \<Rightarrow> string result" where
  "validate_ignorable_envelope raw original_type depth =
     bind_result (validate_ignorable_json_value depth (JDict raw)) (\<lambda>_.
       case dict_get raw ''type'' of
         Some (JStr typ) \<Rightarrow>
           if typ = [] then Inl ValueError
           else if dict_get raw ''ignorable'' \<noteq> Some (JBool True) then Inl ValueError
           else if typ \<in> set known_event_types then Inl ValueError
           else if original_type \<noteq> None \<and> original_type \<noteq> Some typ then Inl ValueError
           else Inr typ
       | _ \<Rightarrow> Inl ValueError)"

definition copy_ignorable_envelope :: "json_obj \<Rightarrow> string option \<Rightarrow> json_obj result" where
  "copy_ignorable_envelope raw original_type =
     bind_result (validate_ignorable_envelope raw original_type 0) (\<lambda>_. Inr raw)"

definition new_ignorable_event :: "string \<Rightarrow> json_obj \<Rightarrow> ignorable_event result" where
  "new_ignorable_event original_type raw =
     bind_result (copy_ignorable_envelope raw (Some original_type)) (\<lambda>owned.
       Inr \<lparr>ig_original_type = original_type, ig_raw = owned\<rparr>)"

text \<open>The loop that unwraps nested subagent events, with the number of wrappers so far.\<close>

fun nested_ignorable_from :: "nat \<Rightarrow> event \<Rightarrow> unit result" where
  "nested_ignorable_from depth (SubagentEvent _ _ _ _ inner) = nested_ignorable_from (depth + 1) inner"
| "nested_ignorable_from depth (IgnorableEvent e) =
     bind_result (validate_ignorable_envelope (ig_raw e) (Some (ig_original_type e)) depth) (\<lambda>_. Inr ())"
| "nested_ignorable_from depth _ = Inr ()"

definition validate_nested_ignorable :: "event \<Rightarrow> unit result" where
  "validate_nested_ignorable e = nested_ignorable_from 0 e"

section \<open>Type guards\<close>

definition is_system_event :: "event \<Rightarrow> bool" where
  "is_system_event e = (event_type e = ''system'')"

definition is_assistant_event :: "event \<Rightarrow> bool" where
  "is_assistant_event e = (event_type e = ''assistant'')"

definition is_user_event :: "event \<Rightarrow> bool" where
  "is_user_event e = (event_type e = ''user'')"

definition is_partial_assistant_event :: "event \<Rightarrow> bool" where
  "is_partial_assistant_event e = (event_type e = ''partial_assistant'')"

definition is_tool_call_start_event :: "event \<Rightarrow> bool" where
  "is_tool_call_start_event e = (event_type e = ''tool_call_start'')"

definition is_tool_call_end_event :: "event \<Rightarrow> bool" where
  "is_tool_call_end_event e = (event_type e = ''tool_call_end'')"

definition is_tool_progress_event :: "event \<Rightarrow> bool" where
  "is_tool_progress_event e = (event_type e = ''tool_progress'')"

definition is_permission_request_event :: "event \<Rightarrow> bool" where
  "is_permission_request_event e = (event_type e = ''permission_request'')"

definition is_usage_event :: "event \<Rightarrow> bool" where
  "is_usage_event e = (event_type e = ''usage'')"

fun is_ignorable_event :: "event \<Rightarrow> bool" where
  "is_ignorable_event (IgnorableEvent _) = True"
| "is_ignorable_event _ = False"

definition is_model_call_event :: "event \<Rightarrow> bool" where
  "is_model_call_event e = (event_type e = ''model_call'')"

definition is_budget_event :: "event \<Rightarrow> bool" where
  "is_budget_event e = (event_type e = ''budget'')"

definition is_compaction_event :: "event \<Rightarrow> bool" where
  "is_compaction_event e = (event_type e = ''compaction'')"

definition is_context_build_event :: "event \<Rightarrow> bool" where
  "is_context_build_event e = (event_type e = ''context_build'')"

definition is_result_event :: "event \<Rightarrow> bool" where
  "is_result_event e = (event_type e = ''result'')"

definition is_error_event :: "event \<Rightarrow> bool" where
  "is_error_event e = (event_type e = ''error'')"

definition is_skills_loaded_event :: "event \<Rightarrow> bool" where
  "is_skills_loaded_event e = (event_type e = ''skills_loaded'')"

definition is_skill_invoked_event :: "event \<Rightarrow> bool" where
  "is_skill_invoked_event e = (event_type e = ''skill_invoked'')"

definition is_skill_completed_event :: "event \<Rightarrow> bool" where
  "is_skill_completed_event e = (event_type e = ''skill_completed'')"

definition is_subagent_event :: "event \<Rightarrow> bool" where
  "is_subagent_event e = (event_type e = ''subagent_event'')"

definition is_loop_guard_event :: "event \<Rightarrow> bool" where
  "is_loop_guard_event e = (event_type e = ''loop_guard'')"

definition is_verification_event :: "event \<Rightarrow> bool" where
  "is_verification_event e = (event_type e = ''verification'')"

definition is_hook_event :: "event \<Rightarrow> bool" where
  "is_hook_event e = (event_type e = ''hook'')"

definition is_workflow_event :: "event \<Rightarrow> bool" where
  "is_workflow_event e = (event_type e = ''workflow'')"

end
