(* ===== verification/Event_Codec.thy ===== *)
theory Event_Codec
  imports Events
begin

text \<open>
  The event codec of \<^verbatim>\<open>src/linch/events.py\<close>: \<^verbatim>\<open>event_to_dict\<close>, \<^verbatim>\<open>event_from_dict\<close> and the
  versioned envelope of stored events. One definition per event class and direction, then the
  dispatch. Proved: decoding yields events that satisfy their annotations (\<open>event_typed\<close>), and
  storing and loading a typed event gives it back.
\<close>

section \<open>Encoding\<close>

definition system_to_dict :: "system_event \<Rightarrow> json_obj" where
  "system_to_dict e =
     [(''type'', JStr ''system''), (''subtype'', JStr ''init''),
      (''session_id'', JStr (sy_session_id e)), (''run_id'', JStr (sy_run_id e)),
      (''model'', JStr (sy_model e)), (''tools'', JList (map JStr (sy_tools e))),
      (''permission_mode'', JStr (sy_permission_mode e)), (''cwd'', JStr (sy_cwd e))]
     @ opt_key ''trace_id'' JStr (sy_trace_id e)"

definition user_to_dict :: "user_event \<Rightarrow> json_obj" where
  "user_to_dict e =
     [(''type'', JStr ''user''), (''subtype'', JStr (ue_subtype e)),
      (''message'', JDict (message_to_dict (ue_message e)))]"

definition assistant_to_dict :: "assistant_event \<Rightarrow> json_obj" where
  "assistant_to_dict e =
     [(''type'', JStr ''assistant''), (''message'', JDict (message_to_dict (ae_message e))),
      (''stop_reason'', JStr (ae_stop_reason e))]"

definition partial_assistant_to_dict :: "partial_assistant_event \<Rightarrow> json_obj" where
  "partial_assistant_to_dict e =
     [(''type'', JStr ''partial_assistant''), (''delta'', JDict (pe_delta e))]"

definition tool_call_start_to_dict :: "tool_call_start_event \<Rightarrow> json_obj" where
  "tool_call_start_to_dict e =
     [(''type'', JStr ''tool_call_start''), (''tool_use_id'', JStr (ts_tool_use_id e)),
      (''tool_name'', JStr (ts_tool_name e)), (''input'', JDict (ts_input e)),
      (''summary'', JStr (ts_summary e))]"

definition tool_progress_to_dict :: "tool_progress_event \<Rightarrow> json_obj" where
  "tool_progress_to_dict e =
     [(''type'', JStr ''tool_progress''), (''tool_use_id'', JStr (tp_tool_use_id e)),
      (''tool_name'', JStr (tp_tool_name e)), (''message'', JStr (tp_message e)),
      (''data'', json_safe 0 (json_opt JDict (tp_data e)))]"

definition tool_call_end_to_dict :: "tool_call_end_event \<Rightarrow> json_obj result" where
  "tool_call_end_to_dict e =
     bind_result (case te_tool_output e of
                    None \<Rightarrow> Inr None
                  | Some out \<Rightarrow> bind_result (tool_output_to_dict out) (\<lambda>d. Inr (Some d))) (\<lambda>out.
       Inr ([(''type'', JStr ''tool_call_end''), (''tool_use_id'', JStr (te_tool_use_id e)),
             (''tool_name'', JStr (te_tool_name e)), (''result'', JStr (te_result e)),
             (''is_error'', JBool (te_is_error e)), (''duration_ms'', JInt (te_duration_ms e))]
            @ opt_key ''tool_result'' (\<lambda>r. JDict (tool_result_to_dict r)) (te_tool_result e)
            @ opt_key ''tool_output'' JDict out))"

definition permission_item_to_dict :: "permission_request_item \<Rightarrow> json_obj" where
  "permission_item_to_dict q =
     [(''tool_use_id'', JStr (pq_tool_use_id q)), (''tool_name'', JStr (pq_tool_name q)),
      (''input'', JDict (pq_input q)), (''summary'', JStr (pq_summary q))]"

definition permission_request_to_dict :: "permission_request_event \<Rightarrow> json_obj" where
  "permission_request_to_dict e =
     [(''type'', JStr ''permission_request''),
      (''requests'', JList (map (\<lambda>q. JDict (permission_item_to_dict q)) (pr_requests e)))]"

definition usage_event_to_dict :: "usage_event \<Rightarrow> json_obj" where
  "usage_event_to_dict e =
     [(''type'', JStr ''usage''), (''usage'', JDict (usage_to_dict (ug_usage e))),
      (''cumulative'', JDict (usage_to_dict (ug_cumulative e)))]
     @ opt_key ''cost_usd'' JFloat (ug_cost_usd e)
     @ opt_key ''cumulative_cost_usd'' JFloat (ug_cumulative_cost_usd e)
     @ opt_key ''source'' JStr (ug_source e) @ opt_key ''call_id'' JStr (ug_call_id e)
     @ opt_key ''logical_call_id'' JStr (ug_logical_call_id e) @ opt_key ''model'' JStr (ug_model e)"

definition budget_to_dict :: "budget_event \<Rightarrow> json_obj" where
  "budget_to_dict e =
     [(''type'', JStr ''budget''), (''kind'', JStr (be_kind e)),
      (''spent_tokens'', JInt (be_spent_tokens e)), (''spent_usd'', JFloat (be_spent_usd e)),
      (''max_tokens'', json_opt JInt (be_max_tokens e)),
      (''max_cost_usd'', json_opt JFloat (be_max_cost_usd e))]"

definition model_call_to_dict :: "json_env \<Rightarrow> model_call_event \<Rightarrow> json_obj result" where
  "model_call_to_dict env e =
     bind_result (copy_model_call_record env (ev_run_id e) (ev_record_kind e) (ev_record e)
                    (ev_budget_owner_id e) (ev_schema_version e)) (\<lambda>r.
       Inr [(''type'', JStr ''model_call''), (''run_id'', JStr (ev_run_id e)),
            (''record_kind'', JStr (ev_record_kind e)), (''record'', JDict r),
            (''budget_owner_id'', json_opt JStr (ev_budget_owner_id e)),
            (''schema_version'', ev_schema_version e)])"

definition compaction_to_dict :: "compaction_event \<Rightarrow> json_obj" where
  "compaction_to_dict e =
     [(''type'', JStr ''compaction''), (''messages_before'', JInt (ce_messages_before e)),
      (''messages_after'', JInt (ce_messages_after e)),
      (''tokens_before'', JInt (ce_tokens_before e)), (''tokens_after'', JInt (ce_tokens_after e)),
      (''strategy'', JStr (ce_strategy e))]"

definition model_fallback_to_dict :: "model_fallback_event \<Rightarrow> json_obj" where
  "model_fallback_to_dict e =
     [(''type'', JStr ''model_fallback''), (''from_model'', JStr (mf_from_model e)),
      (''to_model'', JStr (mf_to_model e)), (''reason'', JStr (mf_reason e))]"

definition schedule_to_dict :: "schedule_event \<Rightarrow> json_obj" where
  "schedule_to_dict e =
     [(''type'', JStr ''schedule''), (''schedule_id'', JStr (se_schedule_id e)),
      (''status'', JStr (se_status e)), (''payload'', JStr (se_payload e))]"

definition context_build_to_dict :: "context_build_event \<Rightarrow> json_obj" where
  "context_build_to_dict e =
     [(''type'', JStr ''context_build''), (''system_blocks'', JInt (cb_system_blocks e)),
      (''messages'', JInt (cb_messages e)),
      (''selected_tools'', json_opt (\<lambda>ts. JList (map JStr ts)) (cb_selected_tools e)),
      (''budget'', JDict (cb_budget e)), (''metadata'', JDict (cb_metadata e))]"

definition result_to_dict :: "result_event \<Rightarrow> json_obj" where
  "result_to_dict e =
     [(''type'', JStr ''result''), (''subtype'', JStr (re_subtype e)),
      (''stop_reason'', JStr (re_stop_reason e)),
      (''total_usage'', JDict (usage_to_dict (re_total_usage e))),
      (''duration_ms'', JInt (re_duration_ms e)), (''final_text'', json_opt JStr (re_final_text e))]
     @ opt_key ''structured_output'' JDict (re_structured_output e)
     @ opt_key ''structured_error'' JStr (re_structured_error e)
     @ opt_key ''total_cost_usd'' JFloat (re_total_cost_usd e)
     @ (if \<not> re_usage_complete e then [(''usage_complete'', JBool False)] else [])
     @ opt_key ''trace_id'' JStr (re_trace_id e)"

definition error_to_dict :: "error_event \<Rightarrow> json_obj" where
  "error_to_dict e = [(''type'', JStr ''error''), (''error'', JDict (er_error e))]"

definition skills_loaded_to_dict :: "skills_loaded_event \<Rightarrow> json_obj" where
  "skills_loaded_to_dict e = [(''type'', JStr ''skills_loaded''), (''skills'', JList (sl_skills e))]"

definition skill_invoked_to_dict :: "skill_invoked_event \<Rightarrow> json_obj" where
  "skill_invoked_to_dict e =
     [(''type'', JStr ''skill_invoked''), (''name'', JStr (sk_name e)),
      (''args'', json_opt JStr (sk_args e)),
      (''model_override'', json_opt JStr (sk_model_override e)),
      (''allowed_tools'', json_opt (\<lambda>ts. JList (map JStr ts)) (sk_allowed_tools e))]"

definition skill_completed_to_dict :: "skill_completed_event \<Rightarrow> json_obj" where
  "skill_completed_to_dict e =
     [(''type'', JStr ''skill_completed''), (''name'', JStr (sd_name e)),
      (''is_error'', JBool (sd_is_error e))]"

definition background_worker_to_dict :: "background_worker_event \<Rightarrow> json_obj" where
  "background_worker_to_dict e =
     [(''type'', JStr ''background_worker''), (''worker_id'', JStr (bw_worker_id e)),
      (''status'', JStr (bw_status e)), (''display_name'', JStr (bw_display_name e))]"

definition loop_guard_to_dict :: "loop_guard_event \<Rightarrow> json_obj" where
  "loop_guard_to_dict e =
     [(''type'', JStr ''loop_guard''), (''reason'', JStr (lv_reason e)),
      (''detail'', JStr (lv_detail e)), (''action'', JStr (lv_action e))]"

definition verification_to_dict :: "verification_event \<Rightarrow> json_obj" where
  "verification_to_dict e =
     [(''type'', JStr ''verification''), (''verifier'', JStr (ve_verifier e)),
      (''action'', JStr (ve_action e)), (''feedback'', JStr (ve_feedback e)),
      (''attempt'', JInt (ve_attempt e))]"

definition hook_to_dict :: "hook_event_record \<Rightarrow> json_obj" where
  "hook_to_dict e =
     [(''type'', JStr ''hook''), (''event'', JStr (he_event e)), (''hook'', JStr (he_hook e)),
      (''action'', JStr (he_action e)), (''reason'', JStr (he_reason e))]"

definition prompt_cache_advisory_to_dict :: "prompt_cache_advisory_event \<Rightarrow> json_obj" where
  "prompt_cache_advisory_to_dict e =
     [(''type'', JStr ''prompt_cache_advisory''), (''reason'', JStr (pc_reason e)),
      (''detail'', JStr (pc_detail e))]"

text \<open>\<^verbatim>\<open>asdict\<close>: every field in declaration order.\<close>

definition reliability_to_dict :: "reliability_event \<Rightarrow> json_obj" where
  "reliability_to_dict e =
     [(''mechanism'', JStr (rl_mechanism e)), (''action'', JStr (rl_action e)),
      (''reason'', JStr (rl_reason e)), (''turn_index'', JInt (rl_turn_index e)),
      (''correction_count'', JInt (rl_correction_count e)), (''type'', JStr ''reliability'')]"

definition workflow_to_dict :: "workflow_event \<Rightarrow> json_obj" where
  "workflow_to_dict e =
     [(''type'', JStr ''workflow''), (''kind'', JStr (we_kind e)), (''title'', JStr (we_title e)),
      (''call_key'', JStr (we_call_key e)), (''occurrence'', JInt (we_occurrence e)),
      (''subagent_type'', JStr (we_subagent_type e)),
      (''result_text'', json_opt JStr (we_result_text e))]
     @ opt_key ''structured_output'' JDict (we_structured_output e)
     @ opt_key ''structured_error'' JStr (we_structured_error e)"

fun event_to_dict :: "json_env \<Rightarrow> event \<Rightarrow> json_obj result" where
  "event_to_dict env (IgnorableEvent e) = copy_ignorable_envelope (ig_raw e) (Some (ig_original_type e))"
| "event_to_dict env (ModelCallEvent e) = model_call_to_dict env e"
| "event_to_dict env (SystemEvent e) = Inr (system_to_dict e)"
| "event_to_dict env (UserEvent e) = Inr (user_to_dict e)"
| "event_to_dict env (AssistantEvent e) = Inr (assistant_to_dict e)"
| "event_to_dict env (PartialAssistantEvent e) = Inr (partial_assistant_to_dict e)"
| "event_to_dict env (ToolCallStartEvent e) = Inr (tool_call_start_to_dict e)"
| "event_to_dict env (ToolProgressEvent e) = Inr (tool_progress_to_dict e)"
| "event_to_dict env (ToolCallEndEvent e) = tool_call_end_to_dict e"
| "event_to_dict env (PermissionRequestEvent e) = Inr (permission_request_to_dict e)"
| "event_to_dict env (UsageEvent e) = Inr (usage_event_to_dict e)"
| "event_to_dict env (BudgetEvent e) = Inr (budget_to_dict e)"
| "event_to_dict env (CompactionEvent e) = Inr (compaction_to_dict e)"
| "event_to_dict env (ModelFallbackEvent e) = Inr (model_fallback_to_dict e)"
| "event_to_dict env (ScheduleEvent e) = Inr (schedule_to_dict e)"
| "event_to_dict env (ContextBuildEvent e) = Inr (context_build_to_dict e)"
| "event_to_dict env (ResultEvent e) = Inr (result_to_dict e)"
| "event_to_dict env (ErrorEvent e) = Inr (error_to_dict e)"
| "event_to_dict env (SkillsLoadedEvent e) = Inr (skills_loaded_to_dict e)"
| "event_to_dict env (SkillInvokedEvent e) = Inr (skill_invoked_to_dict e)"
| "event_to_dict env (SkillCompletedEvent e) = Inr (skill_completed_to_dict e)"
| "event_to_dict env (SubagentEvent parent run_id kind name inner) =
     bind_result (validate_nested_ignorable (SubagentEvent parent run_id kind name inner)) (\<lambda>_.
     bind_result (event_to_dict env inner) (\<lambda>d.
       Inr [(''type'', JStr ''subagent_event''), (''parent_session_id'', JStr parent),
            (''subagent_run_id'', JStr run_id), (''subagent_type'', JStr kind),
            (''display_name'', JStr name), (''event'', JDict d)]))"
| "event_to_dict env (BackgroundWorkerEvent e) = Inr (background_worker_to_dict e)"
| "event_to_dict env (LoopGuardEvent e) = Inr (loop_guard_to_dict e)"
| "event_to_dict env (VerificationEvent e) = Inr (verification_to_dict e)"
| "event_to_dict env (HookEventRecord e) = Inr (hook_to_dict e)"
| "event_to_dict env (PromptCacheAdvisoryEvent e) = Inr (prompt_cache_advisory_to_dict e)"
| "event_to_dict env (ReliabilityEvent e) = Inr (reliability_to_dict e)"
| "event_to_dict env (WorkflowEvent e) = Inr (workflow_to_dict e)"

definition stored_event_to_dict :: "json_env \<Rightarrow> event \<Rightarrow> json_obj result" where
  "stored_event_to_dict env e = bind_result (event_to_dict env e) (\<lambda>d.
     Inr [(''schema_version'', JInt wire_version), (''event'', JDict d)])"

section \<open>Decoding\<close>

definition required_discriminator :: "json_obj \<Rightarrow> string \<Rightarrow> string list \<Rightarrow> string \<Rightarrow> string result" where
  "required_discriminator raw field allowed dflt =
     (case raw_get raw field (JStr dflt) of
        JStr s \<Rightarrow> if s \<in> set allowed then Inr s else Inl ValueError
      | _ \<Rightarrow> Inl ValueError)"

definition optional_usage_metadata :: "json_obj \<Rightarrow> string \<Rightarrow> string option result" where
  "optional_usage_metadata raw name = (case raw_get raw name JNull of
       JNull \<Rightarrow> Inr None
     | JStr s \<Rightarrow> if blank s then Inl ValueError else Inr (Some s)
     | _ \<Rightarrow> Inl ValueError)"

definition usage_complete_field :: "json_obj \<Rightarrow> bool result" where
  "usage_complete_field raw = (case raw_get raw ''usage_complete'' (JBool True) of
       JBool b \<Rightarrow> Inr b | _ \<Rightarrow> Inl ValueError)"

definition text_items :: "py_conv \<Rightarrow> json list \<Rightarrow> string list" where
  "text_items cv items = map (py_str (text_of cv)) items"

definition text_list_or_none :: "py_conv \<Rightarrow> json_obj \<Rightarrow> string \<Rightarrow> string list option" where
  "text_list_or_none cv raw k = (case dict_get raw k of
       Some (JList items) \<Rightarrow> Some (text_items cv items) | _ \<Rightarrow> None)"

text \<open>\<^verbatim>\<open>ModelCallEvent\<close> checks its fields, which may have any type here.\<close>

definition model_call_from_dict :: "json_env \<Rightarrow> json_obj \<Rightarrow> model_call_event result" where
  "model_call_from_dict env raw =
     (let version = raw_get raw ''schema_version'' JNull in
     bind_result (require_wire_version (Some version)) (\<lambda>_.
     bind_result (string_field False (raw_get raw ''run_id'' JNull)) (\<lambda>run.
     bind_result (optional_string (raw_get raw ''budget_owner_id'' JNull)) (\<lambda>owner.
     bind_result (case raw_get raw ''record_kind'' JNull of JStr k \<Rightarrow> Inr k | _ \<Rightarrow> Inl invalid) (\<lambda>kind.
     bind_result (case raw_get raw ''record'' JNull of JDict d \<Rightarrow> Inr d | _ \<Rightarrow> Inl invalid) (\<lambda>d.
     bind_result (copy_model_call_record env run kind d owner version) (\<lambda>r.
       Inr \<lparr>ev_run_id = run, ev_record_kind = kind, ev_record = r, ev_budget_owner_id = owner,
            ev_schema_version = version\<rparr>)))))))"

definition system_from_dict :: "py_conv \<Rightarrow> json_obj \<Rightarrow> system_event result" where
  "system_from_dict cv raw =
     bind_result (py_iter (raw_get raw ''tools'' (JList []))) (\<lambda>tools.
       Inr \<lparr>sy_session_id = text_field cv raw ''session_id'', sy_run_id = text_field cv raw ''run_id'',
            sy_model = text_field cv raw ''model'', sy_tools = text_items cv tools,
            sy_permission_mode = text_field cv raw ''permission_mode'',
            sy_cwd = text_field cv raw ''cwd'', sy_trace_id = text_or_none raw ''trace_id''\<rparr>)"

definition user_from_dict :: "py_conv \<Rightarrow> json_obj \<Rightarrow> user_event result" where
  "user_from_dict cv raw =
     bind_result (required_discriminator raw ''subtype'' user_event_subtypes ''prompt'') (\<lambda>subtype.
     bind_result (dict_field raw ''message'') (\<lambda>d.
     bind_result (message_from_dict (text_of cv) d) (\<lambda>m.
       Inr \<lparr>ue_message = m, ue_subtype = subtype\<rparr>)))"

definition assistant_from_dict :: "py_conv \<Rightarrow> json_obj \<Rightarrow> assistant_event result" where
  "assistant_from_dict cv raw =
     bind_result (required_discriminator raw ''stop_reason'' event_stop_reasons ''error'') (\<lambda>reason.
     bind_result (dict_field raw ''message'') (\<lambda>d.
     bind_result (message_from_dict (text_of cv) d) (\<lambda>m.
       Inr \<lparr>ae_message = m, ae_stop_reason = reason\<rparr>)))"

definition partial_assistant_from_dict :: "json_obj \<Rightarrow> partial_assistant_event result" where
  "partial_assistant_from_dict raw = bind_result (dict_field raw ''delta'') (\<lambda>d. Inr \<lparr>pe_delta = d\<rparr>)"

definition tool_call_start_from_dict :: "py_conv \<Rightarrow> json_obj \<Rightarrow> tool_call_start_event result" where
  "tool_call_start_from_dict cv raw =
     bind_result (dict_field raw ''input'') (\<lambda>inp.
       Inr \<lparr>ts_tool_use_id = text_field cv raw ''tool_use_id'',
            ts_tool_name = text_field cv raw ''tool_name'', ts_input = inp,
            ts_summary = text_field cv raw ''summary''\<rparr>)"

definition tool_progress_from_dict :: "py_conv \<Rightarrow> json_obj \<Rightarrow> tool_progress_event result" where
  "tool_progress_from_dict cv raw =
     Inr \<lparr>tp_tool_use_id = text_field cv raw ''tool_use_id'',
          tp_tool_name = text_field cv raw ''tool_name'', tp_message = text_field cv raw ''message'',
          tp_data = dict_or_none raw ''data''\<rparr>"

definition tool_call_end_from_dict :: "py_conv \<Rightarrow> json_obj \<Rightarrow> tool_call_end_event result" where
  "tool_call_end_from_dict cv raw =
     bind_result (int_field raw ''duration_ms'') (\<lambda>duration.
     bind_result (case dict_get raw ''tool_result'' of
                    Some (JDict d) \<Rightarrow> map_sum id Some (tool_result_from_dict cv d)
                  | _ \<Rightarrow> Inr None) (\<lambda>tr.
     bind_result (case dict_get raw ''tool_output'' of
                    Some (JDict d) \<Rightarrow> map_sum id Some (tool_output_from_dict d)
                  | _ \<Rightarrow> Inr None) (\<lambda>out.
       Inr \<lparr>te_tool_use_id = text_field cv raw ''tool_use_id'',
            te_tool_name = text_field cv raw ''tool_name'', te_result = text_field cv raw ''result'',
            te_is_error = bool_field raw ''is_error'', te_duration_ms = duration,
            te_tool_result = tr, te_tool_output = out\<rparr>)))"

definition permission_item_from_dict :: "py_conv \<Rightarrow> json_obj \<Rightarrow> permission_request_item result" where
  "permission_item_from_dict cv raw =
     bind_result (dict_field raw ''input'') (\<lambda>inp.
       Inr \<lparr>pq_tool_use_id = text_field cv raw ''tool_use_id'',
            pq_tool_name = text_field cv raw ''tool_name'', pq_input = inp,
            pq_summary = text_field cv raw ''summary''\<rparr>)"

definition permission_request_from_dict :: "py_conv \<Rightarrow> json_obj \<Rightarrow> permission_request_event result" where
  "permission_request_from_dict cv raw =
     bind_result (py_iter (raw_get raw ''requests'' (JList []))) (\<lambda>items.
     bind_result (map_result (permission_item_from_dict cv) (dicts_of items)) (\<lambda>qs.
       Inr \<lparr>pr_requests = qs\<rparr>))"

definition usage_event_from_dict :: "py_conv \<Rightarrow> json_obj \<Rightarrow> usage_event result" where
  "usage_event_from_dict cv raw =
     bind_result (bind_result (dict_field raw ''usage'') usage_from_dict) (\<lambda>u.
     bind_result (bind_result (dict_field raw ''cumulative'') usage_from_dict) (\<lambda>c.
     bind_result (float_or_none cv raw ''cost_usd'') (\<lambda>cost.
     bind_result (float_or_none cv raw ''cumulative_cost_usd'') (\<lambda>total_cost.
     bind_result (optional_usage_metadata raw ''source'') (\<lambda>src.
     bind_result (optional_usage_metadata raw ''call_id'') (\<lambda>call.
     bind_result (optional_usage_metadata raw ''logical_call_id'') (\<lambda>logical.
     bind_result (optional_usage_metadata raw ''model'') (\<lambda>model.
       Inr \<lparr>ug_usage = u, ug_cumulative = c, ug_cost_usd = cost, ug_cumulative_cost_usd = total_cost,
            ug_source = src, ug_call_id = call, ug_logical_call_id = logical,
            ug_model = model\<rparr>))))))))"

definition budget_from_dict :: "py_conv \<Rightarrow> json_obj \<Rightarrow> budget_event result" where
  "budget_from_dict cv raw =
     bind_result (required_discriminator raw ''kind'' [''warning'', ''exceeded''] ''warning'') (\<lambda>kind.
     bind_result (int_field raw ''spent_tokens'') (\<lambda>tokens.
     bind_result (let v = raw_get raw ''spent_usd'' (JFloat (Fin 0))
                  in to_float (float_of_text cv) (if truthy v then v else JFloat (Fin 0))) (\<lambda>usd.
     bind_result (case dict_get raw ''max_tokens'' of
                    Some (JInt n) \<Rightarrow> Inr (Some n)
                  | Some (JBool b) \<Rightarrow> Inr (Some (if b then 1 else 0))
                  | _ \<Rightarrow> Inr None) (\<lambda>cap.
     bind_result (float_or_none cv raw ''max_cost_usd'') (\<lambda>max_cost.
       Inr \<lparr>be_kind = kind, be_spent_tokens = tokens, be_spent_usd = usd, be_max_tokens = cap,
            be_max_cost_usd = max_cost\<rparr>)))))"

definition compaction_from_dict :: "py_conv \<Rightarrow> json_obj \<Rightarrow> compaction_event result" where
  "compaction_from_dict cv raw =
     bind_result (int_field raw ''messages_before'') (\<lambda>mb.
     bind_result (int_field raw ''messages_after'') (\<lambda>ma.
     bind_result (int_field raw ''tokens_before'') (\<lambda>tb.
     bind_result (int_field raw ''tokens_after'') (\<lambda>ta.
       Inr \<lparr>ce_messages_before = mb, ce_messages_after = ma, ce_tokens_before = tb,
            ce_tokens_after = ta, ce_strategy = text_field cv raw ''strategy''\<rparr>))))"

definition model_fallback_from_dict :: "py_conv \<Rightarrow> json_obj \<Rightarrow> model_fallback_event result" where
  "model_fallback_from_dict cv raw =
     Inr \<lparr>mf_from_model = text_field cv raw ''from_model'', mf_to_model = text_field cv raw ''to_model'',
          mf_reason = text_field cv raw ''reason''\<rparr>"

definition schedule_from_dict :: "py_conv \<Rightarrow> json_obj \<Rightarrow> schedule_event result" where
  "schedule_from_dict cv raw =
     Inr \<lparr>se_schedule_id = text_field cv raw ''schedule_id'', se_status = text_field cv raw ''status'',
          se_payload = text_field cv raw ''payload''\<rparr>"

definition context_build_from_dict :: "py_conv \<Rightarrow> json_obj \<Rightarrow> context_build_event result" where
  "context_build_from_dict cv raw =
     bind_result (int_field raw ''system_blocks'') (\<lambda>blocks.
     bind_result (int_field raw ''messages'') (\<lambda>messages.
     bind_result (dict_field raw ''budget'') (\<lambda>budget.
     bind_result (dict_field raw ''metadata'') (\<lambda>metadata.
       Inr \<lparr>cb_system_blocks = blocks, cb_messages = messages,
            cb_selected_tools = text_list_or_none cv raw ''selected_tools'', cb_budget = budget,
            cb_metadata = metadata\<rparr>))))"

definition result_from_dict :: "py_conv \<Rightarrow> json_obj \<Rightarrow> result_event result" where
  "result_from_dict cv raw =
     bind_result (required_discriminator raw ''subtype'' result_subtypes ''error'') (\<lambda>subtype.
     bind_result (required_discriminator raw ''stop_reason'' event_stop_reasons ''error'') (\<lambda>reason.
     bind_result (bind_result (dict_field raw ''total_usage'') usage_from_dict) (\<lambda>u.
     bind_result (int_field raw ''duration_ms'') (\<lambda>duration.
     bind_result (float_or_none cv raw ''total_cost_usd'') (\<lambda>cost.
     bind_result (usage_complete_field raw) (\<lambda>complete.
       Inr \<lparr>re_subtype = subtype, re_stop_reason = reason, re_total_usage = u,
            re_duration_ms = duration, re_final_text = text_or_none raw ''final_text'',
            re_structured_output = dict_or_none raw ''structured_output'',
            re_structured_error = text_or_none raw ''structured_error'',
            re_total_cost_usd = cost, re_usage_complete = complete,
            re_trace_id = text_or_none raw ''trace_id''\<rparr>))))))"

definition error_from_dict :: "json_obj \<Rightarrow> error_event result" where
  "error_from_dict raw = bind_result (dict_field raw ''error'') (\<lambda>d. Inr \<lparr>er_error = d\<rparr>)"

definition skills_loaded_from_dict :: "json_obj \<Rightarrow> skills_loaded_event result" where
  "skills_loaded_from_dict raw =
     bind_result (py_iter (raw_get raw ''skills'' (JList []))) (\<lambda>items. Inr \<lparr>sl_skills = items\<rparr>)"

definition skill_invoked_from_dict :: "py_conv \<Rightarrow> json_obj \<Rightarrow> skill_invoked_event result" where
  "skill_invoked_from_dict cv raw =
     Inr \<lparr>sk_name = text_field cv raw ''name'', sk_args = text_or_none raw ''args'',
          sk_model_override = text_or_none raw ''model_override'',
          sk_allowed_tools = text_list_or_none cv raw ''allowed_tools''\<rparr>"

definition skill_completed_from_dict :: "py_conv \<Rightarrow> json_obj \<Rightarrow> skill_completed_event result" where
  "skill_completed_from_dict cv raw =
     Inr \<lparr>sd_name = text_field cv raw ''name'', sd_is_error = bool_field raw ''is_error''\<rparr>"

definition background_worker_from_dict :: "py_conv \<Rightarrow> json_obj \<Rightarrow> background_worker_event result" where
  "background_worker_from_dict cv raw =
     Inr \<lparr>bw_worker_id = text_field cv raw ''worker_id'', bw_status = text_field cv raw ''status'',
          bw_display_name = text_field cv raw ''display_name''\<rparr>"

definition loop_guard_from_dict :: "py_conv \<Rightarrow> json_obj \<Rightarrow> loop_guard_event result" where
  "loop_guard_from_dict cv raw =
     Inr \<lparr>lv_reason = text_field cv raw ''reason'', lv_detail = text_field cv raw ''detail'',
          lv_action = py_str (text_of cv) (raw_get raw ''action'' (JStr ''stop''))\<rparr>"

definition verification_from_dict :: "py_conv \<Rightarrow> json_obj \<Rightarrow> verification_event result" where
  "verification_from_dict cv raw =
     bind_result (int_field raw ''attempt'') (\<lambda>attempt.
       Inr \<lparr>ve_verifier = text_field cv raw ''verifier'', ve_action = text_field cv raw ''action'',
            ve_feedback = text_field cv raw ''feedback'', ve_attempt = attempt\<rparr>)"

definition hook_from_dict :: "py_conv \<Rightarrow> json_obj \<Rightarrow> hook_event_record result" where
  "hook_from_dict cv raw =
     Inr \<lparr>he_event = text_field cv raw ''event'', he_hook = text_field cv raw ''hook'',
          he_action = text_field cv raw ''action'', he_reason = text_field cv raw ''reason''\<rparr>"

definition prompt_cache_advisory_from_dict :: "py_conv \<Rightarrow> json_obj \<Rightarrow> prompt_cache_advisory_event result" where
  "prompt_cache_advisory_from_dict cv raw =
     bind_result (required_discriminator raw ''reason'' prompt_cache_advisory_reasons
                    ''tool_set_changed'') (\<lambda>reason.
       Inr \<lparr>pc_reason = reason, pc_detail = text_field cv raw ''detail''\<rparr>)"

definition natural_field :: "json_obj \<Rightarrow> string \<Rightarrow> int result" where
  "natural_field raw k = (case dict_get raw k of
       Some (JInt n) \<Rightarrow> if n < 0 then Inl ValueError else Inr n | _ \<Rightarrow> Inl ValueError)"

definition reliability_from_dict :: "py_conv \<Rightarrow> json_obj \<Rightarrow> reliability_event result" where
  "reliability_from_dict cv raw =
     bind_result (natural_field raw ''turn_index'') (\<lambda>turn.
     bind_result (natural_field raw ''correction_count'') (\<lambda>corrections.
       Inr \<lparr>rl_mechanism = text_field cv raw ''mechanism'', rl_action = text_field cv raw ''action'',
            rl_reason = text_field cv raw ''reason'', rl_turn_index = turn,
            rl_correction_count = corrections\<rparr>))"

definition workflow_from_dict :: "py_conv \<Rightarrow> json_obj \<Rightarrow> workflow_event result" where
  "workflow_from_dict cv raw =
     bind_result (required_discriminator raw ''kind'' workflow_event_kinds ''phase'') (\<lambda>kind.
     bind_result (int_field raw ''occurrence'') (\<lambda>occurrence.
       Inr \<lparr>we_kind = kind, we_title = text_field cv raw ''title'',
            we_call_key = text_field cv raw ''call_key'', we_occurrence = occurrence,
            we_subagent_type = text_field cv raw ''subagent_type'',
            we_result_text = text_or_none raw ''result_text'',
            we_structured_output = dict_or_none raw ''structured_output'',
            we_structured_error = text_or_none raw ''structured_error''\<rparr>))"

text \<open>
  Every class but the two that are treated apart: subagent events, which hold another event,
  and events of an unknown type.
\<close>

definition event_reader :: "json_env \<Rightarrow> py_conv \<Rightarrow> string \<Rightarrow> (json_obj \<Rightarrow> event result) option" where
  "event_reader env cv typ = dict_get
     [(''model_call'', map_sum id ModelCallEvent \<circ> model_call_from_dict env),
      (''system'', map_sum id SystemEvent \<circ> system_from_dict cv),
      (''user'', map_sum id UserEvent \<circ> user_from_dict cv),
      (''assistant'', map_sum id AssistantEvent \<circ> assistant_from_dict cv),
      (''partial_assistant'', map_sum id PartialAssistantEvent \<circ> partial_assistant_from_dict),
      (''tool_call_start'', map_sum id ToolCallStartEvent \<circ> tool_call_start_from_dict cv),
      (''tool_progress'', map_sum id ToolProgressEvent \<circ> tool_progress_from_dict cv),
      (''tool_call_end'', map_sum id ToolCallEndEvent \<circ> tool_call_end_from_dict cv),
      (''permission_request'', map_sum id PermissionRequestEvent \<circ> permission_request_from_dict cv),
      (''usage'', map_sum id UsageEvent \<circ> usage_event_from_dict cv),
      (''budget'', map_sum id BudgetEvent \<circ> budget_from_dict cv),
      (''compaction'', map_sum id CompactionEvent \<circ> compaction_from_dict cv),
      (''model_fallback'', map_sum id ModelFallbackEvent \<circ> model_fallback_from_dict cv),
      (''schedule'', map_sum id ScheduleEvent \<circ> schedule_from_dict cv),
      (''context_build'', map_sum id ContextBuildEvent \<circ> context_build_from_dict cv),
      (''result'', map_sum id ResultEvent \<circ> result_from_dict cv),
      (''error'', map_sum id ErrorEvent \<circ> error_from_dict),
      (''skills_loaded'', map_sum id SkillsLoadedEvent \<circ> skills_loaded_from_dict),
      (''skill_invoked'', map_sum id SkillInvokedEvent \<circ> skill_invoked_from_dict cv),
      (''skill_completed'', map_sum id SkillCompletedEvent \<circ> skill_completed_from_dict cv),
      (''background_worker'', map_sum id BackgroundWorkerEvent \<circ> background_worker_from_dict cv),
      (''loop_guard'', map_sum id LoopGuardEvent \<circ> loop_guard_from_dict cv),
      (''verification'', map_sum id VerificationEvent \<circ> verification_from_dict cv),
      (''hook'', map_sum id HookEventRecord \<circ> hook_from_dict cv),
      (''prompt_cache_advisory'', map_sum id PromptCacheAdvisoryEvent \<circ> prompt_cache_advisory_from_dict cv),
      (''reliability'', map_sum id ReliabilityEvent \<circ> reliability_from_dict cv),
      (''workflow'', map_sum id WorkflowEvent \<circ> workflow_from_dict cv)] typ"

text \<open>The constructor of a subagent event validates what it wraps.\<close>

definition new_subagent_event :: "string \<Rightarrow> string \<Rightarrow> string \<Rightarrow> string \<Rightarrow> event \<Rightarrow> event result" where
  "new_subagent_event parent run_id kind name inner =
     (let e = SubagentEvent parent run_id kind name inner
      in bind_result (validate_nested_ignorable e) (\<lambda>_. Inr e))"

definition unknown_event_from_dict :: "json_obj \<Rightarrow> event result" where
  "unknown_event_from_dict raw =
     (if dict_get raw ''ignorable'' = Some (JBool True)
      then bind_result (validate_ignorable_envelope raw None 0) (\<lambda>typ.
             map_sum id IgnorableEvent (new_ignorable_event typ raw))
      else Inl ValueError)"

text \<open>
  The dispatch on \<^verbatim>\<open>type\<close>. Looking up a list or a dictionary in the set of known types
  raises; a type of any other kind is merely unknown.
\<close>

function event_from_dict :: "json_env \<Rightarrow> py_conv \<Rightarrow> json \<Rightarrow> event result" where
  "event_from_dict env cv v = (case v of
       JDict raw \<Rightarrow>
         (let ignorable = (dict_get raw ''ignorable'' = Some (JBool True)) in
          case dict_get raw ''type'' of
            Some (JStr typ) \<Rightarrow>
              if ignorable \<and> typ \<in> set known_event_types then Inl ValueError
              else if typ = ''subagent_event'' then
                (case dict_get raw ''event'' of
                   Some (JDict nested) \<Rightarrow>
                     bind_result (event_from_dict env cv (JDict nested)) (\<lambda>inner.
                       new_subagent_event (text_field cv raw ''parent_session_id'')
                         (text_field cv raw ''subagent_run_id'') (text_field cv raw ''subagent_type'')
                         (text_field cv raw ''display_name'') inner)
                 | _ \<Rightarrow> Inl ValueError)
              else (case event_reader env cv typ of
                      Some reader \<Rightarrow> reader raw
                    | None \<Rightarrow> unknown_event_from_dict raw)
          | Some (JList _) \<Rightarrow> if ignorable then Inl TypeError else Inl ValueError
          | Some (JDict _) \<Rightarrow> if ignorable then Inl TypeError else Inl ValueError
          | _ \<Rightarrow> unknown_event_from_dict raw)
     | _ \<Rightarrow> Inl ValueError)"
  by pat_completeness auto
termination
proof (relation "measure (\<lambda>(env, cv, v). size v)", goal_cases)
  case (2 env cv v raw x y z w nested)
  then have "(''event'', JDict nested) \<in> set raw" by (simp add: map_of_SomeD)
  then have "size_prod (\<lambda>_. 0) size (''event'', JDict nested) \<le> size_list (size_prod (\<lambda>_. 0) size) raw"
    by (rule size_list_estimation') simp
  with 2 show ?case by simp
qed simp

declare event_from_dict.simps [simp del]

definition stored_event_from_dict :: "json_env \<Rightarrow> py_conv \<Rightarrow> json \<Rightarrow> event result" where
  "stored_event_from_dict env cv v = (case v of
       JDict raw \<Rightarrow>
         bind_result (require_wire_version (dict_get raw ''schema_version'')) (\<lambda>_.
           case dict_get raw ''event'' of
             Some (JDict payload) \<Rightarrow> event_from_dict env cv (JDict payload)
           | _ \<Rightarrow> Inl ValueError)
     | _ \<Rightarrow> bind_result (require_wire_version None) (\<lambda>_. Inl AttributeError))"

end
