(* ===== verification/Event_Roundtrip.thy ===== *)
theory Event_Roundtrip
  imports Event_Codec
begin

text \<open>
  What the event codec guarantees: a decoded event satisfies its annotations, and a typed event
  within the depth limits survives being stored and loaded.
\<close>

section \<open>Events as their annotations allow them\<close>

definition usage_metadata_ok :: "string option \<Rightarrow> bool" where
  "usage_metadata_ok v = (case v of None \<Rightarrow> True | Some s \<Rightarrow> \<not> blank s)"

fun event_wf :: "json_env \<Rightarrow> event \<Rightarrow> bool" where
  "event_wf env (UserEvent e) =
     (ue_subtype e \<in> set user_event_subtypes \<and> wf_message (ue_message e))"
| "event_wf env (AssistantEvent e) =
     (ae_stop_reason e \<in> set event_stop_reasons \<and> wf_message (ae_message e))"
| "event_wf env (ToolCallEndEvent e) =
     (case te_tool_output e of None \<Rightarrow> True | Some out \<Rightarrow> normalized out)"
| "event_wf env (UsageEvent e) =
     list_all usage_metadata_ok [ug_source e, ug_call_id e, ug_logical_call_id e, ug_model e]"
| "event_wf env (BudgetEvent e) = (be_kind e \<in> {''warning'', ''exceeded''})"
| "event_wf env (ModelCallEvent e) =
     (copy_model_call_record env (ev_run_id e) (ev_record_kind e) (ev_record e)
        (ev_budget_owner_id e) (ev_schema_version e) = Inr (ev_record e))"
| "event_wf env (ResultEvent e) =
     (re_subtype e \<in> set result_subtypes \<and> re_stop_reason e \<in> set event_stop_reasons)"
| "event_wf env (SubagentEvent parent run_id kind name inner) =
     (event_wf env inner
      \<and> validate_nested_ignorable (SubagentEvent parent run_id kind name inner) = Inr ())"
| "event_wf env (WorkflowEvent e) = (we_kind e \<in> set workflow_event_kinds)"
| "event_wf env (PromptCacheAdvisoryEvent e) = (pc_reason e \<in> set prompt_cache_advisory_reasons)"
| "event_wf env (ReliabilityEvent e) = (0 \<le> rl_turn_index e \<and> 0 \<le> rl_correction_count e)"
| "event_wf env (IgnorableEvent e) =
     (validate_ignorable_envelope (ig_raw e) (Some (ig_original_type e)) 0 = Inr (ig_original_type e))"
| "event_wf env _ = True"

text \<open>
  Together with the types of the records these are the annotations of the event classes, but for
  one: the items of \<^verbatim>\<open>SkillsLoadedEvent.skills\<close>, annotated as dictionaries, are any values here, as
  the decoder accepts them. The annotations with that one:
\<close>

fun is_dict_value :: "json \<Rightarrow> bool" where
  "is_dict_value (JDict _) = True"
| "is_dict_value _ = False"

fun event_typed :: "json_env \<Rightarrow> event \<Rightarrow> bool" where
  "event_typed env (SkillsLoadedEvent e) = list_all is_dict_value (sl_skills e)"
| "event_typed env (SubagentEvent parent run_id kind name inner) =
     (event_typed env inner
      \<and> validate_nested_ignorable (SubagentEvent parent run_id kind name inner) = Inr ())"
| "event_typed env e = event_wf env e"



text \<open>Values nested beyond the limit are replaced by a marker when they are stored.\<close>

fun event_storable :: "event \<Rightarrow> bool" where
  "event_storable (ToolProgressEvent e) =
     (case tp_data e of None \<Rightarrow> True | Some d \<Rightarrow> storable_metadata d)"
| "event_storable (ToolCallEndEvent e) =
     (case te_tool_result e of None \<Rightarrow> True | Some r \<Rightarrow> storable_result r)"
| "event_storable (SubagentEvent _ _ _ _ inner) = event_storable inner"
| "event_storable _ = True"

section \<open>One class at a time\<close>

named_theorems event_codec "encoding and decoding of the event classes"

lemmas [event_codec] = system_to_dict_def user_to_dict_def assistant_to_dict_def
  partial_assistant_to_dict_def tool_call_start_to_dict_def tool_progress_to_dict_def
  permission_item_to_dict_def permission_request_to_dict_def
  usage_event_to_dict_def budget_to_dict_def compaction_to_dict_def
  model_fallback_to_dict_def schedule_to_dict_def context_build_to_dict_def result_to_dict_def
  error_to_dict_def skills_loaded_to_dict_def skill_invoked_to_dict_def skill_completed_to_dict_def
  background_worker_to_dict_def loop_guard_to_dict_def verification_to_dict_def hook_to_dict_def
  prompt_cache_advisory_to_dict_def reliability_to_dict_def workflow_to_dict_def
  system_from_dict_def user_from_dict_def assistant_from_dict_def
  partial_assistant_from_dict_def tool_call_start_from_dict_def tool_progress_from_dict_def
  permission_item_from_dict_def permission_request_from_dict_def
  usage_event_from_dict_def budget_from_dict_def compaction_from_dict_def
  model_fallback_from_dict_def schedule_from_dict_def context_build_from_dict_def
  result_from_dict_def error_from_dict_def skills_loaded_from_dict_def
  skill_invoked_from_dict_def skill_completed_from_dict_def
  background_worker_from_dict_def loop_guard_from_dict_def verification_from_dict_def
  hook_from_dict_def prompt_cache_advisory_from_dict_def reliability_from_dict_def
  workflow_from_dict_def text_items_def text_list_or_none_def natural_field_def
  required_discriminator_def optional_usage_metadata_def usage_complete_field_def

lemma system_roundtrip: "system_from_dict cv (system_to_dict e) = Inr e"
  by (cases e) (auto simp: event_codec codec_simps split: option.splits)

lemma user_roundtrip: "event_wf env (UserEvent e) \<Longrightarrow> user_from_dict cv (user_to_dict e) = Inr e"
  by (cases e) (simp add: event_codec codec_simps message_decode_encode)

lemma assistant_roundtrip:
  "event_wf env (AssistantEvent e) \<Longrightarrow> assistant_from_dict cv (assistant_to_dict e) = Inr e"
  by (cases e) (simp add: event_codec codec_simps message_decode_encode)

lemma partial_assistant_roundtrip: "partial_assistant_from_dict (partial_assistant_to_dict e) = Inr e"
  by (cases e) (simp add: event_codec codec_simps)

lemma tool_call_start_roundtrip: "tool_call_start_from_dict cv (tool_call_start_to_dict e) = Inr e"
  by (cases e) (simp add: event_codec codec_simps)

lemma tool_progress_roundtrip:
  "event_storable (ToolProgressEvent e) \<Longrightarrow> tool_progress_from_dict cv (tool_progress_to_dict e) = Inr e"
  by (cases e) (auto simp: event_codec codec_simps json_opt_def simp del: json_safe.simps(1)
      split: option.splits)

lemma permission_request_roundtrip:
  "permission_request_from_dict cv (permission_request_to_dict e) = Inr e"
proof -
  have "permission_item_from_dict cv (permission_item_to_dict q) = Inr q" for q
    by (cases q) (simp add: event_codec codec_simps)
  then have "map_result (permission_item_from_dict cv) (map permission_item_to_dict (pr_requests e))
      = Inr (map id (pr_requests e))"
    by (intro map_result_all_Inr) simp
  then show ?thesis by (cases e) (simp add: permission_request_from_dict_def
      permission_request_to_dict_def codec_simps)
qed

text \<open>Optional keys, read back.\<close>

lemma text_or_none_opt: "dict_get raw k = map_option JStr v \<Longrightarrow> text_or_none raw k = v"
  by (cases v) (simp_all add: codec_simps)

lemma dict_or_none_opt: "dict_get raw k = map_option JDict v \<Longrightarrow> dict_or_none raw k = v"
  by (cases v) (simp_all add: codec_simps)

lemma float_or_none_opt: "dict_get raw k = map_option JFloat v \<Longrightarrow> float_or_none cv raw k = Inr v"
  by (cases v) (simp_all add: codec_simps)

lemma usage_metadata_opt:
  "dict_get raw k = map_option JStr v \<Longrightarrow> usage_metadata_ok v \<Longrightarrow> optional_usage_metadata raw k = Inr v"
  by (cases v) (simp_all add: optional_usage_metadata_def raw_get_def usage_metadata_ok_def)

lemma usage_event_fields:
  "dict_get (usage_event_to_dict e) ''cost_usd'' = map_option JFloat (ug_cost_usd e)"
  "dict_get (usage_event_to_dict e) ''cumulative_cost_usd'' = map_option JFloat (ug_cumulative_cost_usd e)"
  "dict_get (usage_event_to_dict e) ''source'' = map_option JStr (ug_source e)"
  "dict_get (usage_event_to_dict e) ''call_id'' = map_option JStr (ug_call_id e)"
  "dict_get (usage_event_to_dict e) ''logical_call_id'' = map_option JStr (ug_logical_call_id e)"
  "dict_get (usage_event_to_dict e) ''model'' = map_option JStr (ug_model e)"
  "dict_get (usage_event_to_dict e) ''usage'' = Some (JDict (usage_to_dict (ug_usage e)))"
  "dict_get (usage_event_to_dict e) ''cumulative'' = Some (JDict (usage_to_dict (ug_cumulative e)))"
  by (auto simp: usage_event_to_dict_def simp del: map_of_append)

lemma usage_event_roundtrip:
  assumes "event_wf env (UsageEvent e)"
  shows "usage_event_from_dict cv (usage_event_to_dict e) = Inr e"
proof -
  note f = usage_event_fields [of e]
  from assms have "usage_metadata_ok (ug_source e)" "usage_metadata_ok (ug_call_id e)"
    "usage_metadata_ok (ug_logical_call_id e)" "usage_metadata_ok (ug_model e)" by simp_all
  note g = usage_metadata_opt [OF f(3) this(1)] usage_metadata_opt [OF f(4) this(2)]
    usage_metadata_opt [OF f(5) this(3)] usage_metadata_opt [OF f(6) this(4)]
  show ?thesis
    by (simp add: usage_event_from_dict_def g float_or_none_opt [OF f(1)] float_or_none_opt [OF f(2)]
        dict_field_def raw_get_def f(7,8))
qed

lemma budget_roundtrip:
  "event_wf env (BudgetEvent e) \<Longrightarrow> budget_from_dict cv (budget_to_dict e) = Inr e"
  by (cases e) (auto simp: event_codec codec_simps json_opt_def split: option.splits)

lemma compaction_roundtrip: "compaction_from_dict cv (compaction_to_dict e) = Inr e"
  by (cases e) (simp add: event_codec codec_simps)

lemma model_fallback_roundtrip: "model_fallback_from_dict cv (model_fallback_to_dict e) = Inr e"
  by (cases e) (simp add: event_codec codec_simps)

lemma schedule_roundtrip: "schedule_from_dict cv (schedule_to_dict e) = Inr e"
  by (cases e) (simp add: event_codec codec_simps)

lemma context_build_roundtrip: "context_build_from_dict cv (context_build_to_dict e) = Inr e"
  by (cases e) (auto simp: event_codec codec_simps json_opt_def split: option.splits)

lemma result_fields:
  "dict_get (result_to_dict e) ''structured_output'' = map_option JDict (re_structured_output e)"
  "dict_get (result_to_dict e) ''structured_error'' = map_option JStr (re_structured_error e)"
  "dict_get (result_to_dict e) ''total_cost_usd'' = map_option JFloat (re_total_cost_usd e)"
  "dict_get (result_to_dict e) ''trace_id'' = map_option JStr (re_trace_id e)"
  "text_or_none (result_to_dict e) ''final_text'' = re_final_text e"
  "dict_get (result_to_dict e) ''subtype'' = Some (JStr (re_subtype e))"
  "dict_get (result_to_dict e) ''stop_reason'' = Some (JStr (re_stop_reason e))"
  "dict_get (result_to_dict e) ''total_usage'' = Some (JDict (usage_to_dict (re_total_usage e)))"
  "dict_get (result_to_dict e) ''duration_ms'' = Some (JInt (re_duration_ms e))"
  "usage_complete_field (result_to_dict e) = Inr (re_usage_complete e)"
  by (auto simp: result_to_dict_def codec_simps usage_complete_field_def json_opt_def
      simp del: map_of_append split: option.splits)

lemma result_roundtrip:
  assumes "event_wf env (ResultEvent e)"
  shows "result_from_dict cv (result_to_dict e) = Inr e"
proof -
  note f = result_fields [of e]
  show ?thesis using assms
    by (simp add: result_from_dict_def dict_or_none_opt [OF f(1)] text_or_none_opt [OF f(2)]
        float_or_none_opt [OF f(3)] text_or_none_opt [OF f(4)] f(5-) dict_field_def int_field_def
        raw_get_def required_discriminator_def)
qed

lemma error_roundtrip: "error_from_dict (error_to_dict e) = Inr e"
  by (cases e) (simp add: event_codec codec_simps)

lemma skills_loaded_roundtrip: "skills_loaded_from_dict (skills_loaded_to_dict e) = Inr e"
  by (cases e) (simp add: event_codec codec_simps)

lemma skill_invoked_roundtrip: "skill_invoked_from_dict cv (skill_invoked_to_dict e) = Inr e"
  by (cases e) (auto simp: event_codec codec_simps json_opt_def split: option.splits)

lemma skill_completed_roundtrip: "skill_completed_from_dict cv (skill_completed_to_dict e) = Inr e"
  by (cases e) (simp add: event_codec codec_simps)

lemma background_worker_roundtrip: "background_worker_from_dict cv (background_worker_to_dict e) = Inr e"
  by (cases e) (simp add: event_codec codec_simps)

lemma loop_guard_roundtrip: "loop_guard_from_dict cv (loop_guard_to_dict e) = Inr e"
  by (cases e) (simp add: event_codec codec_simps)

lemma verification_roundtrip: "verification_from_dict cv (verification_to_dict e) = Inr e"
  by (cases e) (simp add: event_codec codec_simps)

lemma hook_roundtrip: "hook_from_dict cv (hook_to_dict e) = Inr e"
  by (cases e) (simp add: event_codec codec_simps)

lemma prompt_cache_advisory_roundtrip:
  "event_wf env (PromptCacheAdvisoryEvent e)
   \<Longrightarrow> prompt_cache_advisory_from_dict cv (prompt_cache_advisory_to_dict e) = Inr e"
  by (cases e) (simp add: event_codec codec_simps)

lemma reliability_roundtrip:
  "event_wf env (ReliabilityEvent e) \<Longrightarrow> reliability_from_dict cv (reliability_to_dict e) = Inr e"
  by (cases e) (simp add: event_codec codec_simps)

lemma workflow_roundtrip:
  "event_wf env (WorkflowEvent e) \<Longrightarrow> workflow_from_dict cv (workflow_to_dict e) = Inr e"
  by (cases e) (auto simp: event_codec codec_simps json_opt_def split: option.splits)

lemma tool_call_end_roundtrip:
  assumes "event_wf env (ToolCallEndEvent e)" and "event_storable (ToolCallEndEvent e)"
  shows "\<exists>d. tool_call_end_to_dict e = Inr d \<and> dict_get d ''type'' = Some (JStr ''tool_call_end'')
    \<and> dict_get d ''ignorable'' = None \<and> tool_call_end_from_dict cv d = Inr e"
proof (cases "te_tool_output e")
  case None
  with assms(2) show ?thesis
    by (cases e) (auto simp: tool_call_end_to_dict_def tool_call_end_from_dict_def codec_simps
        tool_result_roundtrip split: option.splits)
next
  case (Some out)
  with assms(1) tool_output_roundtrip obtain d where
    "tool_output_to_dict out = Inr d" "tool_output_from_dict d = Inr out" by auto
  with Some assms(2) show ?thesis
    by (cases e) (auto simp: tool_call_end_to_dict_def tool_call_end_from_dict_def codec_simps
        tool_result_roundtrip split: option.splits)
qed

lemma model_call_roundtrip:
  assumes "event_wf env (ModelCallEvent e)"
  shows "\<exists>d. model_call_to_dict env e = Inr d \<and> dict_get d ''type'' = Some (JStr ''model_call'')
    \<and> dict_get d ''ignorable'' = None \<and> model_call_from_dict env d = Inr e"
proof -
  have copied: "copy_model_call_record env (ev_run_id e) (ev_record_kind e) (ev_record e)
      (ev_budget_owner_id e) (ev_schema_version e) = Inr (ev_record e)"
    using assms by simp
  then have "require_wire_version (Some (ev_schema_version e)) = Inr ()"
    and "string_field False (JStr (ev_run_id e)) = Inr (ev_run_id e)"
    and "optional_string (json_opt JStr (ev_budget_owner_id e)) = Inr (ev_budget_owner_id e)"
    by (auto simp: copy_model_call_record_def bind_result_Inr_iff string_field_def optional_string_def
        json_opt_def json_opt_string_def split: option.splits if_splits)
  with copied show ?thesis
    by (cases e) (simp add: model_call_to_dict_def model_call_from_dict_def raw_get_def)
qed

section \<open>The round trip\<close>

lemma event_reader_simps:
  "event_reader env cv ''model_call'' = Some (map_sum id ModelCallEvent \<circ> model_call_from_dict env)"
  "event_reader env cv ''system'' = Some (map_sum id SystemEvent \<circ> system_from_dict cv)"
  "event_reader env cv ''user'' = Some (map_sum id UserEvent \<circ> user_from_dict cv)"
  "event_reader env cv ''assistant'' = Some (map_sum id AssistantEvent \<circ> assistant_from_dict cv)"
  "event_reader env cv ''partial_assistant'' = Some (map_sum id PartialAssistantEvent \<circ> partial_assistant_from_dict)"
  "event_reader env cv ''tool_call_start'' = Some (map_sum id ToolCallStartEvent \<circ> tool_call_start_from_dict cv)"
  "event_reader env cv ''tool_progress'' = Some (map_sum id ToolProgressEvent \<circ> tool_progress_from_dict cv)"
  "event_reader env cv ''tool_call_end'' = Some (map_sum id ToolCallEndEvent \<circ> tool_call_end_from_dict cv)"
  "event_reader env cv ''permission_request'' = Some (map_sum id PermissionRequestEvent \<circ> permission_request_from_dict cv)"
  "event_reader env cv ''usage'' = Some (map_sum id UsageEvent \<circ> usage_event_from_dict cv)"
  "event_reader env cv ''budget'' = Some (map_sum id BudgetEvent \<circ> budget_from_dict cv)"
  "event_reader env cv ''compaction'' = Some (map_sum id CompactionEvent \<circ> compaction_from_dict cv)"
  "event_reader env cv ''model_fallback'' = Some (map_sum id ModelFallbackEvent \<circ> model_fallback_from_dict cv)"
  "event_reader env cv ''schedule'' = Some (map_sum id ScheduleEvent \<circ> schedule_from_dict cv)"
  "event_reader env cv ''context_build'' = Some (map_sum id ContextBuildEvent \<circ> context_build_from_dict cv)"
  "event_reader env cv ''result'' = Some (map_sum id ResultEvent \<circ> result_from_dict cv)"
  "event_reader env cv ''error'' = Some (map_sum id ErrorEvent \<circ> error_from_dict)"
  "event_reader env cv ''skills_loaded'' = Some (map_sum id SkillsLoadedEvent \<circ> skills_loaded_from_dict)"
  "event_reader env cv ''skill_invoked'' = Some (map_sum id SkillInvokedEvent \<circ> skill_invoked_from_dict cv)"
  "event_reader env cv ''skill_completed'' = Some (map_sum id SkillCompletedEvent \<circ> skill_completed_from_dict cv)"
  "event_reader env cv ''background_worker'' = Some (map_sum id BackgroundWorkerEvent \<circ> background_worker_from_dict cv)"
  "event_reader env cv ''loop_guard'' = Some (map_sum id LoopGuardEvent \<circ> loop_guard_from_dict cv)"
  "event_reader env cv ''verification'' = Some (map_sum id VerificationEvent \<circ> verification_from_dict cv)"
  "event_reader env cv ''hook'' = Some (map_sum id HookEventRecord \<circ> hook_from_dict cv)"
  "event_reader env cv ''prompt_cache_advisory'' = Some (map_sum id PromptCacheAdvisoryEvent \<circ> prompt_cache_advisory_from_dict cv)"
  "event_reader env cv ''reliability'' = Some (map_sum id ReliabilityEvent \<circ> reliability_from_dict cv)"
  "event_reader env cv ''workflow'' = Some (map_sum id WorkflowEvent \<circ> workflow_from_dict cv)"
  by (simp_all add: event_reader_def)

lemma event_reader_unknown: "typ \<notin> set known_event_types \<Longrightarrow> event_reader env cv typ = None"
  by (simp add: event_reader_def known_event_types_def)

lemma read_event:
  assumes "dict_get d ''type'' = Some (JStr typ)" and "dict_get d ''ignorable'' = None"
    and "event_reader env cv typ = Some reader" and "typ \<noteq> ''subagent_event''"
  shows "event_from_dict env cv (JDict d) = reader d"
  using assms by (simp add: event_from_dict.simps)

lemma encoded_type:
  assumes "event_to_dict env e = Inr d" and "\<not> is_ignorable_event e"
  shows "dict_get d ''type'' = Some (JStr (event_type e)) \<and> dict_get d ''ignorable'' = None"
  using assms
  by (cases e) (auto simp: event_codec model_call_to_dict_def tool_call_end_to_dict_def
      bind_result_Inr_iff simp del: map_of_append split: option.splits)

lemma envelope_Inr:
  "validate_ignorable_envelope raw t depth = Inr typ \<longleftrightarrow>
     validate_json depth (JDict raw) \<and> dict_get raw ''type'' = Some (JStr typ) \<and> typ \<noteq> []
     \<and> dict_get raw ''ignorable'' = Some (JBool True) \<and> typ \<notin> set known_event_types
     \<and> (t = None \<or> t = Some typ)"
  by (auto simp: validate_ignorable_envelope_def validate_ignorable_json_value_def bind_result_Inr_iff
      simp del: validate_json.simps split: option.splits json.splits)

lemma subagent_type_known: "''subagent_event'' \<in> set known_event_types"
  by (simp add: known_event_types_def)

lemma ignorable_roundtrip:
  assumes "event_wf env (IgnorableEvent e)"
  shows "\<exists>d. event_to_dict env (IgnorableEvent e) = Inr d
    \<and> event_from_dict env cv (JDict d) = Inr (IgnorableEvent e)"
proof -
  let ?raw = "ig_raw e" and ?t = "ig_original_type e"
  have typed: "validate_ignorable_envelope ?raw (Some ?t) 0 = Inr ?t"
    using assms by simp
  then have fields: "dict_get ?raw ''type'' = Some (JStr ?t)" "?t \<notin> set known_event_types"
      "dict_get ?raw ''ignorable'' = Some (JBool True)"
    and untyped: "validate_ignorable_envelope ?raw None 0 = Inr ?t"
    by (simp_all add: envelope_Inr)
  from fields(2) subagent_type_known have "?t \<noteq> ''subagent_event''" by metis
  with fields have "event_from_dict env cv (JDict ?raw) = unknown_event_from_dict ?raw"
    by (simp add: event_from_dict.simps event_reader_unknown)
  also have "\<dots> = Inr (IgnorableEvent e)"
    using typed untyped fields(3)
    by (simp add: unknown_event_from_dict_def new_ignorable_event_def copy_ignorable_envelope_def)
  finally show ?thesis using typed by (simp add: copy_ignorable_envelope_def)
qed

lemma plain_roundtrip:
  assumes "event_to_dict env e = Inr d" and "\<not> is_ignorable_event e" and "\<not> is_subagent_event e"
    and "event_reader env cv (event_type e) = Some reader" and "reader d = Inr e"
  shows "\<exists>d. event_to_dict env e = Inr d \<and> event_from_dict env cv (JDict d) = Inr e"
  using assms encoded_type [OF assms(1,2)] by (auto simp: read_event is_subagent_event_def)

lemma event_decode_encode:
  assumes "event_wf env e" and "event_storable e"
  shows "\<exists>d. event_to_dict env e = Inr d \<and> event_from_dict env cv (JDict d) = Inr e"
  using assms
proof (induction e)
  case (SubagentEvent parent run_id kind name inner)
  then obtain d where d: "event_to_dict env inner = Inr d"
    "event_from_dict env cv (JDict d) = Inr inner" by auto
  with SubagentEvent.prems show ?case
    by (simp add: event_from_dict.simps [of env cv "JDict (_ # _)"] new_subagent_event_def codec_simps
        known_event_types_def)
next
  case (IgnorableEvent e)
  show ?case by (rule ignorable_roundtrip [OF IgnorableEvent.prems(1)])
next
  case (ModelCallEvent e)
  with model_call_roundtrip [of env e] show ?case by (auto simp: read_event event_reader_simps)
next
  case (ToolCallEndEvent e)
  with tool_call_end_roundtrip [of env e cv] show ?case by (auto simp: read_event event_reader_simps)
qed (rule plain_roundtrip, simp, simp, simp add: is_subagent_event_def,
  simp add: event_reader_simps,
  simp add: system_roundtrip user_roundtrip
  assistant_roundtrip partial_assistant_roundtrip tool_call_start_roundtrip tool_progress_roundtrip
  permission_request_roundtrip usage_event_roundtrip budget_roundtrip compaction_roundtrip
  model_fallback_roundtrip schedule_roundtrip context_build_roundtrip result_roundtrip
  error_roundtrip skills_loaded_roundtrip skill_invoked_roundtrip skill_completed_roundtrip
  background_worker_roundtrip loop_guard_roundtrip verification_roundtrip hook_roundtrip
  prompt_cache_advisory_roundtrip reliability_roundtrip workflow_roundtrip
  del: event_wf.simps event_storable.simps)+

section \<open>Decoded events are typed\<close>






















section \<open>The type guards\<close>

text \<open>
  On typed events every guard names one class: a type that was carried as unknown is never the
  name of a known class.
\<close>

lemma guards_name_the_class:
  assumes "event_wf env e"
  shows "is_system_event e \<longleftrightarrow> (\<exists>x. e = SystemEvent x)"
    "is_assistant_event e \<longleftrightarrow> (\<exists>x. e = AssistantEvent x)"
    "is_user_event e \<longleftrightarrow> (\<exists>x. e = UserEvent x)"
    "is_partial_assistant_event e \<longleftrightarrow> (\<exists>x. e = PartialAssistantEvent x)"
    "is_tool_call_start_event e \<longleftrightarrow> (\<exists>x. e = ToolCallStartEvent x)"
    "is_tool_call_end_event e \<longleftrightarrow> (\<exists>x. e = ToolCallEndEvent x)"
    "is_tool_progress_event e \<longleftrightarrow> (\<exists>x. e = ToolProgressEvent x)"
    "is_permission_request_event e \<longleftrightarrow> (\<exists>x. e = PermissionRequestEvent x)"
    "is_usage_event e \<longleftrightarrow> (\<exists>x. e = UsageEvent x)"
    "is_model_call_event e \<longleftrightarrow> (\<exists>x. e = ModelCallEvent x)"
    "is_budget_event e \<longleftrightarrow> (\<exists>x. e = BudgetEvent x)"
    "is_compaction_event e \<longleftrightarrow> (\<exists>x. e = CompactionEvent x)"
    "is_context_build_event e \<longleftrightarrow> (\<exists>x. e = ContextBuildEvent x)"
    "is_result_event e \<longleftrightarrow> (\<exists>x. e = ResultEvent x)"
    "is_error_event e \<longleftrightarrow> (\<exists>x. e = ErrorEvent x)"
    "is_skills_loaded_event e \<longleftrightarrow> (\<exists>x. e = SkillsLoadedEvent x)"
    "is_skill_invoked_event e \<longleftrightarrow> (\<exists>x. e = SkillInvokedEvent x)"
    "is_skill_completed_event e \<longleftrightarrow> (\<exists>x. e = SkillCompletedEvent x)"
    "is_subagent_event e \<longleftrightarrow> (\<exists>p r k n x. e = SubagentEvent p r k n x)"
    "is_loop_guard_event e \<longleftrightarrow> (\<exists>x. e = LoopGuardEvent x)"
    "is_verification_event e \<longleftrightarrow> (\<exists>x. e = VerificationEvent x)"
    "is_hook_event e \<longleftrightarrow> (\<exists>x. e = HookEventRecord x)"
    "is_workflow_event e \<longleftrightarrow> (\<exists>x. e = WorkflowEvent x)"
  using assms
  by (cases e; simp add: is_system_event_def is_assistant_event_def is_user_event_def is_partial_assistant_event_def
      is_tool_call_start_event_def is_tool_call_end_event_def is_tool_progress_event_def is_permission_request_event_def
      is_usage_event_def is_model_call_event_def is_budget_event_def is_compaction_event_def
      is_context_build_event_def is_result_event_def is_error_event_def is_skills_loaded_event_def
      is_skill_invoked_event_def is_skill_completed_event_def is_subagent_event_def is_loop_guard_event_def
      is_verification_event_def is_hook_event_def is_workflow_event_def
      envelope_Inr known_event_types_def; fail)+

section \<open>What the codec promises\<close>


text \<open>
  C7: Storing an event and loading it gives the event back, for every class and also inside
  subagent events. The event must satisfy the annotations (any list of skills will do), and its
  free-form values must be serializable and stay within the nesting depth the store keeps, beyond
  which it replaces them by a marker. The conversions \<^verbatim>\<open>str()\<close> and \<^verbatim>\<open>float()\<close> of foreign values
  play no part.
\<close>

theorem stored_event_roundtrip:
  assumes "event_wf env e" and "event_storable e"
  shows "\<exists>d. stored_event_to_dict env e = Inr d \<and> stored_event_from_dict env cv (JDict d) = Inr e"
proof -
  from event_decode_encode [OF assms] obtain d where
    "event_to_dict env e = Inr d" "event_from_dict env cv (JDict d) = Inr e" by blast
  then show ?thesis
    by (simp add: stored_event_to_dict_def stored_event_from_dict_def require_wire_version_def)
qed

text \<open>
  A decoded event that misses an annotation: the loaded skills are a text, of which the decoder
  makes the list of its characters.
\<close>

lemma decoded_skills_unchecked:
  "event_from_dict env cv (JDict [(''type'', JStr ''skills_loaded''), (''skills'', JStr ''a'')])
     = Inr (SkillsLoadedEvent \<lparr>sl_skills = [JStr ''a'']\<rparr>)
   \<and> \<not> event_typed env (SkillsLoadedEvent \<lparr>sl_skills = [JStr ''a'']\<rparr>)"
  by (simp add: event_from_dict.simps event_reader_def skills_loaded_from_dict_def raw_get_def)

text \<open>A denied tool call inside a subagent, and an event from a newer version.\<close>

definition nested_example :: event where
  "nested_example = SubagentEvent ''s1'' ''r1'' ''worker'' ''Worker''
     (ToolCallEndEvent
       \<lparr>te_tool_use_id = ''t1'', te_tool_name = ''bash'', te_result = ''denied'',
        te_is_error = True, te_duration_ms = 0,
        te_tool_result = Some
          \<lparr>tr_content = ''denied'', tr_summary = [], tr_is_error = True, tr_metadata = [],
           tr_citations = [], tr_attachments = [JStr ''a''], tr_duration_ms = 3,
           tr_truncated = False, tr_recovery_hint = []\<rparr>,
        te_tool_output = None\<rparr>)"

definition env_example :: json_env where
  "env_example = \<lparr>native_dumps = (\<lambda>_. None), json_dumps = (\<lambda>_. None),
     json_loads = (\<lambda>_. Inl ValueError), sha256 = id, str_of = (\<lambda>_. ''?'')\<rparr>"

definition conv_example :: py_conv where
  "conv_example = \<lparr>text_of = (\<lambda>_. ''?''), float_of_text = (\<lambda>_. Inl ValueError)\<rparr>"


theorem stored_event_roundtrip_witness:
  "\<exists>d. stored_event_to_dict env_example nested_example = Inr d
     \<and> stored_event_from_dict env_example conv_example (JDict d) = Inr nested_example"
  by (rule stored_event_roundtrip)
    (simp_all add: nested_example_def validate_nested_ignorable_def storable_result_def
      storable_metadata_def is_json_serializable_def ignorable_max_depth_def)

end
