(* ===== verification/Py_Text.thy ===== *)
theory Py_Text
  imports Prelude "HOL-Library.Sublist"
begin

text \<open>
  The methods of Python's \<^verbatim>\<open>str\<close> that the file and output components share: \<^verbatim>\<open>split\<close> on one
  character, \<^verbatim>\<open>join\<close>, \<^verbatim>\<open>rstrip\<close> of one character, \<^verbatim>\<open>count\<close> and \<^verbatim>\<open>replace\<close>.
\<close>

section \<open>Splitting and joining\<close>

fun split_on :: "char \<Rightarrow> string \<Rightarrow> string list" where
  "split_on c [] = [[]]"
| "split_on c (x # xs) =
     (if x = c then [] # split_on c xs
      else case split_on c xs of [] \<Rightarrow> [[x]] | w # ws \<Rightarrow> (x # w) # ws)"

fun join_text :: "string \<Rightarrow> string list \<Rightarrow> string" where
  "join_text sep [] = []"
| "join_text sep [w] = w"
| "join_text sep (w # v # ws) = w @ sep @ join_text sep (v # ws)"

lemma split_on_not_Nil [simp]: "split_on c s \<noteq> []"
  by (cases s) (auto split: list.splits)

lemma join_split [simp]: "join_text [c] (split_on c s) = s"
proof (induction s)
  case (Cons x s)
  then show ?case
  proof (cases "split_on c s")
    case (Cons w ws)
    with Cons.IH show ?thesis by (cases ws) auto
  qed simp
qed simp

lemma split_parts_free: "w \<in> set (split_on c s) \<Longrightarrow> c \<notin> set w"
  by (induction s arbitrary: w) (force split: list.splits if_splits)+

lemma split_parts_chars: "w \<in> set (split_on c s) \<Longrightarrow> set w \<subseteq> set s"
proof (induction s arbitrary: w)
  case (Cons x s)
  then show ?case
    by (cases "split_on c s") (force split: if_splits)+
qed simp

lemma split_free: "c \<notin> set s \<Longrightarrow> split_on c s = [s]"
  by (induction s) auto

lemma split_append: "split_on c (s @ c # t) = split_on c s @ split_on c t"
proof (induction s)
  case (Cons x s)
  then show ?case by (cases "split_on c s") auto
qed simp

lemma split_join:
  "ws \<noteq> [] \<Longrightarrow> (\<And>w. w \<in> set ws \<Longrightarrow> c \<notin> set w) \<Longrightarrow> split_on c (join_text [c] ws) = ws"
proof (induction "[c]" ws rule: join_text.induct)
  case (2 w)
  then show ?case by (simp add: split_free)
next
  case (3 w v ws)
  then show ?case by (simp add: split_append split_free)
qed simp

lemma join_append:
  "xs \<noteq> [] \<Longrightarrow> ys \<noteq> [] \<Longrightarrow> join_text sep (xs @ ys) = join_text sep xs @ sep @ join_text sep ys"
  by (induction sep xs rule: join_text.induct) (auto simp: neq_Nil_conv)

definition rstrip_char :: "char \<Rightarrow> string \<Rightarrow> string" where
  "rstrip_char c s = rev (dropWhile (\<lambda>x. x = c) (rev s))"

lemma rstrip_char_snoc [simp]:
  "rstrip_char c (s @ [x]) = (if x = c then rstrip_char c s else s @ [x])"
  by (simp add: rstrip_char_def)

lemma rstrip_char_Nil [simp]: "rstrip_char c [] = []"
  by (simp add: rstrip_char_def)

section \<open>Counting and replacing\<close>

text \<open>
  \<^verbatim>\<open>text.count(old)\<close>: occurrences that do not overlap, from the left; the empty string occurs
  before every character and at the end.
\<close>

function occurrences :: "string \<Rightarrow> string \<Rightarrow> nat" where
  "occurrences old s =
     (if old = [] \<or> s = [] then 0
      else if prefix old s then Suc (occurrences old (drop (length old) s))
      else occurrences old (tl s))"
  by pat_completeness auto
termination
  by (relation "measure (\<lambda>(old, s). length s)") (auto simp: not_le)

declare occurrences.simps [simp del]

definition py_count :: "string \<Rightarrow> string \<Rightarrow> nat" where
  "py_count old s = (if old = [] then length s + 1 else occurrences old s)"

function replace_from :: "string \<Rightarrow> string \<Rightarrow> string \<Rightarrow> string" where
  "replace_from old new s =
     (if old = [] \<or> s = [] then s
      else if prefix old s then new @ replace_from old new (drop (length old) s)
      else hd s # replace_from old new (tl s))"
  by pat_completeness auto
termination
  by (relation "measure (\<lambda>(old, new, s). length s)") (auto simp: not_le)

declare replace_from.simps [simp del]

definition py_replace :: "string \<Rightarrow> string \<Rightarrow> string \<Rightarrow> string" where
  "py_replace old new s =
     (if old = [] then new @ concat (map (\<lambda>c. c # new) s) else replace_from old new s)"

text \<open>\<^verbatim>\<open>text.replace(old, new, 1)\<close>.\<close>

fun py_replace_once :: "string \<Rightarrow> string \<Rightarrow> string \<Rightarrow> string" where
  "py_replace_once old new [] = (if old = [] then new else [])"
| "py_replace_once old new (c # s) =
     (if prefix old (c # s) then new @ drop (length old) (c # s)
      else c # py_replace_once old new s)"

lemma replace_once_splits:
  assumes "0 < py_count old s"
  shows "\<exists>pre post. s = pre @ old @ post \<and> py_replace_once old new s = pre @ new @ post"
proof (cases "old = []")
  case True
  then show ?thesis by (cases s) auto
next
  case False
  with assms have "0 < occurrences old s" by (simp add: py_count_def)
  with False show ?thesis
  proof (induction s)
    case Nil
    then show ?case by (simp add: occurrences.simps)
  next
    case (Cons c s)
    show ?case
    proof (cases "prefix old (c # s)")
      case True
      then obtain post where eq: "c # s = old @ post" by (auto elim: prefixE)
      have "py_replace_once old new (c # s) = new @ drop (length old) (c # s)"
        using True by simp
      also have "\<dots> = new @ post" using eq by simp
      finally show ?thesis using eq by (metis append_Nil)
    next
      case False
      with Cons.prems have "0 < occurrences old s" by (simp add: occurrences.simps [of old "c # s"])
      with Cons obtain pre post where "s = pre @ old @ post"
        "py_replace_once old new s = pre @ new @ post" by blast
      with False show ?thesis by (intro exI [of _ "c # pre"] exI [of _ post]) simp
    qed
  qed
qed

end
