(* ===== verification/Reliability.thy ===== *)
theory Reliability
  imports Events Py_Text "HOL-Library.List_Lexorder" "HOL-Library.Char_ord" "HOL-Library.Multiset"
begin

text \<open>
  \<^verbatim>\<open>src/linch/reliability.py\<close>, \<^verbatim>\<open>src/linch/loop/reliability.py\<close> and the dispatch of
  \<^verbatim>\<open>src/linch/loop/turn_stopping.py\<close>: the reliability policy of an agent and its validation, the
  runtime that counts corrections and remembers which tools succeeded, its checkpoint state, and
  the hook that blocks a tool whose prerequisites are missing.
\<close>

section \<open>The policy\<close>

record tool_prerequisite =
  rq_tool_name :: string
  rq_requires_success :: "string list"

record completion_gate =
  cg_required_successful_tools :: "string list"

record reliability_policy =
  rp_max_correction_turns :: int
  rp_retry_invalid_responses :: bool
  rp_prerequisites :: "tool_prerequisite list"
  rp_completion :: "completion_gate option"

type_synonym tool_graph = "(string, string set) dict"

definition edge_set :: "tool_graph \<Rightarrow> string \<Rightarrow> string set" where
  "edge_set edges t = (case dict_get edges t of None \<Rightarrow> {} | Some s \<Rightarrow> s)"

text \<open>The loop of \<^verbatim>\<open>validate\<close> over the rules.\<close>

fun collect_edges :: "tool_prerequisite list \<Rightarrow> tool_graph \<Rightarrow> tool_graph result" where
  "collect_edges [] edges = Inr edges"
| "collect_edges (r # rules) edges =
     (let seen = edge_set edges (rq_tool_name r); new = rq_requires_success r in
      if \<not> distinct new \<or> seen \<inter> set new \<noteq> {} then Inl ValueError
      else if rq_tool_name r \<in> set new then Inl ValueError
      else collect_edges rules (dict_set (rq_tool_name r) (seen \<union> set new) edges))"

definition referenced_tools :: "reliability_policy \<Rightarrow> string set" where
  "referenced_tools p =
     \<Union> (set ` rq_requires_success ` set (rp_prerequisites p))
     \<union> (case rp_completion p of None \<Rightarrow> {} | Some g \<Rightarrow> set (cg_required_successful_tools g))"

text \<open>
  \<^verbatim>\<open>TopologicalSorter.static_order\<close>: the nodes in the order they were added; groups of nodes
  whose predecessors are all done, until none is left, or a cycle.
\<close>

definition graph_nodes :: "tool_graph \<Rightarrow> string list" where
  "graph_nodes edges = remdups (concat (map (\<lambda>(t, ds). t # sorted_list_of_set ds) edges))"

function static_order :: "tool_graph \<Rightarrow> string list \<Rightarrow> string list \<Rightarrow> string list option" where
  "static_order edges finished [] = Some finished"
| "static_order edges finished (n # ns) =
     (let ready = filter (\<lambda>t. edge_set edges t \<subseteq> set finished) (n # ns) in
      if ready = [] then None
      else static_order edges (finished @ ready)
             (filter (\<lambda>t. \<not> edge_set edges t \<subseteq> set finished) (n # ns)))"
  by pat_completeness auto
termination
proof (relation "measure (\<lambda>(edges, finished, ns). length ns)", goal_cases)
  case (2 edges finished n ns ready)
  then have "0 < length (filter (\<lambda>t. edge_set edges t \<subseteq> set finished) (n # ns))"
    by (metis length_greater_0_conv)
  with sum_length_filter_compl [of "\<lambda>t. edge_set edges t \<subseteq> set finished" "n # ns"]
  show ?case unfolding in_measure prod.case by linarith
qed simp

definition validate_policy :: "reliability_policy \<Rightarrow> string set \<Rightarrow> string option \<Rightarrow> unit result" where
  "validate_policy p tool_names final_tool =
     (if rp_max_correction_turns p < 0 then Inl ValueError
      else bind_result (collect_edges (rp_prerequisites p) []) (\<lambda>edges.
        (let required = (case rp_completion p of None \<Rightarrow> [] | Some g \<Rightarrow> cg_required_successful_tools g) in
         if \<not> distinct required then Inl ValueError
         else if (case final_tool of None \<Rightarrow> False | Some t \<Rightarrow> t \<in> set required) then Inl ValueError
         else if \<not> set (dict_keys edges) \<union> referenced_tools p \<subseteq> tool_names then Inl ValueError
         else if static_order edges [] (graph_nodes edges) = None then Inl ValueError
         else Inr ())))"

fun merge_edges :: "tool_prerequisite list \<Rightarrow> tool_graph \<Rightarrow> tool_graph" where
  "merge_edges [] edges = edges"
| "merge_edges (r # rules) edges =
     merge_edges rules (dict_set (rq_tool_name r)
       (edge_set edges (rq_tool_name r) \<union> set (rq_requires_success r)) edges)"

definition sorted_texts :: "string set \<Rightarrow> json" where
  "sorted_texts s = JList (map JStr (sorted_list_of_set s))"

definition canonical_policy :: "reliability_policy option \<Rightarrow> json" where
  "canonical_policy policy = (case policy of
       None \<Rightarrow> JNull
     | Some p \<Rightarrow>
         JDict [(''max_correction_turns'', JInt (rp_max_correction_turns p)),
                (''retry_invalid_responses'', JBool (rp_retry_invalid_responses p)),
                (''prerequisites'', JDict (map (\<lambda>(t, ds). (t, sorted_texts ds))
                    (sort_key fst (merge_edges (rp_prerequisites p) [])))),
                (''completion'', case rp_completion p of
                    None \<Rightarrow> JNull
                  | Some g \<Rightarrow> JList (map JStr (sort (cg_required_successful_tools g))))])"

section \<open>The runtime\<close>

record reliability_runtime =
  ry_policy :: reliability_policy
  ry_corrections :: int
  ry_succeeded :: "string set"

definition new_runtime :: "reliability_policy \<Rightarrow> reliability_runtime" where
  "new_runtime p = \<lparr>ry_policy = p, ry_corrections = 0, ry_succeeded = {}\<rparr>"

record tool_use =
  tu_id :: string
  tu_name :: string
  tu_input :: json_obj

text \<open>
  The update consumes its generator one block at a time, so what it added before a result was
  missing stays. \<open>failed\<close> gives the error flag of every result.
\<close>

fun observe_results ::
  "tool_use list \<Rightarrow> (string, bool) dict \<Rightarrow> reliability_runtime \<Rightarrow> reliability_runtime \<times> unit result" where
  "observe_results [] failed rt = (rt, Inr ())"
| "observe_results (b # bs) failed rt =
     (if tu_name b \<in> referenced_tools (ry_policy rt)
         \<and> \<not> truthy (raw_get (tu_input b) ''run_in_background'' JNull)
      then (case dict_get failed (tu_id b) of
              None \<Rightarrow> (rt, Inl KeyError)
            | Some True \<Rightarrow> observe_results bs failed rt
            | Some False \<Rightarrow>
                observe_results bs failed (rt\<lparr>ry_succeeded := insert (tu_name b) (ry_succeeded rt)\<rparr>))
      else observe_results bs failed rt)"

datatype stop_action = AcceptStop | ContinueTurn | FailRun

record turn_stopping_decision =
  sd_action :: stop_action
  sd_feedback :: "message list"
  sd_error :: "py_error option"
  sd_event :: "event option"

record turn_stopping =
  st_turn_index :: int
  st_reason :: string

definition missing_tools :: "reliability_runtime \<Rightarrow> string list" where
  "missing_tools rt = (case rp_completion (ry_policy rt) of
       None \<Rightarrow> []
     | Some g \<Rightarrow> sorted_list_of_set (set (cg_required_successful_tools g) - ry_succeeded rt))"

definition correction_text :: "bool \<Rightarrow> string list \<Rightarrow> string" where
  "correction_text rejected missing =
     (if rejected
      then ''[Linch] The provider response was invalid. Nothing was executed. ''
           @ ''Please resend the response using native tool-call format.''
      else ''[Linch] Completion requirements are missing: '' @ join_text '', '' missing
           @ ''. Nothing was executed; continue with the required tools.'')"

definition stop_listener ::
  "turn_stopping \<Rightarrow> reliability_runtime \<Rightarrow> reliability_runtime \<times> turn_stopping_decision option" where
  "stop_listener ev rt =
     (let missing = missing_tools rt;
          rejected = (st_reason ev = ''invalid_response'')
      in if (\<not> rejected \<and> missing = []) \<or> (rejected \<and> \<not> rp_retry_invalid_responses (ry_policy rt))
         then (rt, None)
         else
           (let mechanism = (if rejected then ''invalid_response'' else ''completion'');
                exhausted = (rp_max_correction_turns (ry_policy rt) \<le> ry_corrections rt);
                rt' = (if exhausted then rt else rt\<lparr>ry_corrections := ry_corrections rt + 1\<rparr>);
                reason = (if exhausted then ''correction_budget_exhausted'' else mechanism)
            in (rt', Some
                 \<lparr>sd_action = (if exhausted then FailRun else ContinueTurn),
                  sd_feedback = (if exhausted then [] else
                    [\<lparr>role = role_user, content = [TextBlock (correction_text rejected missing)],
                      provider_metadata = None\<rparr>]),
                  sd_error = (if exhausted then Some ValueError else None),
                  sd_event = Some (ReliabilityEvent
                    \<lparr>rl_mechanism = mechanism,
                     rl_action = (if exhausted then ''fail'' else ''continue''), rl_reason = reason,
                     rl_turn_index = st_turn_index ev, rl_correction_count = ry_corrections rt'\<rparr>)\<rparr>)))"

text \<open>
  The dispatcher asks its listeners in order; an answer to accept counts as no answer, and the
  first other answer wins. A listener is given the state it shares with the others.
\<close>

fun dispatch_stop ::
  "('s \<Rightarrow> 's \<times> turn_stopping_decision option) list \<Rightarrow> 's \<Rightarrow> 's \<times> turn_stopping_decision" where
  "dispatch_stop [] s =
     (s, \<lparr>sd_action = AcceptStop, sd_feedback = [], sd_error = None, sd_event = None\<rparr>)"
| "dispatch_stop (l # ls) s = (case l s of
       (s', Some d) \<Rightarrow> if sd_action d = AcceptStop then dispatch_stop ls s' else (s', d)
     | (s', None) \<Rightarrow> dispatch_stop ls s')"

section \<open>Checkpoints\<close>

definition reliability_checkpoint :: "reliability_runtime \<Rightarrow> json_obj" where
  "reliability_checkpoint rt =
     (if ry_corrections rt \<noteq> 0 \<or> ry_succeeded rt \<noteq> {}
      then [(''v'', JInt 1), (''corrections'', JInt (ry_corrections rt)),
            (''succeeded'', sorted_texts (ry_succeeded rt))]
      else [])"

fun texts_of :: "json list \<Rightarrow> string list option" where
  "texts_of [] = Some []"
| "texts_of (JStr s # vs) = map_option (Cons s) (texts_of vs)"
| "texts_of (v # vs) = None"

definition reliability_restore :: "json \<Rightarrow> reliability_runtime \<Rightarrow> reliability_runtime result" where
  "reliability_restore raw rt = (case raw of
       JDict d \<Rightarrow>
         if set (dict_keys d) \<noteq> {''v'', ''corrections'', ''succeeded''} then Inl ValueError
         else (case (dict_get d ''v'', dict_get d ''corrections'', dict_get d ''succeeded'') of
             (Some (JInt v), Some (JInt n), Some (JList items)) \<Rightarrow>
               (case texts_of items of
                  None \<Rightarrow> Inl ValueError
                | Some names \<Rightarrow>
                    if v \<noteq> 1 \<or> \<not> (0 \<le> n \<and> n \<le> rp_max_correction_turns (ry_policy rt))
                       \<or> names \<noteq> sorted_list_of_set (set names)
                       \<or> \<not> set names \<subseteq> referenced_tools (ry_policy rt)
                    then Inl ValueError
                    else Inr (rt\<lparr>ry_corrections := n, ry_succeeded := set names\<rparr>))
           | _ \<Rightarrow> Inl ValueError)
     | _ \<Rightarrow> Inl ValueError)"

section \<open>The prerequisite hook\<close>

definition missing_prerequisites :: "reliability_runtime \<Rightarrow> string \<Rightarrow> string set" where
  "missing_prerequisites rt tool =
     \<Union> (set (map (\<lambda>r. set (rq_requires_success r) - ry_succeeded rt)
                (filter (\<lambda>r. rq_tool_name r = tool) (rp_prerequisites (ry_policy rt)))))"

text \<open>
  \<open>runs\<close> are the runtimes bound to the runs of this agent; \<open>same_context\<close> says whether the
  session asking belongs to the context the hook was installed in. The result is the reason the
  call is blocked for.
\<close>

definition prerequisite_hook ::
  "(string, reliability_runtime) dict \<Rightarrow> string \<Rightarrow> bool \<Rightarrow> string \<Rightarrow> string option" where
  "prerequisite_hook runs run_id same_context tool =
     (case dict_get runs run_id of
        None \<Rightarrow> None
      | Some rt \<Rightarrow>
          if \<not> same_context then None
          else if missing_prerequisites rt tool \<noteq> {}
          then Some (''Prerequisite not satisfied: ''
                     @ join_text '', '' (sorted_list_of_set (missing_prerequisites rt tool))
                     @ ''. The tool was not executed.'')
          else None)"

section \<open>Corrections are bounded\<close>

text \<open>What can happen to the runtime of a run: batches of results, and turns about to stop.\<close>

datatype reliability_input = Results "tool_use list" "(string, bool) dict" | Stopping turn_stopping

fun reliability_step :: "reliability_input \<Rightarrow> reliability_runtime \<Rightarrow> reliability_runtime \<times> turn_stopping_decision option" where
  "reliability_step (Results bs failed) rt = (fst (observe_results bs failed rt), None)"
| "reliability_step (Stopping ev) rt = stop_listener ev rt"

fun reliability_run :: "reliability_input list \<Rightarrow> reliability_runtime \<Rightarrow> reliability_runtime \<times> turn_stopping_decision list" where
  "reliability_run [] rt = (rt, [])"
| "reliability_run (x # xs) rt =
     (case reliability_step x rt of (rt1, d) \<Rightarrow>
        (case reliability_run xs rt1 of (rt2, ds) \<Rightarrow> (rt2, (case d of None \<Rightarrow> ds | Some v \<Rightarrow> v # ds))))"

definition runtime_ok :: "reliability_runtime \<Rightarrow> bool" where
  "runtime_ok rt \<longleftrightarrow> 0 \<le> ry_corrections rt \<and> ry_corrections rt \<le> rp_max_correction_turns (ry_policy rt)
     \<and> ry_succeeded rt \<subseteq> referenced_tools (ry_policy rt)"

lemma observe_keeps [simp]:
  "ry_policy (fst (observe_results bs failed rt)) = ry_policy rt"
  "ry_corrections (fst (observe_results bs failed rt)) = ry_corrections rt"
  by (induction bs failed rt rule: observe_results.induct) (auto split: option.splits bool.splits)

lemma observe_referenced:
  "ry_succeeded rt \<subseteq> referenced_tools (ry_policy rt)
   \<Longrightarrow> ry_succeeded (fst (observe_results bs failed rt)) \<subseteq> referenced_tools (ry_policy rt)"
  by (induction bs failed rt rule: observe_results.induct) (auto split: option.splits bool.splits)

lemma observe_ok: "runtime_ok rt \<Longrightarrow> runtime_ok (fst (observe_results bs failed rt))"
  by (simp add: runtime_ok_def observe_referenced)

text \<open>How a stop is answered.\<close>

lemma stop_listener_cases:
  assumes "stop_listener ev rt = (rt', d)"
  shows "d = None \<and> rt' = rt
    \<or> (\<exists>v. d = Some v \<and> sd_action v = ContinueTurn \<and> ry_corrections rt < rp_max_correction_turns (ry_policy rt)
           \<and> rt' = rt\<lparr>ry_corrections := ry_corrections rt + 1\<rparr>)
    \<or> (\<exists>v. d = Some v \<and> sd_action v = FailRun \<and> rp_max_correction_turns (ry_policy rt) \<le> ry_corrections rt \<and> rt' = rt)"
  using assms by (auto simp: stop_listener_def Let_def split: if_splits)

definition corrections_sent :: "turn_stopping_decision list \<Rightarrow> int" where
  "corrections_sent ds = int (length (filter (\<lambda>d. sd_action d = ContinueTurn) ds))"

lemma reliability_run_counts:
  assumes "reliability_run xs rt = (rt', ds)" and "runtime_ok rt"
  shows "runtime_ok rt' \<and> ry_policy rt' = ry_policy rt
    \<and> ry_corrections rt' = ry_corrections rt + corrections_sent ds"
  using assms
proof (induction xs rt arbitrary: ds rule: reliability_run.induct)
  case (2 x xs rt)
  obtain rt1 d where s: "reliability_step x rt = (rt1, d)" by fastforce
  obtain es where r: "reliability_run xs rt1 = (rt', es)"
    and ds: "ds = (case d of None \<Rightarrow> es | Some v \<Rightarrow> v # es)"
    using 2(2) s by (auto split: prod.splits)
  have "runtime_ok rt1 \<and> ry_policy rt1 = ry_policy rt
      \<and> ry_corrections rt1 = ry_corrections rt
          + (case d of Some v \<Rightarrow> if sd_action v = ContinueTurn then 1 else 0 | None \<Rightarrow> 0)"
  proof (cases x)
    case (Results bs failed)
    with s 2(3) show ?thesis by (auto simp: observe_ok)
  next
    case (Stopping ev)
    with s have "stop_listener ev rt = (rt1, d)" by simp
    from stop_listener_cases [OF this] 2(3) show ?thesis by (auto simp: runtime_ok_def)
  qed
  with 2(1) [OF s [symmetric] r] ds show ?case
    by (auto simp: corrections_sent_def split: option.splits)
qed (simp add: corrections_sent_def)



lemma new_runtime_ok: "validate_policy p names t = Inr () \<Longrightarrow> runtime_ok (new_runtime p)"
  by (simp add: runtime_ok_def new_runtime_def validate_policy_def split: if_splits)

section \<open>Completion needs evidence\<close>




section \<open>A validated policy can be satisfied\<close>

lemma collect_edges_spec:
  "collect_edges rules e0 = Inr edges \<Longrightarrow>
     edge_set edges t = edge_set e0 t
       \<union> \<Union> (set (map (\<lambda>r. set (rq_requires_success r)) (filter (\<lambda>r. rq_tool_name r = t) rules)))
     \<and> set (dict_keys edges) = set (dict_keys e0) \<union> rq_tool_name ` set rules"
proof (induction rules e0 rule: collect_edges.induct)
  case (2 r rules e0)
  then show ?case by (auto simp: Let_def edge_set_def split: if_splits)
qed simp

lemma static_order_spec:
  "static_order edges finished ns = Some order \<Longrightarrow>
     \<exists>rest. order = finished @ rest \<and> mset rest = mset ns
       \<and> (\<forall>i < length rest. edge_set edges (rest ! i) \<subseteq> set (finished @ take i rest))"
proof (induction edges finished ns rule: static_order.induct)
  case (2 edges finished n ns)
  let ?P = "\<lambda>t. edge_set edges t \<subseteq> set finished"
  let ?ready = "filter ?P (n # ns)"
  from 2(2) have ne: "?ready \<noteq> []"
    and onward: "static_order edges (finished @ ?ready) (filter (\<lambda>t. \<not> ?P t) (n # ns)) = Some order"
    by (simp_all add: Let_def del: filter.simps split: if_splits)
  from 2(1) [OF refl ne onward] obtain rest where rest: "order = (finished @ ?ready) @ rest"
    "mset rest = mset (filter (\<lambda>t. \<not> ?P t) (n # ns))"
    "\<forall>i < length rest. edge_set edges (rest ! i) \<subseteq> set ((finished @ ?ready) @ take i rest)" by blast
  have "edge_set edges ((?ready @ rest) ! i) \<subseteq> set (finished @ take i (?ready @ rest))"
    if "i < length (?ready @ rest)" for i
  proof (cases "i < length ?ready")
    case True
    then have "?ready ! i \<in> set ?ready" by (rule nth_mem)
    then have "edge_set edges (?ready ! i) \<subseteq> set finished" by (simp del: filter.simps)
    with True show ?thesis by (auto simp: nth_append simp del: filter.simps)
  next
    case False
    with that rest(3) [rule_format, of "i - length ?ready"] show ?thesis
      by (simp add: nth_append del: filter.simps)
  qed
  moreover have "mset (?ready @ rest) = mset (n # ns)"
  proof -
    have "mset (?ready @ rest)
        = filter_mset ?P (mset (n # ns)) + filter_mset (\<lambda>t. \<not> ?P t) (mset (n # ns))"
      using rest(2) by (simp only: mset_append mset_filter)
    also have "\<dots> = mset (n # ns)" by (rule multiset_partition [symmetric])
    finally show ?thesis .
  qed
  ultimately show ?case using rest(1) by (intro exI [of _ "?ready @ rest"]) simp
qed simp

text \<open>A tool called in the foreground, once, with success.\<close>

definition succeed :: "string \<Rightarrow> reliability_runtime \<Rightarrow> reliability_runtime" where
  "succeed t rt = fst (observe_results [\<lparr>tu_id = t, tu_name = t, tu_input = []\<rparr>] [(t, False)] rt)"

lemma succeed_simps [simp]:
  "ry_policy (succeed t rt) = ry_policy rt"
  "ry_succeeded (succeed t rt)
   = ry_succeeded rt \<union> ({t} \<inter> referenced_tools (ry_policy rt))"
  by (simp_all add: succeed_def raw_get_def)

lemma succeed_all_simps:
  "ry_policy (fold succeed ts rt) = ry_policy rt"
  "ry_succeeded (fold succeed ts rt) = ry_succeeded rt \<union> (set ts \<inter> referenced_tools (ry_policy rt))"
  by (induction ts arbitrary: rt) auto

lemma missing_prerequisites_edges:
  assumes "collect_edges (rp_prerequisites (ry_policy rt)) [] = Inr edges"
  shows "missing_prerequisites rt t = edge_set edges t - ry_succeeded rt"
  using collect_edges_spec [OF assms, of t]
  by (auto simp: missing_prerequisites_def edge_set_def)

lemma edges_referenced:
  "collect_edges (rp_prerequisites p) [] = Inr edges \<Longrightarrow> edge_set edges t \<subseteq> referenced_tools p"
  using collect_edges_spec [of "rp_prerequisites p" "[]" edges t]
  by (auto simp: referenced_tools_def edge_set_def)

lemma graph_nodes_bounds:
  "set (dict_keys edges) \<subseteq> set (graph_nodes edges)"
  "set (graph_nodes edges) \<subseteq> set (dict_keys edges) \<union> \<Union> (snd ` set edges)"
proof -
  have part: "t \<in> set (sorted_list_of_set A) \<Longrightarrow> t \<in> A" for A and t :: string
    by (cases "finite A") auto
  show "set (dict_keys edges) \<subseteq> set (graph_nodes edges)"
    by (induction edges) (auto simp: graph_nodes_def)
  show "set (graph_nodes edges) \<subseteq> set (dict_keys edges) \<union> \<Union> (snd ` set edges)"
    by (induction edges) (auto simp: graph_nodes_def dest: part)
qed

lemma collect_edges_ok: "collect_edges rules e0 = Inr edges \<Longrightarrow> dict_ok e0 \<Longrightarrow> dict_ok edges"
  by (induction rules e0 rule: collect_edges.induct) (auto simp: Let_def split: if_splits)

text \<open>
  The order of the topological sort, followed by the required tools without prerequisites: each
  tool's prerequisites are among the tools before it.
\<close>

lemma policy_order:
  assumes "validate_policy p names final = Inr ()"
    and edges: "collect_edges (rp_prerequisites p) [] = Inr edges"
  obtains order where "distinct order" "set order \<subseteq> names"
    "(case rp_completion p of None \<Rightarrow> {} | Some g \<Rightarrow> set (cg_required_successful_tools g)) \<subseteq> set order"
    "\<And>i. i < length order \<Longrightarrow> edge_set edges (order ! i) \<subseteq> set (take i order)"
proof -
  let ?req = "case rp_completion p of None \<Rightarrow> [] | Some g \<Rightarrow> cg_required_successful_tools g"
  from assms have required: "distinct ?req"
    and known: "set (dict_keys edges) \<union> referenced_tools p \<subseteq> names"
    and "static_order edges [] (graph_nodes edges) \<noteq> None"
    by (auto simp: validate_policy_def Let_def split: if_splits)
  then obtain sorted where "static_order edges [] (graph_nodes edges) = Some sorted" by blast
  from static_order_spec [OF this] have perm: "mset sorted = mset (graph_nodes edges)"
    and preds: "\<And>i. i < length sorted \<Longrightarrow> edge_set edges (sorted ! i) \<subseteq> set (take i sorted)"
    by auto
  from perm have nodes: "set sorted = set (graph_nodes edges)" by (rule mset_eq_setD)
  have "distinct (graph_nodes edges)" by (simp add: graph_nodes_def)
  with perm have dist: "distinct sorted" using mset_eq_imp_distinct_iff by blast
  let ?extra = "filter (\<lambda>t. t \<notin> set sorted) ?req"
  have "\<Union> (snd ` set edges) \<subseteq> referenced_tools p"
  proof clarify
    fix x t ds
    assume x: "x \<in> snd (t, ds)" and t: "(t, ds) \<in> set edges"
    from t collect_edges_ok [OF edges] have "dict_get edges t = Some ds" by simp
    with x edges_referenced [OF edges, of t] show "x \<in> referenced_tools p"
      by (auto simp: edge_set_def)
  qed
  with known have "set (dict_keys edges) \<union> \<Union> (snd ` set edges) \<subseteq> names" by blast
  with graph_nodes_bounds(2) [of edges] nodes have "set sorted \<subseteq> names" by (metis order_trans)
  moreover have "set ?req \<subseteq> referenced_tools p"
    by (auto simp: referenced_tools_def split: option.splits)
  ultimately have in_names: "set (sorted @ ?extra) \<subseteq> names" using known by auto
  have none: "edge_set edges t = {}" if "t \<notin> set sorted" for t
  proof -
    have "t \<notin> set (dict_keys edges)" using that nodes graph_nodes_bounds(1) [of edges] by blast
    then have "dict_get edges t = None" by (simp only: dict_get_None_iff) simp
    then show ?thesis by (simp add: edge_set_def)
  qed
  have "edge_set edges ((sorted @ ?extra) ! i) \<subseteq> set (take i (sorted @ ?extra))"
    if "i < length (sorted @ ?extra)" for i
  proof (cases "i < length sorted")
    case True
    with preds [OF True] show ?thesis by (simp add: nth_append)
  next
    case False
    with that nth_mem [of "i - length sorted" ?extra] have "(sorted @ ?extra) ! i \<in> set ?extra"
      by (simp add: nth_append del: set_filter)
    then show ?thesis using none by simp
  qed
  moreover have "distinct (sorted @ ?extra)" using dist required by auto
  moreover have "(case rp_completion p of None \<Rightarrow> {} | Some g \<Rightarrow> set (cg_required_successful_tools g))
      \<subseteq> set (sorted @ ?extra)" by (auto split: option.splits)
  ultimately show ?thesis using in_names that by blast
qed

section \<open>What the policy promises\<close>

text \<open>
  C13: Corrections are bounded. From a fresh runtime with a validated policy, through any
  sequence of tool results and stopping turns, at most \<open>max_correction_turns\<close> turns are sent back
  for correction; when that many have been sent, every further turn that would have to be
  corrected fails the run.
\<close>

theorem corrections_are_bounded:
  assumes "validate_policy p names final = Inr ()"
    and "reliability_run xs (new_runtime p) = (rt, ds)"
  shows "corrections_sent ds \<le> rp_max_correction_turns p
    \<and> (corrections_sent ds = rp_max_correction_turns p
        \<longrightarrow> (\<forall>ev. case stop_listener ev rt of (rt', None) \<Rightarrow> rt' = rt
                   | (rt', Some d) \<Rightarrow> rt' = rt \<and> sd_action d = FailRun))"
proof -
  from reliability_run_counts [OF assms(2) new_runtime_ok [OF assms(1)]]
  have r: "runtime_ok rt" "ry_policy rt = p" "ry_corrections rt = corrections_sent ds"
    by (simp_all add: new_runtime_def)
  have "case stop_listener ev rt of (rt', None) \<Rightarrow> rt' = rt
          | (rt', Some d) \<Rightarrow> rt' = rt \<and> sd_action d = FailRun"
    if "corrections_sent ds = rp_max_correction_turns p" for ev
  proof -
    obtain rt' d where s: "stop_listener ev rt = (rt', d)" by fastforce
    from stop_listener_cases [OF s] s r that show ?thesis by (auto split: option.splits)
  qed
  with r show ?thesis by (auto simp: runtime_ok_def)
qed


text \<open>
  C12: A validated policy can always be satisfied. There is an order of known tools in which,
  each tool succeeding in turn, the prerequisite hook lets every call through, and after which
  the completion gate is open; so the acyclicity check rules out every policy that could only
  ever be corrected until the run fails.
\<close>

theorem validated_policy_is_satisfiable:
  assumes "validate_policy p names final = Inr ()"
  shows "\<exists>order. distinct order \<and> set order \<subseteq> names
     \<and> (\<forall>i < length order.
          prerequisite_hook [(run, fold succeed (take i order) (new_runtime p))] run True (order ! i) = None)
     \<and> (\<forall>ev. st_reason ev \<noteq> ''invalid_response''
          \<longrightarrow> snd (stop_listener ev (fold succeed order (new_runtime p))) = None)"
proof -
  from assms obtain edges where edges: "collect_edges (rp_prerequisites p) [] = Inr edges"
    by (auto simp: validate_policy_def bind_result_Inr_iff split: if_splits)
  from policy_order [OF assms edges] obtain order where order: "distinct order" "set order \<subseteq> names"
      "(case rp_completion p of None \<Rightarrow> {} | Some g \<Rightarrow> set (cg_required_successful_tools g)) \<subseteq> set order"
      "\<And>i. i < length order \<Longrightarrow> edge_set edges (order ! i) \<subseteq> set (take i order)" by blast
  have after: "ry_policy (fold succeed ts (new_runtime p)) = p"
    "ry_succeeded (fold succeed ts (new_runtime p)) = set ts \<inter> referenced_tools p" for ts
    by (simp_all add: succeed_all_simps new_runtime_def)
  have "prerequisite_hook [(run, fold succeed (take i order) (new_runtime p))] run True (order ! i) = None"
    if "i < length order" for i
    using order(4) [OF that] edges_referenced [OF edges, of "order ! i"]
    by (auto simp: prerequisite_hook_def missing_prerequisites_edges after edges)
  moreover have "missing_tools (fold succeed order (new_runtime p)) = []"
  proof -
    have "(case rp_completion p of None \<Rightarrow> {} | Some g \<Rightarrow> set (cg_required_successful_tools g))
        \<subseteq> referenced_tools p" by (auto simp: referenced_tools_def split: option.splits)
    with order(3) show ?thesis by (auto simp: missing_tools_def after split: option.splits)
  qed
  ultimately show ?thesis using order(1,2)
    by (intro exI [of _ order]) (auto simp: stop_listener_def)
qed

text \<open>The checkpoint of a runtime restores into a fresh one; an empty one need not be restored.\<close>

lemma texts_of_map [simp]: "texts_of (map JStr ts) = Some ts"
  by (induction ts) simp_all

lemma finite_referenced [simp]: "finite (referenced_tools p)"
  by (auto simp: referenced_tools_def split: option.splits)

lemma reliability_checkpoint_roundtrip:
  assumes "runtime_ok rt"
  shows "if reliability_checkpoint rt = [] then rt = new_runtime (ry_policy rt)
     else reliability_restore (JDict (reliability_checkpoint rt)) (new_runtime (ry_policy rt)) = Inr rt"
proof (cases "reliability_checkpoint rt = []")
  case True
  then show ?thesis
    by (cases rt) (simp add: reliability_checkpoint_def new_runtime_def split: if_splits)
next
  case False
  let ?d = "reliability_checkpoint rt"
  from False have d: "?d = [(''v'', JInt 1), (''corrections'', JInt (ry_corrections rt)),
      (''succeeded'', sorted_texts (ry_succeeded rt))]"
    by (simp add: reliability_checkpoint_def split: if_splits)
  have keys: "set (dict_keys ?d) = {''v'', ''corrections'', ''succeeded''}"
    unfolding d list.map fst_conv list.set ..
  have vals: "dict_get ?d ''v'' = Some (JInt 1)" "dict_get ?d ''corrections'' = Some (JInt (ry_corrections rt))"
    "dict_get ?d ''succeeded'' = Some (sorted_texts (ry_succeeded rt))"
    by (simp_all add: d)
  have "finite (ry_succeeded rt)"
    using assms by (auto simp: runtime_ok_def intro: finite_subset [OF _ finite_referenced])
  with assms show ?thesis
    unfolding reliability_restore_def json.case keys vals
    by (simp add: False runtime_ok_def sorted_texts_def new_runtime_def)
qed

text \<open>One correction, a tool that needs another, and a gate on the second.\<close>

definition policy_example :: reliability_policy where
  "policy_example = \<lparr>rp_max_correction_turns = 1, rp_retry_invalid_responses = True,
     rp_prerequisites = [\<lparr>rq_tool_name = ''b'', rq_requires_success = [''a'']\<rparr>],
     rp_completion = Some \<lparr>cg_required_successful_tools = [''b'']\<rparr>\<rparr>"

lemma policy_example_valid: "validate_policy policy_example {''a'', ''b''} None = Inr ()"
  by (simp add: validate_policy_def policy_example_def referenced_tools_def Let_def edge_set_def
      graph_nodes_def)

theorem corrections_are_bounded_witness:
  "corrections_sent (snd (reliability_run
     [Stopping \<lparr>st_turn_index = 0, st_reason = ''final_text''\<rparr>] (new_runtime policy_example))) \<le> 1"
  using corrections_are_bounded [OF policy_example_valid,
      of "[Stopping \<lparr>st_turn_index = 0, st_reason = ''final_text''\<rparr>]"]
  by (auto simp: policy_example_def split: prod.splits)



theorem validated_policy_is_satisfiable_witness:
  "\<exists>order. set order \<subseteq> {''a'', ''b''}
     \<and> snd (stop_listener \<lparr>st_turn_index = 0, st_reason = ''final_text''\<rparr>
             (fold succeed order (new_runtime policy_example))) = None"
  using validated_policy_is_satisfiable [OF policy_example_valid] by fastforce

end
