(* ===== verification/Virtual_Files.thy ===== *)
theory Virtual_Files
  imports Py_Text Session_Store
begin

text \<open>
  \<^verbatim>\<open>src/linch/filesystem/backend.py\<close> and the session backend of \<^verbatim>\<open>filesystem/offload.py\<close>: the
  in-memory file backend, the scoped backend that confines another one to a root, the composite
  backend that routes by path prefix, and the backend that keeps offloaded results with a
  session. Backends are objects that share mutable state, so a backend is a description over a
  store: \<open>StateFiles a\<close> is the in-memory backend at address \<open>a\<close>, \<open>SessionFiles sid\<close> the one of
  session \<open>sid\<close>. The disk and Postgres backends are not modelled.
\<close>

section \<open>Paths and lines\<close>

definition path_parts :: "string \<Rightarrow> string list" where
  "path_parts p = filter (\<lambda>x. x \<noteq> []) (split_on CHR ''/'' p)"

definition path_of :: "string list \<Rightarrow> string" where
  "path_of parts = CHR ''/'' # join_text ''/'' parts"

definition normalize_path :: "string \<Rightarrow> string" where
  "normalize_path path =
     (let parts = path_parts path in if parts \<noteq> [] then path_of parts else ''/'')"

definition slice_lines :: "string \<Rightarrow> int \<Rightarrow> int option \<Rightarrow> string" where
  "slice_lines txt offset limit =
     (let unlimited = (limit = None \<or> limit = Some 0) in
      if offset \<le> 1 \<and> unlimited then txt
      else (let rows = split_on CHR 0x0A txt;
                start = (if 0 < offset then nat (max 0 (offset - 1)) else 0);
                stop = (case limit of Some n \<Rightarrow> if 0 < n then start + nat n else length rows
                        | None \<Rightarrow> length rows)
            in join_text [CHR 0x0A] (take (stop - start) (drop start rows))))"

text \<open>The edit of a text: the new text and the number of replacements.\<close>

definition edit_text :: "string \<Rightarrow> string \<Rightarrow> string \<Rightarrow> bool \<Rightarrow> (string \<times> int) result" where
  "edit_text txt old new replace_all =
     (let n = py_count old txt in
      if n = 0 then Inl ValueError
      else if 1 < n \<and> \<not> replace_all then Inl ValueError
      else Inr (if replace_all then py_replace old new txt else py_replace_once old new txt,
                if replace_all then int n else 1))"

text \<open>The filter of \<^verbatim>\<open>ls\<close>: the file itself, or everything below the directory.\<close>

definition listed :: "string \<Rightarrow> string \<Rightarrow> bool" where
  "listed pfx p \<longleftrightarrow> p = pfx \<or> prefix (rstrip_char CHR ''/'' pfx @ ''/'') p"

section \<open>The backends\<close>

datatype file_backend =
    StateFiles nat
  | SessionFiles string
  | ScopedFiles file_backend string
  | CompositeFiles file_backend "(string \<times> file_backend) list"

record file_world =
  fw_files :: "nat \<Rightarrow> (string, string) dict"
  fw_sessions :: session_store

definition state_files :: "(string, string) dict \<Rightarrow> (string, string) dict" where
  "state_files files = fold (\<lambda>(path, txt). dict_set (normalize_path path) txt) files []"

subsection \<open>The scoped backend's paths\<close>

definition scoped_normalize :: "string \<Rightarrow> string result" where
  "scoped_normalize path =
     (if CHR 0x00 \<in> set path then Inl ValueError
      else (let parts = split_on CHR ''/'' (map (\<lambda>c. if c = CHR 0x5C then CHR ''/'' else c) path)
            in if ''..'' \<in> set parts then Inl ValueError
               else Inr (path_of (filter (\<lambda>x. x \<noteq> [] \<and> x \<noteq> ''.'') parts))))"

definition new_scoped :: "file_backend \<Rightarrow> string \<Rightarrow> file_backend result" where
  "new_scoped inner base = bind_result (scoped_normalize base) (\<lambda>r. Inr (ScopedFiles inner r))"

definition scoped_path :: "string \<Rightarrow> string \<Rightarrow> string result" where
  "scoped_path base path =
     bind_result (scoped_normalize path) (\<lambda>p. Inr (rstrip_char CHR ''/'' base @ p))"

text \<open>The loop of \<^verbatim>\<open>ls\<close> over the inner listing.\<close>

definition scoped_entry :: "string \<Rightarrow> string \<Rightarrow> string \<Rightarrow> string option" where
  "scoped_entry base mapped path = (case scoped_normalize path of
       Inl _ \<Rightarrow> None
     | Inr p \<Rightarrow>
         (let r = rstrip_char CHR ''/'' base in
          if r \<noteq> [] \<and> p \<noteq> r \<and> \<not> prefix (r @ ''/'') p then None
          else if p = mapped \<or> prefix (rstrip_char CHR ''/'' mapped @ ''/'') p
          then Some (if drop (length r) p = [] then ''/'' else drop (length r) p)
          else None))"

subsection \<open>The composite backend's routes\<close>

definition new_composite :: "file_backend \<Rightarrow> (string, file_backend) dict \<Rightarrow> file_backend" where
  "new_composite dflt routes =
     CompositeFiles dflt
       (fold (\<lambda>(pre, b). let n = normalize_path pre in
                dict_set (if n = ''/'' then n else n @ ''/'') b) routes [])"

fun best_route :: "string \<Rightarrow> (string \<times> 'b) list \<Rightarrow> string \<Rightarrow> 'b option \<Rightarrow> 'b option" where
  "best_route path [] best_prefix best = best"
| "best_route path ((pre, b) # routes) best_prefix best =
     (if prefix pre (path @ ''/'') \<and> length best_prefix < length pre
      then best_route path routes pre (Some b)
      else best_route path routes best_prefix best)"

definition route :: "string \<Rightarrow> 'b \<Rightarrow> (string \<times> 'b) list \<Rightarrow> 'b" where
  "route path dflt routes = (case best_route path routes [] None of Some b \<Rightarrow> b | None \<Rightarrow> dflt)"

section \<open>Operations\<close>

text \<open>
  Every operation on a composite backend is the operation of the backend the path is routed to;
  the table of routes is turned into a table of operations.
\<close>

fun fs_read :: "file_backend \<Rightarrow> string \<Rightarrow> int \<Rightarrow> int option \<Rightarrow> file_world \<Rightarrow> string result" where
  "fs_read (StateFiles a) path offset limit w =
     (case dict_get (fw_files w a) (normalize_path path) of
        None \<Rightarrow> Inl FileNotFoundError
      | Some txt \<Rightarrow> Inr (slice_lines txt offset limit))"
| "fs_read (SessionFiles sid) path offset limit w =
     (case load_offload sid (normalize_path path) (fw_sessions w) of
        None \<Rightarrow> Inl FileNotFoundError
      | Some txt \<Rightarrow> Inr (slice_lines txt offset limit))"
| "fs_read (ScopedFiles inner base) path offset limit w =
     bind_result (scoped_path base path) (\<lambda>p. fs_read inner p offset limit w)"
| "fs_read (CompositeFiles dflt routes) path offset limit w =
     (let p = normalize_path path in
      route p (fs_read dflt) (map (\<lambda>(q, b). (q, fs_read b)) routes) p offset limit w)"

fun fs_write :: "file_backend \<Rightarrow> string \<Rightarrow> string \<Rightarrow> file_world \<Rightarrow> file_world \<times> unit result" where
  "fs_write (StateFiles a) path txt w =
     (w\<lparr>fw_files := (fw_files w)(a := dict_set (normalize_path path) txt (fw_files w a))\<rparr>, Inr ())"
| "fs_write (SessionFiles sid) path txt w =
     (w\<lparr>fw_sessions := save_offload sid (normalize_path path) txt (fw_sessions w)\<rparr>, Inr ())"
| "fs_write (ScopedFiles inner base) path txt w =
     (case scoped_path base path of Inl e \<Rightarrow> (w, Inl e) | Inr p \<Rightarrow> fs_write inner p txt w)"
| "fs_write (CompositeFiles dflt routes) path txt w =
     (let p = normalize_path path in
      route p (fs_write dflt) (map (\<lambda>(q, b). (q, fs_write b)) routes) p txt w)"

text \<open>The session backend edits a scratch copy of the file and writes it back.\<close>

fun fs_edit :: "file_backend \<Rightarrow> string \<Rightarrow> string \<Rightarrow> string \<Rightarrow> bool \<Rightarrow> file_world \<Rightarrow> file_world \<times> int result" where
  "fs_edit (StateFiles a) path old new replace_all w =
     (case dict_get (fw_files w a) (normalize_path path) of
        None \<Rightarrow> (w, Inl FileNotFoundError)
      | Some txt \<Rightarrow>
          (case edit_text txt old new replace_all of
             Inl e \<Rightarrow> (w, Inl e)
           | Inr (txt', n) \<Rightarrow>
               (w\<lparr>fw_files := (fw_files w)(a := dict_set (normalize_path path) txt' (fw_files w a))\<rparr>,
                Inr n)))"
| "fs_edit (SessionFiles sid) path old new replace_all w =
     (case fs_read (SessionFiles sid) (normalize_path path) 0 None w of
        Inl e \<Rightarrow> (w, Inl e)
      | Inr txt \<Rightarrow>
          (case edit_text txt old new replace_all of
             Inl e \<Rightarrow> (w, Inl e)
           | Inr (txt', n) \<Rightarrow>
               (fst (fs_write (SessionFiles sid) (normalize_path path) txt' w), Inr n)))"
| "fs_edit (ScopedFiles inner base) path old new replace_all w =
     (case scoped_path base path of
        Inl e \<Rightarrow> (w, Inl e) | Inr p \<Rightarrow> fs_edit inner p old new replace_all w)"
| "fs_edit (CompositeFiles dflt routes) path old new replace_all w =
     (let p = normalize_path path in
      route p (fs_edit dflt) (map (\<lambda>(q, b). (q, fs_edit b)) routes) p old new replace_all w)"

fun fs_exists :: "file_backend \<Rightarrow> string \<Rightarrow> file_world \<Rightarrow> bool result" where
  "fs_exists (StateFiles a) path w = Inr (normalize_path path \<in> set (dict_keys (fw_files w a)))"
| "fs_exists (SessionFiles sid) path w =
     (case fs_read (SessionFiles sid) path 0 None w of
        Inl e \<Rightarrow> if e = FileNotFoundError then Inr False else Inl e
      | Inr _ \<Rightarrow> Inr True)"
| "fs_exists (ScopedFiles inner base) path w =
     bind_result (scoped_path base path) (\<lambda>p. fs_exists inner p w)"
| "fs_exists (CompositeFiles dflt routes) path w =
     (let p = normalize_path path in
      route p (fs_exists dflt) (map (\<lambda>(q, b). (q, fs_exists b)) routes) p w)"

fun fs_delete :: "file_backend \<Rightarrow> string \<Rightarrow> file_world \<Rightarrow> file_world \<times> unit result" where
  "fs_delete (StateFiles a) path w =
     (w\<lparr>fw_files := (fw_files w)(a := dict_pop (normalize_path path) (fw_files w a))\<rparr>, Inr ())"
| "fs_delete (SessionFiles sid) path w = (w, Inl PermissionError)"
| "fs_delete (ScopedFiles inner base) path w =
     (case scoped_path base path of Inl e \<Rightarrow> (w, Inl e) | Inr p \<Rightarrow> fs_delete inner p w)"
| "fs_delete (CompositeFiles dflt routes) path w =
     (let p = normalize_path path in
      route p (fs_delete dflt) (map (\<lambda>(q, b). (q, fs_delete b)) routes) p w)"

text \<open>
  \<^verbatim>\<open>ls\<close> of a composite backend collects from all of its backends and skips those that fail.
\<close>

definition listing :: "string list \<Rightarrow> string \<Rightarrow> string list" where
  "listing paths pfx =
     (if pfx = [] then sort paths else sort (filter (listed (normalize_path pfx)) paths))"

fun fs_ls :: "file_backend \<Rightarrow> string \<Rightarrow> file_world \<Rightarrow> string list result" where
  "fs_ls (StateFiles a) pfx w = Inr (listing (dict_keys (fw_files w a)) pfx)"
| "fs_ls (SessionFiles sid) pfx w = Inr (listing (list_offloads sid (fw_sessions w)) pfx)"
| "fs_ls (ScopedFiles inner base) pfx w =
     bind_result (scoped_path base pfx) (\<lambda>m.
     (let stripped = rstrip_char CHR ''/'' m; mapped = (if stripped = [] then ''/'' else stripped) in
      bind_result (fs_ls inner mapped w) (\<lambda>paths.
        Inr (sort (remdups (List.map_filter (scoped_entry base mapped) paths))))))"
| "fs_ls (CompositeFiles dflt routes) pfx w =
     Inr (sort (remdups (concat (map (\<lambda>r. case r of Inl _ \<Rightarrow> [] | Inr ps \<Rightarrow> ps)
            (fs_ls dflt pfx w # map (\<lambda>(q, b). fs_ls b pfx w) routes)))))"

end
