(* ===== verification/File_Views.thy ===== *)
theory File_Views
  imports Virtual_Files "HOL-Library.Multiset"
begin

text \<open>
  What a tree of file backends means: the path components it stores a file under, its contents
  as a partial map on paths, and the effect of each operation on that map. The paths of the
  statements are plain: no component is \<^verbatim>\<open>.\<close> or \<^verbatim>\<open>..\<close>, and there is no backslash and no null
  byte; the scoped backend canonicalises all other paths or rejects them.
\<close>

section \<open>Paths as lists of components\<close>

definition plain_part :: "string \<Rightarrow> bool" where
  "plain_part x \<longleftrightarrow> x \<noteq> [] \<and> x \<noteq> ''.'' \<and> x \<noteq> ''..'' \<and> CHR ''/'' \<notin> set x
     \<and> CHR 0x5C \<notin> set x \<and> CHR 0x00 \<notin> set x"

definition plain_path :: "string \<Rightarrow> bool" where
  "plain_path p \<longleftrightarrow> list_all plain_part (path_parts p)"

lemma path_parts_slash: "path_parts (s @ CHR ''/'' # t) = path_parts s @ path_parts t"
  by (simp add: path_parts_def split_append)

lemma path_parts_part: "x \<noteq> [] \<Longrightarrow> CHR ''/'' \<notin> set x \<Longrightarrow> path_parts x = [x]"
  by (simp add: path_parts_def split_free)

lemma path_parts_Nil [simp]: "path_parts [] = []"
  by (simp add: path_parts_def)

lemma path_parts_join:
  "list_all plain_part ps \<Longrightarrow> path_parts (join_text ''/'' ps) = ps"
  by (induction "''/''" ps rule: join_text.induct)
    (simp_all add: path_parts_slash path_parts_part plain_part_def)

lemma path_parts_of [simp]: "list_all plain_part ps \<Longrightarrow> path_parts (path_of ps) = ps"
  using path_parts_slash [of "[]" "join_text ''/'' ps"] by (simp add: path_of_def path_parts_join)

lemma path_of_inject:
  "list_all plain_part ps \<Longrightarrow> list_all plain_part qs \<Longrightarrow> path_of ps = path_of qs \<longleftrightarrow> ps = qs"
  by (metis path_parts_of)

lemma normalize_path_of: "normalize_path p = path_of (path_parts p)"
  by (simp add: normalize_path_def Let_def path_of_def)

lemma plain_path_of [simp]: "list_all plain_part ps \<Longrightarrow> plain_path (path_of ps)"
  by (simp add: plain_path_def)

lemma plain_normalize [simp]:
  "plain_path p \<Longrightarrow> plain_path (normalize_path p)"
  "plain_path p \<Longrightarrow> path_parts (normalize_path p) = path_parts p"
  "plain_path p \<Longrightarrow> normalize_path (normalize_path p) = normalize_path p"
  by (simp_all add: normalize_path_of plain_path_def)

lemma split_chars: "set s \<subseteq> insert CHR ''/'' (\<Union> (set ` set (path_parts s)))"
proof -
  have "set (join_text [c] ws) \<subseteq> insert c (\<Union> (set ` set ws))" for c :: char and ws
    by (induction "[c]" ws rule: join_text.induct) auto
  from this [of "CHR ''/''" "split_on CHR ''/'' s"]
  have s: "set s \<subseteq> insert CHR ''/'' (\<Union> (set ` set (split_on CHR ''/'' s)))"
    by (simp only: join_split)
  show ?thesis
  proof
    fix x assume "x \<in> set s"
    with s have "x = CHR ''/'' \<or> (\<exists>w \<in> set (split_on CHR ''/'' s). x \<in> set w)" by blast
    then show "x \<in> insert CHR ''/'' (\<Union> (set ` set (path_parts s)))"
      by (auto simp: path_parts_def)
  qed
qed

lemma plain_path_chars:
  assumes "plain_path p"
  shows "CHR 0x5C \<notin> set p" "CHR 0x00 \<notin> set p"
  using assms split_chars [of p]
  by (auto simp: plain_path_def plain_part_def list_all_iff)

lemma scoped_normalize_plain:
  assumes "plain_path p"
  shows "scoped_normalize p = Inr (path_of (path_parts p))"
proof -
  have "map (\<lambda>c. if c = CHR 0x5C then CHR ''/'' else c) p = p"
    using plain_path_chars [OF assms] by (intro map_idI) auto
  moreover have "''..'' \<notin> set (split_on CHR ''/'' p)"
    using assms by (force simp: plain_path_def plain_part_def list_all_iff path_parts_def)
  moreover have "filter (\<lambda>x. x \<noteq> [] \<and> x \<noteq> ''.'') (split_on CHR ''/'' p) = path_parts p"
    using assms
    by (auto simp: plain_path_def plain_part_def list_all_iff path_parts_def intro!: filter_cong)
  ultimately show ?thesis using plain_path_chars [OF assms] by (simp add: scoped_normalize_def)
qed

lemma scoped_normalize_Inr:
  assumes "scoped_normalize p = Inr q"
  obtains ps where "q = path_of ps" "list_all plain_part ps"
proof -
  let ?s = "map (\<lambda>c. if c = CHR 0x5C then CHR ''/'' else c) p"
  let ?ps = "filter (\<lambda>x. x \<noteq> [] \<and> x \<noteq> ''.'') (split_on CHR ''/'' ?s)"
  from assms have q: "q = path_of ?ps" and dots: "''..'' \<notin> set (split_on CHR ''/'' ?s)"
    and nul: "CHR 0x00 \<notin> set p"
    by (auto simp: scoped_normalize_def Let_def split: if_splits)
  from nul have chars: "CHR 0x5C \<notin> set ?s" "CHR 0x00 \<notin> set ?s" by auto
  have "plain_part x" if x: "x \<in> set ?ps" for x
  proof -
    from x have m: "x \<in> set (split_on CHR ''/'' ?s)" and ne: "x \<noteq> []" "x \<noteq> ''.''"
      by (simp_all del: split_on.simps)
    from m dots have "x \<noteq> ''..''" by metis
    with split_parts_free [OF m] split_parts_chars [OF m] chars ne show ?thesis
      by (auto simp: plain_part_def)
  qed
  then have "list_all plain_part ?ps" unfolding list_all_iff by blast
  with q show ?thesis by (rule that)
qed

lemma join_last_free:
  "list_all plain_part ps \<Longrightarrow> ps \<noteq> [] \<Longrightarrow> \<exists>s c. join_text ''/'' ps = s @ [c] \<and> c \<noteq> CHR ''/''"
proof (induction "''/''" ps rule: join_text.induct)
  case (2 x)
  then show ?case
    by (cases x rule: rev_cases) (auto simp: plain_part_def)
next
  case (3 x y ps)
  then obtain s c where "join_text ''/'' (y # ps) = s @ [c]" "c \<noteq> CHR ''/''" by auto
  then show ?case by auto
qed simp

lemma rstrip_path_of:
  assumes "list_all plain_part ps"
  shows "rstrip_char CHR ''/'' (path_of ps) = (if ps = [] then [] else path_of ps)"
proof (cases "ps = []")
  case True
  then show ?thesis using rstrip_char_snoc [of "CHR ''/''" "[]"] by (simp add: path_of_def)
next
  case False
  with assms join_last_free obtain s c where "join_text ''/'' ps = s @ [c]" "c \<noteq> CHR ''/''"
    by blast
  then have "path_of ps = (CHR ''/'' # s) @ [c]" "c \<noteq> CHR ''/''" by (simp_all add: path_of_def)
  with False show ?thesis by (simp only: rstrip_char_snoc if_False)
qed

lemma scoped_path_parts:
  assumes "list_all plain_part rs" and "scoped_normalize p = Inr (path_of ps)" and "list_all plain_part ps"
  shows "\<exists>q. scoped_path (path_of rs) p = Inr q \<and> plain_path q \<and> path_parts q = rs @ ps"
proof -
  let ?q = "rstrip_char CHR ''/'' (path_of rs) @ path_of ps"
  have "path_parts ?q = rs @ ps"
    using assms rstrip_path_of [OF assms(1)]
    by (auto simp: path_of_def path_parts_slash path_parts_join simp flip: path_of_def)
      (metis append_Cons append_Nil path_of_def path_parts_of path_parts_slash path_parts_join)
  with assms show ?thesis by (auto simp: scoped_path_def plain_path_def)
qed

section \<open>The contents of a backend\<close>

datatype file_leaf = StateLeaf nat | SessionLeaf string

fun leaf_files :: "file_leaf \<Rightarrow> file_world \<Rightarrow> (string, string) dict" where
  "leaf_files (StateLeaf a) w = fw_files w a"
| "leaf_files (SessionLeaf sid) w = get_list (ss_offloads (fw_sessions w)) sid"

fun leaves :: "file_backend \<Rightarrow> file_leaf list" where
  "leaves (StateFiles a) = [StateLeaf a]"
| "leaves (SessionFiles sid) = [SessionLeaf sid]"
| "leaves (ScopedFiles inner base) = leaves inner"
| "leaves (CompositeFiles dflt routes) = leaves dflt @ concat (map (\<lambda>(q, b). leaves b) routes)"

fun view :: "file_backend \<Rightarrow> file_world \<Rightarrow> string list \<Rightarrow> string option" where
  "view (StateFiles a) w ps = dict_get (leaf_files (StateLeaf a) w) (path_of ps)"
| "view (SessionFiles sid) w ps = dict_get (leaf_files (SessionLeaf sid) w) (path_of ps)"
| "view (ScopedFiles inner base) w ps = view inner w (path_parts base @ ps)"
| "view (CompositeFiles dflt routes) w ps =
     route (path_of ps) (view dflt w) (map (\<lambda>(q, b). (q, view b w)) routes) ps"

text \<open>
  Backends as the constructors build them, and no file held by two backends of one composite.
\<close>

fun wf_backend :: "file_backend \<Rightarrow> bool" where
  "wf_backend (ScopedFiles inner base) =
     (wf_backend inner \<and> plain_path base \<and> base = path_of (path_parts base))"
| "wf_backend (CompositeFiles dflt routes) =
     (wf_backend dflt \<and> (\<forall>(q, b) \<in> set routes. wf_backend b)
      \<and> distinct (leaves (CompositeFiles dflt routes)))"
| "wf_backend _ = True"

definition children :: "file_backend \<Rightarrow> (string \<times> file_backend) list \<Rightarrow> file_backend set" where
  "children dflt routes = insert dflt (snd ` set routes)"

lemma best_route_map:
  "best_route p (map (\<lambda>(q, b). (q, f b)) routes) pre (map_option f best)
   = map_option f (best_route p routes pre best)"
proof (induction routes arbitrary: pre best)
  case (Cons r routes)
  obtain q b where r: "r = (q, b)" by fastforce
  show ?case
    using Cons [of q "Some b"] Cons [of pre best] by (simp add: r)
qed simp

lemma route_map: "route p (f dflt) (map (\<lambda>(q, b). (q, f b)) routes) = f (route p dflt routes)"
  using best_route_map [of p f routes "[]" None] by (auto simp: route_def split: option.splits)

lemma best_route_in:
  "best_route p routes pre best = Some b \<Longrightarrow> best = Some b \<or> b \<in> snd ` set routes"
proof (induction routes arbitrary: pre best)
  case (Cons r routes)
  then show ?case by (cases r) (fastforce split: if_splits)
qed simp

lemma route_in: "route p dflt routes \<in> children dflt routes"
  using best_route_in [of p routes "[]" None] by (auto simp: route_def children_def split: option.splits)

lemma view_composite:
  "view (CompositeFiles dflt routes) w ps = view (route (path_of ps) dflt routes) w ps"
  by (simp add: route_map [where f = "\<lambda>b. view b w"])

lemma wf_children: "wf_backend (CompositeFiles dflt routes) \<Longrightarrow> b \<in> children dflt routes \<Longrightarrow> wf_backend b"
  by (auto simp: children_def)

lemma leaves_children: "b \<in> children dflt routes \<Longrightarrow> set (leaves b) \<subseteq> set (leaves (CompositeFiles dflt routes))"
  by (auto simp: children_def)

lemma distinct_concat_disjoint:
  "distinct (concat (map f xs)) \<Longrightarrow> x \<in> set xs \<Longrightarrow> y \<in> set xs \<Longrightarrow> x \<noteq> y \<Longrightarrow> set (f x) \<inter> set (f y) = {}"
  by (induction xs) auto

lemma children_disjoint:
  assumes "wf_backend (CompositeFiles dflt routes)" and "b \<in> children dflt routes"
    and "c \<in> children dflt routes" and "b \<noteq> c"
  shows "set (leaves b) \<inter> set (leaves c) = {}"
proof -
  have "(\<lambda>(q, b). leaves b) = leaves \<circ> (snd :: string \<times> file_backend \<Rightarrow> file_backend)" by auto
  then have "distinct (concat (map leaves (dflt # map snd routes)))"
    using assms(1) by simp
  from distinct_concat_disjoint [OF this] assms(2-4) show ?thesis
    by (auto simp: children_def)
qed

lemma view_cong: "(\<And>l. l \<in> set (leaves b) \<Longrightarrow> leaf_files l w' = leaf_files l w) \<Longrightarrow> view b w' = view b w"
proof (induction b)
  case (CompositeFiles dflt routes)
  have same: "leaf_files l w' = leaf_files l w" if "c \<in> children dflt routes" "l \<in> set (leaves c)" for c l
    using that leaves_children [of c dflt routes] CompositeFiles.prems by blast
  have "view c w' = view c w" if "c \<in> children dflt routes" for c
  proof (cases "c = dflt")
    case True
    then show ?thesis using CompositeFiles.IH(1) same [OF that] by blast
  next
    case False
    with that obtain q where "(q, c) \<in> set routes" by (auto simp: children_def)
    with same [OF that] show ?thesis
      by (intro CompositeFiles.IH(2) [of "(q, c)" c]) (auto simp: snds.simps)
  qed
  with route_in [of _ dflt routes] show ?case
    by (intro ext) (metis view_composite)
qed (auto intro!: ext)

section \<open>Which files a backend holds\<close>

text \<open>Files are stored under plain paths, once each, and only where the routes lead.\<close>

definition keys_ok :: "(string, string) dict \<Rightarrow> bool" where
  "keys_ok d \<longleftrightarrow> dict_ok d \<and> (\<forall>k \<in> set (dict_keys d). \<exists>ps. list_all plain_part ps \<and> k = path_of ps)"

definition leaf_ok :: "file_leaf \<Rightarrow> file_world \<Rightarrow> bool" where
  "leaf_ok l w \<longleftrightarrow> keys_ok (leaf_files l w)"

lemma keys_ok_set: "keys_ok d \<Longrightarrow> plain_path p \<Longrightarrow> keys_ok (dict_set (normalize_path p) v d)"
  by (auto simp: keys_ok_def normalize_path_of plain_path_def)

lemma keys_ok_pop: "keys_ok d \<Longrightarrow> keys_ok (dict_pop k d)"
  by (auto simp: keys_ok_def)

fun well_routed :: "file_backend \<Rightarrow> file_world \<Rightarrow> bool" where
  "well_routed (ScopedFiles inner base) w = well_routed inner w"
| "well_routed (CompositeFiles dflt routes) w =
     (well_routed dflt w \<and> (\<forall>(q, b) \<in> set routes. well_routed b w)
      \<and> (\<forall>c \<in> insert dflt (snd ` set routes). \<forall>ps. list_all plain_part ps \<longrightarrow> view c w ps \<noteq> None
           \<longrightarrow> route (path_of ps) dflt routes = c))"
| "well_routed _ w = True"

definition world_ok :: "file_backend \<Rightarrow> file_world \<Rightarrow> bool" where
  "world_ok b w \<longleftrightarrow> well_routed b w \<and> (\<forall>l \<in> set (leaves b). leaf_ok l w)"

lemma well_routed_children:
  "well_routed (CompositeFiles dflt routes) w \<longleftrightarrow>
     (\<forall>c \<in> children dflt routes. well_routed c w
        \<and> (\<forall>ps. list_all plain_part ps \<longrightarrow> view c w ps \<noteq> None \<longrightarrow> route (path_of ps) dflt routes = c))"
  by (auto simp: children_def)

lemma well_routed_cong:
  "(\<And>l. l \<in> set (leaves b) \<Longrightarrow> leaf_files l w' = leaf_files l w) \<Longrightarrow> well_routed b w' = well_routed b w"
proof (induction b)
  case (CompositeFiles dflt routes)
  have same: "leaf_files l w' = leaf_files l w" if "c \<in> children dflt routes" "l \<in> set (leaves c)" for c l
    using that leaves_children [of c dflt routes] CompositeFiles.prems by blast
  have "well_routed c w' = well_routed c w" if "c \<in> children dflt routes" for c
  proof (cases "c = dflt")
    case True
    then show ?thesis using CompositeFiles.IH(1) same [OF that] by blast
  next
    case False
    with that obtain q where "(q, c) \<in> set routes" by (auto simp: children_def)
    with same [OF that] show ?thesis
      by (intro CompositeFiles.IH(2) [of "(q, c)" c]) (auto simp: snds.simps)
  qed
  moreover have "view c w' = view c w" if "c \<in> children dflt routes" for c
    by (rule view_cong) (rule same [OF that])
  ultimately show ?case unfolding well_routed_children by simp
qed simp_all

section \<open>What an operation on one path does\<close>

text \<open>
  \<open>op\<close> answers as \<open>answer\<close> says from the file it finds, leaves \<open>new\<close> in its place and touches
  nothing else.
\<close>

definition acts_as ::
  "file_backend \<Rightarrow> (string \<Rightarrow> file_world \<Rightarrow> file_world \<times> 'r result)
   \<Rightarrow> (string option \<Rightarrow> string option) \<Rightarrow> (string option \<Rightarrow> 'r result) \<Rightarrow> bool" where
  "acts_as b f new answer \<longleftrightarrow> (\<forall>p w. plain_path p \<longrightarrow>
     snd (f p w) = answer (view b w (path_parts p))
     \<and> (\<forall>qs. list_all plain_part qs \<longrightarrow>
          view b (fst (f p w)) qs = (if qs = path_parts p then new (view b w qs) else view b w qs))
     \<and> (\<forall>l. l \<notin> set (leaves b) \<longrightarrow> leaf_files l (fst (f p w)) = leaf_files l w)
     \<and> (\<forall>l. leaf_ok l w \<longrightarrow> leaf_ok l (fst (f p w)))
     \<and> (well_routed b w \<longrightarrow> well_routed b (fst (f p w))))"

lemma acts_asD:
  assumes "acts_as b f new answer" and "plain_path p"
  shows "snd (f p w) = answer (view b w (path_parts p))"
    "list_all plain_part qs \<Longrightarrow>
       view b (fst (f p w)) qs = (if qs = path_parts p then new (view b w qs) else view b w qs)"
    "l \<notin> set (leaves b) \<Longrightarrow> leaf_files l (fst (f p w)) = leaf_files l w"
    "leaf_ok l w \<Longrightarrow> leaf_ok l (fst (f p w))"
    "well_routed b w \<Longrightarrow> well_routed b (fst (f p w))"
  using assms unfolding acts_as_def by blast+

lemma wf_scoped_path:
  assumes "wf_backend (ScopedFiles inner base)" and "plain_path p"
  obtains q where "scoped_path base p = Inr q" "plain_path q" "path_parts q = path_parts base @ path_parts p"
proof -
  from assms have base: "list_all plain_part (path_parts base)" "path_of (path_parts base) = base"
    by (simp_all add: plain_path_def)
  from assms(2) have p: "list_all plain_part (path_parts p)" by (simp add: plain_path_def)
  from scoped_path_parts [OF base(1) scoped_normalize_plain [OF assms(2)] p] base(2) that
  show ?thesis by auto
qed

lemma acts_scoped:
  assumes inner: "acts_as inner f new answer" and wf: "wf_backend (ScopedFiles inner base)"
  shows "acts_as (ScopedFiles inner base)
    (\<lambda>p w. case scoped_path base p of Inl e \<Rightarrow> (w, Inl e) | Inr q \<Rightarrow> f q w) new answer"
  unfolding acts_as_def
proof (intro allI impI)
  fix p w assume p: "plain_path p"
  from wf_scoped_path [OF wf p] obtain q where q: "scoped_path base p = Inr q" "plain_path q"
    "path_parts q = path_parts base @ path_parts p" .
  from wf have base: "list_all plain_part (path_parts base)" by (simp add: plain_path_def)
  note d = acts_asD [OF inner q(2), where w = w]
  let ?r = "case scoped_path base p of Inl e \<Rightarrow> (w, Inl e) | Inr q \<Rightarrow> f q w"
  have r: "?r = f q w" by (simp add: q(1))
  show "snd ?r = answer (view (ScopedFiles inner base) w (path_parts p))
     \<and> (\<forall>qs. list_all plain_part qs \<longrightarrow> view (ScopedFiles inner base) (fst ?r) qs
          = (if qs = path_parts p then new (view (ScopedFiles inner base) w qs)
             else view (ScopedFiles inner base) w qs))
     \<and> (\<forall>l. l \<notin> set (leaves (ScopedFiles inner base)) \<longrightarrow> leaf_files l (fst ?r) = leaf_files l w)
     \<and> (\<forall>l. leaf_ok l w \<longrightarrow> leaf_ok l (fst ?r))
     \<and> (well_routed (ScopedFiles inner base) w \<longrightarrow> well_routed (ScopedFiles inner base) (fst ?r))"
    unfolding r using d base q(3) by simp
qed

lemma acts_composite:
  assumes each: "\<And>c. c \<in> children dflt routes \<Longrightarrow> acts_as c (f c) new answer"
    and wf: "wf_backend (CompositeFiles dflt routes)"
  shows "acts_as (CompositeFiles dflt routes)
    (\<lambda>p w. f (route (normalize_path p) dflt routes) (normalize_path p) w) new answer"
  unfolding acts_as_def
proof (intro allI impI)
  fix p w assume p: "plain_path p"
  let ?c = "route (normalize_path p) dflt routes" and ?b = "CompositeFiles dflt routes"
  let ?r = "f ?c (normalize_path p) w"
  have c: "?c \<in> children dflt routes" by (rule route_in)
  note d = acts_asD [OF each [OF c] plain_normalize(1) [OF p], where w = w]
  have here: "route (path_of (path_parts p)) dflt routes = ?c" by (simp add: normalize_path_of)
  have frame: "leaf_files l (fst ?r) = leaf_files l w" if "e \<in> children dflt routes" "e \<noteq> ?c" "l \<in> set (leaves e)" for e l
    using d(3) children_disjoint [OF wf that(1) c that(2)] that(3) by blast
  have others: "view e (fst ?r) = view e w" "well_routed e (fst ?r) = well_routed e w"
    if "e \<in> children dflt routes" "e \<noteq> ?c" for e
  proof -
    show "view e (fst ?r) = view e w" by (rule view_cong) (rule frame [OF that])
    show "well_routed e (fst ?r) = well_routed e w" by (rule well_routed_cong) (rule frame [OF that])
  qed
  have "snd ?r = answer (view ?b w (path_parts p))"
    using d(1) p by (simp only: view_composite here plain_normalize)
  moreover have "view ?b (fst ?r) qs = (if qs = path_parts p then new (view ?b w qs) else view ?b w qs)"
    if qs: "list_all plain_part qs" for qs
  proof (cases "route (path_of qs) dflt routes = ?c")
    case True
    with d(2) [OF qs] p show ?thesis by (simp only: view_composite plain_normalize)
  next
    case False
    then have "qs \<noteq> path_parts p" using here by auto
    with others(1) [OF route_in False] show ?thesis by (simp only: view_composite if_False)
  qed
  moreover have "leaf_files l (fst ?r) = leaf_files l w" if "l \<notin> set (leaves ?b)" for l
    using that d(3) leaves_children [OF c] by blast
  moreover have "well_routed ?b (fst ?r)" if routed: "well_routed ?b w"
    unfolding well_routed_children
  proof (intro ballI conjI allI impI)
    fix e assume e: "e \<in> children dflt routes"
    show "well_routed e (fst ?r)"
      using routed e d(5) others(2) [OF e] unfolding well_routed_children by (cases "e = ?c") auto
    fix ps assume ps: "list_all plain_part ps" and held: "view e (fst ?r) ps \<noteq> None"
    show "route (path_of ps) dflt routes = e"
    proof (cases "e = ?c \<and> ps = path_parts p")
      case True
      then show ?thesis using here by simp
    next
      case False
      then have "view e (fst ?r) ps = view e w ps"
        using d(2) [OF ps] others(1) [OF e] p by (cases "e = ?c") auto
      with held routed e ps show ?thesis unfolding well_routed_children by auto
    qed
  qed
  ultimately show "snd ?r = answer (view ?b w (path_parts p))
     \<and> (\<forall>qs. list_all plain_part qs \<longrightarrow> view ?b (fst ?r) qs
          = (if qs = path_parts p then new (view ?b w qs) else view ?b w qs))
     \<and> (\<forall>l. l \<notin> set (leaves ?b) \<longrightarrow> leaf_files l (fst ?r) = leaf_files l w)
     \<and> (\<forall>l. leaf_ok l w \<longrightarrow> leaf_ok l (fst ?r))
     \<and> (well_routed ?b w \<longrightarrow> well_routed ?b (fst ?r))"
    using d(4) by blast
qed

section \<open>The operations\<close>

lemma view_list_get [simp]: "get_list (dict_set sid v d) s = (if s = sid then v else get_list d s)"
  by (simp add: get_list_def)

lemma leaf_files_write:
  "leaf_files l (fst (fs_write (StateFiles a) p t w))
   = (if l = StateLeaf a then dict_set (normalize_path p) t (leaf_files l w) else leaf_files l w)"
  "leaf_files l (fst (fs_write (SessionFiles sid) p t w))
   = (if l = SessionLeaf sid then dict_set (normalize_path p) t (leaf_files l w) else leaf_files l w)"
  by (cases l; simp add: save_offload_def)+

lemma leaf_files_delete:
  "leaf_files l (fst (fs_delete (StateFiles a) p w))
   = (if l = StateLeaf a then dict_pop (normalize_path p) (leaf_files l w) else leaf_files l w)"
  by (cases l) simp_all

lemma leaf_store:
  assumes "plain_path p"
  shows "leaf_ok l w \<Longrightarrow> leaf_ok l (fst (fs_write (StateFiles a) p t w))"
    "leaf_ok l w \<Longrightarrow> leaf_ok l (fst (fs_write (SessionFiles sid) p t w))"
    "leaf_ok l w \<Longrightarrow> leaf_ok l (fst (fs_delete (StateFiles a) p w))"
  using assms
  by (auto simp: leaf_ok_def leaf_files_write leaf_files_delete keys_ok_set keys_ok_pop
      simp del: fs_write.simps fs_delete.simps leaf_files.simps)

lemma view_store:
  assumes "plain_path p" and "list_all plain_part qs"
  shows "view (StateFiles a) (fst (fs_write (StateFiles a) p t w)) qs
      = (if qs = path_parts p then Some t else view (StateFiles a) w qs)"
    "view (SessionFiles sid) (fst (fs_write (SessionFiles sid) p t w)) qs
      = (if qs = path_parts p then Some t else view (SessionFiles sid) w qs)"
  using assms path_of_inject [of qs "path_parts p"]
  by (simp_all add: normalize_path_of save_offload_def plain_path_def)

lemma write_acts:
  "wf_backend b \<Longrightarrow> acts_as b (\<lambda>p w. fs_write b p t w) (\<lambda>_. Some t) (\<lambda>_. Inr ())"
proof (induction b)
  case (StateFiles a)
  show ?case unfolding acts_as_def
    by (simp add: leaf_store view_store leaf_files_write del: view.simps fs_write.simps leaf_files.simps)
      simp
next
  case (SessionFiles sid)
  show ?case unfolding acts_as_def
    by (simp add: leaf_store view_store leaf_files_write del: view.simps fs_write.simps leaf_files.simps)
      simp
next
  case (ScopedFiles inner base)
  then have "acts_as inner (\<lambda>p w. fs_write inner p t w) (\<lambda>_. Some t) (\<lambda>_. Inr ())" by simp
  from acts_scoped [OF this ScopedFiles.prems] show ?case by simp
next
  case (CompositeFiles dflt routes)
  have "acts_as c (\<lambda>p w. fs_write c p t w) (\<lambda>_. Some t) (\<lambda>_. Inr ())"
    if "c \<in> children dflt routes" for c
    using that CompositeFiles.IH(1) CompositeFiles.IH(2) wf_children [OF CompositeFiles.prems that]
    by (fastforce simp: children_def)
  from acts_composite [where f = "\<lambda>b p w. fs_write b p t w", OF this CompositeFiles.prems] show ?case
    by (simp add: Let_def route_map)
qed

definition edited :: "string \<Rightarrow> string \<Rightarrow> bool \<Rightarrow> string option \<Rightarrow> string option" where
  "edited old new replace_all v = (case v of None \<Rightarrow> None | Some txt \<Rightarrow>
     (case edit_text txt old new replace_all of Inl _ \<Rightarrow> Some txt | Inr (txt', _) \<Rightarrow> Some txt'))"

definition edit_answer :: "string \<Rightarrow> string \<Rightarrow> bool \<Rightarrow> string option \<Rightarrow> int result" where
  "edit_answer old new replace_all v = (case v of None \<Rightarrow> Inl FileNotFoundError | Some txt \<Rightarrow>
     (case edit_text txt old new replace_all of Inl e \<Rightarrow> Inl e | Inr (_, n) \<Rightarrow> Inr n))"

lemma slice_all [simp]: "slice_lines txt 0 None = txt"
  by (simp add: slice_lines_def)

text \<open>A leaf's edit writes the new text, or leaves the world alone.\<close>

lemma leaf_edit:
  assumes "b = StateFiles a \<or> b = SessionFiles sid" and "plain_path p"
  shows "fs_edit b p old new replace_all w = (case view b w (path_parts p) of
      None \<Rightarrow> (w, Inl FileNotFoundError)
    | Some txt \<Rightarrow> (case edit_text txt old new replace_all of
        Inl e \<Rightarrow> (w, Inl e) | Inr (txt', n) \<Rightarrow> (fst (fs_write b p txt' w), Inr n)))"
  using assms
  by (auto simp: normalize_path_of load_offload_def plain_path_def split: option.splits sum.splits)

lemma acts_leaf_edit:
  assumes b: "b = StateFiles a \<or> b = SessionFiles sid"
  shows "acts_as b (\<lambda>p w. fs_edit b p old new replace_all w)
    (edited old new replace_all) (edit_answer old new replace_all)"
proof -
  have w: "acts_as b (\<lambda>p w. fs_write b p t w) (\<lambda>_. Some t) (\<lambda>_. Inr ())" for t
    using b write_acts [of b t] by (auto simp del: fs_write.simps)
  show ?thesis unfolding acts_as_def
  proof (intro allI impI)
    fix p w assume p: "plain_path p"
    note e = leaf_edit [OF b p, of old new replace_all w]
    show "snd (fs_edit b p old new replace_all w) = edit_answer old new replace_all (view b w (path_parts p))
      \<and> (\<forall>qs. list_all plain_part qs \<longrightarrow> view b (fst (fs_edit b p old new replace_all w)) qs
          = (if qs = path_parts p then edited old new replace_all (view b w qs) else view b w qs))
      \<and> (\<forall>l. l \<notin> set (leaves b) \<longrightarrow> leaf_files l (fst (fs_edit b p old new replace_all w)) = leaf_files l w)
      \<and> (\<forall>l. leaf_ok l w \<longrightarrow> leaf_ok l (fst (fs_edit b p old new replace_all w)))
      \<and> (well_routed b w \<longrightarrow> well_routed b (fst (fs_edit b p old new replace_all w)))"
      unfolding e using acts_asD [OF w p, where w = w]
      by (auto simp: edited_def edit_answer_def split: option.splits sum.splits prod.splits)
  qed
qed

lemma edit_acts:
  "wf_backend b \<Longrightarrow> acts_as b (\<lambda>p w. fs_edit b p old new replace_all w)
     (edited old new replace_all) (edit_answer old new replace_all)"
proof (induction b)
  case (ScopedFiles inner base)
  then have "acts_as inner (\<lambda>p w. fs_edit inner p old new replace_all w)
     (edited old new replace_all) (edit_answer old new replace_all)" by simp
  from acts_scoped [OF this ScopedFiles.prems] show ?case by simp
next
  case (CompositeFiles dflt routes)
  have "acts_as c (\<lambda>p w. fs_edit c p old new replace_all w)
     (edited old new replace_all) (edit_answer old new replace_all)"
    if "c \<in> children dflt routes" for c
    using that CompositeFiles.IH(1) CompositeFiles.IH(2) wf_children [OF CompositeFiles.prems that]
    by (fastforce simp: children_def)
  from acts_composite [where f = "\<lambda>b p w. fs_edit b p old new replace_all w", OF this CompositeFiles.prems]
  show ?case by (simp add: Let_def route_map)
qed (use acts_leaf_edit in blast)+

text \<open>Sessions keep their files: deleting is possible where no session backend is involved.\<close>

definition session_free :: "file_backend \<Rightarrow> bool" where
  "session_free b \<longleftrightarrow> list_all (\<lambda>l. case l of StateLeaf _ \<Rightarrow> True | SessionLeaf _ \<Rightarrow> False) (leaves b)"

lemma delete_acts:
  "wf_backend b \<Longrightarrow> session_free b \<Longrightarrow> acts_as b (\<lambda>p w. fs_delete b p w) (\<lambda>_. None) (\<lambda>_. Inr ())"
proof (induction b)
  case (StateFiles a)
have "view (StateFiles a) (fst (fs_delete (StateFiles a) p w)) qs
      = (if qs = path_parts p then None else view (StateFiles a) w qs)"
    if "plain_path p" "list_all plain_part qs" for p w qs
    using that path_of_inject [of qs "path_parts p"] by (simp add: normalize_path_of plain_path_def)
  then show ?case unfolding acts_as_def
    by (simp add: leaf_store leaf_files_delete del: view.simps fs_delete.simps leaf_files.simps) simp
next
  case (ScopedFiles inner base)
  then have "acts_as inner (\<lambda>p w. fs_delete inner p w) (\<lambda>_. None) (\<lambda>_. Inr ())"
    by (simp add: session_free_def)
  from acts_scoped [OF this ScopedFiles.prems(1)] show ?case by simp
next
  case (CompositeFiles dflt routes)
  have "session_free c" if "c \<in> children dflt routes" for c
    using leaves_children [OF that] CompositeFiles.prems(2) by (auto simp: session_free_def list_all_iff)
  then have "acts_as c (\<lambda>p w. fs_delete c p w) (\<lambda>_. None) (\<lambda>_. Inr ())"
    if "c \<in> children dflt routes" for c
    using that CompositeFiles.IH(1) CompositeFiles.IH(2) wf_children [OF CompositeFiles.prems(1) that]
    by (fastforce simp: children_def)
  from acts_composite [where f = "\<lambda>b p w. fs_delete b p w", OF this CompositeFiles.prems(1)] show ?case
    by (simp add: Let_def route_map)
qed (simp add: session_free_def)

section \<open>Listings\<close>

definition held :: "file_backend \<Rightarrow> file_world \<Rightarrow> string list \<Rightarrow> string set" where
  "held b w dir = {path_of ps | ps. list_all plain_part ps \<and> view b w ps \<noteq> None \<and> prefix dir ps}"

lemma path_of_append:
  "list_all plain_part rs \<Longrightarrow> rs \<noteq> [] \<Longrightarrow> path_of (rs @ ts) = path_of rs @ (if ts = [] then [] else path_of ts)"
  by (cases "ts = []") (simp_all add: path_of_def join_append)

lemma listed_iff:
  assumes "list_all plain_part qs" and "list_all plain_part ps"
  shows "listed (path_of qs) (path_of ps) \<longleftrightarrow> prefix qs ps"
proof (cases "qs = []")
  case True
  then show ?thesis using rstrip_path_of [OF assms(1)] by (simp add: listed_def path_of_def)
next
  case False
  have "prefix qs ps" if "prefix (path_of qs @ ''/'') (path_of ps)"
  proof -
    from that obtain t where "path_of ps = path_of qs @ CHR ''/'' # t" by (auto elim: prefixE)
    then have "path_parts (path_of ps) = path_parts (path_of qs) @ path_parts t"
      by (simp add: path_parts_slash)
    with assms show ?thesis by simp
  qed
  moreover have "prefix (path_of qs @ ''/'') (path_of ps)" if "prefix qs ps" "ps \<noteq> qs"
  proof -
    from that obtain ts where ts: "ps = qs @ ts" "ts \<noteq> []" by (auto elim: prefixE)
    then show ?thesis using path_of_append [OF assms(1) False, of ts] by (simp add: path_of_def)
  qed
  ultimately show ?thesis
    using False rstrip_path_of [OF assms(1)] path_of_inject [OF assms] by (auto simp: listed_def)
qed

definition lists_exactly :: "file_backend \<Rightarrow> file_world \<Rightarrow> bool" where
  "lists_exactly b w \<longleftrightarrow> (\<forall>p. plain_path p \<longrightarrow>
     (\<exists>xs. fs_ls b p w = Inr xs \<and> sorted xs \<and> distinct xs \<and> set xs = held b w (path_parts p)))"

lemma listing_leaf:
  assumes "keys_ok d" and "plain_path p" and "mset ks = mset (dict_keys d)"
    and "\<And>ps. list_all plain_part ps \<Longrightarrow> view b w ps = dict_get d (path_of ps)"
  shows "sorted (listing ks p) \<and> distinct (listing ks p) \<and> set (listing ks p) = held b w (path_parts p)"
proof -
  have ks: "distinct ks" "set ks = set (dict_keys d)"
    using assms(1) mset_eq_imp_distinct_iff [OF assms(3)] mset_eq_setD [OF assms(3)]
    by (simp_all add: keys_ok_def)
  have parts: "list_all plain_part (path_parts p)" using assms(2) by (simp add: plain_path_def)
  have stored: "(\<exists>ps. list_all plain_part ps \<and> k = path_of ps \<and> view b w ps \<noteq> None) \<longleftrightarrow> k \<in> set ks" for k
  proof
    assume "\<exists>ps. list_all plain_part ps \<and> k = path_of ps \<and> view b w ps \<noteq> None"
    then have "dict_get d k \<noteq> None" using assms(4) by auto
    then show "k \<in> set ks" using ks(2) dict_get_None_iff by metis
  next
    assume "k \<in> set ks"
    then obtain ps where "list_all plain_part ps" "k = path_of ps" "dict_get d k \<noteq> None"
      using assms(1) ks(2) dict_get_None_iff by (metis keys_ok_def)
    then show "\<exists>ps. list_all plain_part ps \<and> k = path_of ps \<and> view b w ps \<noteq> None"
      using assms(4) by metis
  qed
  have held: "held b w (path_parts p)
      = {k \<in> set ks. \<exists>ps. list_all plain_part ps \<and> k = path_of ps \<and> prefix (path_parts p) ps}"
  proof (intro equalityI subsetI)
    fix k assume "k \<in> held b w (path_parts p)"
    then obtain ps where "list_all plain_part ps" "k = path_of ps" "view b w ps \<noteq> None"
      "prefix (path_parts p) ps" by (auto simp: held_def)
    with stored [of k] show "k \<in> {k \<in> set ks. \<exists>ps. list_all plain_part ps \<and> k = path_of ps
        \<and> prefix (path_parts p) ps}" by blast
  next
    fix k assume "k \<in> {k \<in> set ks. \<exists>ps. list_all plain_part ps \<and> k = path_of ps
        \<and> prefix (path_parts p) ps}"
    then obtain ps where ps: "list_all plain_part ps" "k = path_of ps" "prefix (path_parts p) ps"
      and "k \<in> set ks" by blast
    with stored [of k] obtain qs where "list_all plain_part qs" "k = path_of qs" "view b w qs \<noteq> None"
      by blast
    with ps path_of_inject have "view b w ps \<noteq> None" by metis
    with ps show "k \<in> held b w (path_parts p)" unfolding held_def by blast
  qed
  have "set (listing ks p) = held b w (path_parts p)"
  proof (cases "p = []")
    case True
    then show ?thesis unfolding held using stored by (auto simp: listing_def)
  next
    case False
    then have "set (listing ks p) = {k \<in> set ks. listed (path_of (path_parts p)) k}"
      by (simp add: listing_def normalize_path_of)
    also have "\<dots> = held b w (path_parts p)"
    proof -
      have "listed (path_of (path_parts p)) k
          \<longleftrightarrow> (\<exists>ps. list_all plain_part ps \<and> k = path_of ps \<and> prefix (path_parts p) ps)"
        if "k \<in> set ks" for k
        using that stored [of k] listed_iff [OF parts] by metis
      then show ?thesis unfolding held by blast
    qed
    finally show ?thesis .
  qed
  with ks(1) show ?thesis by (simp add: listing_def)
qed

lemma scoped_mapped:
  assumes "list_all plain_part rs" and "list_all plain_part ps"
  shows "(let s = rstrip_char CHR ''/'' (rstrip_char CHR ''/'' (path_of rs) @ path_of ps)
          in if s = [] then ''/'' else s) = path_of (rs @ ps)"
proof (cases "ps = []")
  case True
  have "rstrip_char CHR ''/'' (s @ path_of []) = rstrip_char CHR ''/'' s" for s
    by (simp add: path_of_def)
  moreover have "path_of xs \<noteq> []" "path_of [] = ''/''" for xs by (simp_all add: path_of_def)
  ultimately show ?thesis using True rstrip_path_of [OF assms(1)] by (simp add: Let_def)
next
  case False
  have "rstrip_char CHR ''/'' (path_of rs) @ path_of ps = path_of (rs @ ps)"
    using rstrip_path_of [OF assms(1)] path_of_append [OF assms(1), of ps] False by auto
  with False assms rstrip_path_of [of "rs @ ps"] show ?thesis
    by (simp add: Let_def) (simp add: path_of_def)
qed

lemma scoped_entry_eq:
  assumes "list_all plain_part rs" and "list_all plain_part ps" and "list_all plain_part ts"
    and "prefix ps ts"
  shows "scoped_entry (path_of rs) (path_of (rs @ ps)) (path_of (rs @ ts)) = Some (path_of ts)"
proof -
  have plain: "list_all plain_part (rs @ ts)" "list_all plain_part (rs @ ps)" using assms by simp_all
  have n: "scoped_normalize (path_of (rs @ ts)) = Inr (path_of (rs @ ts))"
    using scoped_normalize_plain [OF plain_path_of [OF plain(1)]] plain(1) by simp
  have below: "listed (path_of rs) (path_of (rs @ ts))" "listed (path_of (rs @ ps)) (path_of (rs @ ts))"
    using listed_iff assms plain by auto
  have tail: "(if drop (length (rstrip_char CHR ''/'' (path_of rs))) (path_of (rs @ ts)) = [] then ''/''
      else drop (length (rstrip_char CHR ''/'' (path_of rs))) (path_of (rs @ ts))) = path_of ts"
  proof (cases "rs = []")
    case True
    then show ?thesis using rstrip_path_of [OF assms(1)] by (simp add: path_of_def)
  next
    case False
    then show ?thesis using rstrip_path_of [OF assms(1)] path_of_append [OF assms(1), of ts]
      by (simp add: path_of_def)
  qed
  have "\<not> (rstrip_char CHR ''/'' (path_of rs) \<noteq> [] \<and> path_of (rs @ ts) \<noteq> rstrip_char CHR ''/'' (path_of rs)
      \<and> \<not> prefix (rstrip_char CHR ''/'' (path_of rs) @ ''/'') (path_of (rs @ ts)))"
    using below(1) rstrip_path_of [OF assms(1)] by (auto simp: listed_def split: if_splits)
  with below(2) tail show ?thesis by (simp add: scoped_entry_def n listed_def Let_def)
qed

lemma scoped_lists:
  assumes inner: "lists_exactly inner w" and wf: "wf_backend (ScopedFiles inner base)"
  shows "lists_exactly (ScopedFiles inner base) w"
  unfolding lists_exactly_def
proof (intro allI impI)
  fix p assume p: "plain_path p"
  let ?rs = "path_parts base" and ?ps = "path_parts p"
  from wf p have rs: "list_all plain_part ?rs" and base: "base = path_of ?rs" and ps: "list_all plain_part ?ps"
    by (simp_all add: plain_path_def)
  have m: "scoped_path base p = Inr (rstrip_char CHR ''/'' (path_of ?rs) @ path_of ?ps)"
    using scoped_normalize_plain [OF p] base by (simp add: scoped_path_def)
  have "plain_path (path_of (?rs @ ?ps))" using rs ps by simp
  with inner obtain ys where ys: "fs_ls inner (path_of (?rs @ ?ps)) w = Inr ys"
    "set ys = held inner w (?rs @ ?ps)"
    unfolding lists_exactly_def using rs ps by (metis list_all_append path_parts_of)
  let ?xs = "sort (remdups (List.map_filter (scoped_entry base (path_of (?rs @ ?ps))) ys))"
  have "fs_ls (ScopedFiles inner base) p w = Inr ?xs"
    using ys(1) scoped_mapped [OF rs ps] by (simp add: m Let_def)
  moreover have "set ?xs = held (ScopedFiles inner base) w ?ps"
  proof -
    have entry: "ks \<in> {ks. list_all plain_part ks \<and> view inner w ks \<noteq> None \<and> prefix (?rs @ ?ps) ks}
        \<longleftrightarrow> (\<exists>ts. ks = ?rs @ ts \<and> list_all plain_part ts \<and> view inner w (?rs @ ts) \<noteq> None \<and> prefix ?ps ts)" for ks
      using rs by (auto elim!: prefixE)
    have "set ?xs = {e. \<exists>k \<in> set ys. scoped_entry base (path_of (?rs @ ?ps)) k = Some e}"
      by (auto simp: List.map_filter_def image_iff split: option.splits) (metis option.sel)+
    also have "\<dots> = {path_of ts | ts. list_all plain_part ts \<and> view inner w (?rs @ ts) \<noteq> None \<and> prefix ?ps ts}"
    proof (intro equalityI subsetI)
      fix e assume "e \<in> {e. \<exists>k \<in> set ys. scoped_entry base (path_of (?rs @ ?ps)) k = Some e}"
      then obtain k where "k \<in> set ys" and e: "scoped_entry base (path_of (?rs @ ?ps)) k = Some e"
        by blast
      then obtain ks where "k = path_of ks" "list_all plain_part ks" "view inner w ks \<noteq> None"
        "prefix (?rs @ ?ps) ks" unfolding ys(2) held_def by blast
      with entry [of ks] obtain ts where "k = path_of (?rs @ ts)" "list_all plain_part ts"
        "view inner w (?rs @ ts) \<noteq> None" "prefix ?ps ts" by blast
      with e scoped_entry_eq [OF rs ps, of ts] base
      show "e \<in> {path_of ts | ts. list_all plain_part ts \<and> view inner w (?rs @ ts) \<noteq> None \<and> prefix ?ps ts}"
        by auto
    next
      fix e assume "e \<in> {path_of ts | ts. list_all plain_part ts \<and> view inner w (?rs @ ts) \<noteq> None \<and> prefix ?ps ts}"
      then obtain ts where e: "e = path_of ts" and
        ts: "list_all plain_part ts" "view inner w (?rs @ ts) \<noteq> None" "prefix ?ps ts" by blast
      from entry [of "?rs @ ts"] ts have "path_of (?rs @ ts) \<in> set ys"
        unfolding ys(2) held_def by blast
      with e scoped_entry_eq [OF rs ps ts(1,3)] base
      show "e \<in> {e. \<exists>k \<in> set ys. scoped_entry base (path_of (?rs @ ?ps)) k = Some e}" by auto
    qed
    also have "\<dots> = held (ScopedFiles inner base) w ?ps" by (simp add: held_def)
    finally show ?thesis .
  qed
  ultimately show "\<exists>xs. fs_ls (ScopedFiles inner base) p w = Inr xs \<and> sorted xs \<and> distinct xs
      \<and> set xs = held (ScopedFiles inner base) w ?ps" by auto
qed

lemma composite_lists:
  assumes each: "\<And>c. c \<in> children dflt routes \<Longrightarrow> lists_exactly c w"
    and routed: "well_routed (CompositeFiles dflt routes) w"
  shows "lists_exactly (CompositeFiles dflt routes) w"
  unfolding lists_exactly_def
proof (intro allI impI)
  fix p assume p: "plain_path p"
  let ?b = "CompositeFiles dflt routes"
  let ?ls = "\<lambda>c. case fs_ls c p w of Inl _ \<Rightarrow> [] | Inr ps \<Rightarrow> ps"
  have listed: "set (?ls c) = held c w (path_parts p)" if "c \<in> children dflt routes" for c
    using each [OF that] p unfolding lists_exactly_def by fastforce
  let ?xs = "sort (remdups (concat (map ?ls (dflt # map snd routes))))"
  have "fs_ls ?b p w = Inr ?xs" by (simp add: comp_def case_prod_beta)
  moreover have "set ?xs = (\<Union>c \<in> children dflt routes. held c w (path_parts p))"
    using listed by (auto simp: children_def)
  moreover have "(\<Union>c \<in> children dflt routes. held c w (path_parts p)) = held ?b w (path_parts p)"
  proof (intro equalityI subsetI)
    fix k assume "k \<in> (\<Union>c \<in> children dflt routes. held c w (path_parts p))"
    then obtain c ps where c: "c \<in> children dflt routes" "list_all plain_part ps" "k = path_of ps"
      "view c w ps \<noteq> None" "prefix (path_parts p) ps" by (auto simp: held_def)
    with routed have "route (path_of ps) dflt routes = c" unfolding well_routed_children by blast
    with c show "k \<in> held ?b w (path_parts p)"
      unfolding held_def by (auto simp: view_composite simp del: view.simps)
  next
    fix k assume "k \<in> held ?b w (path_parts p)"
    then obtain ps where "list_all plain_part ps" "k = path_of ps" "prefix (path_parts p) ps"
      "view (route (path_of ps) dflt routes) w ps \<noteq> None"
      unfolding held_def by (auto simp: view_composite simp del: view.simps)
    then show "k \<in> (\<Union>c \<in> children dflt routes. held c w (path_parts p))"
      using route_in [of "path_of ps" dflt routes] unfolding held_def by blast
  qed
  ultimately show "\<exists>xs. fs_ls ?b p w = Inr xs \<and> sorted xs \<and> distinct xs \<and> set xs = held ?b w (path_parts p)"
    by auto
qed

lemma world_ok_children:
  "world_ok (CompositeFiles dflt routes) w \<Longrightarrow> c \<in> children dflt routes \<Longrightarrow> world_ok c w"
  using leaves_children [of c dflt routes] unfolding world_ok_def well_routed_children by blast

lemma backend_lists: "wf_backend b \<Longrightarrow> world_ok b w \<Longrightarrow> lists_exactly b w"
proof (induction b)
  case (StateFiles a)
  then have "keys_ok (fw_files w a)" by (simp add: world_ok_def leaf_ok_def)
  then show ?case unfolding lists_exactly_def
    using listing_leaf [of "fw_files w a" _ "dict_keys (fw_files w a)" "StateFiles a" w] by simp
next
  case (SessionFiles sid)
  let ?d = "get_list (ss_offloads (fw_sessions w)) sid"
  from SessionFiles have "keys_ok ?d" by (simp add: world_ok_def leaf_ok_def)
  then show ?case unfolding lists_exactly_def
    using listing_leaf [of ?d _ "list_offloads sid (fw_sessions w)" "SessionFiles sid" w]
    by (simp add: list_offloads_def)
next
  case (ScopedFiles inner base)
  then have "lists_exactly inner w" by (simp add: world_ok_def)
  then show ?case by (rule scoped_lists) (rule ScopedFiles.prems)
next
  case (CompositeFiles dflt routes)
  have "lists_exactly c w" if "c \<in> children dflt routes" for c
    using that CompositeFiles.IH(1) CompositeFiles.IH(2) wf_children [OF CompositeFiles.prems(1) that]
      world_ok_children [OF CompositeFiles.prems(2) that]
    by (fastforce simp: children_def)
  from composite_lists [OF this conjunct1 [OF CompositeFiles.prems(2) [unfolded world_ok_def]]]
  show ?case .
qed

section \<open>Reading\<close>

definition read_answer :: "int \<Rightarrow> int option \<Rightarrow> string option \<Rightarrow> string result" where
  "read_answer offset limit v = (case v of
       None \<Rightarrow> Inl FileNotFoundError | Some txt \<Rightarrow> Inr (slice_lines txt offset limit))"

lemma read_view:
  "wf_backend b \<Longrightarrow> plain_path p \<Longrightarrow>
     fs_read b p offset limit w = read_answer offset limit (view b w (path_parts p))"
proof (induction b arbitrary: p)
  case (ScopedFiles inner base)
  from wf_scoped_path [OF ScopedFiles.prems] obtain q where "scoped_path base p = Inr q"
    "plain_path q" "path_parts q = path_parts base @ path_parts p" .
  with ScopedFiles show ?case by simp
next
  case (CompositeFiles dflt routes)
  let ?c = "route (path_of (path_parts p)) dflt routes"
  have "?c \<in> children dflt routes" by (rule route_in)
  with CompositeFiles have "fs_read ?c (normalize_path p) offset limit w
      = read_answer offset limit (view ?c w (path_parts (normalize_path p)))"
    using wf_children [OF CompositeFiles.prems(1)] plain_normalize(1)
    by (fastforce simp: children_def)
  with CompositeFiles.prems(2) show ?case
    by (simp only: fs_read.simps Let_def route_map [where f = fs_read] view_composite
        normalize_path_of [of p] plain_normalize(2) [unfolded normalize_path_of])
qed (simp_all add: normalize_path_of load_offload_def read_answer_def)

lemma exists_view:
  "wf_backend b \<Longrightarrow> plain_path p \<Longrightarrow> fs_exists b p w = Inr (view b w (path_parts p) \<noteq> None)"
proof (induction b arbitrary: p)
  case (ScopedFiles inner base)
  from wf_scoped_path [OF ScopedFiles.prems] obtain q where "scoped_path base p = Inr q"
    "plain_path q" "path_parts q = path_parts base @ path_parts p" .
  with ScopedFiles show ?case by simp
next
  case (CompositeFiles dflt routes)
  let ?c = "route (path_of (path_parts p)) dflt routes"
  have "?c \<in> children dflt routes" by (rule route_in)
  with CompositeFiles have "fs_exists ?c (normalize_path p) w
      = Inr (view ?c w (path_parts (normalize_path p)) \<noteq> None)"
    using wf_children [OF CompositeFiles.prems(1)] plain_normalize(1)
    by (fastforce simp: children_def)
  with CompositeFiles.prems(2) show ?case
    by (simp only: fs_exists.simps Let_def route_map [where f = fs_exists] view_composite
        normalize_path_of [of p] plain_normalize(2) [unfolded normalize_path_of])
next
  case (StateFiles a)
  then show ?case
    using dict_get_None_iff [of "fw_files w a" "path_of (path_parts p)"]
    by (simp add: normalize_path_of)
qed (auto simp: normalize_path_of load_offload_def split: option.splits)

end
