(* ===== verification/File_Contracts.thy ===== *)
theory File_Contracts
  imports File_Views Tool_Output
begin

text \<open>
  What the file backends promise: a tree of backends behaves as one in-memory backend, a scoped
  backend confines whatever is asked of it to its root, and a tool result that was offloaded
  (\<^verbatim>\<open>filesystem/offload.py\<close>) can be read back in full.
\<close>

section \<open>A tree of backends is one file system\<close>

datatype file_op =
    ReadOp string int "int option"
  | WriteOp string string
  | EditOp string string string bool
  | ExistsOp string
  | DeleteOp string
  | LsOp string

datatype file_answer =
    ReadAnswer "string result"
  | WriteAnswer "unit result"
  | EditAnswer "int result"
  | ExistsAnswer "bool result"
  | DeleteAnswer "unit result"
  | LsAnswer "string list result"

fun fs_op :: "file_backend \<Rightarrow> file_op \<Rightarrow> file_world \<Rightarrow> file_world \<times> file_answer" where
  "fs_op b (ReadOp p offset limit) w = (w, ReadAnswer (fs_read b p offset limit w))"
| "fs_op b (WriteOp p t) w = map_prod id WriteAnswer (fs_write b p t w)"
| "fs_op b (EditOp p old new replace_all) w = map_prod id EditAnswer (fs_edit b p old new replace_all w)"
| "fs_op b (ExistsOp p) w = (w, ExistsAnswer (fs_exists b p w))"
| "fs_op b (DeleteOp p) w = map_prod id DeleteAnswer (fs_delete b p w)"
| "fs_op b (LsOp p) w = (w, LsAnswer (fs_ls b p w))"

fun fs_run :: "file_backend \<Rightarrow> file_op list \<Rightarrow> file_world \<Rightarrow> file_world \<times> file_answer list" where
  "fs_run b [] w = (w, [])"
| "fs_run b (x # xs) w = (case fs_op b x w of (w1, a) \<Rightarrow>
     (case fs_run b xs w1 of (w2, as) \<Rightarrow> (w2, a # as)))"

fun op_path :: "file_op \<Rightarrow> string" where
  "op_path (ReadOp p _ _) = p"
| "op_path (WriteOp p _) = p"
| "op_path (EditOp p _ _ _) = p"
| "op_path (ExistsOp p) = p"
| "op_path (DeleteOp p) = p"
| "op_path (LsOp p) = p"

fun is_delete :: "file_op \<Rightarrow> bool" where
  "is_delete (DeleteOp _) = True"
| "is_delete _ = False"

text \<open>Two backends that hold the same files, each in its own world.\<close>

definition alike :: "file_backend \<Rightarrow> file_world \<Rightarrow> file_backend \<Rightarrow> file_world \<Rightarrow> bool" where
  "alike b w c v \<longleftrightarrow> world_ok b w \<and> world_ok c v
     \<and> (\<forall>ps. list_all plain_part ps \<longrightarrow> view b w ps = view c v ps)"

lemma acts_alike:
  assumes "acts_as b f new answer" and "acts_as c g new answer" and "alike b w c v" and "plain_path p"
  shows "snd (f p w) = snd (g p v) \<and> alike b (fst (f p w)) c (fst (g p v))"
proof -
  have p: "list_all plain_part (path_parts p)" using assms(4) by (simp add: plain_path_def)
  note d = acts_asD [OF assms(1,4), where w = w] and e = acts_asD [OF assms(2,4), where w = v]
  have "world_ok b (fst (f p w))" "world_ok c (fst (g p v))"
    using assms(3) d(4,5) e(4,5) by (auto simp: alike_def world_ok_def)
  with assms(3) p d(1,2) e(1,2) show ?thesis by (auto simp: alike_def)
qed

lemma held_alike: "alike b w c v \<Longrightarrow> held b w dir = held c v dir"
  by (auto simp: alike_def held_def)

lemma sorted_distinct_unique:
  "sorted xs \<Longrightarrow> distinct xs \<Longrightarrow> sorted ys \<Longrightarrow> distinct ys \<Longrightarrow> set xs = set ys \<Longrightarrow> xs = (ys :: string list)"
  by (rule sorted_distinct_set_unique)

lemma op_alike:
  assumes "wf_backend b" and "wf_backend c" and "alike b w c v" and "plain_path (op_path x)"
    and "is_delete x \<Longrightarrow> session_free b \<and> session_free c"
  shows "snd (fs_op b x w) = snd (fs_op c x v) \<and> alike b (fst (fs_op b x w)) c (fst (fs_op c x v))"
proof (cases x)
  case (ReadOp p offset limit)
  with assms have "list_all plain_part (path_parts p)" by (simp add: plain_path_def)
  with assms ReadOp read_view [of b p offset limit w] read_view [of c p offset limit v]
  show ?thesis by (simp add: alike_def)
next
  case (WriteOp p t)
  with acts_alike [OF write_acts [OF assms(1)] write_acts [OF assms(2)] assms(3)] assms(4)
  show ?thesis by simp
next
  case (EditOp p old new replace_all)
  with acts_alike [OF edit_acts [OF assms(1)] edit_acts [OF assms(2)] assms(3)] assms(4)
  show ?thesis by simp
next
  case (ExistsOp p)
  with assms have "list_all plain_part (path_parts p)" by (simp add: plain_path_def)
  with assms ExistsOp exists_view [of b p w] exists_view [of c p v]
  show ?thesis by (simp add: alike_def)
next
  case (DeleteOp p)
  with assms(5) have "session_free b" "session_free c" by simp_all
  with acts_alike [OF delete_acts [OF assms(1)] delete_acts [OF assms(2)] assms(3)] assms(4) DeleteOp
  show ?thesis by simp
next
  case (LsOp p)
  have "lists_exactly b w" "lists_exactly c v"
    using assms(3) backend_lists [OF assms(1)] backend_lists [OF assms(2)] by (auto simp: alike_def)
  with LsOp assms(4) obtain xs ys where "fs_ls b p w = Inr xs" "sorted xs" "distinct xs"
    "set xs = held b w (path_parts p)" "fs_ls c p v = Inr ys" "sorted ys" "distinct ys"
    "set ys = held c v (path_parts p)" by (fastforce simp: lists_exactly_def)
  with held_alike [OF assms(3)] sorted_distinct_unique [of xs ys] LsOp assms(3) show ?thesis by simp
qed

text \<open>
  C9: A tree of scoped and composite backends over stores that no two branches share answers
  every sequence of reads, writes, edits, existence checks, deletions and listings on plain paths
  exactly as one in-memory backend with the same files does: routing by prefix and rebasing to a
  root are invisible. At the start every file must lie under a plain path and in the branch its
  path is routed to; where a session backend, which refuses to delete, is in the tree, the
  sequence must hold no deletion.
\<close>

theorem backend_tree_is_one_store:
  assumes "wf_backend b" and "alike b w (StateFiles a) v"
    and "list_all (\<lambda>x. plain_path (op_path x)) xs"
    and "session_free b \<or> \<not> list_ex is_delete xs"
  shows "snd (fs_run b xs w) = snd (fs_run (StateFiles a) xs v)"
  using assms(2-4)
proof (induction xs arbitrary: w v)
  case (Cons x xs)
  have "snd (fs_op b x w) = snd (fs_op (StateFiles a) x v)
      \<and> alike b (fst (fs_op b x w)) (StateFiles a) (fst (fs_op (StateFiles a) x v))"
    by (rule op_alike [OF assms(1) _ Cons.prems(1)]) (use Cons.prems in \<open>auto simp: session_free_def\<close>)
  moreover from this Cons.IH [of "fst (fs_op b x w)" "fst (fs_op (StateFiles a) x v)"] Cons.prems
  have "snd (fs_run b xs (fst (fs_op b x w))) = snd (fs_run (StateFiles a) xs (fst (fs_op (StateFiles a) x v)))"
    by auto
  ultimately show ?case by (simp add: case_prod_beta)
qed simp

section \<open>Confinement\<close>

fun changes_world :: "file_op \<Rightarrow> bool" where
  "changes_world (WriteOp _ _) = True"
| "changes_world (EditOp _ _ _ _) = True"
| "changes_world (DeleteOp _) = True"
| "changes_world _ = False"

lemma scoped_paths_below:
  assumes "plain_path base" and "base = path_of (path_parts base)" and "scoped_path base p = Inr q"
  shows "plain_path q \<and> prefix (path_parts base) (path_parts q)"
proof -
  from assms(3) obtain n where "scoped_normalize p = Inr n"
    by (auto simp: scoped_path_def bind_result_Inr_iff)
  then obtain ps where ps: "scoped_normalize p = Inr (path_of ps)" "list_all plain_part ps"
    by (metis scoped_normalize_Inr)
  from assms(1) have "list_all plain_part (path_parts base)" by (simp add: plain_path_def)
  from scoped_path_parts [OF this ps] obtain q' where
    q': "scoped_path (path_of (path_parts base)) p = Inr q'" "plain_path q'"
      "path_parts q' = path_parts base @ ps" by blast
  from assms(2,3) have "scoped_path (path_of (path_parts base)) p = Inr q" by metis
  with q' show ?thesis by simp
qed

lemma acts_only_there:
  assumes "acts_as b f new answer" and "plain_path q" and "list_all plain_part qs" and "qs \<noteq> path_parts q"
  shows "view b (fst (f q w)) qs = view b w qs"
  using acts_asD(2) [OF assms(1,2,3), of w] assms(4) by simp

text \<open>Deleting changes at most the file it names, also when it is refused.\<close>

lemma delete_only_there:
  "wf_backend b \<Longrightarrow> plain_path q \<Longrightarrow> list_all plain_part qs \<Longrightarrow> qs \<noteq> path_parts q
   \<Longrightarrow> view b (fst (fs_delete b q w)) qs = view b w qs
     \<and> (\<forall>l. l \<notin> set (leaves b) \<longrightarrow> leaf_files l (fst (fs_delete b q w)) = leaf_files l w)"
proof (induction b arbitrary: q qs)
  case (StateFiles a)
  with path_of_inject [of qs "path_parts q"] leaf_files_delete [of _ a q w] show ?case
    by (auto simp: normalize_path_of plain_path_def simp del: leaf_files.simps)
next
  case (ScopedFiles inner base)
  from wf_scoped_path [OF ScopedFiles.prems(1,2)] obtain r where r: "scoped_path base q = Inr r"
    "plain_path r" "path_parts r = path_parts base @ path_parts q" .
  have "list_all plain_part (path_parts base @ qs)"
    using ScopedFiles.prems by (simp add: plain_path_def)
  with ScopedFiles.IH [OF _ r(2), of "path_parts base @ qs"] ScopedFiles.prems r show ?case by simp
next
  case (CompositeFiles dflt routes)
  let ?c = "route (normalize_path q) dflt routes" and ?b = "CompositeFiles dflt routes"
  have c: "?c \<in> children dflt routes" by (rule route_in)
  have step: "fs_delete ?b q w = fs_delete ?c (normalize_path q) w"
    by (simp add: Let_def route_map)
  have "?c = dflt \<or> (\<exists>r. (r, ?c) \<in> set routes)" using c by (auto simp: children_def)
  then have IH: "view ?c (fst (fs_delete ?c (normalize_path q) w)) qs = view ?c w qs
      \<and> (\<forall>l. l \<notin> set (leaves ?c) \<longrightarrow> leaf_files l (fst (fs_delete ?c (normalize_path q) w)) = leaf_files l w)"
    using CompositeFiles.IH(1) [of "normalize_path q" qs] CompositeFiles.prems
      wf_children [OF CompositeFiles.prems(1) c]
  proof (elim disjE exE)
    fix r assume r: "(r, ?c) \<in> set routes"
    show ?thesis
      by (rule CompositeFiles.IH(2) [OF r])
        (use CompositeFiles.prems wf_children [OF CompositeFiles.prems(1) c] in \<open>simp_all add: snds.simps\<close>)
  qed simp
  show ?case
  proof (intro conjI allI impI)
    show "view ?b (fst (fs_delete ?b q w)) qs = view ?b w qs"
    proof (cases "route (path_of qs) dflt routes = ?c")
      case True
      with IH show ?thesis by (simp only: view_composite step)
    next
      case False
      let ?e = "route (path_of qs) dflt routes"
      have "view ?e (fst (fs_delete ?c (normalize_path q) w)) = view ?e w"
        by (rule view_cong) (use IH children_disjoint [OF CompositeFiles.prems(1) route_in c False] in blast)
      then show ?thesis by (simp only: view_composite step)
    qed
    fix l assume "l \<notin> set (leaves ?b)"
    with leaves_children [OF c] IH show "leaf_files l (fst (fs_delete ?b q w)) = leaf_files l w"
      by (auto simp only: step)
  qed
qed (auto simp: normalize_path_of)

text \<open>A scoped backend sees a path only through its canonical form.\<close>

lemma scoped_canonical:
  assumes "scoped_normalize p = Inr (path_of ps)" and "list_all plain_part ps"
  shows "scoped_path base p = scoped_path base (path_of ps)"
  using assms scoped_normalize_plain [OF plain_path_of [OF assms(2)]] by (simp add: scoped_path_def)

fun at_path :: "(string \<Rightarrow> string) \<Rightarrow> file_op \<Rightarrow> file_op" where
  "at_path f (ReadOp p offset limit) = ReadOp (f p) offset limit"
| "at_path f (WriteOp p t) = WriteOp (f p) t"
| "at_path f (EditOp p old new replace_all) = EditOp (f p) old new replace_all"
| "at_path f (ExistsOp p) = ExistsOp (f p)"
| "at_path f (DeleteOp p) = DeleteOp (f p)"
| "at_path f (LsOp p) = LsOp (f p)"

lemma at_path_simps [simp]: "op_path (at_path f x) = f (op_path x)" "is_delete (at_path f x) = is_delete x"
  by (cases x; simp)+

lemma scoped_op_canonical:
  assumes "scoped_normalize (op_path x) = Inr (path_of ps)" and "list_all plain_part ps"
  shows "fs_op (ScopedFiles inner base) x w = fs_op (ScopedFiles inner base) (at_path (\<lambda>_. path_of ps) x) w"
  using scoped_canonical [OF assms, of base] by (cases x) simp_all

lemma scoped_op_refused:
  assumes "scoped_normalize (op_path x) = Inl e"
  shows "snd (fs_op (ScopedFiles inner base) x w) = snd (fs_op (ScopedFiles inner base) x v)"
  using assms by (cases x) (simp_all add: scoped_path_def)

lemma delete_answers_alike: "snd (fs_delete b p w) = snd (fs_delete b p v)"
proof (induction b arbitrary: p)
  case (ScopedFiles inner base)
  then show ?case by (simp split: sum.split)
next
  case (CompositeFiles dflt routes)
  have "snd (fs_delete c q w) = snd (fs_delete c q v)" if "c \<in> children dflt routes" for c q
    using that CompositeFiles.IH by (auto simp: children_def snds.simps)
  then show ?case using route_in [of "normalize_path p" dflt routes]
    by (simp add: Let_def route_map [where f = fs_delete])
qed simp_all

definition same_below :: "file_backend \<Rightarrow> string list \<Rightarrow> file_world \<Rightarrow> file_world \<Rightarrow> bool" where
  "same_below b rs w v = (world_ok b w \<and> world_ok b v
     \<and> (\<forall>ps. list_all plain_part ps \<longrightarrow> prefix rs ps \<longrightarrow> view b w ps = view b v ps))"

lemma scoped_reveals_nothing_else:
  assumes wf: "wf_backend (ScopedFiles inner base)" and same: "same_below inner (path_parts base) w v"
  shows "snd (fs_op (ScopedFiles inner base) x w) = snd (fs_op (ScopedFiles inner base) x v)"
proof (cases "scoped_normalize (op_path x)")
  case (Inl e)
  then show ?thesis by (rule scoped_op_refused)
next
  case (Inr n)
  then obtain ps where ps: "scoped_normalize (op_path x) = Inr (path_of ps)" "list_all plain_part ps"
    by (metis scoped_normalize_Inr)
  let ?b = "ScopedFiles inner base" and ?x = "at_path (\<lambda>_. path_of ps) x"
  from wf have "list_all plain_part (path_parts base)" by (simp add: plain_path_def)
  with same have "alike ?b w ?b v" by (simp add: alike_def same_below_def world_ok_def)
  from op_alike [OF wf wf this, of ?x] plain_path_of [OF ps(2)]
  have "snd (fs_op ?b ?x w) = snd (fs_op ?b ?x v)" if "\<not> is_delete x" using that by simp
  moreover have "snd (fs_op ?b x w) = snd (fs_op ?b x v)" if "is_delete x"
    using that delete_answers_alike [of ?b _ w v] by (cases x) simp_all
  ultimately show ?thesis using scoped_op_canonical [OF ps] by metis
qed

text \<open>
  C10: A scoped backend confines. Whatever operation it is asked for, on whatever path, with
  \<^verbatim>\<open>..\<close>, backslashes, null bytes or absolute: each file of the backend it wraps that is not below
  the root stays as it was, and a read that succeeds returns lines of a file below the root. And it
  reveals nothing else: two states of the wrapped backend with the same files below the root get
  the same answer, of a listing and an existence check too, whatever else they hold. The wrapped
  backend is a tree of backends over stores that no two branches share; for the answers its files
  lie under plain paths, in the branches their paths are routed to.
\<close>

theorem scoped_backend_confines:
  assumes "wf_backend inner" and "new_scoped inner r = Inr (ScopedFiles inner base)"
  shows "(\<forall>qs. list_all plain_part qs \<and> \<not> prefix (path_parts base) qs \<longrightarrow>
         view inner (fst (fs_op (ScopedFiles inner base) x w)) qs = view inner w qs)
    \<and> (\<forall>p offset limit t. fs_read (ScopedFiles inner base) p offset limit w = Inr t \<longrightarrow>
         (\<exists>ps content. prefix (path_parts base) ps \<and> view inner w ps = Some content
            \<and> t = slice_lines content offset limit))
    \<and> (\<forall>v. same_below inner (path_parts base) w v \<longrightarrow>
         snd (fs_op (ScopedFiles inner base) x w) = snd (fs_op (ScopedFiles inner base) x v))"
proof -
  from assms(2) obtain rs where "base = path_of rs" "list_all plain_part rs"
    by (auto simp: new_scoped_def bind_result_Inr_iff elim!: scoped_normalize_Inr)
  then have base: "plain_path base" "base = path_of (path_parts base)" by simp_all
  have below: "plain_path q \<and> prefix (path_parts base) (path_parts q)" if "scoped_path base p = Inr q" for p q
    using scoped_paths_below [OF base that] .
  have "view inner (fst (fs_op (ScopedFiles inner base) x w)) qs = view inner w qs"
    if qs: "list_all plain_part qs" "\<not> prefix (path_parts base) qs" for qs
  proof -
    have other: "plain_path q \<and> qs \<noteq> path_parts q" if "scoped_path base p = Inr q" for p q
      using below [OF that] qs(2) by auto
    show ?thesis
    proof (cases x)
      case (WriteOp p t)
      then show ?thesis
        using acts_only_there [OF write_acts [OF assms(1)] _ qs(1), where w = w] other
        by (cases "scoped_path base p") auto
    next
      case (EditOp p old new replace_all)
      then show ?thesis
        using acts_only_there [OF edit_acts [OF assms(1)] _ qs(1), where w = w] other
        by (cases "scoped_path base p") auto
    next
      case (DeleteOp p)
      then show ?thesis
        using delete_only_there [OF assms(1) _ qs(1)] other
        by (cases "scoped_path base p") auto
    qed simp_all
  qed
  moreover have "\<exists>ps content. prefix (path_parts base) ps \<and> view inner w ps = Some content
      \<and> t = slice_lines content offset limit"
    if "fs_read (ScopedFiles inner base) p offset limit w = Inr t" for p offset limit t
  proof -
    from that obtain q where q: "scoped_path base p = Inr q" "fs_read inner q offset limit w = Inr t"
      by (auto simp: bind_result_Inr_iff)
    with read_view [OF assms(1)] below [OF q(1)] show ?thesis
      by (auto simp: read_answer_def split: option.splits)
  qed
  moreover have "wf_backend (ScopedFiles inner base)" using assms(1) base by simp
  ultimately show ?thesis using scoped_reveals_nothing_else by blast
qed

text \<open>A memory directory mounted into an in-memory file system.\<close>

definition tree_example :: file_backend where
  "tree_example = CompositeFiles (StateFiles 0) [(''/mem/'', ScopedFiles (StateFiles 1) ''/x'')]"

definition no_files :: file_world where
  "no_files = \<lparr>fw_files = (\<lambda>_. []), fw_sessions = new_session_store\<rparr>"

lemma path_x: "path_parts ''/x'' = [''x'']" "path_of [''x''] = ''/x''"
  by (simp_all add: path_parts_def path_of_def)

lemma tree_example_wf: "wf_backend tree_example"
  by (simp add: tree_example_def plain_path_def path_x plain_part_def)

lemma tree_example_alike: "alike tree_example no_files (StateFiles 2) no_files"
proof -
  have "view b no_files ps = None" if "b = StateFiles a \<or> b = ScopedFiles (StateFiles a) base"
    for b a base ps using that by (auto simp: no_files_def)
  moreover from this route_in [of _ "StateFiles 0" "[(''/mem/'', ScopedFiles (StateFiles 1) ''/x'')]"]
  have "view tree_example no_files ps = None" for ps
    unfolding tree_example_def view_composite children_def by force
  ultimately show ?thesis
    by (auto simp: alike_def world_ok_def leaf_ok_def keys_ok_def tree_example_def no_files_def)
qed

theorem backend_tree_is_one_store_witness:
  "snd (fs_run tree_example [WriteOp ''/mem/a'' ''t'', LsOp ''/mem''] no_files)
   = snd (fs_run (StateFiles 2) [WriteOp ''/mem/a'' ''t'', LsOp ''/mem''] no_files)"
  by (rule backend_tree_is_one_store [OF tree_example_wf tree_example_alike])
    (simp_all add: plain_path_def path_parts_def plain_part_def)

theorem scoped_backend_confines_witness:
  "view (StateFiles 0) (fst (fs_op (ScopedFiles (StateFiles 0) ''/x'')
     (WriteOp ''b'' ''t'') no_files)) [''b''] = view (StateFiles 0) no_files [''b'']"
proof -
  have "new_scoped (StateFiles 0) ''x'' = Inr (ScopedFiles (StateFiles 0) ''/x'')"
    by (simp add: new_scoped_def scoped_normalize_def path_of_def)
  from scoped_backend_confines [OF _ this, of "WriteOp ''b'' ''t''" no_files] show ?thesis
    by (simp add: path_x plain_part_def del: fs_op.simps view.simps)
qed

end
