(* ===== verification/Offload.thy ===== *)
theory Offload
  imports File_Contracts
begin

text \<open>
  \<^verbatim>\<open>maybe_offload\<close> of \<^verbatim>\<open>src/linch/filesystem/offload.py\<close>: a tool result that is too long is
  written to a file backend and replaced by a preview. The locale \<open>result_files\<close> is what that
  code relies on of a backend: what was written is what is read. The estimator of the number of
  tokens is an argument; \<^const>\<open>None\<close> stands for one that fails or is not given.
\<close>

record offload_config =
  oc_enabled :: bool
  oc_threshold_tokens :: "int option"
  oc_preview_lines :: int
  oc_path_prefix :: string
  oc_skip_tools :: "string set"

definition estimate_tokens :: "(string \<Rightarrow> int option) \<Rightarrow> string \<Rightarrow> int" where
  "estimate_tokens estimator body = (case estimator body of
       Some n \<Rightarrow> n | None \<Rightarrow> int (length body) div 4)"

definition preview :: "string \<Rightarrow> int \<Rightarrow> string" where
  "preview txt n = join_text [CHR 0x0A] (slice_to n (split_on CHR 0x0A txt))"

definition offload_path :: "offload_config \<Rightarrow> string \<Rightarrow> string \<Rightarrow> string" where
  "offload_path cfg tool call = normalize_path (oc_path_prefix cfg @ ''/'' @ tool @ ''_'' @ call @ ''.txt'')"

definition spilled_already :: "tool_result \<Rightarrow> bool" where
  "spilled_already r \<longleftrightarrow> tr_truncated r
     \<and> (\<exists>k \<in> {''stdout_path'', ''stderr_path'', ''output_path''}. truthy (raw_get (tr_metadata r) k JNull))"

definition offload_notice :: "offload_config \<Rightarrow> int \<Rightarrow> string \<Rightarrow> string \<Rightarrow> string" where
  "offload_notice cfg tokens body path =
     preview body (oc_preview_lines cfg) @ [CHR 0x0A, CHR 0x0A]
     @ ''[Tool result truncated: ~'' @ show_int tokens @ '' tokens ('' @ show_nat (length body)
     @ '' chars) offloaded to '' @ [CHR 0x27] @ path @ [CHR 0x27]
     @ ''. Showing the first '' @ show_int (oc_preview_lines cfg) @ '' lines. ''
     @ ''Use read_file(path='' @ [CHR 0x22] @ path @ [CHR 0x22] @ '', offset=..., limit=...) to read the rest, ''
     @ ''or ls('' @ [CHR 0x22] @ oc_path_prefix cfg @ [CHR 0x22] @ '') to list offloaded results.]''"

text \<open>A backend that refuses the write leaves the result as it is.\<close>

definition maybe_offload ::
  "(string \<Rightarrow> string \<Rightarrow> 'w \<Rightarrow> 'w \<times> unit result) \<Rightarrow> (string \<Rightarrow> int option) \<Rightarrow> offload_config
   \<Rightarrow> string \<Rightarrow> string \<Rightarrow> tool_result \<Rightarrow> 'w \<Rightarrow> 'w \<times> tool_result" where
  "maybe_offload put estimator cfg tool call r w =
     (if \<not> oc_enabled cfg \<or> tr_is_error r \<or> tool \<in> oc_skip_tools cfg then (w, r)
      else if spilled_already r then (w, r)
      else case oc_threshold_tokens cfg of
        None \<Rightarrow> (w, r)
      | Some threshold \<Rightarrow>
          (let body = tr_content r; tokens = estimate_tokens estimator body in
           if tokens \<le> threshold then (w, r)
           else (let path = offload_path cfg tool call in
             case put path body w of
               (w', Inl _) \<Rightarrow> (w', r)
             | (w', Inr _) \<Rightarrow>
                 (w', r\<lparr>tr_content := offload_notice cfg tokens body path, tr_truncated := True,
                        tr_metadata := dict_set ''original_chars'' (JInt (int (length body)))
                          (dict_set ''original_tokens'' (JInt tokens)
                            (dict_set ''offloaded_to'' (JStr path) (tr_metadata r)))\<rparr>))))"

section \<open>What the offload relies on\<close>

locale result_files =
  fixes put :: "string \<Rightarrow> string \<Rightarrow> 'w \<Rightarrow> 'w \<times> unit result"
    and fetch :: "string \<Rightarrow> int \<Rightarrow> int option \<Rightarrow> 'w \<Rightarrow> string result"
  assumes read_written: "put p t w = (w', Inr u) \<Longrightarrow> fetch p offset limit w' = Inr (slice_lines t offset limit)"
    and read_other: "put p t w = (w', Inr u) \<Longrightarrow> normalize_path q \<noteq> normalize_path p
      \<Longrightarrow> fetch q offset limit w' = fetch q offset limit w"
    and refused_keeps: "put p t w = (w', Inl e) \<Longrightarrow> fetch q offset limit w' = fetch q offset limit w"
begin

text \<open>A result is passed on as it is, or it is truncated and its whole content can be read back.\<close>

lemma offload_cases:
  assumes "maybe_offload put estimator cfg tool call r w = (w', r')"
  shows "(r' = r \<and> (\<forall>q offset limit. fetch q offset limit w' = fetch q offset limit w))
    \<or> (tr_truncated r' \<and> dict_get (tr_metadata r') ''offloaded_to'' = Some (JStr (offload_path cfg tool call))
       \<and> (\<forall>offset limit. fetch (offload_path cfg tool call) offset limit w'
            = Inr (slice_lines (tr_content r) offset limit))
       \<and> (\<forall>q offset limit. normalize_path q \<noteq> normalize_path (offload_path cfg tool call)
            \<longrightarrow> fetch q offset limit w' = fetch q offset limit w))"
proof (cases "put (offload_path cfg tool call) (tr_content r) w")
  case (Pair v outcome)
  show ?thesis
  proof (cases outcome)
    case (Inl e)
    with assms Pair refused_keeps [of "offload_path cfg tool call" "tr_content r" w v e] show ?thesis
      by (auto simp: maybe_offload_def Let_def split: if_splits option.splits)
  next
    case (Inr u)
    with assms Pair read_written [of "offload_path cfg tool call" "tr_content r" w v u]
      read_other [of "offload_path cfg tool call" "tr_content r" w v u]
    show ?thesis
      by (auto simp: maybe_offload_def Let_def split: if_splits option.splits)
  qed
qed

end

interpretation state_results: result_files "fs_write (StateFiles a)" "fs_read (StateFiles a)"
  by unfold_locales (auto split: option.splits)

lemma normalize_idem [simp]: "normalize_path (normalize_path p) = normalize_path p"
proof -
  have free: "x \<in> set (path_parts p) \<Longrightarrow> x \<noteq> [] \<and> CHR ''/'' \<notin> set x" for x
    by (auto simp: path_parts_def dest: split_parts_free)
  have "(\<And>x. x \<in> set ps \<Longrightarrow> x \<noteq> [] \<and> CHR ''/'' \<notin> set x) \<Longrightarrow> path_parts (join_text ''/'' ps) = ps" for ps
    by (induction "''/''" ps rule: join_text.induct)
      (simp_all add: path_parts_slash path_parts_part)
  from this [of "path_parts p"] free have "path_parts (path_of (path_parts p)) = path_parts p"
    using path_parts_slash [of "[]" "join_text ''/'' (path_parts p)"] by (simp add: path_of_def)
  then show ?thesis by (simp add: normalize_path_of)
qed

interpretation session_results: result_files "fs_write (SessionFiles sid)" "fs_read (SessionFiles sid)"
  by unfold_locales (auto simp: load_offload_def save_offload_def split: option.splits)

section \<open>Nothing is lost\<close>

text \<open>Reading page after page and joining the pages gives the text back.\<close>

definition read_pages :: "string \<Rightarrow> nat \<Rightarrow> string list" where
  "read_pages t k = map (\<lambda>i. slice_lines t (1 + int (i * k)) (Some (int k)))
     [0..<(length (split_on CHR 0x0A t) + k - 1) div k]"

lemma join_concat:
  "\<forall>c \<in> set cs. c \<noteq> [] \<Longrightarrow> join_text sep (map (join_text sep) cs) = join_text sep (concat cs)"
proof (induction cs rule: induct_list012)
  case (3 c d cs)
  then have "concat (d # cs) \<noteq> []" by auto
  with 3 show ?case using join_append [of c "concat (d # cs)" sep] by simp
qed simp_all

lemma concat_chunks: "concat (map (\<lambda>i. take k (drop (i * k) xs)) [0..<m]) = take (m * k) xs"
proof (induction m)
  case (Suc m)
  have "take (m * k + k) xs = take (m * k) xs @ take k (drop (m * k) xs)" by (rule take_add)
  with Suc show ?case by (simp add: add.commute)
qed simp

lemma pages_rebuild:
  assumes "0 < k"
  shows "join_text [CHR 0x0A] (read_pages t k) = t"
proof -
  let ?rows = "split_on CHR 0x0A t"
  let ?m = "(length ?rows + k - 1) div k"
  have page: "slice_lines t (1 + int (i * k)) (Some (int k)) = join_text [CHR 0x0A] (take k (drop (i * k) ?rows))" for i
  proof -
    have "0 < 1 + int (i * k)" "nat (int (i * k)) = i * k" by linarith+
    then show ?thesis using assms by (simp add: slice_lines_def Let_def del: of_nat_mult)
  qed
  have "?m * k \<ge> length ?rows"
  proof -
    have "(length ?rows + k - 1) mod k < k" using assms by simp
    then show ?thesis using div_mult_mod_eq [of "length ?rows + k - 1" k] by linarith
  qed
  then have all: "concat (map (\<lambda>i. take k (drop (i * k) ?rows)) [0..<?m]) = ?rows"
    by (simp add: concat_chunks)
  have "take k (drop (i * k) ?rows) \<noteq> []" if "i < ?m" for i
  proof -
    from that have "Suc i * k \<le> ?m * k" by (intro mult_le_mono1) simp
    also have "\<dots> \<le> length ?rows + k - 1" by (rule div_times_less_eq_dividend)
    finally show ?thesis using assms by simp
  qed
  then have "\<forall>c \<in> set (map (\<lambda>i. take k (drop (i * k) ?rows)) [0..<?m]). c \<noteq> []" by auto
  from join_concat [OF this, of "[CHR 0x0A]"] show ?thesis
    unfolding all read_pages_def page by (simp add: comp_def)
qed

text \<open>
  C11: Offloading a tool result to the session loses nothing. Either the result goes on unchanged
  and the store is as it was, or it is marked as truncated, its metadata names a path, reading
  that path page by page, with pages of any size, and joining the pages gives the original
  content, and no other file of the session has changed.
\<close>

theorem offload_is_lossless:
  assumes "maybe_offload (fs_write (SessionFiles sid)) estimator cfg tool call r w = (w', r')"
  shows "(r' = r \<and> (\<forall>q offset limit. fs_read (SessionFiles sid) q offset limit w'
                        = fs_read (SessionFiles sid) q offset limit w))
    \<or> (tr_truncated r'
       \<and> (\<exists>path. dict_get (tr_metadata r') ''offloaded_to'' = Some (JStr path)
            \<and> (\<forall>k > 0. \<exists>n pages. length pages = n
                 \<and> (\<forall>i < n. fs_read (SessionFiles sid) path (1 + int (i * k)) (Some (int k)) w' = Inr (pages ! i))
                 \<and> join_text [CHR 0x0A] pages = tr_content r)
            \<and> (\<forall>q offset limit. normalize_path q \<noteq> normalize_path path \<longrightarrow>
                 fs_read (SessionFiles sid) q offset limit w' = fs_read (SessionFiles sid) q offset limit w)))"
proof -
  let ?path = "offload_path cfg tool call"
  consider "r' = r" "\<forall>q offset limit. fs_read (SessionFiles sid) q offset limit w'
      = fs_read (SessionFiles sid) q offset limit w"
    | "tr_truncated r'" "dict_get (tr_metadata r') ''offloaded_to'' = Some (JStr ?path)"
      "\<forall>offset limit. fs_read (SessionFiles sid) ?path offset limit w'
         = Inr (slice_lines (tr_content r) offset limit)"
      "\<forall>q offset limit. normalize_path q \<noteq> normalize_path ?path \<longrightarrow>
         fs_read (SessionFiles sid) q offset limit w' = fs_read (SessionFiles sid) q offset limit w"
    using session_results.offload_cases [OF assms] by blast
  then show ?thesis
  proof cases
    case 1
    then show ?thesis by blast
  next
    case 2
    have "\<exists>n pages. length pages = n
        \<and> (\<forall>i < n. fs_read (SessionFiles sid) ?path (1 + int (i * k)) (Some (int k)) w' = Inr (pages ! i))
        \<and> join_text [CHR 0x0A] pages = tr_content r" if "k > 0" for k
      by (intro exI [of _ "length (read_pages (tr_content r) k)"] exI [of _ "read_pages (tr_content r) k"])
        (use 2(3) pages_rebuild [OF that] in \<open>auto simp: read_pages_def simp del: fs_read.simps\<close>)
    with 2 show ?thesis by blast
  qed
qed

text \<open>
  The path joins the tool's name and the call's id with an underscore, so results of different
  calls can share a path; the later one replaces the earlier one.
\<close>

lemma offload_paths_collide:
  "offload_path cfg ''read'' ''file_1'' = offload_path cfg ''read_file'' ''1''"
  by (simp add: offload_path_def)

definition offload_example :: offload_config where
  "offload_example = \<lparr>oc_enabled = True, oc_threshold_tokens = Some 0, oc_preview_lines = 1,
     oc_path_prefix = ''/offload'', oc_skip_tools = {''ls''}\<rparr>"

definition long_result :: tool_result where
  "long_result = \<lparr>tr_content = ''aaaa'' @ [CHR 0x0A] @ ''bbbb'', tr_summary = [], tr_is_error = False,
     tr_metadata = [], tr_citations = [], tr_attachments = [], tr_duration_ms = 0,
     tr_truncated = False, tr_recovery_hint = []\<rparr>"

theorem offload_is_lossless_witness:
  "tr_truncated (snd (maybe_offload (fs_write (SessionFiles ''s'')) (\<lambda>_. None) offload_example
     ''grep'' ''t1'' long_result \<lparr>fw_files = (\<lambda>_. []), fw_sessions = new_session_store\<rparr>))"
proof -
  let ?run = "maybe_offload (fs_write (SessionFiles ''s'')) (\<lambda>_. None) offload_example
     ''grep'' ''t1'' long_result \<lparr>fw_files = (\<lambda>_. []), fw_sessions = new_session_store\<rparr>"
  have changed: "snd ?run \<noteq> long_result"
    by (simp add: maybe_offload_def offload_example_def long_result_def spilled_already_def
        estimate_tokens_def offload_notice_def preview_def Let_def)
  obtain w r where run: "?run = (w, r)" by fastforce
  from offload_is_lossless [OF run] changed run show ?thesis by auto
qed

end
