(* ===== verification/Run_Codec.thy ===== *)
theory Run_Codec
  imports Run_Store Durability Tool_Output
begin

text \<open>
  The checkpoint codec of \<^verbatim>\<open>src/linch/run_store.py\<close>: \<^verbatim>\<open>checkpoint_to_dict\<close>,
  \<^verbatim>\<open>checkpoint_from_dict\<close> and their helpers, on top of the native \<^verbatim>\<open>json_safe\<close> walker of
  \<^verbatim>\<open>linch-rust/crates/linch-python/src/json_safe.rs\<close>. A checkpoint within the types of its
  dataclass survives being written and read, whatever is decoded is within them, and the
  in-memory store gives back the checkpoint that was saved.
\<close>

section \<open>The native walker\<close>

text \<open>
  The walker on trees of JSON values: no reference cycles, no foreign objects, and string keys,
  so of its branches the non-finite floats and the depth limit remain.
\<close>

fun float_text :: "pyfloat \<Rightarrow> string" where
  "float_text NaN = ''nan''"
| "float_text PInf = ''inf''"
| "float_text NInf = ''-inf''"
| "float_text (Fin q) = []"

fun native_json_safe :: "bool \<Rightarrow> nat \<Rightarrow> json \<Rightarrow> json result" where
  "native_json_safe strict depth (JFloat f) =
     Inr (if is_finite f then JFloat f else JStr (float_text f))"
| "native_json_safe strict depth (JDict d) =
     (if depth \<ge> ignorable_max_depth
      then (if strict then Inl TypeError else Inr (JStr ''<max-depth>''))
      else bind_result
        (map_result (\<lambda>(k, v). bind_result (native_json_safe strict (depth + 1) v)
                               (\<lambda>w. Inr (k, w))) d)
        (\<lambda>d'. Inr (JDict d')))"
| "native_json_safe strict depth (JList xs) =
     (if depth \<ge> ignorable_max_depth
      then (if strict then Inl TypeError else Inr (JStr ''<max-depth>''))
      else bind_result (map_result (native_json_safe strict (depth + 1)) xs) (\<lambda>ys. Inr (JList ys)))"
| "native_json_safe strict depth v = Inr v"

lemma depth_limits_agree [simp]: "strict_json_max_depth = ignorable_max_depth"
  by (simp add: strict_json_max_depth_def ignorable_max_depth_def)

lemma map_result_id:
  "(\<And>x. x \<in> set xs \<Longrightarrow> f x = Inr x) \<Longrightarrow> map_result f xs = Inr xs"
  by (induction xs) auto

lemma json_safe_plain:
  "validate_json depth v \<Longrightarrow> native_json_safe strict depth v = Inr v"
proof (induction strict depth v rule: native_json_safe.induct)
  case (2 strict depth d)
  then have "map_result (\<lambda>(k, v). bind_result (native_json_safe strict (depth + 1) v)
               (\<lambda>w. Inr (k, w))) d = Inr d"
    by (intro map_result_id) (force split: prod.splits)
  with 2 show ?case by simp
next
  case (3 strict depth xs)
  then have "map_result (native_json_safe strict (depth + 1)) xs = Inr xs"
    by (intro map_result_id) auto
  with 3 show ?case by simp
qed simp_all

lemma map_result_set:
  "map_result f xs = Inr ys \<Longrightarrow> y \<in> set ys \<Longrightarrow> \<exists>x \<in> set xs. f x = Inr y"
proof (induction xs arbitrary: ys)
  case (Cons x xs)
  then show ?case by (cases "f x"; cases "map_result f xs") auto
qed simp

lemma json_safe_valid:
  "native_json_safe strict depth v = Inr w \<Longrightarrow> depth \<le> ignorable_max_depth \<Longrightarrow> validate_json depth w"
proof (induction strict depth v arbitrary: w rule: native_json_safe.induct)
  case (2 strict depth d)
  show ?case
  proof (cases "depth \<ge> ignorable_max_depth")
    case False
    with 2(2) obtain d' where w: "w = JDict d'" and d':
      "map_result (\<lambda>(k, v). bind_result (native_json_safe strict (depth + 1) v)
         (\<lambda>w. Inr (k, w))) d = Inr d'"
      by (cases "map_result (\<lambda>(k, v). bind_result (native_json_safe strict (depth + 1) v)
         (\<lambda>w. Inr (k, w))) d") auto
    have "validate_json (depth + 1) x" if "(k, x) \<in> set d'" for k x
    proof -
      from map_result_set [OF d' that] obtain v where
        "(k, v) \<in> set d" and "native_json_safe strict (depth + 1) v = Inr x"
        by (auto simp: bind_result_Inr_iff)
      with False 2(1) show ?thesis by auto
    qed
    with w False show ?thesis by auto
  qed (use 2 in \<open>auto split: if_splits\<close>)
next
  case (3 strict depth xs)
  show ?case
  proof (cases "depth \<ge> ignorable_max_depth")
    case False
    with 3(2) obtain ys where w: "w = JList ys"
      and ys: "map_result (native_json_safe strict (depth + 1)) xs = Inr ys"
      by (auto simp: bind_result_Inr_iff)
    with False 3(1) show ?thesis by (auto dest!: map_result_set [OF ys])
  qed (use 3 in \<open>auto split: if_splits\<close>)
qed (auto split: if_splits)

section \<open>Writing a checkpoint\<close>

definition checkpoint_raw :: "run_checkpoint \<Rightarrow> json_obj" where
  "checkpoint_raw c =
     [(''schema_version'', JInt wire_version),
      (''phase'', cp_phase c),
      (''prompt'', JStr (cp_prompt c)),
      (''turn_index'', JInt (cp_turn_index c)),
      (''total_usage'', JDict (usage_to_dict (cp_total_usage c))),
      (''assistant_message'', json_opt (\<lambda>m. JDict (message_to_dict m)) (cp_assistant_message c)),
      (''pending_tool_blocks'', JList (map (\<lambda>b. JDict (block_to_dict b)) (cp_pending_tool_blocks c))),
      (''completed_tool_results'',
        JDict (map (\<lambda>(k, b). (k, JDict (block_to_dict b))) (cp_completed_tool_results c))),
      (''force_final_pending'', JBool (cp_force_final_pending c)),
      (''loop_guard_state'', cp_loop_guard_state c),
      (''pending_skill_overlay'', cp_pending_skill_overlay c),
      (''current_turn_allowed_tools'',
        json_opt (\<lambda>ts. JList (map JStr ts)) (cp_current_turn_allowed_tools c)),
      (''assistant_stop_reason'', json_opt JStr (cp_assistant_stop_reason c)),
      (''permission_decisions'', JDict (map (\<lambda>(k, d). (k, JDict d)) (cp_permission_decisions c))),
      (''background_workers'', JDict (map (\<lambda>(k, d). (k, JDict d)) (cp_background_workers c))),
      (''truncation_attempts'', JInt (cp_truncation_attempts c)),
      (''truncation_prefix'', JStr (cp_truncation_prefix c)),
      (''pending_truncation_feedback'', json_opt JStr (cp_pending_truncation_feedback c)),
      (''tool_batch_event_after_seq'', json_opt JInt (cp_tool_batch_event_after_seq c)),
      (''pending_alignment'', JList (map JDict (cp_pending_alignment c))),
      (''extension_state'', JDict (cp_extension_state c)),
      (''provider_attempt'', JInt (cp_provider_attempt c)),
      (''model_input_snapshot_id'', json_opt JStr (cp_model_input_snapshot_id c))]"

definition checkpoint_to_dict :: "run_checkpoint \<Rightarrow> json_obj result" where
  "checkpoint_to_dict c =
     bind_result (native_json_safe False 0 (JDict (checkpoint_raw c))) py_dict"

section \<open>Reading a checkpoint\<close>

definition json_dict_or_none :: "json \<Rightarrow> json" where
  "json_dict_or_none v = (case v of JDict d \<Rightarrow> JDict d | _ \<Rightarrow> JNull)"

definition is_dict :: "json \<Rightarrow> bool" where
  "is_dict v = (case v of JDict _ \<Rightarrow> True | _ \<Rightarrow> False)"

text \<open>The prompt of an entry is \<^verbatim>\<open>str(item.get("prompt", "") or "")\<close>.\<close>

definition alignment_entry :: "(json \<Rightarrow> string) \<Rightarrow> json \<Rightarrow> json_obj option" where
  "alignment_entry rp item = (case item of
       JDict d \<Rightarrow>
         (let v = raw_get d ''prompt'' (JStr []);
              prompt = (if truthy v then py_str rp v else [])
          in if prompt = [] then None
             else Some [(''prompt'', JStr prompt),
                        (''images'', case dict_get d ''images'' of
                           Some (JList xs) \<Rightarrow> JList (filter is_dict xs) | _ \<Rightarrow> JNull)])
     | _ \<Rightarrow> None)"

definition pending_alignment_from_raw :: "(json \<Rightarrow> string) \<Rightarrow> json \<Rightarrow> json_obj list" where
  "pending_alignment_from_raw rp v = (case v of
       JList xs \<Rightarrow> List.map_filter (alignment_entry rp) xs | _ \<Rightarrow> [])"

definition extension_state_from_raw :: "json \<Rightarrow> json_obj" where
  "extension_state_from_raw v = (case v of JDict d \<Rightarrow> d | _ \<Rightarrow> [])"

text \<open>\<^verbatim>\<open>type(value) is int\<close> excludes the booleans.\<close>

definition require_tool_recovery_cursor :: "json \<Rightarrow> int result" where
  "require_tool_recovery_cursor v = (case v of
       JInt n \<Rightarrow> if n < 0 then Inl ValueError else Inr n
     | _ \<Rightarrow> Inl ValueError)"

text \<open>The loops over the pending and the completed blocks keep the blocks of their kind.\<close>

fun pending_blocks_from :: "(json \<Rightarrow> string) \<Rightarrow> json list \<Rightarrow> content_block list result" where
  "pending_blocks_from rp [] = Inr []"
| "pending_blocks_from rp (JDict d # items) =
     bind_result (block_from_dict rp d) (\<lambda>b.
     bind_result (pending_blocks_from rp items) (\<lambda>bs.
       Inr (if is_tool_use_block b then b # bs else bs)))"
| "pending_blocks_from rp (_ # items) = pending_blocks_from rp items"

fun completed_results_from ::
  "(json \<Rightarrow> string) \<Rightarrow> json_obj \<Rightarrow> (string, content_block) dict result" where
  "completed_results_from rp [] = Inr []"
| "completed_results_from rp ((k, JDict d) # items) =
     bind_result (block_from_dict rp d) (\<lambda>b.
     bind_result (completed_results_from rp items) (\<lambda>bs.
       Inr (if is_tool_result_block b then (k, b) # bs else bs)))"
| "completed_results_from rp (_ # items) = completed_results_from rp items"

text \<open>\<^verbatim>\<open>{str(k): dict(v) for k, v in raw[...].items()}\<close>, empty for another type.\<close>

definition dict_of_dicts :: "json \<Rightarrow> (string, json_obj) dict result" where
  "dict_of_dicts v = (case v of
       JDict d \<Rightarrow> map_result (\<lambda>(k, x). bind_result (py_dict x) (\<lambda>e. Inr (k, e))) d
     | _ \<Rightarrow> Inr [])"

definition optional_message :: "(json \<Rightarrow> string) \<Rightarrow> json \<Rightarrow> message option result" where
  "optional_message rp v = (case v of
       JDict d \<Rightarrow> map_sum id Some (message_from_dict rp d) | _ \<Rightarrow> Inr None)"

definition int_or_zero :: "json \<Rightarrow> int result" where
  "int_or_zero v = (if truthy v then to_int v else Inr 0)"

definition recovery_cursor :: "json \<Rightarrow> int option result" where
  "recovery_cursor v =
     (if v = JNull then Inr None else map_sum id Some (require_tool_recovery_cursor v))"

text \<open>
  The evaluation order of the source is kept: the version, the cursor, the assistant message, the
  two block collections, then the fields of the record.
\<close>

definition checkpoint_from_dict :: "(json \<Rightarrow> string) \<Rightarrow> json_obj \<Rightarrow> run_checkpoint result" where
  "checkpoint_from_dict rp raw =
     bind_result (require_wire_version (dict_get raw ''schema_version'')) (\<lambda>_.
     bind_result (bind_result (raw_item raw ''tool_batch_event_after_seq'') recovery_cursor) (\<lambda>cursor.
     bind_result (raw_item raw ''assistant_message'') (\<lambda>assistant_raw.
     bind_result (bind_result (bind_result (raw_item raw ''pending_tool_blocks'') py_iter)
                    (pending_blocks_from rp)) (\<lambda>pending.
     bind_result (raw_item raw ''completed_tool_results'') (\<lambda>completed_raw.
     bind_result (case completed_raw of
                    JDict d \<Rightarrow> completed_results_from rp d | _ \<Rightarrow> Inr []) (\<lambda>completed.
     bind_result (raw_item raw ''phase'') (\<lambda>phase.
     bind_result (raw_item raw ''prompt'') (\<lambda>prompt.
     bind_result (bind_result (raw_item raw ''turn_index'') int_or_zero) (\<lambda>turn.
     bind_result (bind_result (bind_result (raw_item raw ''total_usage'') py_dict) usage_from_dict) (\<lambda>usage.
     bind_result (optional_message rp assistant_raw) (\<lambda>assistant.
     bind_result (raw_item raw ''force_final_pending'') (\<lambda>force.
     bind_result (raw_item raw ''loop_guard_state'') (\<lambda>guard.
     bind_result (raw_item raw ''pending_skill_overlay'') (\<lambda>overlay.
     bind_result (raw_item raw ''current_turn_allowed_tools'') (\<lambda>tools.
     bind_result (raw_item raw ''assistant_stop_reason'') (\<lambda>stop.
     bind_result (bind_result (raw_item raw ''permission_decisions'') dict_of_dicts) (\<lambda>decisions.
     bind_result (bind_result (raw_item raw ''background_workers'') dict_of_dicts) (\<lambda>workers.
     bind_result (bind_result (raw_item raw ''truncation_attempts'') int_or_zero) (\<lambda>attempts.
     bind_result (raw_item raw ''truncation_prefix'') (\<lambda>pre.
     bind_result (raw_item raw ''pending_truncation_feedback'') (\<lambda>feedback.
     bind_result (raw_item raw ''pending_alignment'') (\<lambda>alignment.
     bind_result (raw_item raw ''extension_state'') (\<lambda>extension.
     bind_result (raw_item raw ''provider_attempt'') (\<lambda>attempt.
     bind_result (raw_item raw ''model_input_snapshot_id'') (\<lambda>snapshot.
       Inr \<lparr>cp_phase = phase, cp_prompt = py_str rp prompt, cp_turn_index = turn,
            cp_total_usage = usage, cp_assistant_message = assistant,
            cp_pending_tool_blocks = pending, cp_completed_tool_results = completed,
            cp_force_final_pending = truthy force,
            cp_loop_guard_state = json_dict_or_none guard,
            cp_pending_skill_overlay = json_dict_or_none overlay,
            cp_current_turn_allowed_tools =
              (case tools of JList ts \<Rightarrow> Some (map (py_str rp) ts) | _ \<Rightarrow> None),
            cp_assistant_stop_reason = str_or_none (Some stop),
            cp_permission_decisions = decisions, cp_background_workers = workers,
            cp_truncation_attempts = max 0 attempts,
            cp_truncation_prefix = (case pre of JStr s \<Rightarrow> s | _ \<Rightarrow> []),
            cp_pending_truncation_feedback = str_or_none (Some feedback),
            cp_tool_batch_event_after_seq = cursor,
            cp_pending_alignment = pending_alignment_from_raw rp alignment,
            cp_extension_state = extension_state_from_raw extension,
            cp_provider_attempt = (case attempt of JInt n \<Rightarrow> max 0 n | _ \<Rightarrow> 0),
            cp_model_input_snapshot_id =
              (case snapshot of JStr s \<Rightarrow> if s = [] then None else Some s | _ \<Rightarrow> None)\<rparr>)))))))))))))))))))))))))"

text \<open>\<^verbatim>\<open>_copy_checkpoint\<close> of a checkpoint: through the dictionary and back.\<close>

definition checkpoint_copy :: "(json \<Rightarrow> string) \<Rightarrow> run_checkpoint \<Rightarrow> run_checkpoint result" where
  "checkpoint_copy rp c = bind_result (checkpoint_to_dict c) (checkpoint_from_dict rp)"

section \<open>The types of a checkpoint\<close>

definition wf_alignment :: "json_obj \<Rightarrow> bool" where
  "wf_alignment d = (\<exists>p imgs. p \<noteq> [] \<and> d = [(''prompt'', JStr p), (''images'', imgs)]
     \<and> (imgs = JNull \<or> (\<exists>xs. imgs = JList xs \<and> list_all is_dict xs)))"

definition wf_checkpoint :: "run_checkpoint \<Rightarrow> bool" where
  "wf_checkpoint c =
     ((case cp_assistant_message c of None \<Rightarrow> True | Some m \<Rightarrow> wf_message m)
      \<and> list_all is_tool_use_block (cp_pending_tool_blocks c)
      \<and> list_all (\<lambda>(k, b). is_tool_result_block b \<and> wf_block b) (cp_completed_tool_results c)
      \<and> (cp_loop_guard_state c = JNull \<or> is_dict (cp_loop_guard_state c))
      \<and> (cp_pending_skill_overlay c = JNull \<or> is_dict (cp_pending_skill_overlay c))
      \<and> 0 \<le> cp_truncation_attempts c \<and> 0 \<le> cp_provider_attempt c
      \<and> (case cp_tool_batch_event_after_seq c of None \<Rightarrow> True | Some n \<Rightarrow> 0 \<le> n)
      \<and> list_all wf_alignment (cp_pending_alignment c)
      \<and> cp_model_input_snapshot_id c \<noteq> Some [])"

definition storable_checkpoint :: "run_checkpoint \<Rightarrow> bool" where
  "storable_checkpoint c = validate_json 0 (JDict (checkpoint_raw c))"

section \<open>Round trip\<close>

lemma pending_blocks_encoded:
  "list_all is_tool_use_block bs \<Longrightarrow>
   pending_blocks_from rp (map (\<lambda>b. JDict (block_to_dict b)) bs) = Inr bs"
proof (induction bs)
  case (Cons b bs)
  moreover from Cons.prems have "wf_block b" by (cases b) auto
  ultimately show ?case by (simp add: block_roundtrip)
qed simp

lemma completed_results_encoded:
  "list_all (\<lambda>(k, b). is_tool_result_block b \<and> wf_block b) bs \<Longrightarrow>
   completed_results_from rp (map (\<lambda>(k, b). (k, JDict (block_to_dict b))) bs) = Inr bs"
  by (induction bs) (auto simp: block_roundtrip)

lemma dict_of_dicts_encoded [simp]:
  "dict_of_dicts (JDict (map (\<lambda>(k, d). (k, JDict d)) ds)) = Inr ds"
  unfolding dict_of_dicts_def by (induction ds) auto

lemma alignment_encoded:
  "wf_alignment d \<Longrightarrow> alignment_entry rp (JDict d) = Some d"
  by (auto simp: wf_alignment_def alignment_entry_def raw_get_def list_all_iff)

lemma pending_alignment_encoded:
  "list_all wf_alignment ds \<Longrightarrow> pending_alignment_from_raw rp (JList (map JDict ds)) = ds"
  by (induction ds) (auto simp: pending_alignment_from_raw_def List.map_filter_simps alignment_encoded)

lemma optional_message_encoded:
  "(case m of None \<Rightarrow> True | Some m \<Rightarrow> wf_message m) \<Longrightarrow>
   optional_message rp (json_opt (\<lambda>m. JDict (message_to_dict m)) m) = Inr m"
  by (cases m) (auto simp: optional_message_def message_decode_encode)

lemma recovery_cursor_encoded:
  "(case n of None \<Rightarrow> True | Some n \<Rightarrow> 0 \<le> n) \<Longrightarrow> recovery_cursor (json_opt JInt n) = Inr n"
  by (cases n) (auto simp: recovery_cursor_def require_tool_recovery_cursor_def)

lemma int_or_zero_int [simp]: "int_or_zero (JInt n) = Inr n"
  by (simp add: int_or_zero_def)

lemma str_or_none_opt [simp]: "str_or_none (Some (json_opt JStr v)) = v"
  by (cases v) (simp_all add: str_or_none_def)

lemma dict_or_none_same [simp]: "v = JNull \<or> is_dict v \<Longrightarrow> json_dict_or_none v = v"
  by (auto simp: json_dict_or_none_def is_dict_def split: json.splits)

lemma tools_encoded [simp]:
  "(case json_opt (\<lambda>ts. JList (map JStr ts)) v of
      JList ts \<Rightarrow> Some (map (py_str rp) ts) | _ \<Rightarrow> None) = v"
  by (cases v) simp_all

lemma snapshot_id_encoded [simp]:
  "v \<noteq> Some [] \<Longrightarrow>
   (case json_opt JStr v of JStr s \<Rightarrow> if s = [] then None else Some s | _ \<Rightarrow> None) = v"
  by (cases v) simp_all

lemma checkpoint_raw_decodes:
  assumes "wf_checkpoint c"
  shows "checkpoint_from_dict rp (checkpoint_raw c) = Inr c"
  using assms
  by (cases c) (simp add: checkpoint_from_dict_def checkpoint_raw_def raw_item_def wf_checkpoint_def
      require_wire_version_def pending_blocks_encoded completed_results_encoded
      pending_alignment_encoded optional_message_encoded recovery_cursor_encoded
      extension_state_from_raw_def del: map_map)

lemma checkpoint_copy_same:
  assumes "wf_checkpoint c" and "storable_checkpoint c"
  shows "checkpoint_copy rp c = Inr c"
  using assms json_safe_plain [of 0 "JDict (checkpoint_raw c)" False]
  by (simp add: checkpoint_copy_def checkpoint_to_dict_def storable_checkpoint_def checkpoint_raw_decodes
      del: native_json_safe.simps validate_json.simps)

section \<open>What is decoded is typed\<close>

lemma block_from_dict_wf: "block_from_dict rp raw = Inr b \<Longrightarrow> wf_block b"
  by (subst (asm) block_from_dict.simps)
    (auto simp: Let_def bind_result_Inr_iff list_all_iff split: if_splits option.splits json.splits)

lemma message_from_dict_wf:
  assumes "message_from_dict rp raw = Inr m"
  shows "wf_message m"
proof -
  from assms obtain items where bs: "map_result (item_from_json rp) items = Inr (content m)"
    and pm: "provider_metadata m = none_if_null (dict_get raw ''provider_metadata'')"
    by (auto simp: message_from_dict_def bind_result_Inr_iff)
  have "wf_block b" if b: "b \<in> set (content m)" for b
  proof -
    from map_result_set [OF bs b] obtain x where "item_from_json rp x = Inr b" ..
    then show ?thesis by (cases x) (auto intro: block_from_dict_wf)
  qed
  with pm show ?thesis
    by (auto simp: wf_message_def list_all_iff none_if_null_def split: option.splits json.splits)
qed

lemma pending_blocks_typed:
  "pending_blocks_from rp items = Inr bs \<Longrightarrow> list_all is_tool_use_block bs"
  by (induction rp items arbitrary: bs rule: pending_blocks_from.induct)
    (auto simp: bind_result_Inr_iff split: if_splits)

lemma completed_results_typed:
  "completed_results_from rp items = Inr bs \<Longrightarrow>
   list_all (\<lambda>(k, b). is_tool_result_block b \<and> wf_block b) bs"
  by (induction rp items arbitrary: bs rule: completed_results_from.induct)
    (auto simp: bind_result_Inr_iff block_from_dict_wf split: if_splits)

lemma alignment_entry_wf: "alignment_entry rp item = Some d \<Longrightarrow> wf_alignment d"
  by (auto simp: alignment_entry_def wf_alignment_def Let_def list_all_iff
      split: json.splits if_splits option.splits)

lemma pending_alignment_wf: "list_all wf_alignment (pending_alignment_from_raw rp v)"
proof (cases v)
  case (JList xs)
  have "list_all wf_alignment (List.map_filter (alignment_entry rp) xs)"
    by (induction xs) (auto simp: List.map_filter_simps alignment_entry_wf split: option.splits)
  with JList show ?thesis by (simp add: pending_alignment_from_raw_def)
qed (simp_all add: pending_alignment_from_raw_def)

lemma recovery_cursor_natural:
  "recovery_cursor v = Inr n \<Longrightarrow> (case n of None \<Rightarrow> True | Some n \<Rightarrow> 0 \<le> n)"
  by (auto simp: recovery_cursor_def require_tool_recovery_cursor_def split: if_splits json.splits)

lemma optional_message_wf:
  "optional_message rp v = Inr m \<Longrightarrow> (case m of None \<Rightarrow> True | Some m \<Rightarrow> wf_message m)"
  by (cases v; cases "case v of JDict d \<Rightarrow> message_from_dict rp d | _ \<Rightarrow> Inl ValueError")
    (auto simp: optional_message_def message_from_dict_wf)

lemma json_dict_or_none_typed: "json_dict_or_none v = JNull \<or> is_dict (json_dict_or_none v)"
  by (cases v) (simp_all add: json_dict_or_none_def is_dict_def)

lemma snapshot_id_typed:
  "(case v of JStr s \<Rightarrow> if s = [] then None else Some s | _ \<Rightarrow> None) \<noteq> Some []"
  by (cases v) simp_all

lemma attempt_natural: "0 \<le> (case v of JInt n \<Rightarrow> max 0 n | _ \<Rightarrow> (0::int))"
  by (cases v) simp_all

lemma completed_case_typed:
  "(case v of JDict d \<Rightarrow> completed_results_from rp d | _ \<Rightarrow> Inr []) = Inr bs \<Longrightarrow>
   list_all (\<lambda>(k, b). is_tool_result_block b \<and> wf_block b) bs"
  by (cases v) (auto dest: completed_results_typed)

lemmas checkpoint_parts_wf = optional_message_wf pending_blocks_typed completed_case_typed
  recovery_cursor_natural

lemma checkpoint_from_dict_wf:
  assumes "checkpoint_from_dict rp raw = Inr c"
  shows "wf_checkpoint c"
  using assms
  unfolding checkpoint_from_dict_def bind_result_Inr_iff wf_checkpoint_def sum.inject
  by (elim exE conjE, hypsubst, unfold run_checkpoint.simps, intro conjI)
    (erule checkpoint_parts_wf | rule json_dict_or_none_typed snapshot_id_typed attempt_natural
      pending_alignment_wf max.cobounded1)+

end
