(* ===== verification/Json_Canon.thy ===== *)
theory Json_Canon
  imports Decimal Run_Codec "HOL-Library.Multiset"
begin

text \<open>
  JSON values up to the order of dictionary keys. \<open>canon\<close> sorts the keys at every level, the way
  \<^verbatim>\<open>json.dumps(..., sort_keys=True)\<close> writes them, so two trees of distinct keys agree as Python
  values of the same types exactly when their canonical forms are equal.
\<close>

fun canon :: "json \<Rightarrow> json" where
  "canon (JDict d) = JDict (sort_key fst (map (\<lambda>(k, v). (k, canon v)) d))"
| "canon (JList xs) = JList (map canon xs)"
| "canon v = v"

definition canon_obj :: "json_obj \<Rightarrow> json_obj" where
  "canon_obj d = sort_key fst (map (\<lambda>(k, v). (k, canon v)) d)"

lemma canon_JDict [simp]: "canon (JDict d) = JDict (canon_obj d)"
  by (simp add: canon_obj_def)

lemmas [simp del] = canon.simps(1)

fun json_wf :: "json \<Rightarrow> bool" where
  "json_wf (JDict d) = (distinct (map fst d) \<and> (\<forall>(k, v) \<in> set d. json_wf v))"
| "json_wf (JList xs) = (\<forall>v \<in> set xs. json_wf v)"
| "json_wf (JFloat f) = (f \<noteq> NaN)"
| "json_wf v = True"

lemma sort_map_snd:
  "sort_key fst (map (\<lambda>(k, v). (k, f v)) d) = map (\<lambda>(k, v). (k, f v)) (sort_key fst d)"
proof -
  have ins: "insort_key fst (k, f v) (map (\<lambda>(k, v). (k, f v)) d)
      = map (\<lambda>(k, v). (k, f v)) (insort_key fst (k, v) d)" for k :: "'a :: linorder" and v and d
    by (induction d) auto
  show ?thesis
    by (induction d) (auto simp: ins)
qed

lemma canon_obj_alt: "canon_obj d = map (\<lambda>(k, v). (k, canon v)) (sort_key fst d)"
  by (simp add: canon_obj_def sort_map_snd)

lemma map_of_sort_key: "distinct (map fst d) \<Longrightarrow> map_of (sort_key fst d) = map_of d"
  by (intro map_of_inject_set [THEN iffD2])
    (auto intro: distinct_sort simp: distinct_map inj_on_def)

lemma dict_get_canon [simp]:
  "distinct (map fst d) \<Longrightarrow> dict_get (canon_obj d) k = map_option canon (dict_get d k)"
  by (simp add: canon_obj_alt map_of_map map_of_sort_key)

lemma set_canon_obj: "set (canon_obj d) = (\<lambda>(k, v). (k, canon v)) ` set d"
  by (simp add: canon_obj_def)

lemma keys_canon_obj [simp]: "fst ` set (canon_obj d) = fst ` set d"
  by (force simp: set_canon_obj)

lemma distinct_canon_obj [simp]: "distinct (map fst (canon_obj d)) = distinct (map fst d)"
proof -
  have "mset (map fst (canon_obj d)) = image_mset fst (mset (map (\<lambda>(k, v). (k, canon v)) d))"
    by (simp only: canon_obj_def mset_map mset_sort)
  also have "\<dots> = mset (map fst d)"
    by (induction d) auto
  finally show ?thesis
    by (metis mset_eq_imp_distinct_iff)
qed

lemma sorted_canon_obj: "sorted (map fst (canon_obj d))"
  by (simp add: canon_obj_def)

lemma canon_obj_eq_iff:
  assumes "distinct (map fst d)" and "distinct (map fst e)"
  shows "canon_obj d = canon_obj e
    \<longleftrightarrow> (\<forall>k. map_option canon (dict_get d k) = map_option canon (dict_get e k))"
proof
  assume "canon_obj d = canon_obj e"
  with assms show "\<forall>k. map_option canon (dict_get d k) = map_option canon (dict_get e k)"
    by (metis dict_get_canon)
next
  assume "\<forall>k. map_option canon (dict_get d k) = map_option canon (dict_get e k)"
  with assms have "map_of (canon_obj d) = map_of (canon_obj e)"
    by (intro ext) simp
  then have set: "set (canon_obj d) = set (canon_obj e)"
    using map_of_inject_set [of "canon_obj d" "canon_obj e"] assms by simp
  have "inj_on fst (set (canon_obj d))"
    using assms(1) distinct_canon_obj [of d] unfolding distinct_map by simp
  with set assms sorted_canon_obj show "canon_obj d = canon_obj e"
    by (intro map_sorted_distinct_set_unique [where f = fst]) simp_all
qed

lemma canon_idem [simp]: "canon (canon v) = canon v"
proof (induction v rule: canon.induct)
  case (1 d)
  then have "map (\<lambda>(k, v). (k, canon v)) (canon_obj d) = canon_obj d"
    by (auto intro!: map_idI simp: set_canon_obj)
  then show ?case
    by (simp add: canon_obj_def [of "canon_obj d"] sorted_canon_obj sorted_sort_id
        sort_key_id_if_sorted)
qed simp_all

lemma canon_valid: "validate_json depth v \<Longrightarrow> validate_json depth (canon v)"
  by (induction depth v rule: validate_json.induct) (auto simp: set_canon_obj)

lemma canon_wf: "json_wf v \<Longrightarrow> json_wf (canon v)"
  by (induction v rule: json_wf.induct) (auto simp: set_canon_obj)

end
