(* ===== verification/Run_Contract.thy ===== *)
theory Run_Contract
  imports Json_Canon
begin

text \<open>
  Run contracts of \<^verbatim>\<open>src/linch/run_store.py\<close>: the fingerprint of what a run was started
  with, its storage in the run's metadata, and the comparison that decides whether a resume may
  go on. The canonical JSON encoder and SHA-256 are parameters.
\<close>

record contract_env =
  ce_dumps :: "json \<Rightarrow> string result"
  ce_digest :: "string \<Rightarrow> string"

section \<open>Contracts\<close>

record run_contract =
  rc_schema_version :: int
  rc_payload :: json_obj
  rc_fingerprint :: string

record contract_difference =
  cf_path :: string
  cf_stored :: json
  cf_requested :: json

record contract_comparison =
  cc_compatible :: bool
  cc_stored_fingerprint :: string
  cc_requested_fingerprint :: string
  cc_differences :: "contract_difference list"

definition canonical_json :: "contract_env \<Rightarrow> json \<Rightarrow> string result" where
  "canonical_json env v = bind_result (native_json_safe True 0 v) (ce_dumps env)"

definition run_contract_fingerprint :: "contract_env \<Rightarrow> int \<Rightarrow> json_obj \<Rightarrow> string result" where
  "run_contract_fingerprint env version payload =
     bind_result (canonical_json env
         (JDict [(''schema_version'', JInt version), (''payload'', JDict payload)]))
       (\<lambda>s. Inr (''sha256:'' @ ce_digest env s))"

text \<open>A budget is absent, a mapping, an object with the three attributes, or something else.\<close>

datatype budget_value =
    NoBudget
  | BudgetMapping json_obj
  | BudgetObject json json json
  | OtherBudget

definition json_safe_strict :: "json \<Rightarrow> json result" where
  "json_safe_strict = native_json_safe True 0"

definition budget_contract :: "budget_value \<Rightarrow> json result" where
  "budget_contract b = (case b of
       NoBudget \<Rightarrow> Inr JNull
     | BudgetMapping d \<Rightarrow> json_safe_strict (JDict d)
     | BudgetObject max_tokens max_cost warn \<Rightarrow>
         bind_result (json_safe_strict max_tokens) (\<lambda>a.
         bind_result (json_safe_strict max_cost) (\<lambda>c.
         bind_result (json_safe_strict warn) (\<lambda>w.
           Inr (JDict [(''max_tokens'', a), (''max_cost_usd'', c), (''warn_ratio'', w)]))))
     | OtherBudget \<Rightarrow> Inl TypeError)"

record contract_inputs =
  ci_primary_model :: string
  ci_fallback_models :: "string list"
  ci_system_blocks :: "json list"
  ci_tool_schemas :: "json list"
  ci_input_payload :: json_obj
  ci_output_schema :: json
  ci_final_tool_name :: "string option"
  ci_run_options :: json_obj
  ci_budget :: budget_value
  ci_policies :: json_obj

definition build_run_contract :: "contract_env \<Rightarrow> contract_inputs \<Rightarrow> run_contract result" where
  "build_run_contract env ci =
     (if ci_primary_model ci = [] then Inl ValueError
      else if [] \<in> set (ci_fallback_models ci) then Inl ValueError
      else
        bind_result (map_result json_safe_strict (ci_tool_schemas ci)) (\<lambda>tools.
          if \<not> list_all is_dict tools then Inl TypeError
          else
            bind_result (json_safe_strict (JList (ci_system_blocks ci))) (\<lambda>system.
            bind_result (json_safe_strict (JDict (ci_input_payload ci))) (\<lambda>inp.
            bind_result (json_safe_strict (ci_output_schema ci)) (\<lambda>schema.
            bind_result (json_safe_strict (JDict (ci_run_options ci))) (\<lambda>options.
            bind_result (budget_contract (ci_budget ci)) (\<lambda>budget.
            bind_result (json_safe_strict (JDict (ci_policies ci))) (\<lambda>policies.
              let payload =
                [(''models'', JDict [(''primary'', JStr (ci_primary_model ci)),
                                     (''fallbacks'', JList (map JStr (ci_fallback_models ci)))]),
                 (''system'', system), (''tools'', JList tools), (''input'', inp),
                 (''output'', JDict [(''schema'', schema),
                                     (''final_tool_name'', json_opt JStr (ci_final_tool_name ci))]),
                 (''run_options'', options), (''budget'', budget), (''policies'', policies)]
              in bind_result (run_contract_fingerprint env wire_version payload) (\<lambda>fp.
                   Inr \<lparr>rc_schema_version = wire_version, rc_payload = payload,
                        rc_fingerprint = fp\<rparr>)))))))))"

section \<open>Storage\<close>

definition run_contract_to_dict :: "contract_env \<Rightarrow> run_contract \<Rightarrow> json_obj result" where
  "run_contract_to_dict env c =
     bind_result (require_wire_version (Some (JInt (rc_schema_version c)))) (\<lambda>_.
     bind_result (bind_result (json_safe_strict (JDict (rc_payload c))) py_dict) (\<lambda>payload.
     bind_result (run_contract_fingerprint env (rc_schema_version c) payload) (\<lambda>fp.
       if rc_fingerprint c \<noteq> fp then Inl ValueError
       else Inr [(''schema_version'', JInt (rc_schema_version c)),
                 (''fingerprint'', JStr (rc_fingerprint c)), (''payload'', JDict payload)])))"

definition payload_mapping :: "json option \<Rightarrow> json_obj result" where
  "payload_mapping v = (case v of Some (JDict d) \<Rightarrow> Inr d | _ \<Rightarrow> Inl ValueError)"

definition declared_fingerprint :: "json option \<Rightarrow> string \<Rightarrow> string result" where
  "declared_fingerprint v computed = (case v of
       Some (JStr declared) \<Rightarrow>
         if declared = [] \<or> declared \<noteq> computed then Inl ValueError else Inr declared
     | _ \<Rightarrow> Inl ValueError)"

fun run_contract_from_dict :: "contract_env \<Rightarrow> json \<Rightarrow> run_contract result" where
  "run_contract_from_dict env (JDict raw) =
     bind_result (require_wire_version (dict_get raw ''schema_version'')) (\<lambda>_.
     bind_result (payload_mapping (dict_get raw ''payload'')) (\<lambda>payload_raw.
     bind_result (bind_result (json_safe_strict (JDict payload_raw)) py_dict) (\<lambda>payload.
     bind_result (run_contract_fingerprint env wire_version payload) (\<lambda>computed.
     bind_result (declared_fingerprint (dict_get raw ''fingerprint'') computed) (\<lambda>declared.
       Inr \<lparr>rc_schema_version = wire_version, rc_payload = payload,
            rc_fingerprint = declared\<rparr>)))))"
| "run_contract_from_dict env _ = Inl UnsupportedWireVersionError"

definition run_meta_with_contract ::
  "contract_env \<Rightarrow> run_contract \<Rightarrow> json_obj \<Rightarrow> json_obj result" where
  "run_meta_with_contract env c meta =
     bind_result (bind_result (native_json_safe False 0 (JDict meta)) py_dict) (\<lambda>safe.
     bind_result (run_contract_to_dict env c) (\<lambda>d.
       Inr (dict_set contract_key (JDict d) safe)))"

definition run_contract_from_meta :: "contract_env \<Rightarrow> json_obj \<Rightarrow> run_contract result" where
  "run_contract_from_meta env meta = (case dict_get meta contract_key of
       None \<Rightarrow> Inl UnsupportedWireVersionError
     | Some raw \<Rightarrow> run_contract_from_dict env raw)"

section \<open>Comparison\<close>

text \<open>\<^verbatim>\<open>stored != requested or type(stored) is not type(requested)\<close>, negated, off the diagonal of containers.\<close>

fun same_scalar :: "json \<Rightarrow> json \<Rightarrow> bool" where
  "same_scalar (JFloat f) (JFloat g) = pf_eq f g"
| "same_scalar (JDict _) _ = False"
| "same_scalar (JList _) _ = False"
| "same_scalar v w = (v = w)"

definition difference :: "string \<Rightarrow> json \<Rightarrow> json \<Rightarrow> contract_difference list" where
  "difference path a b = [\<lparr>cf_path = path, cf_stored = a, cf_requested = b\<rparr>]"

lemma dict_get_smaller: "dict_get d k = Some x \<Longrightarrow> size x < size (JDict d)"
  using size_list_estimation' [of "(k, x)" d "size x" "size_prod (\<lambda>_. 0) size"]
  by (auto dest: map_of_SomeD simp: less_Suc_eq_le)

lemma nth_smaller: "i < length xs \<Longrightarrow> size (xs ! i) < size (JList xs)"
  using size_list_estimation' [of "xs ! i" xs "size (xs ! i)" size]
  by (simp add: less_Suc_eq_le)

function (sequential) contract_differences ::
  "json \<Rightarrow> json \<Rightarrow> string \<Rightarrow> contract_difference list" where
  "contract_differences (JDict d) (JDict e) path =
     concat (map (\<lambda>k. let child = path @ ''.'' @ k in
         (case (dict_get d k, dict_get e k) of
            (None, Some y) \<Rightarrow> difference child JNull y
          | (Some x, None) \<Rightarrow> difference child x JNull
          | (Some x, Some y) \<Rightarrow> contract_differences x y child
          | (None, None) \<Rightarrow> []))
       (sort (remdups (dict_keys d @ dict_keys e))))"
| "contract_differences (JList xs) (JList ys) path =
     concat (map (\<lambda>i. let child = path @ ''['' @ show_int (int i) @ '']'' in
         if i \<ge> length xs then difference child JNull (ys ! i)
         else if i \<ge> length ys then difference child (xs ! i) JNull
         else contract_differences (xs ! i) (ys ! i) child)
       [0..<max (length xs) (length ys)])"
| "contract_differences v w path = (if same_scalar v w then [] else difference path v w)"
  by pat_completeness auto
termination
  by (relation "measure (\<lambda>(v, w, path). size v)")
    (auto dest!: sym [of "Some _"] intro: dict_get_smaller nth_smaller simp del: json.size)

definition compare_run_contract ::
  "contract_env \<Rightarrow> run_contract option \<Rightarrow> run_contract \<Rightarrow> contract_comparison result" where
  "compare_run_contract env stored requested = (case stored of
       None \<Rightarrow> Inl UnsupportedWireVersionError
     | Some s \<Rightarrow>
         bind_result (run_contract_fingerprint env (rc_schema_version s) (rc_payload s)) (\<lambda>sfp.
         bind_result (run_contract_fingerprint env (rc_schema_version requested)
                        (rc_payload requested)) (\<lambda>rfp.
           let diffs =
                 (if rc_fingerprint s \<noteq> sfp
                  then difference ''$.fingerprint'' (JStr (rc_fingerprint s)) (JStr sfp) else [])
                 @ (if rc_schema_version s \<noteq> rc_schema_version requested
                    then difference ''$.schema_version'' (JInt (rc_schema_version s))
                           (JInt (rc_schema_version requested)) else [])
                 @ contract_differences (JDict (rc_payload s)) (JDict (rc_payload requested))
                     ''$.payload''
           in Inr \<lparr>cc_compatible = (diffs = [] \<and> sfp = rfp),
                   cc_stored_fingerprint = rc_fingerprint s,
                   cc_requested_fingerprint = rc_fingerprint requested,
                   cc_differences = diffs\<rparr>)))"

definition ensure_run_contract_compatible ::
  "contract_env \<Rightarrow> run_contract option \<Rightarrow> run_contract \<Rightarrow> contract_comparison result" where
  "ensure_run_contract_compatible env stored requested =
     bind_result (compare_run_contract env stored requested) (\<lambda>c.
       if cc_compatible c then Inr c else Inl RunContractMismatchError)"

section \<open>The comparison is exact\<close>

lemma difference_not_empty [simp]: "difference p a b \<noteq> []"
  by (simp add: difference_def)

text \<open>Distinct keys at the top and below.\<close>

lemma no_difference_iff: "(if b then [] else difference p v w) = [] \<longleftrightarrow> b"
  by simp

lemma json_wf_get:
  "json_wf (JDict d) \<Longrightarrow> dict_get d k = Some x \<Longrightarrow> json_wf x"
  by (auto dest: map_of_SomeD)

lemma dict_differences_empty:
  assumes "\<And>k x y. dict_get d k = Some x \<Longrightarrow> dict_get e k = Some y \<Longrightarrow> f x y k = [] \<longleftrightarrow> canon x = canon y"
    and "distinct (map fst d)" and "distinct (map fst e)"
  shows "concat (map (\<lambda>k. case (dict_get d k, dict_get e k) of
            (None, Some y) \<Rightarrow> difference (g k) JNull y
          | (Some x, None) \<Rightarrow> difference (g k) x JNull
          | (Some x, Some y) \<Rightarrow> f x y k
          | (None, None) \<Rightarrow> []) (sort (remdups (dict_keys d @ dict_keys e)))) = []
    \<longleftrightarrow> canon_obj d = canon_obj e" (is "concat (map ?F ?ks) = [] \<longleftrightarrow> _")
proof -
  have one: "?F k = [] \<longleftrightarrow> map_option canon (dict_get d k) = map_option canon (dict_get e k)" for k
    using assms(1) by (cases "dict_get d k"; cases "dict_get e k") auto
  have "map_option canon (dict_get d k) = map_option canon (dict_get e k)"
    if "k \<notin> set ?ks" for k
    using that by (simp add: dict_get_None_iff [THEN iffD2])
  with one have "(\<forall>k \<in> set ?ks. ?F k = [])
      \<longleftrightarrow> (\<forall>k. map_option canon (dict_get d k) = map_option canon (dict_get e k))"
    by blast
  moreover have "concat (map ?F ?ks) = [] \<longleftrightarrow> (\<forall>k \<in> set ?ks. ?F k = [])"
    unfolding concat_eq_Nil_conv by (simp only: set_map ball_simps)
  ultimately show ?thesis
    unfolding canon_obj_eq_iff [OF assms(2,3)] by (rule trans [rotated])
qed

lemma list_differences_empty:
  assumes "\<And>i. i < length xs \<Longrightarrow> i < length ys \<Longrightarrow>
    f i (xs ! i) (ys ! i) = [] \<longleftrightarrow> canon (xs ! i) = canon (ys ! i)"
  shows "concat (map (\<lambda>i. if i \<ge> length xs then difference (g i) JNull (ys ! i)
           else if i \<ge> length ys then difference (g i) (xs ! i) JNull
           else f i (xs ! i) (ys ! i)) [0..<max (length xs) (length ys)]) = []
    \<longleftrightarrow> map canon xs = map canon ys" (is "concat (map ?F ?is) = [] \<longleftrightarrow> _")
proof
  assume "concat (map ?F ?is) = []"
  then have empty: "?F i = []" if "i < max (length xs) (length ys)" for i
    using that unfolding concat_eq_Nil_conv set_map ball_simps by (simp del: upt_Suc)
  have len: "length xs = length ys"
    using empty [of "length xs"] empty [of "length ys"]
    by (cases "length xs" "length ys" rule: linorder_cases) simp_all
  have "canon (xs ! i) = canon (ys ! i)" if "i < length xs" for i
    using empty [of i] that len assms [of i] by simp
  with len show "map canon xs = map canon ys"
    by (intro nth_equalityI) simp_all
next
  assume eq: "map canon xs = map canon ys"
  then have len: "length xs = length ys"
    by (metis length_map)
  have "?F i = []" if "i < length xs" for i
    using arg_cong [OF eq, of "\<lambda>zs. zs ! i"] that len assms [of i] by simp
  with len show "concat (map ?F ?is) = []"
    unfolding concat_eq_Nil_conv set_map ball_simps by simp
qed

lemma same_scalar_iff:
  assumes "json_wf v" and "\<And>d e. v = JDict d \<Longrightarrow> w = JDict e \<Longrightarrow> False"
    and "\<And>xs ys. v = JList xs \<Longrightarrow> w = JList ys \<Longrightarrow> False"
  shows "same_scalar v w \<longleftrightarrow> canon v = canon w"
  using assms by (cases v; cases w) (auto simp: pf_eq_def)

lemma no_differences_iff:
  "json_wf a \<Longrightarrow> json_wf b \<Longrightarrow> contract_differences a b path = [] \<longleftrightarrow> canon a = canon b"
proof (induction a b path rule: contract_differences.induct)
  case (1 d e path)
  have "contract_differences x y (path @ ''.'' @ k) = [] \<longleftrightarrow> canon x = canon y"
    if "dict_get d k = Some x" and "dict_get e k = Some y" for k x y
  proof -
    have "k \<in> set (sort (remdups (dict_keys d @ dict_keys e)))"
      using that by (auto dest: dict_get_keys)
    moreover from that 1(2,3) have "json_wf x" and "json_wf y"
      by (blast intro: json_wf_get)+
    ultimately show ?thesis
      using 1(1) [OF _ refl refl that] by blast
  qed
  moreover from 1(2,3) have "dict_ok d" and "dict_ok e" by auto
  ultimately show ?case
    unfolding contract_differences.simps Let_def canon_JDict json.inject
    by (rule dict_differences_empty)
next
  case (2 xs ys path)
  let ?c = "\<lambda>i. path @ ''['' @ show_int (int i) @ '']''"
  have "contract_differences (xs ! i) (ys ! i) (?c i) = [] \<longleftrightarrow> canon (xs ! i) = canon (ys ! i)"
    if "i < length xs" and "i < length ys" for i
    using that 2(2,3) by (intro 2(1)) auto
  then show ?case
    unfolding contract_differences.simps Let_def canon.simps json.inject
    by (rule list_differences_empty)
qed (simp_all only: contract_differences.simps no_difference_iff, (rule same_scalar_iff; simp)+)

declare contract_differences.simps [simp del]

lemma fingerprint_canon:
  assumes "validate_json 1 (JDict p)" and "validate_json 1 (JDict q)"
    and sorts: "\<And>v. ce_dumps env (canon v) = ce_dumps env v"
    and "canon_obj p = canon_obj q"
  shows "run_contract_fingerprint env ver p = run_contract_fingerprint env ver q"
proof -
  let ?doc = "\<lambda>p. JDict [(''schema_version'', JInt ver), (''payload'', JDict p)]"
  have safe: "native_json_safe True 0 (?doc p) = Inr (?doc p)" if "validate_json 1 (JDict p)" for p
    using that by (intro json_safe_plain) (simp add: ignorable_max_depth_def)
  have "canon (?doc p) = canon (?doc q)"
    using assms(4) by (simp add: canon_obj_def)
  then have "ce_dumps env (?doc p) = ce_dumps env (?doc q)"
    using sorts by metis
  then show ?thesis
    by (simp only: run_contract_fingerprint_def canonical_json_def safe assms(1,2) bind_result.simps)
qed

text \<open>
  C20: A stored contract is accepted on resume exactly when its own fingerprint is intact, the
  versions agree, and the two payloads are the same JSON value up to the order of dictionary
  keys. The encoder is only assumed to sort keys.
\<close>

theorem contract_compatible_iff:
  assumes "json_wf (JDict (rc_payload s))" and "json_wf (JDict (rc_payload r))"
    and "validate_json 1 (JDict (rc_payload s))" and "validate_json 1 (JDict (rc_payload r))"
    and sorts: "\<And>v. ce_dumps env (canon v) = ce_dumps env v"
  shows "(\<exists>c. ensure_run_contract_compatible env (Some s) r = Inr c)
    \<longleftrightarrow> run_contract_fingerprint env (rc_schema_version s) (rc_payload s) = Inr (rc_fingerprint s)
        \<and> rc_schema_version s = rc_schema_version r
        \<and> canon_obj (rc_payload s) = canon_obj (rc_payload r)" (is "?L \<longleftrightarrow> ?R")
proof
  assume ?R
  moreover from this have "run_contract_fingerprint env (rc_schema_version r) (rc_payload r)
      = Inr (rc_fingerprint s)"
    using fingerprint_canon [OF assms(3,4) sorts] by metis
  ultimately show ?L
    using no_differences_iff [OF assms(1,2), of "''$.payload''"]
    by (cases s; cases r) (simp add: ensure_run_contract_compatible_def compare_run_contract_def
        Let_def)
next
  assume ?L
  then show ?R
    using no_differences_iff [OF assms(1,2), of "''$.payload''"]
    by (auto simp del: json_wf.simps simp: ensure_run_contract_compatible_def compare_run_contract_def bind_result_Inr_iff
        Let_def split: if_splits)
qed

definition contract_env_example :: contract_env where
  "contract_env_example = \<lparr>ce_dumps = (\<lambda>v. Inr (show_nat (size (canon v)))), ce_digest = (\<lambda>s. s)\<rparr>"

definition contract_example :: "json_obj \<Rightarrow> run_contract" where
  "contract_example p = \<lparr>rc_schema_version = 3, rc_payload = p,
     rc_fingerprint = ''sha256:'' @ show_nat (size (canon
       (JDict [(''schema_version'', JInt 3), (''payload'', JDict p)])))\<rparr>"

theorem contract_compatible_iff_witness:
  "\<exists>c. ensure_run_contract_compatible contract_env_example
     (Some (contract_example [(''b'', JInt 1), (''a'', JNull)]))
     (contract_example [(''a'', JNull), (''b'', JInt 1)]) = Inr c"
proof -
  have sorted: "canon_obj [(''b'', JInt 1), (''a'', JNull)] = canon_obj [(''a'', JNull), (''b'', JInt 1)]"
    by (simp add: canon_obj_def)
  show ?thesis
    by (rule contract_compatible_iff [THEN iffD2])
      (simp_all add: contract_example_def contract_env_example_def sorted run_contract_fingerprint_def
        canonical_json_def ignorable_max_depth_def)
qed

section \<open>Stored contracts\<close>

lemma declared_fingerprint_Inr:
  "declared_fingerprint v computed = Inr s \<Longrightarrow> s = computed"
  by (auto simp: declared_fingerprint_def split: option.splits json.splits if_splits)

lemma fingerprint_not_empty: "run_contract_fingerprint env ver p = Inr fp \<Longrightarrow> fp \<noteq> []"
  by (auto simp: run_contract_fingerprint_def bind_result_Inr_iff)

lemma contract_dict_roundtrip:
  assumes "run_contract_to_dict env c = Inr d" and "validate_json 0 (JDict (rc_payload c))"
  shows "run_contract_from_dict env (JDict d) = Inr c"
proof -
  have safe: "json_safe_strict (JDict (rc_payload c)) = Inr (JDict (rc_payload c))"
    unfolding json_safe_strict_def by (rule json_safe_plain [OF assms(2)])
  from assms(1) have ver: "rc_schema_version c = wire_version"
    and fp: "run_contract_fingerprint env wire_version (rc_payload c) = Inr (rc_fingerprint c)"
    and d: "d = [(''schema_version'', JInt wire_version), (''fingerprint'', JStr (rc_fingerprint c)),
      (''payload'', JDict (rc_payload c))]"
    by (auto simp: run_contract_to_dict_def bind_result_Inr_iff safe require_wire_version_def
        split: if_splits)
  have "declared_fingerprint (Some (JStr (rc_fingerprint c))) (rc_fingerprint c) = Inr (rc_fingerprint c)"
    using fingerprint_not_empty [OF fp] by (simp add: declared_fingerprint_def)
  with ver fp safe show ?thesis
    unfolding d by (cases c) (simp add: require_wire_version_def payload_mapping_def)
qed

lemma stored_contract_roundtrip:
  assumes "run_meta_with_contract env c meta = Inr meta'" and "validate_json 0 (JDict (rc_payload c))"
  shows "run_contract_from_meta env meta' = Inr c"
  using assms contract_dict_roundtrip [of env c]
  by (auto simp: run_meta_with_contract_def run_contract_from_meta_def bind_result_Inr_iff
      simp del: run_contract_from_dict.simps)

lemma decoded_contract_authentic:
  assumes "run_contract_from_dict env v = Inr c"
  shows "run_contract_fingerprint env (rc_schema_version c) (rc_payload c) = Inr (rc_fingerprint c)"
proof (cases v)
  case (JDict raw)
  from assms obtain payload computed declared where
    fp: "run_contract_fingerprint env wire_version payload = Inr computed"
    and eq: "declared_fingerprint (dict_get raw ''fingerprint'') computed = Inr declared"
    and c: "c = \<lparr>rc_schema_version = wire_version, rc_payload = payload,
      rc_fingerprint = declared\<rparr>"
    unfolding JDict run_contract_from_dict.simps bind_result_Inr_iff sum.inject by blast
  with declared_fingerprint_Inr [OF eq] show ?thesis by simp
qed (use assms in simp_all)

lemma built_contract_authentic:
  assumes "build_run_contract env ci = Inr c"
  shows "run_contract_fingerprint env (rc_schema_version c) (rc_payload c) = Inr (rc_fingerprint c)"
  using assms unfolding build_run_contract_def Let_def
  by (clarsimp simp: bind_result_Inr_iff split: if_split_asm)

end
