(* ===== verification/Run_Durable.thy ===== *)
theory Run_Durable
  imports Run_Contract
begin

text \<open>
  The in-memory run store of \<^verbatim>\<open>src/linch/run_store.py\<close> together with the codecs it copies
  its values through.
\<close>

section \<open>Checkpoints\<close>



text \<open>
  C19: A typed checkpoint (\<open>wf_checkpoint\<close>) whose free-form values the native encoder stores
  without cutting or replacing anything (\<open>storable_checkpoint\<close>: no nesting beyond its limit, no
  NaN or infinity), once saved in an in-memory store that copies checkpoints through the codec of
  \<^verbatim>\<open>run_store.py\<close>, is read back exactly as it was saved, with the status it was saved under. The
  store also accepts other checkpoints, and may give those back changed.
\<close>

theorem saved_checkpoint_reads_back:
  assumes "cd_checkpoint cd = checkpoint_copy rp" and "wf_checkpoint c" and "storable_checkpoint c"
    and "save_checkpoint cd rid c status lease ts st = (st', Inr ())"
  shows "\<exists>r. load_run rid st' = Some r \<and> rr_checkpoint r = Some c \<and> rr_status r = status
    \<and> rr_updated_at r = ts"
  using assms(4)
  by (auto simp: save_checkpoint_def load_run_def copy_checkpoint_def assms(1)
      checkpoint_copy_same [OF assms(2,3)] split: sum.splits option.splits)

definition codec_store :: "nat run_store" where
  "codec_store = \<lparr>st_runs = [(''r'', \<lparr>rr_id = ''r'', rr_session_id = ''s'', rr_status = ''pending'',
       rr_created_at = ''t0'', rr_updated_at = ''t0'', rr_checkpoint = None, rr_meta = []\<rparr>)],
     st_events = [], st_snapshots = [], st_lease_state = []\<rparr>"

definition codec_checkpoint :: run_checkpoint where
  "codec_checkpoint =
     \<lparr>cp_phase = JStr ''tool_executing'', cp_prompt = ''hi'', cp_turn_index = 2,
      cp_total_usage = usage_zero, cp_assistant_message = None,
      cp_pending_tool_blocks = [ToolUseBlock ''t1'' ''Read'' [(''path'', JStr ''a'')]],
      cp_completed_tool_results = [(''t0'', ToolResultBlock ''t0'' (ContentStr ''ok'') False)],
      cp_force_final_pending = False, cp_loop_guard_state = JDict [], cp_pending_skill_overlay = JNull,
      cp_current_turn_allowed_tools = Some [''Read''], cp_assistant_stop_reason = None,
      cp_permission_decisions = [(''t1'', [(''decision'', JStr ''allow'')])],
      cp_background_workers = [], cp_truncation_attempts = 1, cp_truncation_prefix = ''a'',
      cp_pending_truncation_feedback = None, cp_tool_batch_event_after_seq = Some 4,
      cp_pending_alignment = [[(''prompt'', JStr ''p''), (''images'', JNull)]],
      cp_extension_state = [(''x'', JInt 1)], cp_provider_attempt = 1,
      cp_model_input_snapshot_id = Some ''m''\<rparr>"

lemma codec_checkpoint_ok: "wf_checkpoint codec_checkpoint" "storable_checkpoint codec_checkpoint"
  by (simp_all add: codec_checkpoint_def wf_checkpoint_def storable_checkpoint_def checkpoint_raw_def
      is_dict_def wf_alignment_def ignorable_max_depth_def usage_to_dict_def)

theorem saved_checkpoint_reads_back_witness:
  "\<exists>r. load_run ''r'' (fst (save_checkpoint \<lparr>cd_checkpoint = checkpoint_copy (\<lambda>_. ''?''), cd_event = Inr,
          cd_safe = (\<lambda>v. v), cd_compatible = (\<lambda>_ _. Inr ())\<rparr> ''r'' codec_checkpoint ''running'' None ''t1'' codec_store)) = Some r
     \<and> rr_checkpoint r = Some codec_checkpoint \<and> rr_status r = ''running'' \<and> rr_updated_at r = ''t1''"
proof (rule saved_checkpoint_reads_back [where rp = "\<lambda>_. ''?''"])
  let ?cd = "\<lparr>cd_checkpoint = checkpoint_copy (\<lambda>_. ''?''), cd_event = Inr,
          cd_safe = (\<lambda>v. v), cd_compatible = (\<lambda>_ _. Inr ())\<rparr> :: nat codecs"
  have "snd (save_checkpoint ?cd ''r'' codec_checkpoint ''running'' None ''t1'' codec_store) = Inr ()"
    by (simp add: save_checkpoint_def codec_store_def check_lease_def validate_lease_run_def admit_def
        copy_checkpoint_def checkpoint_copy_same codec_checkpoint_ok)
  then show "save_checkpoint ?cd ''r'' codec_checkpoint ''running'' None ''t1'' codec_store
      = (fst (save_checkpoint ?cd ''r'' codec_checkpoint ''running'' None ''t1'' codec_store), Inr ())"
    by (simp add: prod_eq_iff)
qed (simp_all add: codec_checkpoint_ok)

end
