(* ===== verification/Session_Log.thy ===== *)
theory Session_Log
  imports Projections Py_Text
begin

text \<open>
  \<^verbatim>\<open>src/linch/session_log.py\<close>: the append-only log of a session, from which the durable
  history and the provider-visible view are derived. The class keeps three caches beside the
  entries (the history, the view, and a running hash of the history); the lemmas show that each
  of them is a function of the entries. Messages are immutable values here, so the defensive
  copies of the class have no counterpart.
\<close>

section \<open>Entries and state\<close>

datatype log_entry =
    MessageEntry message bool bool
  | ProjectionEntry "message list" string

text \<open>
  The running hash is kept as the bytes that were fed to it; \<^verbatim>\<open>hexdigest\<close> of a copy is the digest
  of these bytes.
\<close>

record session_log =
  sl_entries :: "log_entry list"
  sl_full :: "message list"
  sl_derived :: "message list"
  sl_history_hash :: "string option"
  sl_history_hashed_count :: nat
  sl_has_native_definitions :: bool

definition new_session_log :: session_log where
  "new_session_log = \<lparr>sl_entries = [], sl_full = [], sl_derived = [], sl_history_hash = None,
     sl_history_hashed_count = 0, sl_has_native_definitions = False\<rparr>"

fun has_definitions :: "content_block \<Rightarrow> bool" where
  "has_definitions (CatalogChangeBlock _ _ _ defs) = (defs \<noteq> [])"
| "has_definitions _ = False"

definition log_append :: "message \<Rightarrow> bool \<Rightarrow> bool \<Rightarrow> session_log \<Rightarrow> session_log" where
  "log_append m visible historical lg =
     (let lg1 = lg\<lparr>sl_entries := sl_entries lg @ [MessageEntry m visible historical]\<rparr>;
          lg2 = (if historical
                 then lg1\<lparr>sl_full := sl_full lg1 @ [m],
                          sl_has_native_definitions := sl_has_native_definitions lg1
                            \<or> list_ex has_definitions (content m)\<rparr>
                 else lg1)
      in if visible then lg2\<lparr>sl_derived := sl_derived lg2 @ [m]\<rparr> else lg2)"

fun log_append_many :: "message list \<Rightarrow> session_log \<Rightarrow> session_log" where
  "log_append_many [] lg = lg"
| "log_append_many (m # ms) lg = log_append_many ms (log_append m True True lg)"

text \<open>
  Equality of messages compares the fields; dictionaries inside compare as in Python, without
  regard to the order of their keys.
\<close>

definition message_eq :: "message \<Rightarrow> message \<Rightarrow> bool" where
  "message_eq a b = json_eq (JDict (message_to_dict a)) (JDict (message_to_dict b))"

definition messages_eq :: "message list \<Rightarrow> message list \<Rightarrow> bool" where
  "messages_eq xs ys = list_all2 message_eq xs ys"

definition record_view :: "message list \<Rightarrow> string \<Rightarrow> session_log \<Rightarrow> session_log \<times> bool" where
  "record_view replacement reason lg =
     (if messages_eq replacement (sl_derived lg) then (lg, False)
      else (lg\<lparr>sl_entries := sl_entries lg @ [ProjectionEntry replacement reason],
              sl_derived := replacement\<rparr>, True))"

definition visible_count :: "session_log \<Rightarrow> nat" where
  "visible_count lg = length (sl_derived lg)"

definition history_count :: "session_log \<Rightarrow> nat" where
  "history_count lg = length (sl_full lg)"

definition last_visible :: "session_log \<Rightarrow> message option" where
  "last_visible lg = (if sl_derived lg = [] then None else Some (last (sl_derived lg)))"

definition log_seed :: "message list \<Rightarrow> message list option \<Rightarrow> session_log" where
  "log_seed historical visible =
     (let lg = log_append_many historical new_session_log
      in case visible of
           None \<Rightarrow> lg
         | Some v \<Rightarrow> if messages_eq v (sl_derived lg) then lg else fst (record_view v [] lg))"

section \<open>The running hash\<close>

text \<open>
  The loop feeds the messages that were not hashed yet. It works on a copy, so that a message
  that cannot be encoded leaves the cache as it was.
\<close>

fun feed_messages :: "json_env \<Rightarrow> string \<Rightarrow> nat \<Rightarrow> message list \<Rightarrow> string result" where
  "feed_messages env bytes count [] = Inr bytes"
| "feed_messages env bytes count (m # ms) =
     bind_result (strict_json env (JDict (message_to_dict m))) (\<lambda>encoded.
       feed_messages env (bytes @ (if count = 0 then [] else '','') @ encoded) (count + 1) ms)"

definition history_fingerprint :: "json_env \<Rightarrow> session_log \<Rightarrow> session_log \<times> string result" where
  "history_fingerprint env lg =
     (let start = (case sl_history_hash lg of None \<Rightarrow> ''['' | Some b \<Rightarrow> b);
          count = sl_history_hashed_count lg
      in case feed_messages env start count (drop count (sl_full lg)) of
           Inl e \<Rightarrow> (lg, Inl e)
         | Inr bytes \<Rightarrow>
             (lg\<lparr>sl_history_hash := Some bytes, sl_history_hashed_count := length (sl_full lg)\<rparr>,
              Inr (sha256 env (bytes @ '']''))))"

section \<open>The log as the only state\<close>

fun replay_view :: "log_entry list \<Rightarrow> message list \<Rightarrow> message list" where
  "replay_view [] view = view"
| "replay_view (MessageEntry m visible historical # es) view =
     replay_view es (if visible then view @ [m] else view)"
| "replay_view (ProjectionEntry replacement reason # es) view = replay_view es replacement"

fun history_of :: "log_entry list \<Rightarrow> message list" where
  "history_of [] = []"
| "history_of (MessageEntry m visible historical # es) =
     (if historical then m # history_of es else history_of es)"
| "history_of (ProjectionEntry _ _ # es) = history_of es"

definition hash_ok :: "json_env \<Rightarrow> session_log \<Rightarrow> bool" where
  "hash_ok env lg =
     (sl_history_hashed_count lg \<le> length (sl_full lg)
      \<and> (case sl_history_hash lg of
           None \<Rightarrow> sl_history_hashed_count lg = 0
         | Some bytes \<Rightarrow>
             feed_messages env ''['' 0 (take (sl_history_hashed_count lg) (sl_full lg)) = Inr bytes))"

definition slog_ok :: "json_env \<Rightarrow> session_log \<Rightarrow> bool" where
  "slog_ok env lg =
     (sl_derived lg = replay_view (sl_entries lg) []
      \<and> sl_full lg = history_of (sl_entries lg)
      \<and> sl_has_native_definitions lg = list_ex (\<lambda>m. list_ex has_definitions (content m)) (sl_full lg)
      \<and> hash_ok env lg)"

text \<open>The methods as steps on the log.\<close>

inductive log_step :: "json_env \<Rightarrow> session_log \<Rightarrow> session_log \<Rightarrow> bool" for env :: json_env where
  step_append: "log_step env lg (log_append m visible historical lg)"
| step_project: "log_step env lg (fst (record_view replacement reason lg))"
| step_hash: "log_step env lg (fst (history_fingerprint env lg))"

inductive_cases log_stepE: "log_step env lg lg'"

section \<open>The caches are functions of the entries\<close>

lemma replay_view_append: "replay_view (es @ [e]) v =
   (case e of MessageEntry m visible _ \<Rightarrow> if visible then replay_view es v @ [m] else replay_view es v
    | ProjectionEntry r _ \<Rightarrow> r)"
  by (induction es v rule: replay_view.induct) (auto split: log_entry.splits)

lemma history_of_append: "history_of (es @ es') = history_of es @ history_of es'"
  by (induction es rule: history_of.induct) auto

lemma feed_append:
  "feed_messages env b n (xs @ ys) =
   bind_result (feed_messages env b n xs) (\<lambda>b'. feed_messages env b' (n + length xs) ys)"
  by (induction xs arbitrary: b n) (simp_all add: bind_result_assoc)

lemma append_ok: "slog_ok env lg \<Longrightarrow> slog_ok env (log_append m visible historical lg)"
  by (auto simp: slog_ok_def hash_ok_def log_append_def Let_def replay_view_append history_of_append
      split: option.splits)

lemma project_ok: "slog_ok env lg \<Longrightarrow> slog_ok env (fst (record_view replacement reason lg))"
  by (auto simp: slog_ok_def hash_ok_def record_view_def replay_view_append history_of_append
      split: option.splits)

lemma feed_all:
  assumes "hash_ok env lg"
  shows "feed_messages env (case sl_history_hash lg of None \<Rightarrow> ''['' | Some b \<Rightarrow> b)
      (sl_history_hashed_count lg) (drop (sl_history_hashed_count lg) (sl_full lg))
    = feed_messages env ''['' 0 (sl_full lg)"
  using assms feed_append [of env "''[''" 0 "take (sl_history_hashed_count lg) (sl_full lg)"
      "drop (sl_history_hashed_count lg) (sl_full lg)"]
  by (auto simp: hash_ok_def min_absorb1 split: option.splits)

lemma fingerprint_result:
  assumes "hash_ok env lg"
  shows "history_fingerprint env lg = (case feed_messages env ''['' 0 (sl_full lg) of
       Inl e \<Rightarrow> (lg, Inl e)
     | Inr bytes \<Rightarrow>
         (lg\<lparr>sl_history_hash := Some bytes, sl_history_hashed_count := length (sl_full lg)\<rparr>,
          Inr (sha256 env (bytes @ '']''))))"
  by (simp only: history_fingerprint_def Let_def feed_all [OF assms])

lemma hash_step_ok:
  assumes "slog_ok env lg"
  shows "slog_ok env (fst (history_fingerprint env lg))"
proof -
  from assms have ok: "hash_ok env lg" by (simp add: slog_ok_def)
  show ?thesis
  proof (cases "feed_messages env ''['' 0 (sl_full lg)")
    case (Inl e)
    with assms show ?thesis by (simp add: fingerprint_result [OF ok])
  next
    case (Inr b)
    with assms show ?thesis by (simp add: fingerprint_result [OF ok] slog_ok_def hash_ok_def)
  qed
qed

lemma log_step_ok: "log_step env lg lg' \<Longrightarrow> slog_ok env lg \<Longrightarrow> slog_ok env lg'"
  by (auto elim!: log_stepE intro: append_ok project_ok hash_step_ok)

lemma new_log_ok: "slog_ok env new_session_log"
  by (simp add: slog_ok_def new_session_log_def hash_ok_def)

lemma log_reachable_ok: "(log_step env)\<^sup>*\<^sup>* new_session_log lg \<Longrightarrow> slog_ok env lg"
  by (induction rule: rtranclp_induct) (auto intro: log_step_ok new_log_ok)

lemma log_entries_grow: "(log_step env)\<^sup>*\<^sup>* lg lg' \<Longrightarrow> prefix (sl_entries lg) (sl_entries lg')"
proof (induction rule: rtranclp_induct)
  case (step lg1 lg2)
  from step(2) have "prefix (sl_entries lg1) (sl_entries lg2)"
    by (cases rule: log_stepE)
      (auto simp: log_append_def record_view_def history_fingerprint_def Let_def split: sum.splits)
  with step.IH show ?case by (rule prefix_order.trans)
qed simp

lemma history_of_prefix: "prefix es es' \<Longrightarrow> prefix (history_of es) (history_of es')"
  by (auto simp: prefix_def history_of_append)

text \<open>
  C31: In every log that the methods can build, the history is exactly the sequence of historical
  messages in the order they were appended, the view is the replay of the entries (the latest
  projection followed by the visible messages appended after it), and whatever is done next the
  history only grows at its end.
\<close>

theorem session_log_is_replay:
  assumes "(log_step env)\<^sup>*\<^sup>* new_session_log lg" and "(log_step env)\<^sup>*\<^sup>* lg lg'"
  shows "sl_derived lg = replay_view (sl_entries lg) []
    \<and> sl_full lg = history_of (sl_entries lg) \<and> prefix (sl_full lg) (sl_full lg')"
proof -
  from assms have "(log_step env)\<^sup>*\<^sup>* new_session_log lg'" by simp
  from log_reachable_ok [OF assms(1)] log_reachable_ok [OF this]
  show ?thesis
    using history_of_prefix [OF log_entries_grow [OF assms(2)]] by (simp_all add: slog_ok_def)
qed

section \<open>The running hash is the hash of the whole history\<close>

definition full_fingerprint :: "json_env \<Rightarrow> message list \<Rightarrow> string result" where
  "full_fingerprint env ms =
     bind_result (map_result (\<lambda>m. strict_json env (JDict (message_to_dict m))) ms)
       (\<lambda>es. Inr (sha256 env (''['' @ join_text '','' es @ '']'')))"

fun comma_all :: "string list \<Rightarrow> string" where
  "comma_all [] = []"
| "comma_all (e # es) = '','' @ e @ comma_all es"

lemma join_comma: "join_text '','' (e # es) = e @ comma_all es"
  by (induction es arbitrary: e) auto

lemma feed_rest:
  "n \<noteq> 0 \<Longrightarrow> feed_messages env b n ms =
   bind_result (map_result (\<lambda>m. strict_json env (JDict (message_to_dict m))) ms)
     (\<lambda>es. Inr (b @ comma_all es))"
  by (induction ms arbitrary: b n) (simp_all add: bind_result_assoc)

lemma feed_whole:
  "feed_messages env ''['' 0 ms =
   bind_result (map_result (\<lambda>m. strict_json env (JDict (message_to_dict m))) ms)
     (\<lambda>es. Inr (''['' @ join_text '','' es))"
  by (cases ms) (simp_all add: feed_rest bind_result_assoc join_comma)

text \<open>
  C32: However appends, projections and fingerprint requests are interleaved, and whether or not
  earlier requests failed, the incrementally maintained fingerprint of the history equals the
  hash of the complete JSON array of its messages.
\<close>

theorem history_fingerprint_is_full_hash:
  assumes "(log_step env)\<^sup>*\<^sup>* new_session_log lg"
  shows "snd (history_fingerprint env lg) = full_fingerprint env (sl_full lg)"
proof -
  from log_reachable_ok [OF assms] have "hash_ok env lg" by (simp add: slog_ok_def)
  from fingerprint_result [OF this] show ?thesis
    by (cases "map_result (\<lambda>m. strict_json env (JDict (message_to_dict m))) (sl_full lg)")
      (simp_all add: full_fingerprint_def feed_whole)
qed

section \<open>A concrete log\<close>

definition log_hello :: message where
  "log_hello = \<lparr>role = role_user, content = [TextBlock ''hi''], provider_metadata = None\<rparr>"

definition log_notice :: message where
  "log_notice = \<lparr>role = role_user, content = [TextBlock ''note''], provider_metadata = None\<rparr>"

definition log_example :: session_log where
  "log_example = log_append log_notice True False (log_append log_hello True True new_session_log)"

definition log_projected :: session_log where
  "log_projected = fst (record_view [log_notice] ''compaction'' log_example)"

lemma log_example_steps:
  "(log_step env)\<^sup>*\<^sup>* new_session_log log_example" "(log_step env)\<^sup>*\<^sup>* log_example log_projected"
  unfolding log_example_def log_projected_def
  by (meson rtranclp.rtrancl_refl rtranclp.rtrancl_into_rtrancl step_append step_project)+

definition log_env :: json_env where
  "log_env = \<lparr>native_dumps = (\<lambda>v. Some ''x''), json_dumps = (\<lambda>v. Some ''x''), json_loads = (\<lambda>s. Inr JNull),
     sha256 = (\<lambda>s. s), str_of = (\<lambda>v. [])\<rparr>"

theorem session_log_is_replay_witness:
  "sl_derived log_example = [log_hello, log_notice] \<and> sl_full log_example = [log_hello]
   \<and> prefix [log_hello] (sl_full log_projected)"
  using session_log_is_replay [OF log_example_steps [of log_env]]
  by (simp add: log_example_def log_append_def new_session_log_def)

theorem history_fingerprint_is_full_hash_witness:
  "snd (history_fingerprint log_env log_example) = Inr ''[x]''"
  using history_fingerprint_is_full_hash [OF log_example_steps(1) [of log_env]]
  by (simp add: full_fingerprint_def log_example_def log_append_def new_session_log_def log_env_def
      strict_json_def)

end
