(* ===== verification/File_Tracker.thy ===== *)
theory File_Tracker
  imports Decimal Messages "HOL-Library.Product_Lexorder"
begin

text \<open>
  \<^verbatim>\<open>src/linch/tools/file_tracker.py\<close>: which files, and which lines of them, were read in a
  session. Line ranges are kept as sorted intervals with a gap between any two of them; the
  lemmas show that asking for a range is then exactly asking whether every line of it was read.
\<close>

section \<open>State and operations\<close>

record file_tracker =
  ft_files :: "string set"
  ft_ranges :: "(string, (int \<times> int) list) dict"
  ft_stamps :: "(string, int \<times> int) dict"

definition new_tracker :: file_tracker where
  "new_tracker = \<lparr>ft_files = {}, ft_ranges = [], ft_stamps = []\<rparr>"

definition tracker_add :: "string \<Rightarrow> file_tracker \<Rightarrow> file_tracker" where
  "tracker_add path t = t\<lparr>ft_files := insert path (ft_files t)\<rparr>"

text \<open>The loop keeps the merged list with its last interval first.\<close>

fun merge_range :: "int \<times> int \<Rightarrow> (int \<times> int) list \<Rightarrow> (int \<times> int) list" where
  "merge_range (s, e) [] = [(s, e)]"
| "merge_range (s, e) ((a, b) # merged) =
     (if s \<le> b + 1 then (a, max b e) # merged else (s, e) # (a, b) # merged)"

definition merge_ranges :: "(int \<times> int) list \<Rightarrow> (int \<times> int) list" where
  "merge_ranges rs = rev (fold merge_range (sort rs) [])"

definition ranges_of :: "file_tracker \<Rightarrow> string \<Rightarrow> (int \<times> int) list" where
  "ranges_of t path = (case dict_get (ft_ranges t) path of None \<Rightarrow> [] | Some rs \<Rightarrow> rs)"

definition mark_read :: "string \<Rightarrow> (int \<times> int) option \<Rightarrow> file_tracker \<Rightarrow> file_tracker" where
  "mark_read path bounds t = (case bounds of
       None \<Rightarrow> tracker_add path t
     | Some (start_line, end_line) \<Rightarrow>
         (let start = max 1 start_line; stop = max start end_line
          in t\<lparr>ft_ranges :=
                dict_set path (merge_ranges (ranges_of t path @ [(start, stop)])) (ft_ranges t)\<rparr>))"

definition tracker_files :: "file_tracker \<Rightarrow> string list" where
  "tracker_files t = sorted_list_of_set (ft_files t)"

definition tracker_clear :: "file_tracker \<Rightarrow> file_tracker" where
  "tracker_clear t = new_tracker"

definition has_read :: "string \<Rightarrow> file_tracker \<Rightarrow> bool" where
  "has_read path t = (path \<in> ft_files t)"

definition has_read_range :: "string \<Rightarrow> int \<Rightarrow> int \<Rightarrow> file_tracker \<Rightarrow> bool" where
  "has_read_range path start_line end_line t =
     (path \<in> ft_files t
      \<or> (let start = max 1 start_line; stop = max start end_line
          in list_ex (\<lambda>(a, b). a \<le> start \<and> stop \<le> b) (ranges_of t path)))"

definition invalidate_ranges :: "string \<Rightarrow> file_tracker \<Rightarrow> file_tracker" where
  "invalidate_ranges path t = t\<lparr>ft_ranges := dict_pop path (ft_ranges t)\<rparr>"

definition is_current :: "string \<Rightarrow> int \<times> int \<Rightarrow> file_tracker \<Rightarrow> bool" where
  "is_current path stamp t = (dict_get (ft_stamps t) path = Some stamp)"

definition set_stamp :: "string \<Rightarrow> int \<times> int \<Rightarrow> bool \<Rightarrow> file_tracker \<Rightarrow> file_tracker" where
  "set_stamp path stamp reset t =
     (let t1 = (if reset \<and> \<not> is_current path stamp t
                then invalidate_ranges path (t\<lparr>ft_files := ft_files t - {path}\<rparr>) else t)
      in t1\<lparr>ft_stamps := dict_set path stamp (ft_stamps t1)\<rparr>)"

definition tracker_snapshot :: "file_tracker \<Rightarrow> json_obj" where
  "tracker_snapshot t =
     [(''files'', JList (map JStr (tracker_files t))),
      (''stamps'', JDict (map (\<lambda>(p, (m, n)). (p, JList [JInt m, JInt n])) (ft_stamps t)))]"

definition restored_stamp :: "json \<Rightarrow> (int \<times> int) option" where
  "restored_stamp v = (case v of
       JList [JInt m, JInt n] \<Rightarrow> if 0 \<le> n then Some (m, n) else None
     | _ \<Rightarrow> None)"

definition tracker_restore :: "json \<Rightarrow> file_tracker \<Rightarrow> file_tracker" where
  "tracker_restore snapshot t = (case snapshot of
       JDict d \<Rightarrow>
         \<lparr>ft_files = (case dict_get d ''files'' of
             Some (JList xs) \<Rightarrow> set (List.map_filter (\<lambda>v. str_or_none (Some v)) xs) | _ \<Rightarrow> {}),
          ft_ranges = [],
          ft_stamps = (case dict_get d ''stamps'' of
             Some (JDict e) \<Rightarrow>
               List.map_filter (\<lambda>(p, v). map_option (Pair p) (restored_stamp v)) e
           | _ \<Rightarrow> [])\<rparr>
     | _ \<Rightarrow> new_tracker)"

section \<open>Intervals\<close>

text \<open>The lines of a list of intervals, and the shape the merge keeps them in.\<close>

definition range_lines :: "(int \<times> int) list \<Rightarrow> int set" where
  "range_lines rs = (\<Union>(a, b) \<in> set rs. {a..b})"

definition valid_ranges :: "(int \<times> int) list \<Rightarrow> bool" where
  "valid_ranges rs = (\<forall>(a, b) \<in> set rs. 1 \<le> a \<and> a \<le> b)"

definition separated :: "(int \<times> int) list \<Rightarrow> bool" where
  "separated rs = (valid_ranges rs \<and> sorted_wrt (\<lambda>(a, b) (c, d). b + 1 < c) rs)"

lemma separated_snoc:
  "separated (rs @ [(a, b)]) \<longleftrightarrow> separated rs \<and> 1 \<le> a \<and> a \<le> b \<and> (\<forall>(c, d) \<in> set rs. d + 1 < a)"
  by (auto simp: separated_def valid_ranges_def sorted_wrt_append)

lemma merge_range_ok:
  assumes "separated (rev merged)" and "1 \<le> s" and "s \<le> e"
    and "\<forall>(a, b) \<in> set merged. a \<le> s"
  shows "separated (rev (merge_range (s, e) merged))
    \<and> range_lines (merge_range (s, e) merged) = range_lines merged \<union> {s..e}
    \<and> (\<forall>(a, b) \<in> set (merge_range (s, e) merged). a \<le> s)"
proof (cases merged)
  case Nil
  with assms show ?thesis
    by (simp add: separated_def valid_ranges_def range_lines_def)
next
  case (Cons r rest)
  obtain a b where r: "r = (a, b)" by fastforce
  from assms Cons r have ab: "a \<le> b" "a \<le> s" "1 \<le> a" "separated (rev rest)"
    "\<forall>(c, d) \<in> set rest. d + 1 < a"
    by (auto simp: separated_snoc)
  show ?thesis
  proof (cases "s \<le> b + 1")
    case True
    with ab have "{a..max b e} = {a..b} \<union> {s..e}" using assms(3) by auto
    with True ab assms Cons r show ?thesis
      by (auto simp: separated_snoc range_lines_def)
  next
    case False
    with ab assms Cons r separated_snoc [of "rev rest @ [(a, b)]" s e] show ?thesis
      by (auto simp: separated_snoc range_lines_def)
  qed
qed

lemma fold_merge_ok:
  assumes "sorted rs" and "valid_ranges rs" and "separated (rev merged)"
    and "\<forall>(a, b) \<in> set merged. \<forall>(s, e) \<in> set rs. a \<le> s"
  shows "separated (rev (fold merge_range rs merged))
    \<and> range_lines (fold merge_range rs merged) = range_lines merged \<union> range_lines rs"
  using assms
proof (induction rs arbitrary: merged)
  case Nil
  then show ?case by (simp add: range_lines_def)
next
  case (Cons r rs)
  obtain s e where r: "r = (s, e)" by fastforce
  have step: "separated (rev (merge_range (s, e) merged))
    \<and> range_lines (merge_range (s, e) merged) = range_lines merged \<union> {s..e}
    \<and> (\<forall>(a, b) \<in> set (merge_range (s, e) merged). a \<le> s)"
    using Cons.prems r by (intro merge_range_ok) (auto simp: valid_ranges_def)
  from Cons.prems(1) r have "\<forall>(s', e') \<in> set rs. s \<le> s'"
    by (auto simp: less_eq_prod_def)
  with step have "\<forall>(a, b) \<in> set (merge_range (s, e) merged). \<forall>(s', e') \<in> set rs. a \<le> s'"
    by fastforce
  with Cons.IH [of "merge_range (s, e) merged"] step Cons.prems r show ?case
    by (auto simp: valid_ranges_def range_lines_def)
qed

lemma merge_ranges_ok:
  assumes "valid_ranges rs"
  shows "separated (merge_ranges rs)" and "range_lines (merge_ranges rs) = range_lines rs"
  using fold_merge_ok [of "sort rs" "[]"] assms
  by (auto simp: merge_ranges_def valid_ranges_def separated_def range_lines_def)

text \<open>An interval is inside one interval of a separated list as soon as all its lines are covered.\<close>

lemma separated_apart:
  assumes "separated rs" and "(a, b) \<in> set rs" and "(c, d) \<in> set rs"
  shows "(c, d) = (a, b) \<or> b + 1 < c \<or> d + 1 < a"
proof -
  from assms(2,3) obtain i j where ij: "i < length rs" "rs ! i = (a, b)" "j < length rs" "rs ! j = (c, d)"
    by (metis in_set_conv_nth)
  from assms(1) have "sorted_wrt (\<lambda>(a, b) (c, d). b + 1 < c) rs" by (simp add: separated_def)
  from sorted_wrt_nth_less [OF this, of i j] sorted_wrt_nth_less [OF this, of j i] ij
  show ?thesis by (cases i j rule: linorder_cases) auto
qed

lemma covered_iff:
  assumes "separated rs" and "s \<le> e"
  shows "list_ex (\<lambda>(a, b). a \<le> s \<and> e \<le> b) rs \<longleftrightarrow> {s..e} \<subseteq> range_lines rs"
proof
  assume "list_ex (\<lambda>(a, b). a \<le> s \<and> e \<le> b) rs"
  then obtain a b where "(a, b) \<in> set rs" and "a \<le> s" and "e \<le> b"
    by (auto simp: list_ex_iff)
  then show "{s..e} \<subseteq> range_lines rs"
    unfolding range_lines_def by fastforce
next
  assume covered: "{s..e} \<subseteq> range_lines rs"
  with assms(2) obtain a b where ab: "(a, b) \<in> set rs" "a \<le> s" "s \<le> b"
    by (force simp: range_lines_def)
  have "e \<le> b"
  proof (rule ccontr)
    assume "\<not> e \<le> b"
    with ab have "b + 1 \<in> {s..e}" by simp
    with covered have "b + 1 \<in> range_lines rs" by blast
    then obtain c d where cd: "(c, d) \<in> set rs" "c \<le> b + 1" "b + 1 \<le> d"
      by (auto simp: range_lines_def)
    from separated_apart [OF assms(1) ab(1) cd(1)] cd ab show False by auto
  qed
  with ab show "list_ex (\<lambda>(a, b). a \<le> s \<and> e \<le> b) rs" by (force simp: list_ex_iff)
qed

section \<open>The tracker's invariant\<close>

definition tracker_ok :: "file_tracker \<Rightarrow> bool" where
  "tracker_ok t = (dict_ok (ft_stamps t) \<and> (\<forall>path. separated (ranges_of t path)))"

definition lines_read :: "file_tracker \<Rightarrow> string \<Rightarrow> int set" where
  "lines_read t path = (if path \<in> ft_files t then {1..} else range_lines (ranges_of t path))"

lemma new_tracker_ok: "tracker_ok new_tracker"
  by (simp add: tracker_ok_def new_tracker_def ranges_of_def separated_def valid_ranges_def)

lemma ranges_of_mark:
  "ranges_of (mark_read path (Some (s, e)) t) q =
   (if q = path then merge_ranges (ranges_of t path @ [(max 1 s, max (max 1 s) e)]) else ranges_of t q)"
  by (simp add: mark_read_def ranges_of_def Let_def)

lemma marked_valid:
  "tracker_ok t \<Longrightarrow> valid_ranges (ranges_of t path @ [(max 1 s, max (max 1 s) e)])"
  by (auto simp: tracker_ok_def separated_def valid_ranges_def)

lemma mark_read_ok: "tracker_ok t \<Longrightarrow> tracker_ok (mark_read path bounds t)"
proof (cases bounds)
  case None
  moreover assume "tracker_ok t"
  ultimately show ?thesis by (simp add: mark_read_def tracker_add_def tracker_ok_def ranges_of_def)
next
  case (Some b)
  assume ok: "tracker_ok t"
  obtain s e where b: "b = (s, e)" by fastforce
  have "ft_stamps (mark_read path (Some (s, e)) t) = ft_stamps t"
    by (simp add: mark_read_def Let_def)
  with merge_ranges_ok(1) [OF marked_valid [OF ok]] ok show ?thesis
    unfolding Some b tracker_ok_def ranges_of_mark by simp
qed

lemma invalidate_ok: "tracker_ok t \<Longrightarrow> tracker_ok (invalidate_ranges path t)"
  by (auto simp: tracker_ok_def invalidate_ranges_def ranges_of_def separated_def valid_ranges_def)

lemma set_stamp_ok: "tracker_ok t \<Longrightarrow> tracker_ok (set_stamp path stamp reset t)"
  by (auto simp: tracker_ok_def set_stamp_def invalidate_ranges_def ranges_of_def Let_def
      separated_def valid_ranges_def)

lemmas tracker_ok_intros = new_tracker_ok mark_read_ok invalidate_ok set_stamp_ok

text \<open>Marking a range adds exactly its lines.\<close>

lemma lines_read_mark:
  assumes "tracker_ok t"
  shows "lines_read (mark_read path (Some (s, e)) t) q =
    lines_read t q \<union> (if q = path then {max 1 s..max (max 1 s) e} else {})"
proof (cases "q = path")
  case True
  have files: "ft_files (mark_read path (Some (s, e)) t) = ft_files t"
    by (simp add: mark_read_def Let_def)
  show ?thesis
    using merge_ranges_ok(2) [OF marked_valid [OF assms]] True
    unfolding lines_read_def files ranges_of_mark by (auto simp: range_lines_def)
qed (simp add: lines_read_def ranges_of_mark mark_read_def Let_def ranges_of_def)

lemma has_read_range_iff:
  assumes "tracker_ok t"
  shows "has_read_range path s e t \<longleftrightarrow> {max 1 s..max (max 1 s) e} \<subseteq> lines_read t path"
proof (cases "path \<in> ft_files t")
  case False
  with covered_iff [of "ranges_of t path" "max 1 s" "max (max 1 s) e"] assms show ?thesis
    by (simp add: has_read_range_def lines_read_def tracker_ok_def Let_def)
qed (auto simp: has_read_range_def lines_read_def)

text \<open>A snapshot keeps whole-file reads and stamps; partial reads are forgotten by a restart.\<close>

definition restorable_stamps :: "(string, int \<times> int) dict \<Rightarrow> (string, int \<times> int) dict" where
  "restorable_stamps d = filter (\<lambda>(p, (m, n)). 0 \<le> n) d"

lemma snapshot_restore:
  "tracker_restore (JDict (tracker_snapshot t)) t' =
   \<lparr>ft_files = set (tracker_files t), ft_ranges = [], ft_stamps = restorable_stamps (ft_stamps t)\<rparr>"
proof -
  have "List.map_filter (\<lambda>(p, v). map_option (Pair p) (restored_stamp v))
      (map (\<lambda>(p, (m, n)). (p, JList [JInt m, JInt n])) xs) = restorable_stamps xs"
    for xs :: "(string, int \<times> int) dict"
    by (induction xs) (auto simp: List.map_filter_simps restored_stamp_def restorable_stamps_def)
  moreover have "List.map_filter (\<lambda>v. str_or_none (Some v)) (map JStr ps) = ps" for ps
    by (induction ps) (simp_all add: List.map_filter_simps str_or_none_def)
  ultimately show ?thesis
    by (simp add: tracker_restore_def tracker_snapshot_def)
qed

lemma restart_tracker:
  assumes "tracker_ok t"
  shows "tracker_ok (tracker_restore (JDict (tracker_snapshot t)) t')"
    and "is_current p s (tracker_restore (JDict (tracker_snapshot t)) t') \<Longrightarrow> is_current p s t"
    and "lines_read (tracker_restore (JDict (tracker_snapshot t)) t') p \<subseteq> lines_read t p"
proof -
  let ?d = "restorable_stamps (ft_stamps t)"
  have ok: "dict_ok (ft_stamps t)" using assms by (simp add: tracker_ok_def)
  then have d: "dict_ok ?d"
    unfolding restorable_stamps_def by (rule distinct_map_filter)
  then show "tracker_ok (tracker_restore (JDict (tracker_snapshot t)) t')"
    by (simp add: snapshot_restore tracker_ok_def ranges_of_def separated_def valid_ranges_def)
  show "is_current p s t" if "is_current p s (tracker_restore (JDict (tracker_snapshot t)) t')"
    using that ok
    by (auto simp: snapshot_restore is_current_def restorable_stamps_def dest: map_of_SomeD)
  show "lines_read (tracker_restore (JDict (tracker_snapshot t)) t') p \<subseteq> lines_read t p"
    by (cases "finite (ft_files t)")
      (auto simp: snapshot_restore lines_read_def tracker_files_def ranges_of_def range_lines_def)
qed

end
