(* ===== verification/Compaction.thy ===== *)
theory Compaction
  imports Session_Log File_Tracker
begin

text \<open>
  The pure parts of \<^verbatim>\<open>src/linch/compaction.py\<close>: where a history is cut, the elision of old tool
  results, the built-in summarising strategies, the removal of response chaining, the token
  estimate, and the reconstruction of a paid compaction from the recorded fingerprints. What
  the provider answers is a parameter.
\<close>

section \<open>Turn boundaries\<close>

text \<open>The loop runs from the last message; the accumulator holds what it has passed.\<close>

fun scan_back :: "nat \<Rightarrow> message list \<Rightarrow> message list \<Rightarrow> message list option" where
  "scan_back n [] acc = None"
| "scan_back n (m # rest) acc =
     (if role m = role_assistant
      then (if n = 1 then Some (m # acc) else scan_back (n - 1) rest (m # acc))
      else scan_back n rest (m # acc))"

definition last_n_turn_boundaries :: "message list \<Rightarrow> int \<Rightarrow> message list" where
  "last_n_turn_boundaries ms n =
     (if n < 1 then ms
      else (case scan_back (nat n) (rev ms) [] of None \<Rightarrow> ms | Some recent \<Rightarrow> recent))"

definition older_messages :: "message list \<Rightarrow> message list \<Rightarrow> message list" where
  "older_messages ms recent = take (length ms - length recent) ms"

section \<open>Micro-compaction\<close>

definition elided :: string where
  "elided = ''[tool result elided to save context]''"

fun worthwhile :: "tool_content \<Rightarrow> bool" where
  "worthwhile (ContentStr s) = (length s > length elided)"
| "worthwhile (ContentBlocks bs) = (bs \<noteq> [])"

fun elidable :: "content_block \<Rightarrow> bool" where
  "elidable (ToolResultBlock tid c e) = (worthwhile c \<and> c \<noteq> ContentStr elided)"
| "elidable _ = False"

fun elide_block :: "content_block \<Rightarrow> content_block" where
  "elide_block (ToolResultBlock tid c e) =
     (if elidable (ToolResultBlock tid c e) then ToolResultBlock tid (ContentStr elided) e
      else ToolResultBlock tid c e)"
| "elide_block b = b"

definition elide_message :: "message \<Rightarrow> message" where
  "elide_message m = m\<lparr>content := map elide_block (content m)\<rparr>"

definition elided_count :: "message list \<Rightarrow> nat" where
  "elided_count ms = length (filter elidable (concat (map content ms)))"

definition micro_compact :: "int \<Rightarrow> message list \<Rightarrow> (message list \<times> nat) result" where
  "micro_compact keep_recent_turns ms =
     (if keep_recent_turns < 1 then Inl ValueError
      else (let recent = last_n_turn_boundaries ms keep_recent_turns;
                older = older_messages ms recent
            in if elided_count older = 0 then Inr (ms, 0)
               else Inr (map elide_message older @ recent, elided_count older)))"

section \<open>Response chaining\<close>

text \<open>
  The metadata is read as it comes: a value of another type raises what Python raises for it.
\<close>

definition response_key :: string where
  "response_key = ''openai_responses''"

definition without_chaining :: "json_obj \<Rightarrow> json_obj \<Rightarrow> json_obj" where
  "without_chaining d r =
     (let new_responses = dict_pop ''response_id'' r;
          new_meta = dict_pop response_key d
      in if new_responses = [] then new_meta
         else dict_set response_key (JDict new_responses) new_meta)"

definition strip_message :: "message \<Rightarrow> message result" where
  "strip_message m = (case provider_metadata m of
       None \<Rightarrow> Inr m
     | Some v \<Rightarrow>
         if \<not> truthy v then Inr m
         else (case v of
             JDict d \<Rightarrow>
               (case dict_get d response_key of
                  None \<Rightarrow> Inr m
                | Some r \<Rightarrow>
                    if \<not> truthy r then Inr m
                    else (case r of
                        JDict rd \<Rightarrow>
                          if ''response_id'' \<notin> set (dict_keys rd) then Inr m
                          else (let meta = without_chaining d rd
                                in Inr (m\<lparr>provider_metadata :=
                                     if meta = [] then None else Some (JDict meta)\<rparr>))
                      | JStr s \<Rightarrow> if has_substring ''response_id'' s then Inl AttributeError else Inr m
                      | JList xs \<Rightarrow>
                          if JStr ''response_id'' \<in> set xs then Inl AttributeError else Inr m
                      | _ \<Rightarrow> Inl TypeError))
           | _ \<Rightarrow> Inl AttributeError))"

definition strip_response_chaining :: "message list \<Rightarrow> message list result" where
  "strip_response_chaining ms = map_result strip_message ms"

section \<open>The built-in strategies\<close>

datatype strategy =
    DefaultCompaction string
  | DetailedCompaction int int string

record compaction_config =
  cg_implementation :: string
  cg_keep_recent_turns :: int
  cg_max_output_tokens :: int
  cg_prompt_sha256 :: string

text \<open>\<^verbatim>\<open>DetailedCompaction.__init__\<close> rejects a window of no turns.\<close>

definition new_detailed :: "int \<Rightarrow> int \<Rightarrow> string \<Rightarrow> strategy result" where
  "new_detailed keep cap prompt =
     (if keep < 1 then Inl ValueError else Inr (DetailedCompaction keep cap prompt))"

fun strategy_keep :: "strategy \<Rightarrow> int" where
  "strategy_keep (DefaultCompaction p) = 10"
| "strategy_keep (DetailedCompaction keep cap p) = keep"

fun strategy_id :: "strategy \<Rightarrow> string" where
  "strategy_id (DefaultCompaction p) = ''default-keep-recent-10''"
| "strategy_id (DetailedCompaction keep cap p) = ''detailed-continuation-keep-recent-10''"

fun builtin_compaction_config :: "(string \<Rightarrow> string) \<Rightarrow> strategy \<Rightarrow> compaction_config" where
  "builtin_compaction_config sha (DefaultCompaction p) =
     \<lparr>cg_implementation = ''default_v1'', cg_keep_recent_turns = 10, cg_max_output_tokens = 4096,
      cg_prompt_sha256 = sha p\<rparr>"
| "builtin_compaction_config sha (DetailedCompaction keep cap p) =
     \<lparr>cg_implementation = ''detailed_v1'', cg_keep_recent_turns = keep, cg_max_output_tokens = cap,
      cg_prompt_sha256 = sha p\<rparr>"

definition line_break2 :: string where
  "line_break2 = [CHR 0x0A, CHR 0x0A]"

fun summary_label :: "strategy \<Rightarrow> string" where
  "summary_label (DefaultCompaction p) = ''<summary of earlier conversation>''"
| "summary_label (DetailedCompaction keep cap p) = ''<detailed summary of earlier conversation>''"

definition summary_message :: "string \<Rightarrow> string \<Rightarrow> message" where
  "summary_message label text_body =
     \<lparr>role = role_user, content = [TextBlock (label @ line_break2 @ text_body)],
      provider_metadata = None\<rparr>"

text \<open>
  The summariser answers for a prompt, an output limit and the older messages. The two
  \<^verbatim>\<open>compact\<close> methods differ in their window, their limit and their label.
\<close>

fun strategy_compact ::
  "(string \<Rightarrow> int \<Rightarrow> message list \<Rightarrow> string result) \<Rightarrow> strategy \<Rightarrow> message list \<Rightarrow> message list result" where
  "strategy_compact summarize (DefaultCompaction prompt) ms =
     (let recent = last_n_turn_boundaries ms 10;
          older = older_messages ms recent
      in if older = [] then Inr ms
         else bind_result (summarize prompt 4096 older) (\<lambda>s.
           Inr (summary_message ''<summary of earlier conversation>'' s # recent)))"
| "strategy_compact summarize (DetailedCompaction keep cap prompt) ms =
     (let recent = last_n_turn_boundaries ms keep;
          older = older_messages ms recent
      in if older = [] then Inr ms
         else bind_result (summarize prompt cap older) (\<lambda>s.
           Inr (summary_message ''<detailed summary of earlier conversation>'' s # recent)))"

definition config_label :: "compaction_config \<Rightarrow> string" where
  "config_label cfg = ''<'' @ (if cg_implementation cfg = ''default_v1''
     then ''summary of earlier conversation'' else ''detailed summary of earlier conversation'') @ ''>''"

definition paid_view_from_recent ::
  "message list \<Rightarrow> string \<Rightarrow> compaction_config \<Rightarrow> message list result" where
  "paid_view_from_recent recent text_body cfg =
     strip_response_chaining (summary_message (config_label cfg) text_body # recent)"

definition builtin_paid_view ::
  "message list \<Rightarrow> string \<Rightarrow> compaction_config \<Rightarrow> message list result" where
  "builtin_paid_view ms text_body cfg =
     (let recent = last_n_turn_boundaries ms (cg_keep_recent_turns cfg)
      in if length recent = length ms then Inl ConfigError
         else paid_view_from_recent recent text_body cfg)"

section \<open>Where the history is cut\<close>

definition assistants :: "message list \<Rightarrow> nat" where
  "assistants ms = length (filter (\<lambda>m. role m = role_assistant) ms)"

text \<open>The scan stops at the n-th assistant message from the end.\<close>

lemma scan_back_Some:
  assumes "scan_back n xs acc = Some r" and "0 < n"
  shows "\<exists>m ys zs. xs = ys @ m # zs \<and> r = m # rev ys @ acc \<and> role m = role_assistant
    \<and> assistants ys = n - 1"
  using assms
proof (induction n xs acc rule: scan_back.induct)
  case (2 n m rest acc)
  show ?case
  proof (cases "role m = role_assistant \<and> n = 1")
    case True
    with 2(3) have "m # rest = [] @ m # rest \<and> r = m # rev [] @ acc \<and> role m = role_assistant
      \<and> assistants [] = n - 1"
      by (simp add: assistants_def)
    then show ?thesis by blast
  next
    case False
    have "\<exists>m' ys zs. rest = ys @ m' # zs \<and> r = m' # rev ys @ m # acc \<and> role m' = role_assistant
      \<and> assistants (m # ys) = n - 1"
    proof (cases "role m = role_assistant")
      case True
      with False 2(3,4) have "scan_back (n - 1) rest (m # acc) = Some r" "0 < n - 1" by auto
      from 2(1) [OF True _ this] False True obtain m' ys zs where
        "rest = ys @ m' # zs" "r = m' # rev ys @ m # acc" "role m' = role_assistant"
        "assistants ys = n - 1 - 1" by auto
      with True \<open>0 < n - 1\<close> show ?thesis by (auto simp: assistants_def)
    next
      case no: False
      with 2(3) have "scan_back n rest (m # acc) = Some r" by simp
      from 2(2) [OF no this 2(4)] no show ?thesis by (auto simp: assistants_def)
    qed
    then obtain m' ys zs where "rest = ys @ m' # zs" "r = m' # rev ys @ m # acc"
      "role m' = role_assistant" "assistants (m # ys) = n - 1" by blast
    then have "m # rest = (m # ys) @ m' # zs \<and> r = m' # rev (m # ys) @ acc
      \<and> role m' = role_assistant \<and> assistants (m # ys) = n - 1"
      by simp
    then show ?thesis by blast
  qed
qed simp

lemma last_n_cases:
  obtains "last_n_turn_boundaries ms n = ms"
  | older m rest where "ms = older @ m # rest" and "last_n_turn_boundaries ms n = m # rest"
    and "role m = role_assistant" and "assistants (m # rest) = nat n" and "1 \<le> n"
proof (cases "n < 1 \<or> scan_back (nat n) (rev ms) [] = None")
  case True
  then have "last_n_turn_boundaries ms n = ms" by (auto simp: last_n_turn_boundaries_def)
  then show thesis by (rule that(1))
next
  case False
  then obtain r where r: "scan_back (nat n) (rev ms) [] = Some r" and n: "1 \<le> n" by auto
  from scan_back_Some [OF r] n obtain m ys zs where
    "rev ms = ys @ m # zs" "r = m # rev ys" "role m = role_assistant" "assistants ys = nat n - 1"
    by auto
  moreover from this(1) have "ms = rev zs @ m # rev ys"
    by (metis append.assoc append_Cons append_Nil rev.simps(2) rev_append rev_rev_ident)
  ultimately show thesis
    using False n r by (intro that(2) [of "rev zs" m "rev ys"])
      (auto simp: last_n_turn_boundaries_def assistants_def rev_filter [symmetric])
qed

lemma older_append_recent: "older_messages ms (last_n_turn_boundaries ms n) @ last_n_turn_boundaries ms n = ms"
  by (rule last_n_cases [of ms n]) (auto simp: older_messages_def)

section \<open>Tool calls and their results\<close>

definition use_ids :: "message \<Rightarrow> string set" where
  "use_ids m = {i. \<exists>n inp. ToolUseBlock i n inp \<in> set (content m)}"

definition result_ids :: "message \<Rightarrow> string set" where
  "result_ids m = {i. \<exists>c e. ToolResultBlock i c e \<in> set (content m)}"

text \<open>
  Providers reject a view in which a tool result answers no call of the assistant message before
  it. The set holds the calls of the last assistant message.
\<close>

fun tool_pairs_ok :: "string set \<Rightarrow> message list \<Rightarrow> bool" where
  "tool_pairs_ok ids [] = True"
| "tool_pairs_ok ids (m # ms) =
     (if role m = role_assistant then tool_pairs_ok (use_ids m) ms
      else result_ids m \<subseteq> ids \<and> tool_pairs_ok ids ms)"

lemma tool_pairs_suffix:
  "tool_pairs_ok ids (older @ m # rest) \<Longrightarrow> role m = role_assistant \<Longrightarrow> tool_pairs_ok ids' (m # rest)"
  by (induction older arbitrary: ids) (auto split: if_splits)

lemma tool_pairs_same:
  assumes "list_all2 (\<lambda>a b. role a = role b \<and> use_ids a = use_ids b \<and> result_ids a = result_ids b) xs ys"
  shows "tool_pairs_ok ids xs = tool_pairs_ok ids ys"
  using assms by (induction arbitrary: ids rule: list_all2_induct) auto

lemma elide_keeps:
  "role (elide_message m) = role m" "use_ids (elide_message m) = use_ids m"
  "result_ids (elide_message m) = result_ids m"
proof -
  have use: "ToolUseBlock i n inp = elide_block b \<longleftrightarrow> b = ToolUseBlock i n inp" for b i n inp
    by (cases b) auto
  have res: "(\<exists>c e. ToolResultBlock i c e = elide_block b) \<longleftrightarrow> (\<exists>c e. b = ToolResultBlock i c e)" for b i
    by (cases b) auto
  show "role (elide_message m) = role m" "use_ids (elide_message m) = use_ids m"
    by (auto simp: elide_message_def use_ids_def use image_iff)
  have "result_ids (elide_message m) = {i. \<exists>b \<in> set (content m). \<exists>c e. ToolResultBlock i c e = elide_block b}"
    by (auto simp: elide_message_def result_ids_def image_iff)
  then show "result_ids (elide_message m) = result_ids m"
    by (auto simp: res result_ids_def)
qed

lemma strip_keeps: "strip_message m = Inr m' \<Longrightarrow> role m' = role m \<and> content m' = content m"
  by (auto simp: strip_message_def Let_def split: option.splits if_splits json.splits)

lemma map_result_all2: "map_result f xs = Inr ys \<Longrightarrow> list_all2 (\<lambda>x y. f x = Inr y) xs ys"
  by (induction xs arbitrary: ys) (auto simp: bind_result_Inr_iff)

lemma strip_all2:
  assumes "strip_response_chaining ms = Inr out"
  shows "list_all2 (\<lambda>a b. role a = role b \<and> content a = content b) ms out"
  using map_result_all2 [OF assms [unfolded strip_response_chaining_def]]
  by (rule list_all2_mono) (auto dest: strip_keeps)

lemma strip_pairs:
  assumes "strip_response_chaining ms = Inr out"
  shows "tool_pairs_ok ids out = tool_pairs_ok ids ms"
  by (rule tool_pairs_same [symmetric], rule list_all2_mono [OF strip_all2 [OF assms]])
    (auto simp: use_ids_def result_ids_def)

lemma tool_pairs_append:
  "list_all2 (\<lambda>a b. role a = role b \<and> use_ids a = use_ids b \<and> result_ids a = result_ids b) xs xs'
   \<Longrightarrow> tool_pairs_ok ids (xs @ ys) = tool_pairs_ok ids (xs' @ ys)"
  by (rule tool_pairs_same) (auto intro!: list_all2_appendI list_all2_refl)

lemma micro_pairs:
  assumes "micro_compact keep ms = Inr (out, n)"
  shows "tool_pairs_ok ids out = tool_pairs_ok ids ms"
proof -
  let ?recent = "last_n_turn_boundaries ms keep"
  let ?older = "older_messages ms ?recent"
  have "list_all2 (\<lambda>a b. role a = role b \<and> use_ids a = use_ids b \<and> result_ids a = result_ids b)
      (map elide_message ?older) ?older"
    by (simp add: list_all2_conv_all_nth elide_keeps)
  from tool_pairs_append [OF this, of ids ?recent] older_append_recent [of ms keep] assms
  show ?thesis by (auto simp: micro_compact_def Let_def split: if_splits)
qed

lemma summary_pairs:
  assumes "older_messages ms (last_n_turn_boundaries ms n) \<noteq> []" and "tool_pairs_ok ids ms"
  shows "tool_pairs_ok ids (summary_message label s # last_n_turn_boundaries ms n)"
proof (rule last_n_cases [of ms n])
  assume "last_n_turn_boundaries ms n = ms"
  with assms(1) show ?thesis by (simp add: older_messages_def)
next
  fix older m rest
  assume "ms = older @ m # rest" "last_n_turn_boundaries ms n = m # rest" "role m = role_assistant"
  with assms(2) tool_pairs_suffix [of ids older m rest ids] show ?thesis
    by (simp add: summary_message_def result_ids_def)
qed

lemma strategy_pairs:
  assumes "strategy_compact summarize st ms = Inr out" and "tool_pairs_ok ids ms"
  shows "tool_pairs_ok ids out"
  using assms
  by (cases st) (auto simp: Let_def bind_result_Inr_iff summary_pairs split: if_splits
      simp del: tool_pairs_ok.simps(2))

section \<open>The deterministic seam\<close>

lemma config_label_builtin: "config_label (builtin_compaction_config sha st) = summary_label st"
  by (cases st) (simp_all add: config_label_def)

text \<open>A built-in strategy that summarised is the paid view of its answer.\<close>

lemma strategy_is_paid_view:
  assumes "strategy_compact (\<lambda>p cap older. Inr s) st ms = Inr out"
    and "older_messages ms (last_n_turn_boundaries ms (strategy_keep st)) \<noteq> []"
  shows "strip_response_chaining out = builtin_paid_view ms s (builtin_compaction_config sha st)"
  using assms
  by (cases st) (auto simp: Let_def builtin_paid_view_def paid_view_from_recent_def config_label_def
      older_messages_def)

section \<open>Micro-compaction loses nothing twice\<close>

lemma elide_idem: "elidable (elide_block b) = False"
  by (cases b) auto

lemma micro_length: "micro_compact keep ms = Inr (out, n) \<Longrightarrow> length out = length ms"
  using arg_cong [OF older_append_recent [of ms keep], of length]
  by (auto simp: micro_compact_def Let_def split: if_splits)

end
