(* ===== verification/Compaction_Recovery.thy ===== *)
theory Compaction_Recovery
  imports Compaction
begin

text \<open>
  The recovery side of \<^verbatim>\<open>src/linch/compaction.py\<close>: a paid summary is journalled with the
  fingerprints of the messages it summarised, and after a crash the compacted view is rebuilt
  from the durable history, the recorded reminders and these fingerprints.
\<close>

section \<open>Fingerprints\<close>

definition message_fingerprint :: "json_env \<Rightarrow> message \<Rightarrow> string result" where
  "message_fingerprint env m = fingerprint env (JDict (message_to_dict m))"

definition source_message_fingerprints :: "json_env \<Rightarrow> message list \<Rightarrow> string list result" where
  "source_message_fingerprints env ms = map_result (message_fingerprint env) ms"

definition context_fingerprint :: "json_env \<Rightarrow> message list \<Rightarrow> string result" where
  "context_fingerprint env ms = fingerprint env (JList (map (\<lambda>m. JDict (message_to_dict m)) ms))"

record compaction_recipe =
  rcp_strategy_config :: compaction_config
  rcp_source_context_fingerprint :: string
  rcp_full_history_base_count :: int
  rcp_full_history_base_fingerprint :: string
  rcp_source_message_fingerprints :: "string list"
  rcp_reminder_fingerprints :: "string list"

record compaction_ladder =
  ld_micro :: bool
  ld_keep_recent_turns :: int
  ld_max_forced_compactions :: int
  ld_reset_read_tracker :: bool

definition new_ladder :: "bool \<Rightarrow> int \<Rightarrow> int \<Rightarrow> bool \<Rightarrow> compaction_ladder result" where
  "new_ladder micro keep forced reset =
     (if keep < 1 then Inl ValueError
      else Inr \<lparr>ld_micro = micro, ld_keep_recent_turns = keep, ld_max_forced_compactions = forced,
                ld_reset_read_tracker = reset\<rparr>)"

text \<open>The recipe taken before the provider is asked.\<close>

definition source_recipe ::
  "json_env \<Rightarrow> compaction_config \<Rightarrow> message list \<Rightarrow> message list \<Rightarrow> message list \<Rightarrow> compaction_recipe result" where
  "source_recipe env cfg snapshot history reminders =
     bind_result (context_fingerprint env snapshot) (\<lambda>ctx.
     bind_result (context_fingerprint env history) (\<lambda>base.
     bind_result (source_message_fingerprints env snapshot) (\<lambda>src.
     bind_result (source_message_fingerprints env reminders) (\<lambda>rem.
       Inr \<lparr>rcp_strategy_config = cfg, rcp_source_context_fingerprint = ctx,
            rcp_full_history_base_count = int (length history),
            rcp_full_history_base_fingerprint = base, rcp_source_message_fingerprints = src,
            rcp_reminder_fingerprints = rem\<rparr>))))"

section \<open>Reminders\<close>

fun block_text :: "content_block \<Rightarrow> string option" where
  "block_text (TextBlock t) = Some t"
| "block_text (CatalogChangeBlock t _ _ _) = Some t"
| "block_text _ = None"

definition message_texts :: "message \<Rightarrow> string set" where
  "message_texts m = set (List.map_filter block_text (content m))"

fun recorded_reminders ::
  "(string, message) dict \<Rightarrow> string set \<Rightarrow> string list \<Rightarrow> message list \<Rightarrow> string set \<Rightarrow> message list result" where
  "recorded_reminders reminders skip [] res present = Inr res"
| "recorded_reminders reminders skip (digest # ds) res present =
     (case dict_get reminders digest of
        None \<Rightarrow> Inl ConfigError
      | Some reminder \<Rightarrow>
          if digest \<in> skip then recorded_reminders reminders skip ds res present
          else if message_texts reminder \<subseteq> present
          then recorded_reminders reminders skip ds res present
          else recorded_reminders reminders skip ds (res @ [reminder])
                 (present \<union> message_texts reminder))"

definition with_recorded_reminders ::
  "message list \<Rightarrow> string list \<Rightarrow> (string, message) dict \<Rightarrow> string set \<Rightarrow> message list result" where
  "with_recorded_reminders ms digests reminders skip =
     recorded_reminders reminders skip digests ms (\<Union> (message_texts ` set ms))"

section \<open>The ordered source\<close>

fun ordered_scan ::
  "(string, message) dict \<Rightarrow> (string \<times> message) list \<Rightarrow> string list \<Rightarrow> message list option" where
  "ordered_scan reminders base [] = (if base = [] then Some [] else None)"
| "ordered_scan reminders base (digest # ds) =
     (case base of
        (d, m) # rest \<Rightarrow>
          if d = digest then map_option (Cons m) (ordered_scan reminders rest ds)
          else (case dict_get reminders digest of
                  None \<Rightarrow> None
                | Some r \<Rightarrow> map_option (Cons r) (ordered_scan reminders base ds))
      | [] \<Rightarrow> (case dict_get reminders digest of
                  None \<Rightarrow> None
                | Some r \<Rightarrow> map_option (Cons r) (ordered_scan reminders base ds)))"

definition ordered_compaction_source ::
  "json_env \<Rightarrow> message list \<Rightarrow> string list \<Rightarrow> (string, message) dict \<Rightarrow> message list option result" where
  "ordered_compaction_source env base digests reminders =
     bind_result (source_message_fingerprints env base) (\<lambda>fps.
       Inr (ordered_scan reminders (zip fps base) digests))"

section \<open>The target from the recipe\<close>

fun variant_at :: "string \<Rightarrow> nat \<Rightarrow> (string list \<times> message list) list \<Rightarrow> message option" where
  "variant_at digest h [] = None"
| "variant_at digest h ((fps, ms) # vs) =
     (if h \<noteq> 0 \<and> fps ! (h - 1) = digest then Some (ms ! (h - 1)) else variant_at digest h vs)"

text \<open>
  The loop goes backwards over the recorded digests. The history index plus one is the number of
  history messages that are not used up.
\<close>

fun target_scan ::
  "(string list \<times> message list) list \<Rightarrow> (string, message) dict \<Rightarrow> string list \<Rightarrow> nat \<Rightarrow> int
   \<Rightarrow> message list \<Rightarrow> message list option" where
  "target_scan vs selected [] h remaining recent = None"
| "target_scan vs selected (digest # ds) h remaining recent =
     (case (case variant_at digest h vs of
              Some m \<Rightarrow> Some (m, h - 1)
            | None \<Rightarrow> map_option (\<lambda>m. (m, h)) (dict_get selected digest)) of
        None \<Rightarrow> None
      | Some (m, h') \<Rightarrow>
          if role m = role_assistant
          then (if remaining - 1 = 0 then (if ds = [] then None else Some (m # recent))
                else target_scan vs selected ds h' (remaining - 1) (m # recent))
          else target_scan vs selected ds h' remaining (m # recent))"

definition target_candidates ::
  "message list \<Rightarrow> compaction_ladder option \<Rightarrow> message list list result" where
  "target_candidates history ladder =
     bind_result (strip_response_chaining history) (\<lambda>stripped.
       case ladder of
         None \<Rightarrow> Inr [history, stripped]
       | Some l \<Rightarrow>
           if \<not> ld_micro l then Inr [history, stripped]
           else bind_result (micro_compact (ld_keep_recent_turns l) history) (\<lambda>(micro, n).
             bind_result (strip_response_chaining micro) (\<lambda>micro_stripped.
               Inr [history, stripped, micro, micro_stripped])))"

definition fingerprinted ::
  "json_env \<Rightarrow> message list list \<Rightarrow> (string list \<times> message list) list result" where
  "fingerprinted env cands = map_result (\<lambda>c. bind_result (source_message_fingerprints env c)
     (\<lambda>fps. Inr (fps, c))) cands"

definition select_reminders ::
  "(string, message) dict \<Rightarrow> string list \<Rightarrow> (string, message) dict result" where
  "select_reminders reminders digests =
     map_result (\<lambda>d. case dict_get reminders d of
        None \<Rightarrow> Inl ConfigError | Some m \<Rightarrow> Inr (d, m)) digests"

definition paid_target_from_recipe ::
  "json_env \<Rightarrow> compaction_recipe \<Rightarrow> message list \<Rightarrow> (string, message) dict \<Rightarrow> string
   \<Rightarrow> compaction_ladder option \<Rightarrow> message list option result" where
  "paid_target_from_recipe env recipe history reminders text_body ladder =
     bind_result (target_candidates history ladder) (\<lambda>cands.
     bind_result (fingerprinted env cands) (\<lambda>vs.
     bind_result (select_reminders reminders (rcp_reminder_fingerprints recipe)) (\<lambda>selected.
       case target_scan vs selected (rev (rcp_source_message_fingerprints recipe)) (length history)
              (cg_keep_recent_turns (rcp_strategy_config recipe)) [] of
         None \<Rightarrow> Inr None
       | Some recent \<Rightarrow>
           map_sum id Some (paid_view_from_recent recent text_body (rcp_strategy_config recipe)))))"

section \<open>Soundness\<close>

text \<open>An ordered source has exactly the recorded digests.\<close>

lemma ordered_scan_digests:
  assumes "ordered_scan reminders base digests = Some out"
    and "\<forall>(d, m) \<in> set base. fp m = Inr d" and "\<forall>(d, m) \<in> set reminders. fp m = Inr d"
  shows "map_result fp out = Inr digests"
  using assms
proof (induction reminders base digests arbitrary: out rule: ordered_scan.induct)
  case (2 reminders base digest ds)
  have rem: "fp r = Inr digest" if "dict_get reminders digest = Some r" for r
    using 2(6) that by (auto dest!: map_of_SomeD)
  from 2(1-5) 2(6) rem show ?case
    by (auto split: list.splits if_splits option.splits prod.splits)
qed (auto split: if_splits)

lemma result_nth:
  assumes "map_result f xs = Inr ys" and "i < length xs"
  shows "f (xs ! i) = Inr (ys ! i)"
  using map_result_all2 [OF assms(1)] assms(2) by (simp add: list_all2_conv_all_nth)

lemma variant_at_sound:
  assumes "variant_at digest h vs = Some m"
    and "\<forall>(fps, ms) \<in> set vs. map_result fp ms = Inr fps \<and> length ms = n" and "h \<le> n"
  shows "fp m = Inr digest \<and> m \<in> \<Union> (set ` snd ` set vs)"
  using assms
proof (induction digest h vs rule: variant_at.induct)
  case (2 digest h fps ms vs)
  show ?case
  proof (cases "h \<noteq> 0 \<and> fps ! (h - 1) = digest")
    case True
    with 2(2,3,4) have ms: "map_result fp ms = Inr fps" "h - 1 < length ms" "m = ms ! (h - 1)" by auto
    from result_nth [OF ms(1,2)] True ms show ?thesis by auto
  next
    case False
    with 2 show ?thesis by auto
  qed
qed simp

lemma target_scan_sound:
  assumes "target_scan vs selected ds h remaining recent = Some r"
    and "map_result fp xs = Inr ds" and "set xs \<subseteq> M" and "inj_on fp M" and "1 \<le> remaining"
    and vs: "\<And>digest h m. h \<le> n \<Longrightarrow> variant_at digest h vs = Some m \<Longrightarrow> fp m = Inr digest \<and> m \<in> M"
    and sel: "\<And>digest m. dict_get selected digest = Some m \<Longrightarrow> fp m = Inr digest \<and> m \<in> M"
    and "h \<le> n"
  shows "scan_back (nat remaining) xs recent = Some r \<and> length r < length xs + length recent"
  using assms(1-3,5,8)
proof (induction ds arbitrary: h remaining recent xs)
  case (Cons digest ds)
  then obtain x xs' where xs: "xs = x # xs'" "fp x = Inr digest" "map_result fp xs' = Inr ds"
    by (cases xs) (auto simp: bind_result_Inr_iff)
  from Cons.prems(1) obtain m h' where
    found: "(case variant_at digest h vs of Some m \<Rightarrow> Some (m, h - 1)
             | None \<Rightarrow> map_option (\<lambda>m. (m, h)) (dict_get selected digest)) = Some (m, h')"
    by (auto split: option.splits)
  with vs [OF Cons.prems(5)] sel have m: "fp m = Inr digest" "m \<in> M" "h' \<le> n"
    using Cons.prems(5) by (auto split: option.splits)
  from xs Cons.prems(3) have "x \<in> M" by auto
  with m xs(2) have same: "m = x"
    using inj_onD [OF \<open>inj_on fp M\<close>, of m x] by simp
  show ?case
  proof (cases "role x = role_assistant")
    case True
    show ?thesis
    proof (cases "remaining - 1 = 0")
      case one: True
      with Cons.prems(1) found same True have "ds \<noteq> []" "r = x # recent"
        by (auto split: if_splits)
      moreover from this(1) xs(3) have "xs' \<noteq> []" by auto
      ultimately show ?thesis using xs True one by simp
    next
      case False
      with Cons.prems(1) found same True
      have "target_scan vs selected ds h' (remaining - 1) (x # recent) = Some r" by simp
      from Cons.IH [OF this xs(3) _ _ m(3)] Cons.prems(3,4) False xs(1)
      have "scan_back (nat (remaining - 1)) xs' (x # recent) = Some r
        \<and> length r < length xs' + length (x # recent)" by simp
      moreover have "nat remaining \<noteq> 1" "nat (remaining - 1) = nat remaining - 1" using False by auto
      ultimately show ?thesis using True xs(1) by simp
    qed
  next
    case False
    with Cons.prems(1) found same
    have "target_scan vs selected ds h' remaining (x # recent) = Some r" by simp
    from Cons.IH [OF this xs(3) _ Cons.prems(4) m(3)] Cons.prems(3) False xs(1)
    show ?thesis by simp
  qed
qed simp

lemma strip_length: "strip_response_chaining ms = Inr out \<Longrightarrow> length out = length ms"
  by (auto simp: strip_response_chaining_def dest: map_result_length)

lemma candidates_length:
  assumes "target_candidates history ladder = Inr cands" and "c \<in> set cands"
  shows "length c = length history"
proof (cases "\<exists>l. ladder = Some l \<and> ld_micro l")
  case True
  then obtain l where l: "ladder = Some l" "ld_micro l" by blast
  from assms(1) l obtain stripped micro n micro_stripped where
    parts: "strip_response_chaining history = Inr stripped"
    "micro_compact (ld_keep_recent_turns l) history = Inr (micro, n)"
    "strip_response_chaining micro = Inr micro_stripped"
    and "cands = [history, stripped, micro, micro_stripped]"
    by (auto simp: target_candidates_def bind_result_Inr_iff)
  with assms(2) strip_length [OF parts(1)] micro_length [OF parts(2)] strip_length [OF parts(3)]
  show ?thesis by auto
next
  case False
  with assms(1) obtain stripped where "strip_response_chaining history = Inr stripped"
    "cands = [history, stripped]"
    by (auto simp: target_candidates_def bind_result_Inr_iff split: option.splits if_splits)
  with assms(2) show ?thesis by (auto dest: strip_length)
qed

lemma fingerprinted_sound:
  assumes "fingerprinted env cands = Inr vs"
  shows "map snd vs = cands \<and> (\<forall>(fps, ms) \<in> set vs. source_message_fingerprints env ms = Inr fps)"
  using assms unfolding fingerprinted_def
  by (induction cands arbitrary: vs) (auto simp: bind_result_Inr_iff)

lemma select_reminders_get:
  assumes "select_reminders reminders ds = Inr selected" and "dict_get selected d = Some m"
  shows "dict_get reminders d = Some m"
  using assms unfolding select_reminders_def
  by (induction ds arbitrary: selected)
    (auto simp: bind_result_Inr_iff split: option.splits if_splits)

lemma map_sum_Some_iff [simp]: "map_sum id Some x = Inr (Some y) \<longleftrightarrow> x = Inr y"
  by (cases x) auto

lemma map_result_rev: "map_result f xs = Inr ys \<Longrightarrow> map_result f (rev xs) = Inr (rev ys)"
  by (induction xs arbitrary: ys) (auto simp: bind_result_Inr_iff map_result_append_iff)

text \<open>
  C33: When the view of a paid compaction is rebuilt from its recipe, the durable history and the
  recorded reminders, the result is the very view the original compaction produced from its
  source: nothing of the kept turns is lost, reordered or replaced. The only assumption is that
  the fingerprint tells apart the messages at hand.
\<close>

theorem rebuilt_compaction_is_original:
  assumes "source_recipe env cfg snapshot base rems = Inr recipe" and "1 \<le> cg_keep_recent_turns cfg"
    and "\<forall>(d, m) \<in> set reminders. message_fingerprint env m = Inr d"
    and "target_candidates history ladder = Inr cands"
    and "inj_on (message_fingerprint env)
           (set snapshot \<union> \<Union> (set ` set cands) \<union> snd ` set reminders)" (is "inj_on ?fp ?M")
    and "paid_target_from_recipe env recipe history reminders text_body ladder = Inr (Some target)"
  shows "builtin_paid_view snapshot text_body cfg = Inr target"
proof -
  from assms(1) have src: "map_result ?fp snapshot = Inr (rcp_source_message_fingerprints recipe)"
    and cfg: "rcp_strategy_config recipe = cfg"
    by (auto simp: source_recipe_def bind_result_Inr_iff source_message_fingerprints_def)
  let ?ds = "rcp_source_message_fingerprints recipe"
  from assms(4,6) obtain vs selected recent where vs: "fingerprinted env cands = Inr vs"
    and selected: "select_reminders reminders (rcp_reminder_fingerprints recipe) = Inr selected"
    and scan: "target_scan vs selected (rev ?ds) (length history) (cg_keep_recent_turns cfg) [] = Some recent"
    and target: "paid_view_from_recent recent text_body cfg = Inr target"
    by (auto simp: paid_target_from_recipe_def bind_result_Inr_iff cfg split: option.splits)
  from fingerprinted_sound [OF vs] candidates_length [OF assms(4)]
  have variants: "\<forall>(fps, ms) \<in> set vs. map_result ?fp ms = Inr fps \<and> length ms = length history"
    and snd_vs: "snd ` set vs = set cands"
    by (force simp: source_message_fingerprints_def)+
  have variant: "?fp m = Inr digest \<and> m \<in> ?M"
    if "h \<le> length history" and "variant_at digest h vs = Some m" for digest h m
    using variant_at_sound [OF that(2) variants that(1)] snd_vs by auto
  have reminder: "?fp m = Inr d \<and> m \<in> ?M" if "dict_get selected d = Some m" for d m
    using map_of_SomeD [OF select_reminders_get [OF selected that]] assms(3) by force
  have "scan_back (nat (cg_keep_recent_turns cfg)) (rev snapshot) [] = Some recent
      \<and> length recent < length (rev snapshot) + length ([] :: message list)"
    by (rule target_scan_sound [OF scan map_result_rev [OF src] _ assms(5,2) variant reminder order.refl])
      auto
  with assms(2) target show ?thesis
    by (simp add: builtin_paid_view_def last_n_turn_boundaries_def)
qed

section \<open>A concrete recovery\<close>

definition say :: "json \<Rightarrow> string \<Rightarrow> message" where
  "say r s = \<lparr>role = r, content = [TextBlock s], provider_metadata = None\<rparr>"

text \<open>An encoder that writes the text of a one-block message and the digest that is the text.\<close>

definition text_env :: json_env where
  "text_env = \<lparr>native_dumps = (\<lambda>v. case v of
       JDict [_, (_, JList [JDict [_, (_, JStr s)]])] \<Rightarrow> Some s | _ \<Rightarrow> Some []),
     json_dumps = (\<lambda>v. None), json_loads = (\<lambda>s. Inr JNull), sha256 = (\<lambda>s. s), str_of = (\<lambda>v. [])\<rparr>"

lemma say_fingerprint: "message_fingerprint text_env (say r s) = Inr s"
  by (simp add: message_fingerprint_def fingerprint_def strict_json_def text_env_def say_def
      message_to_dict_def)

definition talk :: "message list" where
  "talk = [say role_user ''a'', say role_assistant ''b'', say role_user ''c'', say role_assistant ''d'']"

definition one_turn :: compaction_config where
  "one_turn = \<lparr>cg_implementation = ''default_v1'', cg_keep_recent_turns = 1,
     cg_max_output_tokens = 4096, cg_prompt_sha256 = ''p''\<rparr>"

definition talk_recipe :: compaction_recipe where
  "talk_recipe = \<lparr>rcp_strategy_config = one_turn, rcp_source_context_fingerprint = [],
     rcp_full_history_base_count = 4, rcp_full_history_base_fingerprint = [],
     rcp_source_message_fingerprints = [''a'', ''b'', ''c'', ''d''], rcp_reminder_fingerprints = []\<rparr>"

lemma say_simps [simp]: "role (say r s) = r" "strip_message (say r s) = Inr (say r s)"
  by (simp_all add: say_def strip_message_def)

lemma talk_fingerprints:
  "source_message_fingerprints text_env talk = Inr [''a'', ''b'', ''c'', ''d'']"
  by (simp add: source_message_fingerprints_def talk_def say_fingerprint)

lemma talk_source: "source_recipe text_env one_turn talk talk [] = Inr talk_recipe"
  by (simp add: source_recipe_def talk_fingerprints talk_recipe_def)
    (simp add: context_fingerprint_def source_message_fingerprints_def fingerprint_def
      strict_json_def text_env_def talk_def)

lemma talk_candidates: "target_candidates talk None = Inr [talk, talk]"
  by (simp add: target_candidates_def strip_response_chaining_def talk_def)

lemma talk_target:
  "paid_target_from_recipe text_env talk_recipe talk [] ''s'' None
   = Inr (Some [summary_message ''<summary of earlier conversation>'' ''s'', say role_assistant ''d''])"
proof -
  have summary: "summary_message l t = say role_user (l @ line_break2 @ t)" for l t
    by (simp add: summary_message_def say_def)
  have "fingerprinted text_env [talk, talk] =
      Inr [([''a'', ''b'', ''c'', ''d''], talk), ([''a'', ''b'', ''c'', ''d''], talk)]"
    by (simp add: fingerprinted_def talk_fingerprints)
  then show ?thesis
    by (simp add: paid_target_from_recipe_def talk_candidates select_reminders_def talk_recipe_def
        one_turn_def paid_view_from_recent_def strip_response_chaining_def config_label_def summary)
      (simp add: talk_def)
qed

theorem rebuilt_compaction_is_original_witness:
  "builtin_paid_view talk ''s'' one_turn
   = Inr [summary_message ''<summary of earlier conversation>'' ''s'', say role_assistant ''d'']"
proof (rule rebuilt_compaction_is_original [OF talk_source _ _ talk_candidates _ talk_target])
  show "inj_on (message_fingerprint text_env)
      (set talk \<union> \<Union> (set ` set [talk, talk]) \<union> snd ` set ([] :: (string, message) dict))"
    by (auto simp: inj_on_def talk_def say_fingerprint)
qed (simp_all add: one_turn_def)

end
