(* ===== verification/Compaction_Run.thy ===== *)
theory Compaction_Run
  imports Compaction_Recovery
begin

text \<open>
  The entry points of \<^verbatim>\<open>src/linch/compaction.py\<close>: the token estimate, the micro-compaction of a
  session, a full compaction run, and \<^verbatim>\<open>maybe_compact\<close>, which decides by the context window.
  The provider's context window, a custom estimator, the length of encoded JSON, the hooks and
  what a strategy answers are parameters.
\<close>

section \<open>The token estimate\<close>

text \<open>
  \<^verbatim>\<open>_strip_estimation_payloads\<close> removes the payloads of a block from its dictionary and counts
  the images.
\<close>

function strip_payloads :: "json_obj \<Rightarrow> json_obj \<times> int" where
  "strip_payloads block =
     (if dict_get block ''type'' = Some (JStr ''image'') then (dict_pop ''source'' block, 1)
      else if dict_get block ''type'' = Some (JStr ''thinking'') then (dict_pop ''signature'' block, 0)
      else if dict_get block ''type'' = Some (JStr ''redacted_thinking'') then (dict_pop ''data'' block, 0)
      else if dict_get block ''type'' = Some (JStr ''tool_result'') then
        (case dict_get block ''content'' of
           Some (JList items) \<Rightarrow>
             (let rs = map (\<lambda>v. case v of
                    JDict d \<Rightarrow> (case strip_payloads d of (d', n) \<Rightarrow> (JDict d', n))
                  | _ \<Rightarrow> (v, 0)) items
              in (dict_set ''content'' (JList (map fst rs)) block, sum_list (map snd rs)))
         | _ \<Rightarrow> (block, 0))
      else (block, 0))"
  by pat_completeness auto
termination
  by (relation "measure (\<lambda>block. size (JDict block))") (auto intro: size_nested_lt simp del: json.size)

declare strip_payloads.simps [simp del]

record compaction_agent =
  ca_model :: string
  ca_max_output_tokens :: "int option"
  ca_context_window :: "string \<Rightarrow> int"
  ca_estimator :: "(message list \<Rightarrow> string \<Rightarrow> int option) option"
  ca_dumps_length :: "json \<Rightarrow> int"
  ca_ladder :: "compaction_ladder option"

text \<open>A custom estimator that raises is ignored; a negative estimate counts as none.\<close>

definition custom_token_estimate :: "compaction_agent \<Rightarrow> message list \<Rightarrow> string \<Rightarrow> int option" where
  "custom_token_estimate agent ms model = (case ca_estimator agent of
       None \<Rightarrow> None | Some f \<Rightarrow> map_option (max 0) (f ms model))"

definition message_estimate :: "compaction_agent \<Rightarrow> message \<Rightarrow> int \<times> int" where
  "message_estimate agent m =
     (let blocks = map (\<lambda>b. strip_payloads (block_to_dict b)) (content m);
          raw = dict_set ''content'' (JList (map (\<lambda>(d, n). JDict d) blocks)) (message_to_dict m)
      in (ca_dumps_length agent (JDict raw), sum_list (map snd blocks)))"

definition compaction_tokens :: "compaction_agent \<Rightarrow> message list \<Rightarrow> string \<Rightarrow> int" where
  "compaction_tokens agent ms model = (case custom_token_estimate agent ms model of
       Some n \<Rightarrow> n
     | None \<Rightarrow>
         (let es = map (message_estimate agent) ms
          in sum_list (map fst es) div 4 + sum_list (map snd es) * 1000))"

section \<open>Sessions\<close>

record compaction_info =
  ci_projection_id :: "string option"
  ci_messages_before :: nat
  ci_messages_after :: nat
  ci_tokens_before :: int
  ci_tokens_after :: int
  ci_strategy :: string
  ci_model :: string

record compaction_session =
  cs_log :: session_log
  cs_active_model :: "string option"
  cs_tracker :: file_tracker
  cs_info :: "compaction_info option"

definition resolve_model :: "compaction_session \<Rightarrow> compaction_agent \<Rightarrow> string option \<Rightarrow> string" where
  "resolve_model s agent model =
     (case model of Some m \<Rightarrow> if m \<noteq> [] then m else
          (case cs_active_model s of Some a \<Rightarrow> if a \<noteq> [] then a else ca_model agent | None \<Rightarrow> ca_model agent)
      | None \<Rightarrow>
          (case cs_active_model s of Some a \<Rightarrow> if a \<noteq> [] then a else ca_model agent | None \<Rightarrow> ca_model agent))"

definition set_view :: "message list \<Rightarrow> string \<Rightarrow> compaction_session \<Rightarrow> compaction_session \<times> bool" where
  "set_view view reason s = (case record_view view reason (cs_log s) of
       (lg, changed) \<Rightarrow> (s\<lparr>cs_log := lg\<rparr>, changed))"

definition apply_micro_compaction ::
  "compaction_agent \<Rightarrow> int \<Rightarrow> string option \<Rightarrow> compaction_session \<Rightarrow> compaction_session \<times> bool result" where
  "apply_micro_compaction agent keep model s =
     (let resolved = resolve_model s agent model;
          view = sl_derived (cs_log s);
          before = compaction_tokens agent view resolved
      in (case micro_compact keep view of
            Inl e \<Rightarrow> (s, Inl e)
          | Inr (new_view, n) \<Rightarrow>
              if n = 0 then (s, Inr False)
              else (case strip_response_chaining new_view of
                  Inl e \<Rightarrow> (s, Inl e)
                | Inr stripped \<Rightarrow>
                    ((fst (set_view stripped ''micro-compaction'' s))\<lparr>cs_info := Some
                       \<lparr>ci_projection_id = None, ci_messages_before = length view,
                        ci_messages_after = length view, ci_tokens_before = before,
                        ci_tokens_after = compaction_tokens agent stripped resolved,
                        ci_strategy = ''micro'', ci_model = resolved\<rparr>\<rparr>, Inr True))))"

definition reset_read_tracker :: "compaction_agent \<Rightarrow> compaction_session \<Rightarrow> compaction_session" where
  "reset_read_tracker agent s = (case ca_ladder agent of
       None \<Rightarrow> s
     | Some l \<Rightarrow> if ld_reset_read_tracker l then s\<lparr>cs_tracker := tracker_clear (cs_tracker s)\<rparr> else s)"

section \<open>A compaction run\<close>

text \<open>
  A strategy is built in, or one of the host's own. A paid run is accounted: the invoked skills
  are made durable before a built-in strategy is paid for; after the strategy
  has answered, the run may be aborted or the ledger may refuse to go on; for a built-in strategy
  the ledger knows the accepted text, if there is one, and records the projection.
\<close>

datatype chosen_strategy =
    BuiltIn strategy
  | HostStrategy string "message list \<Rightarrow> message list result"

record paid_run =
  pr_persist_skills :: "unit result"
  pr_may_continue :: "unit result"
  pr_accepted_text :: "string option"
  pr_record :: "compaction_recipe \<Rightarrow> message list \<Rightarrow> string result"

record compaction_world =
  cw_env :: json_env
  cw_sha :: "string \<Rightarrow> string"
  cw_summarize :: "string \<Rightarrow> int \<Rightarrow> message list \<Rightarrow> string result"
  cw_paid :: "paid_run option"
  cw_reminders :: "message list"
  cw_pre_hook :: "unit result"
  cw_post_hook :: "unit result"

fun chosen_id :: "chosen_strategy \<Rightarrow> string" where
  "chosen_id (BuiltIn st) = strategy_id st"
| "chosen_id (HostStrategy i f) = i"

fun run_strategy :: "compaction_world \<Rightarrow> chosen_strategy \<Rightarrow> message list \<Rightarrow> message list result" where
  "run_strategy w (BuiltIn st) ms = strategy_compact (cw_summarize w) st ms"
| "run_strategy w (HostStrategy i f) ms = f ms"

text \<open>The recipe is taken only when a built-in strategy is paid for.\<close>

definition paid_recipe ::
  "compaction_world \<Rightarrow> chosen_strategy \<Rightarrow> session_log \<Rightarrow> (compaction_config \<times> compaction_recipe) option result" where
  "paid_recipe w st lg = (case (cw_paid w, st) of
       (Some p, BuiltIn b) \<Rightarrow>
         (let cfg = builtin_compaction_config (cw_sha w) b
          in bind_result (pr_persist_skills p) (\<lambda>_.
               map_sum id (\<lambda>r. Some (cfg, r))
                 (source_recipe (cw_env w) cfg (sl_derived lg) (sl_full lg) (cw_reminders w))))
     | (Some p, HostStrategy i f) \<Rightarrow>
         bind_result (context_fingerprint (cw_env w) (sl_derived lg)) (\<lambda>_. Inr None)
     | _ \<Rightarrow> Inr None)"

text \<open>The check that a built-in result is the deterministic view of the accepted text.\<close>

definition paid_projection ::
  "compaction_world \<Rightarrow> (compaction_config \<times> compaction_recipe) option \<Rightarrow> message list \<Rightarrow> message list
   \<Rightarrow> string option result" where
  "paid_projection w recipe snapshot compacted = (case (cw_paid w, recipe) of
       (Some p, Some (cfg, r)) \<Rightarrow>
         (case pr_accepted_text p of
            None \<Rightarrow> Inr None
          | Some t \<Rightarrow>
              bind_result (builtin_paid_view snapshot t cfg) (\<lambda>expected.
              bind_result (context_fingerprint (cw_env w) expected) (\<lambda>a.
              bind_result (context_fingerprint (cw_env w) compacted) (\<lambda>b.
                if a \<noteq> b then Inl ConfigError
                else map_sum id Some (pr_record p r compacted)))))
     | _ \<Rightarrow> Inr None)"

definition run_compaction ::
  "compaction_world \<Rightarrow> compaction_agent \<Rightarrow> chosen_strategy \<Rightarrow> string option \<Rightarrow> compaction_session
   \<Rightarrow> compaction_session \<times> bool result" where
  "run_compaction w agent st model s =
     (let resolved = resolve_model s agent model;
          snapshot = sl_derived (cs_log s);
          before = compaction_tokens agent snapshot resolved
      in (case (bind_result (cw_pre_hook w) (\<lambda>_.
                bind_result (paid_recipe w st (cs_log s)) (\<lambda>recipe.
                bind_result (run_strategy w st snapshot) (\<lambda>answer.
                bind_result (case cw_paid w of None \<Rightarrow> Inr () | Some p \<Rightarrow> pr_may_continue p) (\<lambda>_.
                bind_result (strip_response_chaining answer) (\<lambda>compacted.
                bind_result (paid_projection w recipe snapshot compacted) (\<lambda>pid.
                  Inr (compacted, pid)))))))) of
            Inl e \<Rightarrow> (s, Inl e)
          | Inr (compacted, pid) \<Rightarrow>
              (case set_view compacted ''compaction'' s of
                 (s1, changed) \<Rightarrow>
                   (s1\<lparr>cs_info := Some
                      \<lparr>ci_projection_id = pid, ci_messages_before = length snapshot,
                       ci_messages_after = length compacted, ci_tokens_before = before,
                       ci_tokens_after = compaction_tokens agent compacted resolved,
                       ci_strategy = chosen_id st, ci_model = resolved\<rparr>\<rparr>,
                    bind_result (cw_post_hook w) (\<lambda>_. Inr changed)))))"

section \<open>When to compact\<close>

text \<open>\<^verbatim>\<open>projected < 0.8 * limit\<close> with the double nearest to 0.8.\<close>

definition below_threshold :: "int \<Rightarrow> int \<Rightarrow> bool result" where
  "below_threshold projected limit = (case float_of_int limit of
       None \<Rightarrow> Inl OverflowError
     | Some f \<Rightarrow> Inr (pf_less (Fin (of_int projected)) (pf_mult (round_double (4 / 5)) f)))"

definition output_reserve :: "compaction_agent \<Rightarrow> int \<Rightarrow> int" where
  "output_reserve agent limit = (case ca_max_output_tokens agent of
       Some n \<Rightarrow> if n \<noteq> 0 then n else min 32768 (max 1 (limit div 5))
     | None \<Rightarrow> min 32768 (max 1 (limit div 5)))"

definition projected_tokens :: "compaction_agent \<Rightarrow> string option \<Rightarrow> compaction_session \<Rightarrow> int" where
  "projected_tokens agent model s =
     (let resolved = resolve_model s agent model; limit = ca_context_window agent resolved
      in compaction_tokens agent (sl_derived (cs_log s)) resolved + output_reserve agent limit)"

text \<open>The full run, and what becomes of the read tracker and of the reported figures after it.\<close>

definition full_compaction ::
  "compaction_world \<Rightarrow> compaction_agent \<Rightarrow> chosen_strategy \<Rightarrow> string \<Rightarrow> compaction_info option
   \<Rightarrow> compaction_session \<Rightarrow> compaction_session \<times> bool result" where
  "full_compaction w agent st resolved micro_info s =
     (case run_compaction w agent st (Some resolved) s of
        (s1, Inl e) \<Rightarrow> ((if micro_info \<noteq> None \<and> e \<noteq> CancelledError then reset_read_tracker agent s1 else s1), Inl e)
      | (s1, Inr changed) \<Rightarrow>
          if \<not> changed then
            (if micro_info \<noteq> None then (s1\<lparr>cs_info := micro_info\<rparr>, Inr True)
             else (s1\<lparr>cs_info := None\<rparr>, Inr False))
          else (s1, Inr True))"

definition maybe_compact ::
  "compaction_world \<Rightarrow> compaction_agent \<Rightarrow> chosen_strategy \<Rightarrow> string option \<Rightarrow> compaction_session
   \<Rightarrow> compaction_session \<times> bool result" where
  "maybe_compact w agent st model s =
     (let resolved = resolve_model s agent model; limit = ca_context_window agent resolved
      in (case below_threshold (projected_tokens agent (Some resolved) s) limit of
            Inl e \<Rightarrow> (s, Inl e)
          | Inr True \<Rightarrow> (s, Inr False)
          | Inr False \<Rightarrow>
              (case (case ca_ladder agent of
                       None \<Rightarrow> (s, Inr False)
                     | Some l \<Rightarrow> if ld_micro l
                         then apply_micro_compaction agent (ld_keep_recent_turns l) (Some resolved) s
                         else (s, Inr False)) of
                 (s1, Inl e) \<Rightarrow> (s1, Inl e)
               | (s1, Inr False) \<Rightarrow> full_compaction w agent st resolved None s1
               | (s1, Inr True) \<Rightarrow>
                   (case below_threshold (projected_tokens agent (Some resolved) s1) limit of
                      Inl e \<Rightarrow> (s1, Inl e)
                    | Inr True \<Rightarrow> (s1, Inr True)
                    | Inr False \<Rightarrow> full_compaction w agent st resolved (cs_info s1) s1))))"

definition run_forced_compaction ::
  "compaction_world \<Rightarrow> compaction_agent \<Rightarrow> chosen_strategy \<Rightarrow> string option \<Rightarrow> compaction_session
   \<Rightarrow> compaction_session \<times> bool result" where
  "run_forced_compaction = run_compaction"

section \<open>What a compaction keeps\<close>

definition history_of_session :: "compaction_session \<Rightarrow> message list" where
  "history_of_session s = sl_full (cs_log s)"

definition view_of :: "compaction_session \<Rightarrow> message list" where
  "view_of s = sl_derived (cs_log s)"

text \<open>
  The relation between a session before and after any step of a compaction: the history is the
  same, and a view whose results answer their calls stays such a view.
\<close>

fun built_in :: "chosen_strategy \<Rightarrow> bool" where
  "built_in (BuiltIn st) = True"
| "built_in (HostStrategy i f) = False"

definition kept :: "chosen_strategy \<Rightarrow> compaction_session \<Rightarrow> compaction_session \<Rightarrow> bool" where
  "kept st s s' = (history_of_session s' = history_of_session s
     \<and> (built_in st \<longrightarrow> tool_pairs_ok {} (view_of s) \<longrightarrow> tool_pairs_ok {} (view_of s')))"

lemma kept_refl [simp]: "kept st s s"
  by (simp add: kept_def)

lemma kept_trans: "kept st s1 s2 \<Longrightarrow> kept st s2 s3 \<Longrightarrow> kept st s1 s3"
  by (auto simp: kept_def)

lemma kept_other [simp]:
  "kept st s (s'\<lparr>cs_info := i\<rparr>) = kept st s s'" "kept st s (reset_read_tracker agent s') = kept st s s'"
  by (auto simp: kept_def history_of_session_def view_of_def reset_read_tracker_def
      split: option.splits)

lemma set_view_kept:
  "(built_in st \<Longrightarrow> tool_pairs_ok {} (view_of s) \<Longrightarrow> tool_pairs_ok {} view) \<Longrightarrow> kept st s (fst (set_view view reason s))"
  by (auto simp: kept_def history_of_session_def view_of_def set_view_def record_view_def)

lemma micro_kept: "kept st s (fst (apply_micro_compaction agent keep model s))"
proof (cases "micro_compact keep (view_of s)")
  case (Inr p)
  obtain new n where p: "p = (new, n)" by fastforce
  show ?thesis
  proof (cases "strip_response_chaining new")
    case (Inr stripped)
    have "tool_pairs_ok {} (view_of s) = tool_pairs_ok {} stripped"
      using micro_pairs [of keep "view_of s" new n] strip_pairs [OF Inr] \<open>micro_compact keep (view_of s) = Inr p\<close> p
      by simp
    with set_view_kept [of st s stripped "''micro-compaction''"] Inr p
      \<open>micro_compact keep (view_of s) = Inr p\<close>
    show ?thesis by (simp add: apply_micro_compaction_def view_of_def Let_def)
  qed (use Inr p in \<open>simp add: apply_micro_compaction_def view_of_def Let_def\<close>)
qed (simp add: apply_micro_compaction_def view_of_def Let_def)

lemma run_kept: "kept st s (fst (run_compaction w agent st model s))"
proof -
  let ?steps = "bind_result (cw_pre_hook w) (\<lambda>_.
                bind_result (paid_recipe w st (cs_log s)) (\<lambda>recipe.
                bind_result (run_strategy w st (view_of s)) (\<lambda>answer.
                bind_result (case cw_paid w of None \<Rightarrow> Inr () | Some p \<Rightarrow> pr_may_continue p) (\<lambda>_.
                bind_result (strip_response_chaining answer) (\<lambda>compacted.
                bind_result (paid_projection w recipe (view_of s) compacted) (\<lambda>pid.
                  Inr (compacted, pid)))))))"
  show ?thesis
  proof (cases ?steps)
    case (Inr p)
    obtain compacted pid where p: "p = (compacted, pid)" by fastforce
    from Inr p obtain answer where "run_strategy w st (view_of s) = Inr answer"
      and strip: "strip_response_chaining answer = Inr compacted"
      by (auto simp: bind_result_Inr_iff)
    then have "tool_pairs_ok {} compacted" if "built_in st" "tool_pairs_ok {} (view_of s)"
      using that strategy_pairs [of "cw_summarize w" _ "view_of s" answer "{}"] strip_pairs [OF strip]
      by (cases st) auto
    from set_view_kept [of st s compacted "''compaction''", OF this] Inr p show ?thesis
      by (cases "set_view compacted ''compaction'' s") (simp add: run_compaction_def view_of_def Let_def)
  qed (simp add: run_compaction_def view_of_def Let_def)
qed

lemma full_kept: "kept st s (fst (full_compaction w agent st resolved mi s))"
proof -
  obtain s1 r where run: "run_compaction w agent st (Some resolved) s = (s1, r)" by fastforce
  with run_kept [of st s w agent "Some resolved"] have "kept st s s1" by simp
  with run show ?thesis
    by (cases r) (simp_all add: full_compaction_def)
qed

lemma maybe_kept: "kept st s (fst (maybe_compact w agent st model s))"
proof -
  let ?resolved = "resolve_model s agent model"
  have micro: "kept st s s1" if "apply_micro_compaction agent keep (Some ?resolved) s = (s1, x)" for s1 x keep
    using micro_kept [of st s agent keep "Some ?resolved"] that by simp
  have full: "kept st s (fst (full_compaction w agent st ?resolved mi s1))" if "kept st s s1" for mi s1
    by (rule kept_trans [OF that full_kept])
  show ?thesis
    unfolding maybe_compact_def Let_def
    by (auto split: sum.splits bool.splits option.splits prod.splits dest!: micro intro!: full)
qed

text \<open>
  C34: Compacting, by the ladder and a full run when the context fills up or forced when a
  request was too long, never touches the durable history, whatever the strategy is and on any
  outcome: nothing to do, micro-compaction alone, a full run, or an error anywhere. With a
  built-in strategy it also never leaves a tool result in the provider's view without the call it
  answers; what a host's own strategy returns is recorded as it is.
\<close>

theorem compaction_keeps_history_and_pairs:
  assumes "maybe_compact w agent st model s = (s', r) \<or> run_forced_compaction w agent st model s = (s', r)"
  shows "sl_full (cs_log s') = sl_full (cs_log s)
    \<and> (built_in st \<and> tool_pairs_ok {} (sl_derived (cs_log s)) \<longrightarrow> tool_pairs_ok {} (sl_derived (cs_log s')))"
proof -
  have "kept st s s'"
    using assms maybe_kept [of st s w agent model] run_kept [of st s w agent model]
    by (auto simp: run_forced_compaction_def)
  then show ?thesis by (simp add: kept_def history_of_session_def view_of_def)
qed

section \<open>A concrete compaction\<close>

definition small_agent :: compaction_agent where
  "small_agent = \<lparr>ca_model = ''m'', ca_max_output_tokens = Some 0, ca_context_window = (\<lambda>m. 5),
     ca_estimator = Some (\<lambda>ms m. Some (int (length ms) * 10)), ca_dumps_length = (\<lambda>v. 0),
     ca_ladder = None\<rparr>"

definition plain_world :: compaction_world where
  "plain_world = \<lparr>cw_env = text_env, cw_sha = (\<lambda>s. s), cw_summarize = (\<lambda>p n ms. Inr ''s''),
     cw_paid = None, cw_reminders = [], cw_pre_hook = Inr (), cw_post_hook = Inr ()\<rparr>"

definition ask_tool :: message where
  "ask_tool = \<lparr>role = role_assistant, content = [ToolUseBlock ''t'' ''Read'' []], provider_metadata = None\<rparr>"

definition answer_tool :: message where
  "answer_tool = \<lparr>role = role_user, content = [ToolResultBlock ''t'' (ContentStr ''ok'') False],
     provider_metadata = None\<rparr>"

definition talk_session :: compaction_session where
  "talk_session = \<lparr>cs_log = log_append_many [log_hello, ask_tool, answer_tool] new_session_log,
     cs_active_model = None, cs_tracker = new_tracker, cs_info = None\<rparr>"

theorem compaction_keeps_history_and_pairs_witness:
  "tool_pairs_ok {} (sl_derived (cs_log
     (fst (maybe_compact plain_world small_agent (BuiltIn (DetailedCompaction 1 100 ''p'')) None talk_session))))"
proof -
  obtain s' r where run: "maybe_compact plain_world small_agent (BuiltIn (DetailedCompaction 1 100 ''p''))
      None talk_session = (s', r)" by fastforce
  have "tool_pairs_ok {} (sl_derived (cs_log talk_session))"
    by (auto simp: talk_session_def log_append_def new_session_log_def log_hello_def ask_tool_def
        answer_tool_def use_ids_def result_ids_def)
  from compaction_keeps_history_and_pairs [OF disjI1, OF run] this run show ?thesis by simp
qed

end
