(* ===== verification/Workspace_Tools.thy ===== *)
theory Workspace_Tools
  imports File_Tracker Tool_Output Py_Text
begin

text \<open>
  The Read, Write and Edit tools of \<^verbatim>\<open>src/linch/tools/builtin.py\<close>. A disk maps resolved paths
  to files. Path resolution belongs to the operating system and is a parameter, as are the time
  stamps it assigns. The tools look at the disk several times; every look is a disk of its own
  in the arguments, so that changes by others in between are covered.
\<close>

section \<open>The disk\<close>

text \<open>
  The decoded text, absent when the bytes are not UTF-8; the stamp is the pair of modification
  time and size that \<^verbatim>\<open>_file_stamp\<close> reads; the length is that of the bytes.
\<close>

record disk_file =
  df_text :: "string option"
  df_stamp :: "int \<times> int"
  df_length :: int

type_synonym disk = "(string, disk_file) dict"

record path_env =
  pe_base :: "string \<Rightarrow> string"
  pe_target :: "string \<Rightarrow> string \<Rightarrow> string"

text \<open>\<^verbatim>\<open>target.relative_to(base)\<close> on resolved absolute paths.\<close>

definition path_inside :: "string \<Rightarrow> string \<Rightarrow> bool" where
  "path_inside base target = (target = base \<or> prefix (rstrip_char CHR ''/'' base @ ''/'') target)"

definition resolve_under :: "path_env \<Rightarrow> string \<Rightarrow> string \<Rightarrow> string result" where
  "resolve_under env cwd path_str =
     (let base = pe_base env cwd; target = pe_target env base path_str
      in if path_inside base target then Inr target else Inl ToolExecutionError)"

definition file_stamp :: "string \<Rightarrow> disk \<Rightarrow> (int \<times> int) result" where
  "file_stamp path d = (case dict_get d path of
       None \<Rightarrow> Inl FileNotFoundError | Some f \<Rightarrow> Inr (df_stamp f))"

definition to_int_default :: "json option \<Rightarrow> int \<Rightarrow> int result" where
  "to_int_default v dflt = (case v of None \<Rightarrow> Inr dflt | Some JNull \<Rightarrow> Inr dflt | Some w \<Rightarrow> to_int w)"

definition tool_reply :: "string \<Rightarrow> string \<Rightarrow> bool \<Rightarrow> tool_result" where
  "tool_reply c summary is_error =
     \<lparr>tr_content = c, tr_summary = summary, tr_is_error = is_error, tr_metadata = [],
      tr_citations = [], tr_attachments = [], tr_duration_ms = 0, tr_truncated = False,
      tr_recovery_hint = []\<rparr>"

section \<open>Read\<close>

record read_input =
  ri_file_path :: string
  ri_offset :: "int option"
  ri_limit :: "int option"

definition nonempty_path :: "json_obj \<Rightarrow> string result" where
  "nonempty_path raw = (case dict_get raw ''file_path'' of
       Some (JStr p) \<Rightarrow> if p = [] then Inl ValueError else Inr p
     | _ \<Rightarrow> Inl ValueError)"

definition optional_int_input :: "json_obj \<Rightarrow> string \<Rightarrow> int option result" where
  "optional_int_input raw k = (case dict_get raw k of
       None \<Rightarrow> Inr None | Some JNull \<Rightarrow> Inr None | Some v \<Rightarrow> map_sum id Some (to_int v))"

definition read_validate :: "json_obj \<Rightarrow> read_input result" where
  "read_validate raw =
     bind_result (nonempty_path raw) (\<lambda>p.
     bind_result (optional_int_input raw ''offset'') (\<lambda>off.
     bind_result (optional_int_input raw ''limit'') (\<lambda>lim.
       Inr \<lparr>ri_file_path = p, ri_offset = off, ri_limit = lim\<rparr>)))"

text \<open>What a read reports to the tracker: nothing, the whole file, or a window of lines.\<close>

datatype read_bounds = NoLines | WholeFile | LineWindow int int

fun number_lines :: "int \<Rightarrow> string list \<Rightarrow> string list" where
  "number_lines n [] = []"
| "number_lines n (l # ls) = (show_int n @ [CHR 0x09] @ l) # number_lines (n + 1) ls"

definition read_window :: "string list \<Rightarrow> int option \<Rightarrow> int option \<Rightarrow> nat \<times> nat \<times> int" where
  "read_window ls first_line line_limit =
     (let offset = (case first_line of None \<Rightarrow> 1 | Some n \<Rightarrow> if n > 0 then n else 1);
          limit = (case line_limit of None \<Rightarrow> 2000 | Some n \<Rightarrow> if n = 0 then 2000 else n);
          start = min (nat (offset - 1)) (length ls);
          stop = (if limit > 0 then min (start + nat limit) (length ls) else length ls)
      in (start, stop, offset))"

definition window_of :: "nat \<Rightarrow> nat \<Rightarrow> nat \<Rightarrow> read_bounds" where
  "window_of start stop n =
     (if start \<ge> stop then NoLines
      else if start = 0 \<and> stop = n then WholeFile
      else LineWindow (int start + 1) (int stop))"

definition read_bytes_checked :: "int \<Rightarrow> string \<Rightarrow> disk \<Rightarrow> disk \<Rightarrow> (string \<times> int \<times> int) result" where
  "read_bytes_checked max_read_bytes path d0 d1 =
     (case dict_get d0 path of
        None \<Rightarrow> Inl ToolExecutionError
      | Some f \<Rightarrow>
          if snd (df_stamp f) > max_read_bytes then Inl ToolExecutionError
          else if df_length f > max_read_bytes then Inl ToolExecutionError
          else if file_stamp path d1 \<noteq> Inr (df_stamp f) then Inl ToolExecutionError
          else (case df_text f of
                  None \<Rightarrow> Inl ToolExecutionError
                | Some txt \<Rightarrow> if CHR 0x00 \<in> set txt then Inl ToolExecutionError
                              else Inr (txt, df_stamp f)))"

definition read_execute ::
  "path_env \<Rightarrow> string \<Rightarrow> int \<Rightarrow> read_input \<Rightarrow> disk \<Rightarrow> disk
   \<Rightarrow> (tool_result \<times> string \<times> (int \<times> int) \<times> read_bounds) result" where
  "read_execute env cwd max_read_bytes inp d0 d1 =
     bind_result (resolve_under env cwd (ri_file_path inp)) (\<lambda>path.
     bind_result (read_bytes_checked max_read_bytes path d0 d1) (\<lambda>(txt, stamp).
       let ls = split_on CHR 0x0A txt in
       case read_window ls (ri_offset inp) (ri_limit inp) of (start, stop, offset) \<Rightarrow>
         (let bounds = window_of start stop (length ls);
              numbered = number_lines offset (take (stop - start) (drop start ls));
              shown = (if numbered = [] then ''<file is empty>'' else join_text [CHR 0x0A] numbered)
          in Inr (tool_reply shown (''Read '' @ path) False, path, stamp, bounds))))"

text \<open>\<^verbatim>\<open>execute\<close> tells the tracker what was read.\<close>

definition read_tracked :: "string \<Rightarrow> int \<times> int \<Rightarrow> read_bounds \<Rightarrow> file_tracker \<Rightarrow> file_tracker" where
  "read_tracked path stamp bounds t = (case bounds of
       NoLines \<Rightarrow> t
     | WholeFile \<Rightarrow> mark_read path None (set_stamp path stamp True t)
     | LineWindow a b \<Rightarrow> mark_read path (Some (a, b)) (set_stamp path stamp True t))"

definition read_tool ::
  "path_env \<Rightarrow> string \<Rightarrow> int \<Rightarrow> read_input \<Rightarrow> disk \<Rightarrow> disk \<Rightarrow> file_tracker option
   \<Rightarrow> file_tracker option \<times> tool_result result" where
  "read_tool env cwd max_read_bytes inp d0 d1 tracker =
     (case read_execute env cwd max_read_bytes inp d0 d1 of
        Inl e \<Rightarrow> (tracker, Inl e)
      | Inr (r, path, stamp, bounds) \<Rightarrow>
          (map_option (read_tracked path stamp bounds) tracker, Inr r))"

section \<open>Write\<close>

record write_input =
  wi_file_path :: string
  wi_content :: string

definition write_validate :: "json_obj \<Rightarrow> write_input result" where
  "write_validate raw =
     bind_result (nonempty_path raw) (\<lambda>p.
       case dict_get raw ''content'' of
         Some (JStr c) \<Rightarrow> Inr \<lparr>wi_file_path = p, wi_content = c\<rparr>
       | _ \<Rightarrow> Inl ValueError)"

text \<open>The file system stores the text under a new stamp.\<close>

definition atomic_write :: "string \<Rightarrow> string \<Rightarrow> int \<times> int \<Rightarrow> disk \<Rightarrow> disk" where
  "atomic_write path txt stamp d =
     dict_set path \<lparr>df_text = Some txt, df_stamp = stamp, df_length = snd stamp\<rparr> d"

definition write_allowed :: "string \<Rightarrow> disk \<Rightarrow> file_tracker option \<Rightarrow> bool" where
  "write_allowed path d tracker = (case dict_get d path of
       None \<Rightarrow> True
     | Some f \<Rightarrow> (case tracker of
           None \<Rightarrow> True
         | Some t \<Rightarrow> has_read path t \<and> is_current path (df_stamp f) t))"

text \<open>
  The file is tested on the disk \<open>d0\<close> and overwritten on \<open>d1\<close>. \<open>later\<close> is what others do between the
  write and the look at the new stamp, which fails when they removed the file.
\<close>

definition write_tool ::
  "path_env \<Rightarrow> string \<Rightarrow> write_input \<Rightarrow> int \<times> int \<Rightarrow> disk \<Rightarrow> disk \<Rightarrow> (disk \<Rightarrow> disk) \<Rightarrow> file_tracker option
   \<Rightarrow> disk \<times> file_tracker option \<times> tool_result result" where
  "write_tool env cwd inp new_stamp d0 d1 later tracker =
     (case resolve_under env cwd (wi_file_path inp) of
        Inl e \<Rightarrow> (d0, tracker, Inl e)
      | Inr path \<Rightarrow>
          if \<not> write_allowed path d0 tracker
          then (d0, tracker, Inr (tool_reply ''Read this file again before writing it.'' [] True))
          else
            (let written = atomic_write path (wi_content inp) new_stamp d1;
                 reply = tool_reply (''Wrote '' @ path) (''Wrote '' @ path) False
             in case tracker of
                  None \<Rightarrow> (written, None, Inr reply)
                | Some t \<Rightarrow>
                    (let d2 = later written; t1 = mark_read path None t
                     in case file_stamp path d2 of
                          Inl e \<Rightarrow> (d2, Some t1, Inl e)
                        | Inr s \<Rightarrow> (d2, Some (set_stamp path s False t1), Inr reply))))"

section \<open>Edit\<close>

record edit_input =
  ei_file_path :: string
  ei_old :: string
  ei_new :: string
  ei_replace_all :: bool

definition edit_validate :: "json_obj \<Rightarrow> edit_input result" where
  "edit_validate raw =
     bind_result (nonempty_path raw) (\<lambda>p.
       case (dict_get raw ''old_string'', dict_get raw ''new_string'') of
         (Some (JStr old), Some (JStr new)) \<Rightarrow>
           Inr \<lparr>ei_file_path = p, ei_old = old, ei_new = new,
                ei_replace_all = truthy (raw_get raw ''replace_all'' (JBool False))\<rparr>
       | _ \<Rightarrow> Inl ValueError)"

text \<open>The loop over \<^verbatim>\<open>text.find(old, cursor)\<close>, for a non-empty \<^verbatim>\<open>old\<close>.\<close>

function matches_from :: "string \<Rightarrow> string \<Rightarrow> nat \<Rightarrow> nat list" where
  "matches_from old s k =
     (if old = [] \<or> s = [] then []
      else if prefix old s then k # matches_from old (drop (length old) s) (k + length old)
      else matches_from old (tl s) (k + 1))"
  by pat_completeness auto
termination
  by (relation "measure (\<lambda>(old, s, k). length s)") (auto simp: not_le)

declare matches_from.simps [simp del]

definition match_starts :: "string \<Rightarrow> string \<Rightarrow> nat list" where
  "match_starts old txt = (if old = [] then [0] else matches_from old txt 0)"

definition newlines :: "string \<Rightarrow> int" where
  "newlines s = int (length (filter (\<lambda>c. c = CHR 0x0A) s))"

definition match_lines :: "string \<Rightarrow> string \<Rightarrow> nat \<Rightarrow> int \<times> int" where
  "match_lines old txt m =
     (let start = newlines (take m txt) + 1
      in (start, start + newlines old - (if endswith [CHR 0x0A] old then 1 else 0)))"

definition edit_read_check :: "edit_input \<Rightarrow> string \<Rightarrow> string \<Rightarrow> file_tracker \<Rightarrow> bool" where
  "edit_read_check inp path txt t =
     (let starts = match_starts (ei_old inp) txt in
      if starts = [] then has_read path t
      else if ei_old inp = [] \<and> ei_replace_all inp
      then has_read_range path 1 (int (length (split_on CHR 0x0A txt))) t
      else list_all (\<lambda>m. case match_lines (ei_old inp) txt m of (a, b) \<Rightarrow> has_read_range path a b t)
             (if ei_replace_all inp then starts else take 1 starts))"

definition edit_error :: "edit_input \<Rightarrow> string \<Rightarrow> tool_result" where
  "edit_error inp msg = tool_reply msg (''Edit '' @ ei_file_path inp) True"

definition edited_text :: "edit_input \<Rightarrow> string \<Rightarrow> string" where
  "edited_text inp txt =
     (if ei_replace_all inp then py_replace (ei_old inp) (ei_new inp) txt
      else py_replace_once (ei_old inp) (ei_new inp) txt)"

text \<open>
  The disk is looked at three times before the write: for the stamp, for the text, and for the
  stamp again. The decision is a reply, or the path and the text that was found.
\<close>

definition edit_decision ::
  "path_env \<Rightarrow> string \<Rightarrow> edit_input \<Rightarrow> disk \<Rightarrow> disk \<Rightarrow> disk \<Rightarrow> file_tracker option
   \<Rightarrow> tool_result result + string \<times> string" where
  "edit_decision env cwd inp d0 d1 d2 tracker =
     (case resolve_under env cwd (ei_file_path inp) of
        Inl e \<Rightarrow> Inl (Inl e)
      | Inr path \<Rightarrow>
        (let stamp = map_option df_stamp (dict_get d0 path) in
         if (case tracker of None \<Rightarrow> False
             | Some t \<Rightarrow> (case stamp of None \<Rightarrow> True | Some s \<Rightarrow> \<not> is_current path s t))
         then Inl (Inr (tool_reply ''Read this file again before editing it.'' [] True))
         else (case dict_get d1 path of
             None \<Rightarrow> Inl (Inl FileNotFoundError)
           | Some f \<Rightarrow>
             (case df_text f of
                None \<Rightarrow> Inl (Inl UnicodeError)
              | Some txt \<Rightarrow>
                if (case tracker of None \<Rightarrow> False | Some t \<Rightarrow> \<not> edit_read_check inp path txt t)
                then Inl (Inr (edit_error inp ''Error: You must Read this file before editing it.''))
                else if \<not> has_substring (ei_old inp) txt then Inl (Inl ToolExecutionError)
                else if \<not> ei_replace_all inp \<and> py_count (ei_old inp) txt > 1
                then Inl (Inr (edit_error inp (''Error: old_string appears multiple times. '' @
                        ''Provide a unique match or set replace_all=true.'')))
                else (case tracker of
                    None \<Rightarrow> Inr (path, txt)
                  | Some t \<Rightarrow>
                    (case file_stamp path d2 of
                       Inl e \<Rightarrow> Inl (Inl e)
                     | Inr s2 \<Rightarrow>
                         if Some s2 \<noteq> stamp
                         then Inl (Inr (tool_reply ''Read this file again before editing it.'' [] True))
                         else Inr (path, txt)))))))"

text \<open>The text is stored on the disk \<open>d3\<close>; \<open>later\<close> is what others do until the new stamp is taken.\<close>

definition edit_tool ::
  "path_env \<Rightarrow> string \<Rightarrow> edit_input \<Rightarrow> int \<times> int \<Rightarrow> disk \<Rightarrow> disk \<Rightarrow> disk \<Rightarrow> disk \<Rightarrow> (disk \<Rightarrow> disk)
   \<Rightarrow> file_tracker option \<Rightarrow> disk \<times> file_tracker option \<times> tool_result result" where
  "edit_tool env cwd inp new_stamp d0 d1 d2 d3 later tracker =
     (case edit_decision env cwd inp d0 d1 d2 tracker of
        Inl reply \<Rightarrow> (d2, tracker, reply)
      | Inr (path, txt) \<Rightarrow>
        (let written = atomic_write path (edited_text inp txt) new_stamp d3;
             reply = tool_reply (''Edited '' @ path) (''Edited '' @ path) False
         in case tracker of
              None \<Rightarrow> (written, None, Inr reply)
            | Some t \<Rightarrow>
                (let d4 = later written; t1 = invalidate_ranges path t
                 in case file_stamp path d4 of
                      Inl e \<Rightarrow> (d4, Some t1, Inl e)
                    | Inr s \<Rightarrow> (d4, Some (set_stamp path s False t1), Inr reply))))"

section \<open>What a read shows\<close>

text \<open>A read that reports a window shows exactly the lines of that window, under their numbers.\<close>

lemma read_execute_parts:
  assumes "read_execute env cwd limit inp d0 d1 = Inr (r, path, stamp, bounds)"
  obtains f body start stop where "resolve_under env cwd (ri_file_path inp) = Inr path"
    and "dict_get d0 path = Some f" and "df_text f = Some body" and "df_stamp f = stamp"
    and "file_stamp path d1 = Inr stamp"
    and "bounds = window_of start stop (length (split_on CHR 0x0A body))"
    and "bounds \<noteq> NoLines \<Longrightarrow> tr_content r = join_text [CHR 0x0A]
      (number_lines (int start + 1) (take (stop - start) (drop start (split_on CHR 0x0A body))))"
proof -
  obtain path' where path: "resolve_under env cwd (ri_file_path inp) = Inr path'"
    using assms by (cases "resolve_under env cwd (ri_file_path inp)") (auto simp: read_execute_def)
  obtain bs where "read_bytes_checked limit path' d0 d1 = Inr bs"
    using assms path by (cases "read_bytes_checked limit path' d0 d1") (auto simp: read_execute_def)
  then obtain body stamp' where body: "read_bytes_checked limit path' d0 d1 = Inr (body, stamp')"
    by (cases bs) simp
  obtain start stop offset where w:
    "read_window (split_on CHR 0x0A body) (ri_offset inp) (ri_limit inp) = (start, stop, offset)"
    by (cases "read_window (split_on CHR 0x0A body) (ri_offset inp) (ri_limit inp)")
  from assms path body w have same: "path' = path" "stamp' = stamp"
    and b: "bounds = window_of start stop (length (split_on CHR 0x0A body))"
    and c: "tr_content r = (let numbered = number_lines offset
        (take (stop - start) (drop start (split_on CHR 0x0A body)))
      in if numbered = [] then ''<file is empty>'' else join_text [CHR 0x0A] numbered)"
    by (auto simp: read_execute_def Let_def tool_reply_def)
  from body [unfolded same] obtain f where f: "dict_get d0 path = Some f" "df_text f = Some body"
    "df_stamp f = stamp" "file_stamp path d1 = Inr stamp"
    by (auto simp: read_bytes_checked_def split: option.splits if_splits)
  have shown: "tr_content r = join_text [CHR 0x0A]
      (number_lines (int start + 1) (take (stop - start) (drop start (split_on CHR 0x0A body))))"
    if "bounds \<noteq> NoLines"
  proof -
    from that b have "start < stop" by (auto simp: window_of_def split: if_splits)
    moreover from w have "stop \<le> length (split_on CHR 0x0A body)"
      by (auto simp: read_window_def Let_def split: if_splits)
    ultimately have "start < length (split_on CHR 0x0A body)" "stop - start \<noteq> 0" by auto
    with w have off: "offset = int start + 1"
      by (auto simp: read_window_def Let_def min_def split: if_splits option.splits)
    obtain l ls where "take (stop - start) (drop start (split_on CHR 0x0A body)) = l # ls"
      using \<open>start < length (split_on CHR 0x0A body)\<close> \<open>stop - start \<noteq> 0\<close>
      by (cases "take (stop - start) (drop start (split_on CHR 0x0A body))") auto
    with c off show ?thesis by (simp add: Let_def)
  qed
  show thesis by (rule that [OF path [unfolded same] f b shown])
qed

section \<open>Where an edit replaces\<close>

definition line_of :: "string \<Rightarrow> nat \<Rightarrow> int" where
  "line_of txt i = newlines (take i txt) + 1"

definition replaced_starts :: "edit_input \<Rightarrow> string \<Rightarrow> nat list" where
  "replaced_starts inp txt =
     (if ei_replace_all inp then match_starts (ei_old inp) txt
      else take 1 (match_starts (ei_old inp) txt))"

lemma newlines_append [simp]: "newlines (s @ t) = newlines s + newlines t"
  by (simp add: newlines_def)

lemma newlines_nonneg [simp]: "0 \<le> newlines s"
  by (simp add: newlines_def)

lemma matches_from_prefix:
  "m \<in> set (matches_from old s k) \<Longrightarrow> k \<le> m \<and> prefix old (drop (m - k) s)"
proof (induction old s k arbitrary: m rule: matches_from.induct)
  case (1 old s k)
  show ?case
  proof (cases "old = [] \<or> s = []")
    case False
    show ?thesis
    proof (cases "prefix old s")
      case True
      with False 1(3) have "m = k \<or> m \<in> set (matches_from old (drop (length old) s) (k + length old))"
        by (subst (asm) matches_from.simps) simp
      with 1(1) [OF False True, of m] True show ?thesis
        by (auto simp: add.commute)
    next
      case no: False
      with False 1(3) have "m \<in> set (matches_from old (tl s) (k + 1))"
        by (subst (asm) matches_from.simps) simp
      from 1(2) [OF False no this] have "k + 1 \<le> m" and "prefix old (drop (m - (k + 1)) (tl s))"
        by auto
      moreover from this(1) have "m - k = Suc (m - (k + 1))" by simp
      ultimately show ?thesis by (simp add: drop_Suc)
    qed
  qed (use 1(3) in \<open>simp add: matches_from.simps\<close>)
qed

lemma match_prefix:
  "m \<in> set (match_starts old body) \<Longrightarrow> prefix old (drop m body)"
  using matches_from_prefix [of m old body 0] by (auto simp: match_starts_def split: if_splits)

text \<open>The last line break of \<^verbatim>\<open>old\<close> does not count for the characters inside it.\<close>

lemma newlines_take_less:
  assumes "k < length old"
  shows "newlines (take k old) \<le> newlines old - (if endswith [CHR 0x0A] old then 1 else 0)"
proof -
  have split: "newlines old = newlines (take k old) + newlines (drop k old)"
    by (metis append_take_drop_id newlines_append)
  show ?thesis
  proof (cases "endswith [CHR 0x0A] old")
    case True
    then obtain u where "old = u @ [CHR 0x0A]"
      by (auto simp: endswith_def startswith_iff)
    with assms have "drop k old = drop k u @ [CHR 0x0A]" by simp
    then have "1 \<le> newlines (drop k old)"
      using newlines_nonneg [of "drop k u"] by (simp add: newlines_def)
    with split True show ?thesis by simp
  qed (use split newlines_nonneg [of "drop k old"] in simp)
qed

lemma replaced_lines:
  assumes "m \<in> set (match_starts old body)" and "k < length old"
  shows "line_of body (m + k) \<in> {fst (match_lines old body m)..snd (match_lines old body m)}"
proof -
  from match_prefix [OF assms(1)] obtain rest where rest: "drop m body = old @ rest"
    by (auto simp: prefix_def)
  have "take (m + k) body = take m body @ take k (drop m body)"
    by (simp add: take_add)
  with rest assms(2) have "newlines (take (m + k) body) = newlines (take m body) + newlines (take k old)"
    by simp
  with newlines_take_less [OF assms(2)] newlines_nonneg [of "take k old"] show ?thesis
    by (simp add: line_of_def match_lines_def Let_def)
qed

lemma line_of_pos [simp]: "1 \<le> line_of body i"
  by (simp add: line_of_def)

lemma edit_check_covers:
  assumes "tracker_ok t" and "edit_read_check inp path body t"
    and m: "m \<in> set (replaced_starts inp body)" and k: "k < length (ei_old inp)"
  shows "line_of body (m + k) \<in> lines_read t path"
proof -
  let ?old = "ei_old inp"
  obtain a b where ab: "match_lines ?old body m = (a, b)" by fastforce
  from m have starts: "m \<in> set (match_starts ?old body)"
    by (auto simp: replaced_starts_def split: if_splits dest: in_set_takeD)
  from k have "?old \<noteq> []" by auto
  with assms(2) m starts ab have "has_read_range path a b t"
    by (force simp: edit_read_check_def replaced_starts_def list_all_iff Let_def split: if_splits)
  then have "{max 1 a..max (max 1 a) b} \<subseteq> lines_read t path"
    by (simp add: has_read_range_iff [OF assms(1)])
  with replaced_lines [OF starts k] ab line_of_pos [of body "m + k"] show ?thesis
    by auto
qed

text \<open>The tests an edit has passed when it writes.\<close>

lemma edit_decision_success:
  assumes "edit_decision env cwd inp d0 d1 d2 (Some t) = Inr (path, body)"
  obtains f0 f1 where "dict_get d0 path = Some f0" and "is_current path (df_stamp f0) t"
    and "dict_get d1 path = Some f1" and "df_text f1 = Some body"
    and "edit_read_check inp path body t" and "has_substring (ei_old inp) body"
    and "ei_replace_all inp \<or> py_count (ei_old inp) body \<le> 1"
    and "file_stamp path d2 = Inr (df_stamp f0)"
  using assms that
  by (auto simp: edit_decision_def Let_def split: sum.splits option.splits if_splits)

text \<open>An edit that reports success has written.\<close>

lemma edit_tool_success:
  assumes "edit_tool env cwd inp ns d0 d1 d2 d3 later (Some t) = (d, Some t', Inr r)"
    and "\<not> tr_is_error r"
  obtains path body where "edit_decision env cwd inp d0 d1 d2 (Some t) = Inr (path, body)"
    and "d = later (atomic_write path (edited_text inp body) ns d3)"
proof (cases "edit_decision env cwd inp d0 d1 d2 (Some t)")
  case (Inl reply)
  have "tr_is_error x" if "reply = Inr x" for x
    using Inl that
    by (auto simp: edit_decision_def Let_def tool_reply_def edit_error_def
        split: sum.splits option.splits if_splits)
  with Inl assms show thesis by (simp add: edit_tool_def)
next
  case (Inr p)
  obtain path body where p: "p = (path, body)" by fastforce
  with Inr assms show thesis
    by (intro that [OF Inr [unfolded p]]) (simp add: edit_tool_def Let_def split: sum.splits)
qed

end
