(* ===== verification/Read_Before_Write.thy ===== *)
theory Read_Before_Write
  imports Workspace_Tools
begin

text \<open>
  The read-before-write discipline of the workspace tools as a state machine: an agent reads,
  writes and edits files while others change them at any moment, the tracker is cleared by
  compactions and rebuilt by restarts. An edit overwrites only lines that the agent was shown in
  the very version of the file it overwrites.
\<close>

section \<open>Versions\<close>

text \<open>
  Every state of a file has its stamp, its modification time and its size. The versions are a
  ghost: what each path last looked like under each stamp. The tools recognise a version by its
  stamp, and the file system does not promise that a change gives a new one; the third component
  is a ghost of the paths where a change, by others or by the tools, showed a stamp the path had
  had before. Changes are otherwise arbitrary.
\<close>

type_synonym versions = "string \<times> int \<times> int \<Rightarrow> disk_file option"

type_synonym history = "disk \<times> versions \<times> string set"

definition with_disk :: "versions \<Rightarrow> disk \<Rightarrow> versions" where
  "with_disk V d = (\<lambda>(p, s). case dict_get d p of
       Some f \<Rightarrow> if df_stamp f = s then Some f else V (p, s)
     | None \<Rightarrow> V (p, s))"

definition restamped :: "versions \<Rightarrow> disk \<Rightarrow> disk \<Rightarrow> string set" where
  "restamped V d d' = {p. \<exists>f. dict_get d' p = Some f \<and> dict_get d p \<noteq> Some f \<and> V (p, df_stamp f) \<noteq> None}"

inductive others_change :: "history \<Rightarrow> history \<Rightarrow> bool" where
  "others_change (d, V, R) (d', with_disk V d', R \<union> restamped V d d')"

inductive_cases others_changeE: "others_change (d, V, R) dv"

abbreviation others :: "history \<Rightarrow> history \<Rightarrow> bool" where
  "others \<equiv> others_change\<^sup>*\<^sup>*"

definition known_at :: "string \<Rightarrow> versions \<Rightarrow> disk \<Rightarrow> bool" where
  "known_at p V d = (\<forall>f. dict_get d p = Some f \<longrightarrow> V (p, df_stamp f) = Some f)"

definition same_versions :: "string \<Rightarrow> disk \<times> versions \<Rightarrow> disk \<times> versions \<Rightarrow> bool" where
  "same_versions p = (\<lambda>(d, V) (d', V'). known_at p V' d'
     \<and> (\<forall>s g. V (p, s) = Some g \<longrightarrow> V' (p, s) = Some g)
     \<and> (\<forall>f g. dict_get d' p = Some f \<longrightarrow> V (p, df_stamp f) = Some g \<longrightarrow> dict_get d p = Some f))"

lemma same_versionsD:
  assumes "same_versions p (d, V) (d', V')"
  shows "known_at p V' d'" and "V (p, s) = Some g \<Longrightarrow> V' (p, s) = Some g"
    and "dict_get d' p = Some f \<Longrightarrow> V (p, df_stamp f) = Some g \<Longrightarrow> dict_get d p = Some f"
  using assms by (simp_all add: same_versions_def split_paired_all) (metis surj_pair)

lemma same_versions_trans:
  "same_versions p x y \<Longrightarrow> same_versions p y z \<Longrightarrow> same_versions p x z"
  unfolding same_versions_def split_def by metis

lemma others_change_facts:
  assumes "others_change (d, V, R) (d', V', R')"
  shows "R \<subseteq> R'" and "p \<notin> R' \<Longrightarrow> known_at p V d \<Longrightarrow> same_versions p (d, V) (d', V')"
  using assms
  by (auto elim!: others_changeE simp: known_at_def same_versions_def with_disk_def restamped_def
      split: option.splits)

lemma others_facts:
  assumes "others (d, V, R) (d', V', R')"
  shows "R \<subseteq> R' \<and> (p \<notin> R' \<longrightarrow> known_at p V d \<longrightarrow> same_versions p (d, V) (d', V'))"
  using assms
proof (induction "(d', V', R')" arbitrary: d' V' R' rule: rtranclp_induct)
  case base
  then show ?case by (auto simp: same_versions_def known_at_def)
next
  case (step h)
  obtain d1 V1 R1 where h: "h = (d1, V1, R1)" by (cases h)
  note first = step(3) [OF h] and last = others_change_facts [OF step(2) [unfolded h]]
  have "same_versions p (d, V) (d', V')" if "p \<notin> R'" and known: "known_at p V d"
  proof (rule same_versions_trans)
    from that first last(1) show one: "same_versions p (d, V) (d1, V1)" by blast
    from that one last(2) show "same_versions p (d1, V1) (d', V')" by (simp add: same_versions_def)
  qed
  with first last(1) show ?case by blast
qed

lemmas others_grow = others_facts [THEN conjunct1]
lemmas others_same = others_facts [THEN conjunct2, rule_format]

lemma others_known:
  assumes "others (d, V, R) (d', V', R')" and "p \<notin> R'" and "known_at p V d"
  shows "known_at p V' d'"
  using others_same [OF assms] by (simp add: same_versions_def)

text \<open>Two equal looks at the stamp of a path enclose no change of it.\<close>

lemma no_change_between:
  assumes "others (d0, V0, R0) (d1, V1, R1)" and "others (d1, V1, R1) (d2, V2, R2)"
    and "p \<notin> R2" and "known_at p V0 d0"
    and "dict_get d0 p = Some f0" and "dict_get d2 p = Some f2" and "df_stamp f2 = df_stamp f0"
  shows "f2 = f0 \<and> dict_get d1 p = Some f0"
proof -
  from others_grow [OF assms(2)] assms(3) have "p \<notin> R1" by blast
  note first = same_versionsD [OF others_same [OF assms(1) this assms(4)]]
  note second = same_versionsD [OF others_same [OF assms(2,3) first(1)]]
  from assms(4,5) have v0: "V0 (p, df_stamp f0) = Some f0" by (simp add: known_at_def)
  from first(2) [OF v0] assms(7) have "V1 (p, df_stamp f2) = Some f0" by simp
  from second(3) [OF assms(6) this] have d1: "dict_get d1 p = Some f2" .
  from first(3) [OF this] v0 assms(7) have "dict_get d0 p = Some f2" by simp
  with d1 assms(5) show ?thesis by simp
qed

section \<open>The workspace\<close>

record workspace =
  ws_disk :: disk
  ws_versions :: versions
  ws_tracker :: file_tracker
  ws_seen :: "(string \<times> (int \<times> int) \<times> int) set"
  ws_doubtful :: "string set"

text \<open>The lines a read shows; what a write stores the agent knows.\<close>

definition shown_by :: "string \<Rightarrow> int \<times> int \<Rightarrow> read_bounds \<Rightarrow> (string \<times> (int \<times> int) \<times> int) set" where
  "shown_by path stamp bounds = (\<lambda>l. (path, stamp, l)) `
     (case bounds of NoLines \<Rightarrow> {} | WholeFile \<Rightarrow> {1..} | LineWindow a b \<Rightarrow> {a..b})"

definition all_seen :: "string \<Rightarrow> int \<times> int \<Rightarrow> workspace \<Rightarrow> bool" where
  "all_seen path stamp w = (\<forall>l \<ge> 1. (path, stamp, l) \<in> ws_seen w)"

text \<open>
  Others may act between any two looks of a tool at the disk, also between its last test and its
  write. Between its write and the look at the new stamp they may too, but then the tracker may
  record the stamp of their version. The paths where that happened, and those where a stamp came
  twice, are the doubtful ones.
\<close>

definition raced_after :: "string \<Rightarrow> disk \<Rightarrow> disk \<Rightarrow> string set \<Rightarrow> string set" where
  "raced_after path written d R =
     (if dict_get d path = dict_get written path then R else insert path R)"

abbreviation history_of :: "workspace \<Rightarrow> history" where
  "history_of w \<equiv> (ws_disk w, ws_versions w, ws_doubtful w)"

inductive workspace_step :: "workspace \<Rightarrow> workspace \<Rightarrow> bool" where
  by_others: "others_change (history_of w) (d, V, R)
    \<Longrightarrow> workspace_step w (w\<lparr>ws_disk := d, ws_versions := V, ws_doubtful := R\<rparr>)"
| by_read: "others (history_of w) (d, V, R)
    \<Longrightarrow> read_execute env cwd limit inp (ws_disk w) d = Inr (r, path, stamp, bounds)
    \<Longrightarrow> workspace_step w (w\<lparr>ws_disk := d, ws_versions := V, ws_doubtful := R,
          ws_tracker := read_tracked path stamp bounds (ws_tracker w),
          ws_seen := ws_seen w \<union> shown_by path stamp bounds\<rparr>)"
| by_write: "others (history_of w) (d1, V1, R1)
    \<Longrightarrow> resolve_under env cwd (wi_file_path inp) = Inr path
    \<Longrightarrow> write_allowed path (ws_disk w) (Some (ws_tracker w))
    \<Longrightarrow> written = atomic_write path (wi_content inp) new_stamp d1
    \<Longrightarrow> others_change (d1, V1, R1) (written, V2, R2)
    \<Longrightarrow> others (written, V2, R2) (later written, V3, R3)
    \<Longrightarrow> write_tool env cwd inp new_stamp (ws_disk w) d1 later (Some (ws_tracker w)) = (d, Some t, r)
    \<Longrightarrow> workspace_step w (w\<lparr>ws_disk := d, ws_versions := V3, ws_tracker := t,
          ws_seen := ws_seen w \<union> shown_by path new_stamp WholeFile,
          ws_doubtful := raced_after path written d R3\<rparr>)"
| by_edit: "others (history_of w) (d1, V1, R1) \<Longrightarrow> others (d1, V1, R1) (d2, V2, R2)
    \<Longrightarrow> others (d2, V2, R2) (d3, V3, R3)
    \<Longrightarrow> edit_decision env cwd inp (ws_disk w) d1 d2 (Some (ws_tracker w)) = Inr (path, body)
    \<Longrightarrow> dict_get d2 path = Some f
    \<Longrightarrow> written = atomic_write path (edited_text inp body) new_stamp d3
    \<Longrightarrow> others_change (d3, V3, R3) (written, V4, R4)
    \<Longrightarrow> others (written, V4, R4) (later written, V5, R5)
    \<Longrightarrow> edit_tool env cwd inp new_stamp (ws_disk w) d1 d2 d3 later (Some (ws_tracker w)) = (d, Some t, r)
    \<Longrightarrow> workspace_step w (w\<lparr>ws_disk := d, ws_versions := V5, ws_tracker := t,
          ws_seen := ws_seen w \<union>
            (if all_seen path (df_stamp f) w then shown_by path new_stamp WholeFile else {}),
          ws_doubtful := raced_after path written d R5\<rparr>)"
| by_clear: "workspace_step w (w\<lparr>ws_tracker := tracker_clear (ws_tracker w)\<rparr>)"
| by_restart: "workspace_step w
    (w\<lparr>ws_tracker := tracker_restore (JDict (tracker_snapshot (ws_tracker w))) new_tracker\<rparr>)"

definition initial_workspace :: "disk \<Rightarrow> workspace" where
  "initial_workspace d = \<lparr>ws_disk = d, ws_versions = with_disk (\<lambda>_. None) d,
     ws_tracker = new_tracker, ws_seen = {}, ws_doubtful = {}\<rparr>"

section \<open>The invariant\<close>

definition tracker_sound ::
  "string set \<Rightarrow> file_tracker \<Rightarrow> (string \<times> (int \<times> int) \<times> int) set \<Rightarrow> bool" where
  "tracker_sound doubtful t seen =
     (\<forall>p s l. p \<notin> doubtful \<longrightarrow> is_current p s t \<longrightarrow> l \<in> lines_read t p \<longrightarrow> (p, s, l) \<in> seen)"

definition workspace_ok :: "workspace \<Rightarrow> bool" where
  "workspace_ok w = (tracker_ok (ws_tracker w)
     \<and> (\<forall>p. p \<notin> ws_doubtful w \<longrightarrow> known_at p (ws_versions w) (ws_disk w))
     \<and> tracker_sound (ws_doubtful w) (ws_tracker w) (ws_seen w))"

lemma current_set_stamp [simp]:
  "is_current q s' (set_stamp p s reset t) \<longleftrightarrow> (if q = p then s' = s else is_current q s' t)"
  by (auto simp: is_current_def set_stamp_def Let_def invalidate_ranges_def)

lemma current_other [simp]:
  "is_current q s (mark_read p b t) = is_current q s t"
  "is_current q s (invalidate_ranges p t) = is_current q s t"
  by (auto simp: is_current_def mark_read_def tracker_add_def invalidate_ranges_def Let_def
      split: option.splits)

lemma lines_read_set_stamp [simp]:
  "lines_read (set_stamp p s reset t) q =
   (if q = p \<and> reset \<and> \<not> is_current p s t then {} else lines_read t q)"
  by (auto simp: lines_read_def set_stamp_def Let_def invalidate_ranges_def ranges_of_def
      range_lines_def)

lemma lines_read_invalidate [simp]:
  "lines_read (invalidate_ranges p t) q = (if q = p \<and> p \<notin> ft_files t then {} else lines_read t q)"
  by (auto simp: lines_read_def invalidate_ranges_def ranges_of_def range_lines_def)

lemma lines_read_whole [simp]:
  "lines_read (mark_read p None t) q = (if q = p then {1..} else lines_read t q)"
  by (auto simp: lines_read_def mark_read_def tracker_add_def ranges_of_def)

lemma tracker_soundD:
  "tracker_sound R t seen \<Longrightarrow> p \<notin> R \<Longrightarrow> is_current p s t \<Longrightarrow> l \<in> lines_read t p \<Longrightarrow> (p, s, l) \<in> seen"
  unfolding tracker_sound_def by blast

lemma read_tracked_sound:
  assumes "tracker_ok t" and "tracker_sound R t seen" and "\<forall>a b. bounds = LineWindow a b \<longrightarrow> 1 \<le> a \<and> a \<le> b"
  shows "tracker_sound R (read_tracked p s bounds t) (seen \<union> shown_by p s bounds)"
proof (cases bounds)
  case NoLines
  with assms(2) show ?thesis by (auto simp: read_tracked_def tracker_sound_def)
next
  case WholeFile
  with assms(2) show ?thesis
    by (auto simp: read_tracked_def tracker_sound_def shown_by_def)
next
  case (LineWindow a b)
  with assms(3) have ab: "max 1 a = a" "max a b = b" by auto
  show ?thesis
    using assms(2) LineWindow ab lines_read_mark [where path = p and s = a and e = b, OF set_stamp_ok [OF assms(1), of p s True]]
    by (auto simp: read_tracked_def tracker_sound_def shown_by_def split: if_splits)
qed

lemma read_tracked_ok: "tracker_ok t \<Longrightarrow> tracker_ok (read_tracked p s bounds t)"
  by (cases bounds) (auto simp: read_tracked_def intro: mark_read_ok set_stamp_ok)

lemma window_bounds:
  assumes "read_execute env cwd limit inp d0 d1 = Inr (r, path, stamp, bounds)"
  shows "\<forall>a b. bounds = LineWindow a b \<longrightarrow> 1 \<le> a \<and> a \<le> b"
  using assms by (elim read_execute_parts) (auto simp: window_of_def split: if_splits)

lemma tracker_sound_mono:
  "tracker_sound R t seen \<Longrightarrow> R \<subseteq> R' \<Longrightarrow> seen \<subseteq> seen' \<Longrightarrow> tracker_sound R' t seen'"
  unfolding tracker_sound_def by blast

lemma initial_ok: "workspace_ok (initial_workspace d)"
  using new_tracker_ok
  by (simp add: workspace_ok_def initial_workspace_def known_at_def with_disk_def
      tracker_sound_def is_current_def new_tracker_def)

lemma workspace_okD:
  assumes "workspace_ok w"
  shows "tracker_ok (ws_tracker w)" and "tracker_sound (ws_doubtful w) (ws_tracker w) (ws_seen w)"
    and "p \<notin> ws_doubtful w \<Longrightarrow> known_at p (ws_versions w) (ws_disk w)"
  using assms by (simp_all add: workspace_ok_def)

lemma edit_tracker_sound:
  assumes "tracker_sound R t seen" and "path \<notin> R \<Longrightarrow> is_current path s t"
    and "path \<notin> R \<Longrightarrow> \<forall>l \<ge> 1. (path, s, l) \<in> seen \<Longrightarrow> shown_by path ns WholeFile \<subseteq> seen'" and "seen \<subseteq> seen'"
  shows "tracker_sound R (set_stamp path ns False (invalidate_ranges path t)) seen'"
  unfolding tracker_sound_def
proof (intro allI impI)
  fix p s' l
  assume p: "p \<notin> R" and cur: "is_current p s' (set_stamp path ns False (invalidate_ranges path t))"
    and l: "l \<in> lines_read (set_stamp path ns False (invalidate_ranges path t)) p"
  show "(p, s', l) \<in> seen'"
  proof (cases "p = path")
    case True
    with l have whole: "path \<in> ft_files t" by (simp split: if_splits)
    then have lines: "lines_read t path = {1..}" by (simp add: lines_read_def)
    with tracker_soundD [OF assms(1) _ assms(2)] p True have "\<forall>l \<ge> 1. (path, s, l) \<in> seen" by simp
    with assms(3) p True have "shown_by path ns WholeFile \<subseteq> seen'" by blast
    moreover have "s' = ns" "1 \<le> l" using cur l True lines whole by (simp_all split: if_splits)
    ultimately show ?thesis using True by (auto simp: shown_by_def)
  next
    case False
    with cur l have "is_current p s' t" "l \<in> lines_read t p" by simp_all
    from tracker_soundD [OF assms(1) p this] assms(4) show ?thesis by blast
  qed
qed

text \<open>What an edit that writes found: one and the same version at all three looks.\<close>

lemma edit_found:
  assumes ok: "workspace_ok w"
    and "others (history_of w) (d1, V1, R1)" and "others (d1, V1, R1) (d2, V2, R2)" and "path \<notin> R2"
    and "edit_decision env cwd inp (ws_disk w) d1 d2 (Some (ws_tracker w)) = Inr (path, body)"
  obtains f where "dict_get d2 path = Some f" and "df_text f = Some body"
    and "is_current path (df_stamp f) (ws_tracker w)"
    and "edit_read_check inp path body (ws_tracker w)"
proof -
  from assms(5) obtain f0 f1 where f: "dict_get (ws_disk w) path = Some f0"
    "is_current path (df_stamp f0) (ws_tracker w)" "dict_get d1 path = Some f1"
    "df_text f1 = Some body" "edit_read_check inp path body (ws_tracker w)"
    "file_stamp path d2 = Inr (df_stamp f0)"
    by (rule edit_decision_success)
  from f(6) obtain f2 where f2: "dict_get d2 path = Some f2" "df_stamp f2 = df_stamp f0"
    by (auto simp: file_stamp_def split: option.splits)
  from assms(4) others_grow [OF assms(2)] others_grow [OF assms(3)] workspace_okD(3) [OF ok]
  have "known_at path (ws_versions w) (ws_disk w)" by blast
  from no_change_between [OF assms(2-4) this f(1) f2] f(3) have "f2 = f0" "f1 = f0" by auto
  with f f2 show thesis by (intro that) auto
qed

text \<open>A write that did not race left its own stamp to be found.\<close>

lemma raced_after_cases:
  assumes "written = atomic_write path txt ns d3"
  obtains "raced_after path written d R = R" and "file_stamp path d = Inr ns"
  | "raced_after path written d R = insert path R"
  using that assms
  by (cases "dict_get d path = dict_get written path") (auto simp: raced_after_def atomic_write_def file_stamp_def)

lemma write_tracker_sound:
  assumes "tracker_sound R t seen" and "written = atomic_write path txt ns d3"
    and "t1 = mark_read path None t"
    and "t' = (case file_stamp path d of Inl e \<Rightarrow> t1 | Inr s \<Rightarrow> set_stamp path s False t1)"
  shows "tracker_sound (raced_after path written d R) t' (seen \<union> shown_by path ns WholeFile)"
proof (rule raced_after_cases [OF assms(2), of d R])
  assume "raced_after path written d R = R" and "file_stamp path d = Inr ns"
  with assms show ?thesis by (auto simp: tracker_sound_def shown_by_def)
next
  assume "raced_after path written d R = insert path R"
  with assms show ?thesis
    by (auto simp: tracker_sound_def split: sum.splits)
qed

lemma edit_stamp_sound:
  assumes "tracker_sound R t seen" and "written = atomic_write path txt ns d3"
    and "t1 = invalidate_ranges path t" and "path \<notin> R \<Longrightarrow> is_current path s t"
    and "t' = (case file_stamp path d of Inl e \<Rightarrow> t1 | Inr s \<Rightarrow> set_stamp path s False t1)"
    and "\<forall>l \<ge> 1. (path, s, l) \<in> seen \<Longrightarrow> shown_by path ns WholeFile \<subseteq> seen'" and "seen \<subseteq> seen'"
  shows "tracker_sound (raced_after path written d R) t' seen'"
proof (rule raced_after_cases [OF assms(2), of d R])
  assume "raced_after path written d R = R" and "file_stamp path d = Inr ns"
  with assms edit_tracker_sound [OF assms(1,4,6,7)] show ?thesis by simp
next
  assume "raced_after path written d R = insert path R"
  with assms(1,3,5,7) show ?thesis
    by (auto simp: tracker_sound_def split: sum.splits if_splits)
qed

lemma known_after:
  assumes "\<And>p. p \<notin> R \<Longrightarrow> known_at p V d" and "others (d, V, R) (d', V', R')"
  shows "p \<notin> R' \<Longrightarrow> known_at p V' d'"
  using assms(1) others_known [OF assms(2)] others_grow [OF assms(2)] by blast

lemma others_via:
  "others x y \<Longrightarrow> others_change y z \<Longrightarrow> others z u \<Longrightarrow> others x u"
  by (metis rtranclp.rtrancl_into_rtrancl rtranclp_trans)

lemma workspace_step_ok: "workspace_step w w' \<Longrightarrow> workspace_ok w \<Longrightarrow> workspace_ok w'"
proof (induction rule: workspace_step.induct)
  case (by_others w d V R)
  note ok = workspace_okD [OF by_others(2)]
  from by_others(1) have all: "others (history_of w) (d, V, R)" by blast
  from ok(1) tracker_sound_mono [OF ok(2) others_grow [OF all]] known_after [OF ok(3) all]
  show ?case by (simp add: workspace_ok_def)
next
  case (by_read w d V R env cwd limit inp r path stamp bounds)
  note ok = workspace_okD [OF by_read(3)]
  from read_tracked_sound [OF ok(1) tracker_sound_mono [OF ok(2) others_grow [OF by_read(1)] order_refl] window_bounds [OF by_read(2)]]
    read_tracked_ok [OF ok(1)] known_after [OF ok(3) by_read(1)]
  show ?case by (simp add: workspace_ok_def)
next
  case (by_write w d1 V1 R1 env cwd inp path written ns V2 R2 later V3 R3 d t r)
  let ?t1 = "mark_read path None (ws_tracker w)"
  note ok = workspace_okD [OF by_write(8)]
  note all = others_via [OF by_write(1,5,6)]
  from by_write(2,3,4,7) have d: "d = later written"
    and t: "t = (case file_stamp path d of Inl e \<Rightarrow> ?t1 | Inr s \<Rightarrow> set_stamp path s False ?t1)"
    by (auto simp: write_tool_def Let_def split: sum.splits)
  have "tracker_ok t"
    using t ok(1) by (auto intro: set_stamp_ok mark_read_ok split: sum.split)
  moreover have "known_at p V3 d" if "p \<notin> raced_after path written d R3" for p
    using known_after [OF ok(3) all, of p] that d by (auto simp: raced_after_def split: if_splits)
  ultimately show ?case
    using write_tracker_sound [OF tracker_sound_mono [OF ok(2) others_grow [OF all] order_refl] by_write(4) refl t]
    by (simp add: workspace_ok_def)
next
  case (by_edit w d1 V1 R1 d2 V2 R2 d3 V3 R3 env cwd inp path body f written ns V4 R4 later V5 R5 d t r)
  let ?t1 = "invalidate_ranges path (ws_tracker w)"
  let ?seen = "ws_seen w \<union> (if all_seen path (df_stamp f) w then shown_by path ns WholeFile else {})"
  note ok = workspace_okD [OF by_edit(10)]
  note rest = others_via [OF by_edit(3,7,8)]
  have all: "others (history_of w) (later written, V5, R5)"
    using rtranclp_trans [OF by_edit(1) rtranclp_trans [OF by_edit(2) rest]] .
  have current: "is_current path (df_stamp f) (ws_tracker w)" if "path \<notin> R5"
  proof -
    from that others_grow [OF rest] have "path \<notin> R2" by blast
    from edit_found [OF by_edit(10,1,2) this by_edit(4)] by_edit(5) show ?thesis by auto
  qed
  from by_edit(4,6,9) have d: "d = later written"
    and t: "t = (case file_stamp path d of Inl e \<Rightarrow> ?t1 | Inr s \<Rightarrow> set_stamp path s False ?t1)"
    by (auto simp: edit_tool_def Let_def split: sum.splits)
  have "tracker_ok t"
    using t ok(1) by (auto intro: set_stamp_ok invalidate_ok split: sum.split)
  moreover have "known_at p V5 d" if "p \<notin> raced_after path written d R5" for p
    using known_after [OF ok(3) all, of p] that d by (auto simp: raced_after_def split: if_splits)
  moreover have "tracker_sound (raced_after path written d R5) t ?seen"
    by (rule edit_stamp_sound [OF tracker_sound_mono [OF ok(2) others_grow [OF all] order_refl]
          by_edit(6) refl current t]) (auto simp: all_seen_def)
  ultimately show ?case by (simp add: workspace_ok_def)
next
  case (by_clear w)
  then show ?case
    using initial_ok [of "ws_disk w"]
    by (auto simp: workspace_ok_def initial_workspace_def tracker_clear_def tracker_sound_def
        is_current_def new_tracker_def)
next
  case (by_restart w)
  then have "tracker_ok (ws_tracker w)" by (simp add: workspace_ok_def)
  note r = restart_tracker [OF this]
  from by_restart r(1) show ?case
    using r(2,3) by (fastforce simp: workspace_ok_def tracker_sound_def)
qed

lemma workspace_reachable_ok:
  "workspace_step\<^sup>*\<^sup>* (initial_workspace d) w \<Longrightarrow> workspace_ok w"
  by (induction rule: rtranclp_induct) (auto intro: workspace_step_ok initial_ok)

section \<open>No blind overwrite\<close>

text \<open>
  C21: Edits are not blind. Whatever reads, writes and edits an agent performs, however its
  tracker is cleared by compactions or rebuilt by restarts, and whatever others do to the files
  before, after and between the looks of a tool: when the Edit tool reports success on a path that
  is not doubtful, the text it replaced is that of the version the file had at its last test before
  the write, and every line holding a replaced character was shown to the agent, or written by it,
  in exactly that version. A path is doubtful when one of its changes showed a stamp that it had
  had before, or when others changed it between a write of the tools and the look at the new stamp.
  A change by others between the last test and the write is overwritten.
\<close>

theorem edits_replace_only_seen_lines:
  assumes "workspace_step\<^sup>*\<^sup>* (initial_workspace d0) w"
    and "others (history_of w) (d1, V1, R1)" and "others (d1, V1, R1) (d2, V2, R2)"
    and "edit_tool env cwd inp ns (ws_disk w) d1 d2 d3 later (Some (ws_tracker w)) = (d, Some t, Inr r)"
    and "\<not> tr_is_error r" and "resolve_under env cwd (ei_file_path inp) = Inr path"
    and "path \<notin> R2"
  shows "\<exists>f body. dict_get d2 path = Some f \<and> df_text f = Some body
    \<and> d = later (atomic_write path (edited_text inp body) ns d3)
    \<and> (\<forall>m \<in> set (replaced_starts inp body). \<forall>k < length (ei_old inp).
         (path, df_stamp f, line_of body (m + k)) \<in> ws_seen w)"
proof -
  note ok = workspace_reachable_ok [OF assms(1)]
  note t = workspace_okD [OF ok]
  from assms(4,5) obtain path' body where decided:
    "edit_decision env cwd inp (ws_disk w) d1 d2 (Some (ws_tracker w)) = Inr (path', body)"
    and d: "d = later (atomic_write path' (edited_text inp body) ns d3)"
    by (rule edit_tool_success)
  from decided assms(6) have path: "path' = path"
    by (auto simp: edit_decision_def Let_def split: sum.splits option.splits if_splits)
  from edit_found [OF ok assms(2,3,7) decided [unfolded path]] obtain f where
    found: "dict_get d2 path = Some f"
    "df_text f = Some body" "is_current path (df_stamp f) (ws_tracker w)"
    "edit_read_check inp path body (ws_tracker w)"
    by blast
  from assms(7) others_grow [OF assms(2)] others_grow [OF assms(3)] have "path \<notin> ws_doubtful w" by blast
  from tracker_soundD [OF t(2) this found(3)] edit_check_covers [OF t(1) found(4)]
  have "(path, df_stamp f, line_of body (m + k)) \<in> ws_seen w"
    if "m \<in> set (replaced_starts inp body)" and "k < length (ei_old inp)" for m k
    using that by blast
  with found d [unfolded path] show ?thesis by blast
qed

text \<open>A write over an existing file needs the whole current version to have been seen.\<close>

lemma writes_replace_only_seen_files:
  assumes "workspace_step\<^sup>*\<^sup>* (initial_workspace d0) w"
    and "write_allowed path (ws_disk w) (Some (ws_tracker w))"
    and "dict_get (ws_disk w) path = Some f" and "path \<notin> ws_doubtful w"
  shows "all_seen path (df_stamp f) w"
proof -
  from assms(2,3) have "path \<in> ft_files (ws_tracker w)" and "is_current path (df_stamp f) (ws_tracker w)"
    by (auto simp: write_allowed_def has_read_def)
  moreover from workspace_reachable_ok [OF assms(1)] have "tracker_sound (ws_doubtful w) (ws_tracker w) (ws_seen w)"
    by (simp add: workspace_ok_def)
  ultimately show ?thesis
    unfolding all_seen_def using assms(4) by (metis atLeast_iff lines_read_def tracker_soundD)
qed

section \<open>A concrete workspace\<close>

definition plain_paths :: path_env where
  "plain_paths = \<lparr>pe_base = (\<lambda>c. c), pe_target = (\<lambda>b p. b @ ''/'' @ p)\<rparr>"

definition disk_example :: disk where
  "disk_example = [(''/w/a'', \<lparr>df_text = Some (''x'' @ [CHR 0x0A] @ ''y''), df_stamp = (1, 3), df_length = 3\<rparr>)]"

definition read_example :: read_input where
  "read_example = \<lparr>ri_file_path = ''a'', ri_offset = Some 2, ri_limit = None\<rparr>"

definition edit_example :: edit_input where
  "edit_example = \<lparr>ei_file_path = ''a'', ei_old = ''y'', ei_new = ''z'', ei_replace_all = False\<rparr>"

definition workspace_read :: workspace where
  "workspace_read = (initial_workspace disk_example)\<lparr>
     ws_tracker := read_tracked ''/w/a'' (1, 3) (LineWindow 2 2) new_tracker,
     ws_seen := shown_by ''/w/a'' (1, 3) (LineWindow 2 2)\<rparr>"

lemmas workspace_example_defs = plain_paths_def disk_example_def read_example_def edit_example_def
  resolve_under_def path_inside_def rstrip_char_def

lemma example_read:
  "\<exists>r. read_execute plain_paths ''/w'' 100 read_example disk_example disk_example
     = Inr (r, ''/w/a'', (1, 3), LineWindow 2 2)"
  by (simp add: workspace_example_defs read_execute_def read_bytes_checked_def file_stamp_def
      read_window_def window_of_def Let_def)

lemma workspace_read_reached:
  "workspace_step\<^sup>*\<^sup>* (initial_workspace disk_example) workspace_read"
proof (rule r_into_rtranclp)
  obtain r where "read_execute plain_paths ''/w'' 100 read_example disk_example disk_example
      = Inr (r, ''/w/a'', (1, 3), LineWindow 2 2)"
    using example_read by blast
  with by_read [of "initial_workspace disk_example" disk_example
      "ws_versions (initial_workspace disk_example)" "{}" plain_paths "''/w''" 100 read_example r
      "''/w/a''" "(1, 3)" "LineWindow 2 2"]
  show "workspace_step (initial_workspace disk_example) workspace_read"
    by (simp add: workspace_read_def initial_workspace_def)
qed

lemma example_edit:
  "\<exists>d t r. edit_tool plain_paths ''/w'' edit_example (2, 3) disk_example disk_example disk_example disk_example (\<lambda>x. x)
     (Some (ws_tracker workspace_read)) = (d, Some t, Inr r) \<and> \<not> tr_is_error r"
  by (simp add: edit_tool_def edit_decision_def atomic_write_def edited_text_def workspace_example_defs workspace_read_def read_tracked_def mark_read_def
      set_stamp_def is_current_def new_tracker_def invalidate_ranges_def ranges_of_def merge_ranges_def
      edit_read_check_def match_starts_def matches_from.simps has_read_range_def match_lines_def
      newlines_def endswith_def py_count_def occurrences.simps file_stamp_def tool_reply_def Let_def)

theorem edits_replace_only_seen_lines_witness:
  "\<exists>f body. dict_get disk_example ''/w/a'' = Some f \<and> df_text f = Some body
    \<and> (\<forall>m \<in> set (replaced_starts edit_example body). \<forall>k < length (ei_old edit_example).
         (''/w/a'', df_stamp f, line_of body (m + k)) \<in> ws_seen workspace_read)"
proof -
  have disk: "ws_disk workspace_read = disk_example"
    by (simp add: workspace_read_def initial_workspace_def)
  have path: "resolve_under plain_paths ''/w'' (ei_file_path edit_example) = Inr ''/w/a''"
    by (simp add: workspace_example_defs)
  from example_edit obtain d t r where
    "edit_tool plain_paths ''/w'' edit_example (2, 3) (ws_disk workspace_read) disk_example disk_example disk_example (\<lambda>x. x)
       (Some (ws_tracker workspace_read)) = (d, Some t, Inr r)" and "\<not> tr_is_error r"
    unfolding disk by blast
  from edits_replace_only_seen_lines [OF workspace_read_reached _ rtranclp.rtrancl_refl this path, of "ws_versions workspace_read" "ws_doubtful workspace_read"]
  show ?thesis unfolding disk by (simp add: workspace_read_def initial_workspace_def) blast
qed

end
