(* ===== verification/Event_Buffer.thy ===== *)
theory Event_Buffer
  imports Run_Store
begin

text \<open>
  \<^verbatim>\<open>RunEventBuffer\<close> of \<^verbatim>\<open>src/linch/loop/checkpoint.py\<close>: the group commit of a run. Events and
  checkpoints are held in memory until a barrier writes them to the run store in one call. The
  write is awaited, so other tasks append events and defer checkpoints while it is under way;
  each method is therefore two functions, the part before its \<^verbatim>\<open>await\<close> and the part after it. The
  store is the in-memory one, which does not yield between performing a write and returning.
  A buffer without a store is inert and has no counterpart, nor has the loop over
  \<^verbatim>\<open>append_event\<close> for stores without \<^verbatim>\<open>append_events\<close>.
\<close>

section \<open>The buffer\<close>

text \<open>
  The code tells a held checkpoint from a newer one by object identity. Here each copy that is
  held carries the number of its object; \<open>eb_objects\<close> is the next one.
\<close>

type_synonym held_checkpoint = "nat \<times> run_checkpoint"

record 'e event_buffer =
  eb_run_id :: string
  eb_lease :: "run_lease option"
  eb_pending :: "'e list"
  eb_last_seq :: int
  eb_write_failed :: bool
  eb_dirty :: "held_checkpoint option"
  eb_dirty_covers :: nat
  eb_objects :: nat

definition new_event_buffer :: "string \<Rightarrow> run_lease option \<Rightarrow> int \<Rightarrow> 'e event_buffer" where
  "new_event_buffer rid lease initial_seq =
     \<lparr>eb_run_id = rid, eb_lease = lease, eb_pending = [], eb_last_seq = max 0 initial_seq,
      eb_write_failed = False, eb_dirty = None, eb_dirty_covers = 0, eb_objects = 0\<rparr>"

definition buffer_append :: "'e \<Rightarrow> 'e event_buffer \<Rightarrow> 'e event_buffer" where
  "buffer_append e b = b\<lparr>eb_pending := eb_pending b @ [e]\<rparr>"

definition defer_checkpoint ::
  "'e codecs \<Rightarrow> run_checkpoint \<Rightarrow> 'e event_buffer \<Rightarrow> 'e event_buffer \<times> unit result" where
  "defer_checkpoint cd cp b = (case cd_checkpoint cd cp of
       Inl e \<Rightarrow> (b, Inl e)
     | Inr copy \<Rightarrow>
       (b\<lparr>eb_dirty := Some (eb_objects b, copy), eb_objects := eb_objects b + 1,
          eb_dirty_covers := length (eb_pending b)\<rparr>, Inr ()))"

section \<open>Writes\<close>

text \<open>The local variables of a method that waits for the store.\<close>

datatype 'e in_flight =
    CommitWrite "held_checkpoint option" "'e list" run_checkpoint string "json_obj option"
  | AppendWrite "'e list"

text \<open>\<^verbatim>\<open>_commit\<close> up to its \<^verbatim>\<open>await\<close>; no write means that it returned early.\<close>

definition begin_commit ::
  "run_checkpoint \<Rightarrow> nat option \<Rightarrow> string \<Rightarrow> json_obj option \<Rightarrow> 'e event_buffer
   \<Rightarrow> 'e event_buffer \<times> 'e in_flight option" where
  "begin_commit cp count status err b =
     (if eb_pending b = [] \<and> status = ''running'' \<and> eb_dirty b = None then (b, None)
      else let split = (case count of None \<Rightarrow> length (eb_pending b) | Some n \<Rightarrow> n)
           in (b\<lparr>eb_pending := drop split (eb_pending b)\<rparr>,
               Some (CommitWrite (eb_dirty b) (take split (eb_pending b)) cp status err)))"

definition begin_flush_with_checkpoint ::
  "run_checkpoint \<Rightarrow> string \<Rightarrow> json_obj option \<Rightarrow> 'e event_buffer
   \<Rightarrow> 'e event_buffer \<times> 'e in_flight option" where
  "begin_flush_with_checkpoint cp status err b = begin_commit cp None status err b"

definition begin_flush_checkpoint :: "'e event_buffer \<Rightarrow> 'e event_buffer \<times> 'e in_flight option" where
  "begin_flush_checkpoint b = (case eb_dirty b of
       None \<Rightarrow> (b, None)
     | Some (n, cp) \<Rightarrow>
       if eb_write_failed b then (b, None)
       else begin_commit cp (Some (eb_dirty_covers b)) ''running'' None b)"

definition begin_flush :: "'e event_buffer \<Rightarrow> 'e event_buffer \<times> 'e in_flight option" where
  "begin_flush b =
     (if eb_write_failed b then (b, None)
      else case eb_dirty b of
        Some (n, cp) \<Rightarrow> begin_commit cp None ''running'' None b
      | None \<Rightarrow>
        if eb_pending b = [] then (b, None)
        else (b\<lparr>eb_pending := []\<rparr>, Some (AppendWrite (eb_pending b))))"

definition store_write ::
  "'e codecs \<Rightarrow> 'e event_buffer \<Rightarrow> 'e in_flight \<Rightarrow> string \<Rightarrow> 'e run_store
   \<Rightarrow> 'e run_store \<times> int list result" where
  "store_write cd b fl ts st = (case fl of
       CommitWrite held es cp status err \<Rightarrow>
         if status = ''failed'' then mark_failed cd (eb_run_id b) (Some cp) err es (eb_lease b) ts st
         else save_checkpoint_with_events cd (eb_run_id b) cp es status (eb_lease b) ts st
     | AppendWrite es \<Rightarrow> append_events cd (eb_run_id b) es (eb_lease b) ts st)"

text \<open>The part after the \<^verbatim>\<open>await\<close>, when the write returned or raised.\<close>

definition finish_write :: "'e in_flight \<Rightarrow> int list result \<Rightarrow> 'e event_buffer \<Rightarrow> 'e event_buffer" where
  "finish_write fl outcome b = (case fl of
       CommitWrite held es cp status err \<Rightarrow>
         (case outcome of
            Inl e \<Rightarrow> b\<lparr>eb_pending := es @ eb_pending b, eb_write_failed := True\<rparr>
          | Inr seqs \<Rightarrow>
            b\<lparr>eb_write_failed := False,
              eb_dirty := (if map_option fst (eb_dirty b) = map_option fst held then None else eb_dirty b),
              eb_last_seq := fold max seqs (eb_last_seq b)\<rparr>)
     | AppendWrite es \<Rightarrow>
         (case outcome of
            Inl e \<Rightarrow> b\<lparr>eb_pending := es @ eb_pending b\<rparr>
          | Inr seqs \<Rightarrow> b\<lparr>eb_last_seq := fold max seqs (eb_last_seq b)\<rparr>))"

fun written_events :: "'e in_flight option \<Rightarrow> 'e list" where
  "written_events None = []"
| "written_events (Some (CommitWrite held es cp status err)) = es"
| "written_events (Some (AppendWrite es)) = es"

section \<open>Interleavings\<close>

text \<open>
  The buffer of a run, the write that holds its lock, and the store. Two ghosts record what was
  asked of the buffer: every event, and the checkpoint deferred last with the events recorded by
  then.
\<close>

record 'e run_io =
  io_buffer :: "'e event_buffer"
  io_flight :: "'e in_flight option"
  io_store :: "'e run_store"
  io_log :: "'e list"
  io_held :: "(run_checkpoint \<times> 'e list) option"

definition run_io_start :: "string \<Rightarrow> run_lease option \<Rightarrow> int \<Rightarrow> 'e run_store \<Rightarrow> 'e run_io" where
  "run_io_start rid lease seq st =
     \<lparr>io_buffer = new_event_buffer rid lease seq, io_flight = None, io_store = st, io_log = [],
      io_held = None\<rparr>"

text \<open>
  A write that fails was refused by the store or cancelled before it reached the store. With
  \<open>orderly\<close>, no checkpoint is deferred while a write of bare events is under way that then fails.
  Others may do anything to the store but write to the event log of this run.
\<close>

inductive io_step :: "'e codecs \<Rightarrow> bool \<Rightarrow> 'e run_io \<Rightarrow> 'e run_io \<Rightarrow> bool"
  for cd :: "'e codecs" and orderly :: bool where
  io_append:
    "io_step cd orderly c
       (c\<lparr>io_buffer := buffer_append e (io_buffer c), io_log := io_log c @ [e]\<rparr>)"
| io_defer:
    "defer_checkpoint cd cp (io_buffer c) = (b, Inr ()) \<Longrightarrow>
     cd_checkpoint cd cp = Inr copy \<Longrightarrow>
     io_step cd orderly c (c\<lparr>io_buffer := b, io_held := Some (copy, io_log c)\<rparr>)"
| io_flush_with:
    "io_flight c = None \<Longrightarrow> begin_flush_with_checkpoint cp status err (io_buffer c) = (b, fl) \<Longrightarrow>
     io_step cd orderly c (c\<lparr>io_buffer := b, io_flight := fl\<rparr>)"
| io_flush_checkpoint:
    "io_flight c = None \<Longrightarrow> begin_flush_checkpoint (io_buffer c) = (b, fl) \<Longrightarrow>
     io_step cd orderly c (c\<lparr>io_buffer := b, io_flight := fl\<rparr>)"
| io_flush:
    "io_flight c = None \<Longrightarrow> begin_flush (io_buffer c) = (b, fl) \<Longrightarrow>
     io_step cd orderly c (c\<lparr>io_buffer := b, io_flight := fl\<rparr>)"
| io_written:
    "io_flight c = Some fl \<Longrightarrow> store_write cd (io_buffer c) fl ts (io_store c) = (st', Inr seqs) \<Longrightarrow>
     io_step cd orderly c
       (c\<lparr>io_buffer := finish_write fl (Inr seqs) (io_buffer c), io_flight := None, io_store := st'\<rparr>)"
| io_failed:
    "io_flight c = Some fl \<Longrightarrow>
     st' = io_store c \<or> store_write cd (io_buffer c) fl ts (io_store c) = (st', Inl e) \<Longrightarrow>
     orderly \<longrightarrow> (\<forall>es. fl = AppendWrite es \<longrightarrow> eb_dirty (io_buffer c) = None) \<Longrightarrow>
     io_step cd orderly c
       (c\<lparr>io_buffer := finish_write fl (Inl e) (io_buffer c), io_flight := None, io_store := st'\<rparr>)"
| io_other:
    "event_bucket st' (eb_run_id (io_buffer c)) = event_bucket (io_store c) (eb_run_id (io_buffer c)) \<Longrightarrow>
     io_step cd orderly c (c\<lparr>io_store := st'\<rparr>)"

section \<open>Every event reaches the log once and in order\<close>

lemmas buffer_defs =
  buffer_append_def defer_checkpoint_def begin_commit_def begin_flush_with_checkpoint_def
  begin_flush_checkpoint_def begin_flush_def finish_write_def

lemmas buffer_splits = sum.splits option.splits if_splits in_flight.splits prod.splits

lemma begin_commit_events:
  "begin_commit cp count status err b = (b', fl) \<Longrightarrow> written_events fl @ eb_pending b' = eb_pending b"
  by (auto simp: begin_commit_def Let_def split: if_splits)

lemma begin_flush_events:
  "begin_flush b = (b', fl) \<Longrightarrow> written_events fl @ eb_pending b' = eb_pending b"
  by (auto simp: begin_flush_def dest: begin_commit_events split: if_splits option.splits)

lemma begin_flush_checkpoint_events:
  "begin_flush_checkpoint b = (b', fl) \<Longrightarrow> written_events fl @ eb_pending b' = eb_pending b"
  by (auto simp: begin_flush_checkpoint_def dest: begin_commit_events split: if_splits option.splits)

lemma begin_frame:
  "begin_commit cp count status err b = (b', fl) \<Longrightarrow> eb_run_id b' = eb_run_id b \<and> eb_dirty b' = eb_dirty b
     \<and> eb_write_failed b' = eb_write_failed b \<and> eb_objects b' = eb_objects b \<and> eb_lease b' = eb_lease b"
  "begin_flush b = (b', fl) \<Longrightarrow> eb_run_id b' = eb_run_id b \<and> eb_dirty b' = eb_dirty b
     \<and> eb_write_failed b' = eb_write_failed b \<and> eb_objects b' = eb_objects b \<and> eb_lease b' = eb_lease b"
  "begin_flush_checkpoint b = (b', fl) \<Longrightarrow> eb_run_id b' = eb_run_id b \<and> eb_dirty b' = eb_dirty b
     \<and> eb_write_failed b' = eb_write_failed b \<and> eb_objects b' = eb_objects b \<and> eb_lease b' = eb_lease b"
  by (auto simp: begin_commit_def begin_flush_def begin_flush_checkpoint_def Let_def
      split: if_splits option.splits)

lemma finish_write_frame [simp]:
  "eb_run_id (finish_write fl r b) = eb_run_id b"
  by (simp add: finish_write_def split: in_flight.splits sum.splits)

lemma finish_write_pending:
  "eb_pending (finish_write fl (Inr seqs) b) = eb_pending b"
  "eb_pending (finish_write fl (Inl e) b) = written_events (Some fl) @ eb_pending b"
  by (simp_all add: finish_write_def split: in_flight.splits)

lemma event_bucket_runs [simp]: "event_bucket (st\<lparr>st_runs := rs\<rparr>) rid = event_bucket st rid"
  by (simp add: event_bucket_def)

text \<open>A write that returns has added the copies of its events to the log, one that raises nothing.\<close>

lemma store_write_bucket:
  assumes "store_write cd b fl ts st = (st', r)"
  shows "case r of
      Inl e \<Rightarrow> event_bucket st' (eb_run_id b) = event_bucket st (eb_run_id b)
    | Inr seqs \<Rightarrow> \<exists>copies. map_result (cd_event cd) (written_events (Some fl)) = Inr copies
        \<and> map se_event (event_bucket st' (eb_run_id b)) = map se_event (event_bucket st (eb_run_id b)) @ copies"
proof (cases fl)
  case (CommitWrite held es cp status err)
  with assms show ?thesis
    by (auto simp: store_write_def mark_failed_def save_checkpoint_with_events_def Let_def
        event_bucket_extend map_stamp_events split: sum.splits option.splits if_splits)
next
  case (AppendWrite es)
  with assms show ?thesis
    by (auto simp: store_write_def append_events_def event_bucket_extend map_stamp_events
        split: sum.splits if_splits)
qed

definition log_inv :: "'e codecs \<Rightarrow> 'e list \<Rightarrow> 'e run_io \<Rightarrow> 'e list \<Rightarrow> bool" where
  "log_inv cd old c written \<longleftrightarrow>
     io_log c = written @ written_events (io_flight c) @ eb_pending (io_buffer c)
     \<and> (\<exists>copies. map_result (cd_event cd) written = Inr copies
          \<and> map se_event (event_bucket (io_store c) (eb_run_id (io_buffer c))) = old @ copies)"

lemma io_step_run_id: "io_step cd orderly c c' \<Longrightarrow> eb_run_id (io_buffer c') = eb_run_id (io_buffer c)"
  by (induction rule: io_step.induct)
    (auto simp: buffer_append_def defer_checkpoint_def begin_flush_with_checkpoint_def
      dest: begin_frame split: sum.splits)

section \<open>A held checkpoint lands with its events\<close>

definition covered :: "'e event_buffer \<Rightarrow> 'e list \<Rightarrow> 'e list \<Rightarrow> bool" where
  "covered b gone logged \<longleftrightarrow>
     eb_dirty_covers b \<le> length (eb_pending b) \<and> gone @ take (eb_dirty_covers b) (eb_pending b) = logged"

definition flight_ok :: "'e run_io \<Rightarrow> bool" where
  "flight_ok c = (case io_flight c of
       Some (CommitWrite (Some (m, cp)) es cp' status err) \<Rightarrow> m < eb_objects (io_buffer c)
     | _ \<Rightarrow> True)"

fun lands :: "'e in_flight option \<Rightarrow> 'e event_buffer \<Rightarrow> nat \<Rightarrow> 'e list \<Rightarrow> 'e list \<Rightarrow> bool" where
  "lands None b n written logged \<longleftrightarrow> eb_write_failed b \<or> covered b written logged"
| "lands (Some (AppendWrite es)) b n written logged \<longleftrightarrow> covered b (written @ es) logged"
| "lands (Some (CommitWrite held es cp status err)) b n written logged \<longleftrightarrow>
     map_option fst held = Some n \<or> covered b (written @ es) logged"

definition held_ok :: "'e run_io \<Rightarrow> 'e list \<Rightarrow> bool" where
  "held_ok c written \<longleftrightarrow> (\<forall>n cp. eb_dirty (io_buffer c) = Some (n, cp) \<longrightarrow>
     n < eb_objects (io_buffer c)
     \<and> (\<exists>logged. io_held c = Some (cp, logged)
          \<and> lands (io_flight c) (io_buffer c) n written logged))"

definition io_inv :: "'e codecs \<Rightarrow> bool \<Rightarrow> 'e list \<Rightarrow> 'e run_io \<Rightarrow> 'e list \<Rightarrow> bool" where
  "io_inv cd orderly old c written \<longleftrightarrow>
     log_inv cd old c written \<and> (orderly \<longrightarrow> flight_ok c \<and> held_ok c written)"

lemmas cover_defs = flight_ok_def held_ok_def

lemma cover_begin_commit:
  assumes "io_flight c = None" and "begin_commit cp count status err (io_buffer c) = (b, fl)"
    and "held_ok c written"
  shows "flight_ok (c\<lparr>io_buffer := b, io_flight := fl\<rparr>) \<and> held_ok (c\<lparr>io_buffer := b, io_flight := fl\<rparr>) written"
  using assms
  by (auto simp: begin_commit_def cover_defs Let_def split: if_splits option.splits)

lemma cover_begin_flush:
  assumes "io_flight c = None" and "begin_flush (io_buffer c) = (b, fl)" and "held_ok c written"
  shows "flight_ok (c\<lparr>io_buffer := b, io_flight := fl\<rparr>) \<and> held_ok (c\<lparr>io_buffer := b, io_flight := fl\<rparr>) written"
proof (cases "eb_dirty (io_buffer c)")
  case None
  with assms show ?thesis by (auto simp: begin_flush_def cover_defs split: if_splits)
next
  case (Some d)
  with assms cover_begin_commit [OF assms(1) _ assms(3)] show ?thesis
    by (cases d) (auto simp: begin_flush_def cover_defs split: if_splits)
qed

lemma cover_begin_flush_checkpoint:
  assumes "io_flight c = None" and "begin_flush_checkpoint (io_buffer c) = (b, fl)" and "held_ok c written"
  shows "flight_ok (c\<lparr>io_buffer := b, io_flight := fl\<rparr>) \<and> held_ok (c\<lparr>io_buffer := b, io_flight := fl\<rparr>) written"
proof (cases "eb_dirty (io_buffer c)")
  case None
  with assms show ?thesis by (auto simp: begin_flush_checkpoint_def cover_defs)
next
  case (Some d)
  with assms cover_begin_commit [OF assms(1) _ assms(3)] show ?thesis
    by (cases d) (auto simp: begin_flush_checkpoint_def cover_defs split: if_splits)
qed

lemma cover_finish_ok:
  assumes "io_flight c = Some fl" and "held_ok c written"
  shows "held_ok (c\<lparr>io_buffer := finish_write fl (Inr seqs) (io_buffer c), io_flight := None,
      io_store := st'\<rparr>) (written @ written_events (Some fl))"
  using assms
  by (cases fl) (fastforce simp: finish_write_def cover_defs covered_def split: if_splits)+

lemma cover_finish_failed:
  assumes "io_flight c = Some fl" and "held_ok c written"
    and "\<forall>es. fl = AppendWrite es \<longrightarrow> eb_dirty (io_buffer c) = None"
  shows "held_ok (c\<lparr>io_buffer := finish_write fl (Inl e) (io_buffer c), io_flight := None,
      io_store := st'\<rparr>) written"
  using assms
  by (cases fl) (auto simp: finish_write_def cover_defs)

lemma covered_append: "covered b gone logged \<Longrightarrow> covered (buffer_append e b) gone logged"
  by (auto simp: covered_def buffer_append_def)

lemma lands_append:
  "lands fl b n written logged \<Longrightarrow> lands fl (buffer_append e b) n written logged"
  by (induction fl b n written logged rule: lands.induct)
    (auto intro: covered_append simp: buffer_append_def covered_def)

lemma cover_append:
  "flight_ok c \<Longrightarrow> flight_ok (c\<lparr>io_buffer := buffer_append e (io_buffer c), io_log := l\<rparr>)"
  "held_ok c written \<Longrightarrow> held_ok (c\<lparr>io_buffer := buffer_append e (io_buffer c), io_log := l\<rparr>) written"
  by (auto simp: flight_ok_def buffer_append_def split: option.splits in_flight.splits)
    (use lands_append [of _ "io_buffer c"] in \<open>fastforce simp: held_ok_def buffer_append_def\<close>)

lemma cover_defer:
  assumes "defer_checkpoint cd cp (io_buffer c) = (b, Inr ())" and "cd_checkpoint cd cp = Inr copy"
    and "flight_ok c" and "log_inv cd old c written"
  shows "flight_ok (c\<lparr>io_buffer := b, io_held := Some (copy, io_log c)\<rparr>)
       \<and> held_ok (c\<lparr>io_buffer := b, io_held := Some (copy, io_log c)\<rparr>) written"
proof (cases "io_flight c")
  case None
  with assms show ?thesis by (auto simp: defer_checkpoint_def cover_defs covered_def log_inv_def)
next
  case (Some fl)
  with assms show ?thesis
    by (cases fl) (auto simp: defer_checkpoint_def cover_defs covered_def log_inv_def split: option.splits)
qed

lemma cover_store [simp]:
  "flight_ok (c\<lparr>io_store := st'\<rparr>) = flight_ok c"
  "held_ok (c\<lparr>io_store := st'\<rparr>) written = held_ok c written"
  by (auto simp: cover_defs split: option.splits in_flight.splits)

lemma io_step_inv:
  assumes "io_step cd orderly c c'" and "io_inv cd orderly old c written"
  shows "\<exists>written'. io_inv cd orderly old c' written'"
  using assms
proof (induction rule: io_step.induct)
  case (io_append c e)
  let ?c = "c\<lparr>io_buffer := buffer_append e (io_buffer c), io_log := io_log c @ [e]\<rparr>"
  from io_append have "log_inv cd old ?c written"
    by (auto simp: io_inv_def log_inv_def buffer_append_def)
  with io_append cover_append [of c] show ?case unfolding io_inv_def by blast
next
  case (io_defer cp c b copy)
  then have "log_inv cd old (c\<lparr>io_buffer := b, io_held := Some (copy, io_log c)\<rparr>) written"
    by (auto simp: io_inv_def log_inv_def defer_checkpoint_def split: sum.splits)
  moreover have "orderly \<Longrightarrow> flight_ok (c\<lparr>io_buffer := b, io_held := Some (copy, io_log c)\<rparr>)
      \<and> held_ok (c\<lparr>io_buffer := b, io_held := Some (copy, io_log c)\<rparr>) written"
    using cover_defer [OF io_defer(1,2)] io_defer(3) by (auto simp: io_inv_def)
  ultimately show ?case by (auto simp: io_inv_def)
next
  case (io_flush_with c cp status err b fl)
  then have "log_inv cd old (c\<lparr>io_buffer := b, io_flight := fl\<rparr>) written"
    using begin_commit_events [of cp None status err "io_buffer c"] begin_frame(1)
    by (fastforce simp: io_inv_def log_inv_def begin_flush_with_checkpoint_def)
  with io_flush_with cover_begin_commit [of c cp None status err b fl written] show ?case
    by (auto simp: io_inv_def begin_flush_with_checkpoint_def)
next
  case (io_flush_checkpoint c b fl)
  then have "log_inv cd old (c\<lparr>io_buffer := b, io_flight := fl\<rparr>) written"
    using begin_flush_checkpoint_events [of "io_buffer c"] begin_frame(3)
    by (fastforce simp: io_inv_def log_inv_def)
  with io_flush_checkpoint cover_begin_flush_checkpoint [of c b fl written] show ?case
    by (auto simp: io_inv_def)
next
  case (io_flush c b fl)
  then have "log_inv cd old (c\<lparr>io_buffer := b, io_flight := fl\<rparr>) written"
    using begin_flush_events [of "io_buffer c"] begin_frame(2)
    by (fastforce simp: io_inv_def log_inv_def)
  with io_flush cover_begin_flush [of c b fl written] show ?case by (auto simp: io_inv_def)
next
  case (io_written c fl ts st' seqs)
  let ?c = "c\<lparr>io_buffer := finish_write fl (Inr seqs) (io_buffer c), io_flight := None, io_store := st'\<rparr>"
  from store_write_bucket [OF io_written(2)] obtain copies
    where copies: "map_result (cd_event cd) (written_events (Some fl)) = Inr copies"
      and bucket: "map se_event (event_bucket st' (eb_run_id (io_buffer c)))
        = map se_event (event_bucket (io_store c) (eb_run_id (io_buffer c))) @ copies" by auto
  from io_written(3) obtain before where "map_result (cd_event cd) written = Inr before"
    "map se_event (event_bucket (io_store c) (eb_run_id (io_buffer c))) = old @ before"
    by (auto simp: io_inv_def log_inv_def)
  with copies bucket io_written(1,3) have "log_inv cd old ?c (written @ written_events (Some fl))"
    by (simp add: io_inv_def log_inv_def finish_write_pending map_result_append_iff)
  moreover have "orderly \<longrightarrow> flight_ok ?c \<and> held_ok ?c (written @ written_events (Some fl))"
    using io_written(1,3) cover_finish_ok [of c fl written st' seqs]
    by (auto simp: io_inv_def flight_ok_def)
  ultimately show ?case by (auto simp: io_inv_def)
next
  case (io_failed c fl st' ts e)
  let ?c = "c\<lparr>io_buffer := finish_write fl (Inl e) (io_buffer c), io_flight := None, io_store := st'\<rparr>"
  have "event_bucket st' (eb_run_id (io_buffer c)) = event_bucket (io_store c) (eb_run_id (io_buffer c))"
    using io_failed(2) store_write_bucket by fastforce
  with io_failed(1,4) have "log_inv cd old ?c written"
    by (auto simp: io_inv_def log_inv_def finish_write_pending)
  moreover have "orderly \<longrightarrow> flight_ok ?c \<and> held_ok ?c written"
    using io_failed(1,3,4) cover_finish_failed [of c fl written st' e]
    by (auto simp: io_inv_def flight_ok_def)
  ultimately show ?case by (auto simp: io_inv_def)
next
  case (io_other st' c)
  then show ?case by (auto simp: io_inv_def log_inv_def)
qed

lemma io_steps_inv:
  assumes "(io_step cd orderly)\<^sup>*\<^sup>* (run_io_start rid lease seq st) c"
  shows "eb_run_id (io_buffer c) = rid
       \<and> (\<exists>written. io_inv cd orderly (map se_event (event_bucket st rid)) c written)"
  using assms
proof (induction rule: rtranclp_induct)
  case base
  then show ?case
    by (auto simp: io_inv_def log_inv_def cover_defs run_io_start_def new_event_buffer_def
        intro!: exI [of _ "[]"])
next
  case (step c c')
  then show ?case using io_step_run_id [OF step(2)] io_step_inv [OF step(2)] by metis
qed

text \<open>
  C22: The buffer neither loses, nor repeats, nor reorders an event: whatever tasks append, defer
  and flush concurrently, and whichever writes fail or are cancelled, the log of the run holds
  the events recorded first, in the order in which they were recorded, and the rest is held by
  the write under way and, behind it, by the buffer.
\<close>

theorem recorded_events_reach_log_in_order:
  assumes "(io_step cd False)\<^sup>*\<^sup>* (run_io_start rid lease seq st) c"
  shows "\<exists>written copies.
      io_log c = written @ written_events (io_flight c) @ eb_pending (io_buffer c)
    \<and> map_result (cd_event cd) written = Inr copies
    \<and> map se_event (event_bucket (io_store c) rid) = map se_event (event_bucket st rid) @ copies"
  using io_steps_inv [OF assms] by (auto simp: io_inv_def log_inv_def)

text \<open>
  C23: The barrier before a session write commits a state that the run really had: the checkpoint
  deferred last, together with exactly the events recorded before it was deferred, however much
  was recorded since. This holds of the orderly runs, in which no checkpoint is deferred while a
  write of bare events is under way that then fails; after such a failure the events go back behind
  the checkpoint, which can then be committed without them.
\<close>

theorem held_checkpoint_lands_with_its_events:
  assumes "(io_step cd True)\<^sup>*\<^sup>* (run_io_start rid lease seq st) c"
    and "io_flight c = None" and "begin_flush_checkpoint (io_buffer c) = (b, Some fl)"
    and "store_write cd b fl ts (io_store c) = (st', Inr seqs)"
  shows "\<exists>cp logged rec copies. io_held c = Some (cp, logged)
    \<and> dict_get (st_runs st') rid = Some rec \<and> rr_status rec = ''running''
    \<and> copy_checkpoint cd (Some cp) = Inr (rr_checkpoint rec)
    \<and> map_result (cd_event cd) logged = Inr copies
    \<and> map se_event (event_bucket st' rid) = map se_event (event_bucket st rid) @ copies"
proof -
  from io_steps_inv [OF assms(1)] obtain written
    where rid: "eb_run_id (io_buffer c) = rid"
      and inv: "log_inv cd (map se_event (event_bucket st rid)) c written" "held_ok c written"
    by (auto simp: io_inv_def)
  from assms(3) obtain n cp where dirty: "eb_dirty (io_buffer c) = Some (n, cp)"
    and ok: "\<not> eb_write_failed (io_buffer c)"
    and fl: "fl = CommitWrite (Some (n, cp)) (take (eb_dirty_covers (io_buffer c)) (eb_pending (io_buffer c)))
      cp ''running'' None" and b: "eb_run_id b = rid"
    using rid begin_frame(3) [OF assms(3)]
    by (auto simp: begin_flush_checkpoint_def begin_commit_def Let_def split: option.splits if_splits)
  from inv(2) dirty ok assms(2) obtain logged where held: "io_held c = Some (cp, logged)"
    and logged: "written @ take (eb_dirty_covers (io_buffer c)) (eb_pending (io_buffer c)) = logged"
    by (auto simp: held_ok_def covered_def)
  from inv(1) rid obtain before where before: "map_result (cd_event cd) written = Inr before"
    "map se_event (event_bucket (io_store c) rid) = map se_event (event_bucket st rid) @ before"
    by (auto simp: log_inv_def)
  from store_write_bucket [OF assms(4)] b fl obtain copies
    where copies: "map_result (cd_event cd) (take (eb_dirty_covers (io_buffer c)) (eb_pending (io_buffer c)))
        = Inr copies"
      and bucket: "map se_event (event_bucket st' rid) = map se_event (event_bucket (io_store c) rid) @ copies"
    by auto
  have "\<exists>rec. dict_get (st_runs st') rid = Some rec \<and> rr_status rec = ''running''
      \<and> copy_checkpoint cd (Some cp) = Inr (rr_checkpoint rec)"
    using assms(4) b fl by (auto simp: store_write_def save_checkpoint_with_events_def split: sum.splits option.splits)
  with held before bucket copies logged show ?thesis by (auto simp: map_result_append_iff)
qed

section \<open>Concrete histories\<close>

definition io_start :: "nat run_io" where
  "io_start = run_io_start ''r'' None 0 store_one"

definition io_deferred :: "nat run_io" where
  "io_deferred = io_start\<lparr>
     io_buffer := buffer_append 9 (fst (defer_checkpoint plain_codecs checkpoint_example
                    (buffer_append 7 (io_buffer io_start)))),
     io_log := [7, 9], io_held := Some (checkpoint_example, [7])\<rparr>"

lemmas io_example_defs =
  io_start_def io_deferred_def run_io_start_def new_event_buffer_def buffer_append_def
  defer_checkpoint_def plain_codecs_def

lemmas steps_chain = converse_rtranclp_into_rtranclp [of "io_step cd orderly" for cd orderly]

lemmas steps_one = r_into_rtranclp [of "io_step cd orderly" for cd orderly]

lemma io_deferred_reached: "(io_step plain_codecs orderly)\<^sup>*\<^sup>* io_start io_deferred"
proof -
  let ?c1 = "io_start\<lparr>io_buffer := buffer_append 7 (io_buffer io_start), io_log := io_log io_start @ [7]\<rparr>"
  let ?b = "fst (defer_checkpoint plain_codecs checkpoint_example (io_buffer ?c1))"
  let ?c2 = "?c1\<lparr>io_buffer := ?b, io_held := Some (checkpoint_example, io_log ?c1)\<rparr>"
  let ?c3 = "?c2\<lparr>io_buffer := buffer_append 9 (io_buffer ?c2), io_log := io_log ?c2 @ [9]\<rparr>"
  have 1: "io_step plain_codecs orderly io_start ?c1" by (rule io_append)
  have 2: "io_step plain_codecs orderly ?c1 ?c2"
    by (rule io_defer [of plain_codecs checkpoint_example]) (simp_all add: io_example_defs)
  have 3: "io_step plain_codecs orderly ?c2 ?c3" by (rule io_append)
  have "(io_step plain_codecs orderly)\<^sup>*\<^sup>* io_start ?c3"
    by (rule steps_chain [OF 1 steps_chain [OF 2 steps_one [OF 3]]])
  moreover have "?c3 = io_deferred" by (simp add: io_example_defs)
  ultimately show ?thesis by simp
qed

lemma store_one_log: "event_bucket store_one ''r'' = []"
  by (simp add: store_one_eq event_bucket_def)

definition write_example :: "nat in_flight" where
  "write_example = CommitWrite (Some (0, checkpoint_example)) [7] checkpoint_example ''running'' None"

definition store_written :: "nat run_store" where
  "store_written = \<lparr>st_runs = [(''r'', \<lparr>rr_id = ''r'', rr_session_id = ''s'', rr_status = ''running'',
       rr_created_at = ''t0'', rr_updated_at = ''t'', rr_checkpoint = Some checkpoint_example, rr_meta = []\<rparr>)],
     st_events = [(''r'', [\<lparr>se_seq = 1, se_appended_at = ''t'', se_event = 7\<rparr>])],
     st_snapshots = [], st_lease_state = [(''r'', None, None, 0)]\<rparr>"

lemma write_example_stored:
  assumes "eb_run_id b = ''r''" and "eb_lease b = None"
  shows "store_write plain_codecs b write_example ''t'' store_one = (store_written, Inr [1])"
  by (simp add: store_write_def write_example_def save_checkpoint_with_events_def assms plain_codecs_def
      check_lease_def validate_lease_run_def admit_def active_statuses_def store_one_eq lease_entry_of_def
      copy_checkpoint_def extend_events_def event_bucket_def stamp_events_def next_seqs_def
      store_written_def)

lemma begin_flush_example:
  "begin_flush_checkpoint (io_buffer io_deferred)
     = (io_buffer io_deferred\<lparr>eb_pending := [9]\<rparr>, Some write_example)"
  by (simp add: io_example_defs begin_flush_checkpoint_def begin_commit_def write_example_def Let_def)

theorem recorded_events_reach_log_in_order_witness:
  "\<exists>written copies. io_log io_deferred = written @ eb_pending (io_buffer io_deferred)
     \<and> map se_event (event_bucket (io_store io_deferred) ''r'') = copies
     \<and> map_result (cd_event plain_codecs) written = Inr copies"
  using recorded_events_reach_log_in_order [OF io_deferred_reached [unfolded io_start_def]]
  by (fastforce simp: store_one_eq event_bucket_def io_example_defs)

text \<open>The event 9 was recorded after the checkpoint and stays behind.\<close>

theorem held_checkpoint_lands_with_its_events_witness:
  "map se_event (event_bucket store_written ''r'') = [7]"
proof -
  have "store_write plain_codecs (io_buffer io_deferred\<lparr>eb_pending := [9]\<rparr>) write_example ''t''
      (io_store io_deferred) = (store_written, Inr [1])" "io_flight io_deferred = None"
    using write_example_stored [of "io_buffer io_deferred\<lparr>eb_pending := [9]\<rparr>"]
    by (simp_all add: io_example_defs)
  from held_checkpoint_lands_with_its_events
      [OF io_deferred_reached [of True, unfolded io_start_def] this(2) begin_flush_example this(1)]
  show ?thesis using store_one_log by (simp add: io_deferred_def) (auto simp: plain_codecs_def)
qed

text \<open>
  Without the order the property fails: a checkpoint deferred while a write of bare events is
  under way counts only the events that are not being written, and when that write fails its
  events are put back in front of them. The barrier then commits the checkpoint without event 8.
\<close>

definition io_torn :: "nat run_io" where
  "io_torn = io_start\<lparr>
     io_buffer := \<lparr>eb_run_id = ''r'', eb_lease = None, eb_pending = [7, 8], eb_last_seq = 0,
       eb_write_failed = False, eb_dirty = Some (0, checkpoint_example), eb_dirty_covers = 1,
       eb_objects = 1\<rparr>,
     io_log := [7, 8], io_held := Some (checkpoint_example, [7, 8])\<rparr>"

lemma io_torn_reached: "(io_step plain_codecs False)\<^sup>*\<^sup>* io_start io_torn"
proof -
  let ?c1 = "io_start\<lparr>io_buffer := buffer_append 7 (io_buffer io_start), io_log := io_log io_start @ [7]\<rparr>"
  let ?c2 = "?c1\<lparr>io_buffer := fst (begin_flush (io_buffer ?c1)), io_flight := Some (AppendWrite [7])\<rparr>"
  let ?c3 = "?c2\<lparr>io_buffer := buffer_append 8 (io_buffer ?c2), io_log := io_log ?c2 @ [8]\<rparr>"
  let ?b = "fst (defer_checkpoint plain_codecs checkpoint_example (io_buffer ?c3))"
  let ?c4 = "?c3\<lparr>io_buffer := ?b, io_held := Some (checkpoint_example, io_log ?c3)\<rparr>"
  let ?c5 = "?c4\<lparr>io_buffer := finish_write (AppendWrite [7]) (Inl LeaseLostError) (io_buffer ?c4),
    io_flight := None, io_store := io_store ?c4\<rparr>"
  have 1: "io_step plain_codecs False io_start ?c1" by (rule io_append)
  have 2: "io_step plain_codecs False ?c1 ?c2"
    by (rule io_flush) (simp_all add: io_example_defs begin_flush_def)
  have 3: "io_step plain_codecs False ?c2 ?c3" by (rule io_append)
  have 4: "io_step plain_codecs False ?c3 ?c4"
    by (rule io_defer [of plain_codecs checkpoint_example]) (simp_all add: io_example_defs)
  have 5: "io_step plain_codecs False ?c4 ?c5" by (rule io_failed) simp_all
  have "(io_step plain_codecs False)\<^sup>*\<^sup>* io_start ?c5"
    by (rule steps_chain [OF 1 steps_chain [OF 2 steps_chain [OF 3 steps_chain [OF 4 steps_one [OF 5]]]]])
  moreover have "?c5 = io_torn"
    by (simp add: io_example_defs io_torn_def begin_flush_def finish_write_def)
  ultimately show ?thesis by simp
qed

lemma deferred_checkpoint_outruns_events:
  "\<exists>c b fl st' seqs. (io_step plain_codecs False)\<^sup>*\<^sup>* io_start c \<and> io_flight c = None
     \<and> io_held c = Some (checkpoint_example, [7, 8])
     \<and> begin_flush_checkpoint (io_buffer c) = (b, Some fl)
     \<and> store_write plain_codecs b fl ''t'' (io_store c) = (st', Inr seqs)
     \<and> map_option rr_checkpoint (dict_get (st_runs st') ''r'') = Some (Some checkpoint_example)
     \<and> map se_event (event_bucket st' ''r'') = [7]"
proof -
  let ?b = "io_buffer io_torn\<lparr>eb_pending := [8]\<rparr>"
  have "begin_flush_checkpoint (io_buffer io_torn) = (?b, Some write_example)"
    by (simp add: io_torn_def begin_flush_checkpoint_def begin_commit_def write_example_def Let_def)
  moreover have "store_write plain_codecs ?b write_example ''t'' (io_store io_torn) = (store_written, Inr [1])"
    using write_example_stored [of ?b] by (simp add: io_torn_def io_start_def run_io_start_def)
  moreover have "io_flight io_torn = None" "io_held io_torn = Some (checkpoint_example, [7, 8])"
    by (simp_all add: io_torn_def io_start_def run_io_start_def)
  moreover have "map_option rr_checkpoint (dict_get (st_runs store_written) ''r'') = Some (Some checkpoint_example)"
    "map se_event (event_bucket store_written ''r'') = [7]"
    by (simp_all add: store_written_def event_bucket_def)
  ultimately show ?thesis using io_torn_reached by (intro exI conjI)
qed

end
