(* ===== verification/Run_Resume.thy ===== *)
theory Run_Resume
  imports Event_Codec Loop_Guard Compaction_Recovery Run_Store
begin

text \<open>
  What a resumed run reconstructs: \<^verbatim>\<open>src/linch/loop/checkpoint.py\<close> and
  \<^verbatim>\<open>src/linch/loop/resume.py\<close>. The binding of the provider call that was active at the
  checkpoint, the durable messages that already carry its answer, the results of the interrupted
  tool batch, and the feedback that was appended before the crash.
\<close>

section \<open>The binding of the active call\<close>

definition model_call_namespace :: string where
  "model_call_namespace = ''linch.model_calls.v1''"

definition active_primary_fields :: "string set" where
  "active_primary_fields = {''version'', ''logical_call_id'', ''delivery_attempt_id'', ''turn_index'',
     ''snapshot_id'', ''request_fingerprint'', ''full_history_base_count'',
     ''full_history_base_fingerprint''}"

definition filled_string :: "json \<Rightarrow> bool" where
  "filled_string v = (case v of JStr s \<Rightarrow> \<not> blank s | _ \<Rightarrow> False)"

definition natural_number :: "json \<Rightarrow> bool" where
  "natural_number v = (case v of JInt n \<Rightarrow> 0 \<le> n | _ \<Rightarrow> False)"

definition require :: "bool \<Rightarrow> unit result" where
  "require ok = (if ok then Inr () else Inl ConfigError)"

definition validate_active_primary :: "json \<Rightarrow> unit result" where
  "validate_active_primary v = (case v of
       JDict raw \<Rightarrow>
         bind_result (require_wire_version (dict_get raw ''version'')) (\<lambda>_.
           require (set (dict_keys raw) = active_primary_fields
             \<and> list_all (\<lambda>n. filled_string (raw_field raw n))
                 [''logical_call_id'', ''delivery_attempt_id'', ''request_fingerprint'',
                  ''full_history_base_fingerprint'']
             \<and> (raw_field raw ''snapshot_id'' = JNull \<or> filled_string (raw_field raw ''snapshot_id''))
             \<and> list_all (\<lambda>n. natural_number (raw_field raw n)) [''turn_index'', ''full_history_base_count'']))
     | _ \<Rightarrow> require_wire_version None)"

text \<open>The envelope in the extension state of a checkpoint.\<close>

definition runtime_to_extension :: "json \<Rightarrow> json \<Rightarrow> json_obj \<Rightarrow> json_obj result" where
  "runtime_to_extension primary journal_count ext =
     bind_result (if primary = JNull then Inr () else validate_active_primary primary) (\<lambda>_.
     bind_result (require (natural_number journal_count)) (\<lambda>_.
       Inr (dict_set model_call_namespace
         (JDict [(''version'', JInt wire_version), (''format'', JStr ''journal-v1''), (''ledger'', JNull),
                 (''active_primary'', primary), (''journal_count'', journal_count)]) ext)))"

definition runtime_from_extension :: "json_obj \<Rightarrow> (json_obj option \<times> int option) result" where
  "runtime_from_extension ext = (case dict_get ext model_call_namespace of
       None \<Rightarrow> Inr (None, None)
     | Some JNull \<Rightarrow> Inr (None, None)
     | Some (JDict raw) \<Rightarrow>
         bind_result (require_wire_version (dict_get raw ''version'')) (\<lambda>_.
         bind_result (require (set (dict_keys raw)
           = {''version'', ''format'', ''ledger'', ''active_primary'', ''journal_count''})) (\<lambda>_.
         bind_result (require (raw_field raw ''format'' = JStr ''journal-v1''
           \<and> raw_field raw ''ledger'' = JNull)) (\<lambda>_.
         bind_result (require (natural_number (raw_field raw ''journal_count''))) (\<lambda>_.
           let count = Some (as_int (raw_field raw ''journal_count'')) in
           case raw_field raw ''active_primary'' of
             JNull \<Rightarrow> Inr (None, count)
           | primary \<Rightarrow> bind_result (validate_active_primary primary) (\<lambda>_.
               case primary of JDict d \<Rightarrow> Inr (Some d, count) | _ \<Rightarrow> Inl ConfigError)))))
     | Some _ \<Rightarrow> bind_result (require_wire_version None) (\<lambda>_. Inl AttributeError))"

lemma dict_set_get [simp]: "dict_get (dict_set k v d) k = Some v"
  by simp

text \<open>What was written is read back, whatever else the extension state holds.\<close>

lemma runtime_extension_roundtrip:
  assumes "runtime_to_extension primary (JInt n) ext = Inr ext'"
  shows "runtime_from_extension ext'
    = Inr (case primary of JDict d \<Rightarrow> Some d | _ \<Rightarrow> None, Some n)"
  using assms
  by (cases primary) (auto simp: runtime_to_extension_def runtime_from_extension_def require_def
      require_wire_version_def raw_field_def natural_number_def validate_active_primary_def Let_def
      bind_result_Inr_iff split: if_splits)

section \<open>Messages that are already there\<close>

text \<open>
  The messages after the base must be the expected ones, as far as they go; a run that crashed
  while it appended them left a prefix.
\<close>

fun digests_match :: "json_env \<Rightarrow> message list \<Rightarrow> string list \<Rightarrow> bool result" where
  "digests_match env (m # ms) (d # ds) =
     bind_result (message_fingerprint env m) (\<lambda>f. if f \<noteq> d then Inr False else digests_match env ms ds)"
| "digests_match env ms ds = Inr True"

definition receipt_message_prefix ::
  "json_env \<Rightarrow> message list \<Rightarrow> int \<Rightarrow> string \<Rightarrow> string list \<Rightarrow> int result" where
  "receipt_message_prefix env ms base_count base_fp expected =
     (if base_count < 0 \<or> int (length ms) < base_count then Inl ConfigError
      else bind_result (context_fingerprint env (take (nat base_count) ms)) (\<lambda>f.
        if f \<noteq> base_fp then Inl ConfigError
        else let suffix = drop (nat base_count) ms in
          if length expected < length suffix then Inl ConfigError
          else bind_result (digests_match env suffix expected) (\<lambda>ok.
            if ok then Inr (int (length suffix)) else Inl ConfigError)))"

definition wrap_in_system_reminder :: "string \<Rightarrow> string" where
  "wrap_in_system_reminder body =
     ''<system-reminder>'' @ [CHR 0x0A] @ body @ [CHR 0x0A] @ ''</system-reminder>''"

definition user_message :: "content_block list \<Rightarrow> message" where
  "user_message blocks = \<lparr>role = role_user, content = blocks, provider_metadata = None\<rparr>"

definition tool_use_ids :: "message \<Rightarrow> string list" where
  "tool_use_ids m = List.map_filter (\<lambda>b. case b of ToolUseBlock i n a \<Rightarrow> Some i | _ \<Rightarrow> None) (content m)"

text \<open>\<^verbatim>\<open>a or b\<close> of an optional string.\<close>

definition or_else :: "string option \<Rightarrow> string \<Rightarrow> string" where
  "or_else s d = (case s of None \<Rightarrow> d | Some [] \<Rightarrow> d | Some t \<Rightarrow> t)"

definition primary_control_message ::
  "message \<Rightarrow> string option \<Rightarrow> string option \<Rightarrow> bool \<Rightarrow> bool \<Rightarrow> message" where
  "primary_control_message m feedback final_id final_is_error wrap =
     (let tools = tool_use_ids m in
      if tools = [] then
        user_message [TextBlock (let t = or_else feedback [] in if wrap then wrap_in_system_reminder t else t)]
      else user_message (map (\<lambda>(index, i).
        let addressed = (case final_id of
              None \<Rightarrow> index = 0 | Some [] \<Rightarrow> index = 0 | Some f \<Rightarrow> i = f)
        in ToolResultBlock i
             (ContentStr (if addressed then or_else feedback ''Provider hook requested another turn.''
                else ''Tool not executed; revise and resubmit your final answer.''))
             (if Some i = final_id then final_is_error else True))
        (zip [0 :: nat..<length tools] tools)))"

section \<open>Reconciling the active call\<close>

definition invalid_response_diagnostic :: string where
  "invalid_response_diagnostic = ''[Linch] The provider response was rejected.''"

text \<open>How the resumed turn ends without asking the provider again.\<close>

datatype terminal_kind = RejectedNative | InvalidText | Stopped

record resume_state =
  rs_terminal :: "terminal_kind option"
  rs_terminal_feedback :: "string option"
  rs_invalid_feedback :: "message list"
  rs_replayed_feedback :: "message list"
  rs_primary_prefix :: int
  rs_primary_projection :: "json_obj option"
  rs_assistant_message :: "message option"
  rs_assistant_stop_reason :: "string option"

definition new_resume_state :: "run_checkpoint \<Rightarrow> resume_state" where
  "new_resume_state cp =
     \<lparr>rs_terminal = None, rs_terminal_feedback = None, rs_invalid_feedback = [],
      rs_replayed_feedback = [], rs_primary_prefix = 0, rs_primary_projection = None,
      rs_assistant_message = cp_assistant_message cp,
      rs_assistant_stop_reason = cp_assistant_stop_reason cp\<rparr>"

text \<open>Was a retry requested by a hook after the last event that shows this assistant message?\<close>

fun after_assistant :: "json_env \<Rightarrow> string \<Rightarrow> event list \<Rightarrow> event list option \<Rightarrow> event list option result" where
  "after_assistant env d [] found = Inr found"
| "after_assistant env d (AssistantEvent e # es) found =
     bind_result (message_fingerprint env (ae_message e)) (\<lambda>f.
       after_assistant env d es (if f = d then Some es else found))"
| "after_assistant env d (e # es) found = after_assistant env d es found"

definition is_hook_retry :: "event \<Rightarrow> bool" where
  "is_hook_retry e = (case e of
       HookEventRecord h \<Rightarrow> he_event h = ''BeforeFinalAnswer'' \<and> he_action h \<in> {''retry'', ''force_continue''}
     | _ \<Rightarrow> False)"

definition hook_retry_was_recorded :: "json_env \<Rightarrow> event list \<Rightarrow> message \<Rightarrow> bool result" where
  "hook_retry_was_recorded env events assistant =
     bind_result (message_fingerprint env assistant) (\<lambda>d.
     bind_result (after_assistant env d events None) (\<lambda>found.
       Inr (case found of None \<Rightarrow> False | Some rest \<Rightarrow> list_ex is_hook_retry rest)))"

definition is_final_tool_ack :: "message \<Rightarrow> message \<Rightarrow> bool" where
  "is_final_tool_ack m assistant =
     (let ids = tool_use_ids assistant;
          results = List.map_filter (\<lambda>b. case b of ToolResultBlock i c e \<Rightarrow> Some (i, c, e) | _ \<Rightarrow> None) (content m)
      in ids \<noteq> [] \<and> results \<noteq> []
         \<and> list_all (\<lambda>(i, c, e). i \<in> set ids \<and> c = ContentStr ''Final answer captured by the host.'' \<and> \<not> e)
             results)"

definition turn_stopping_pending :: "run_checkpoint \<Rightarrow> bool" where
  "turn_stopping_pending cp = (case dict_get (cp_extension_state cp) ''linch.resume'' of
       Some (JDict d) \<Rightarrow> dict_get d ''feedback_origin'' = Some (JStr ''turn_stopping'')
     | _ \<Rightarrow> False)"

text \<open>The identity of a receipt or an intent against the binding.\<close>

definition same_primary :: "json_obj \<Rightarrow> call_identity \<Rightarrow> bool" where
  "same_primary primary i \<longleftrightarrow>
     raw_field primary ''logical_call_id'' = JStr (ci_logical_call_id i)
     \<and> raw_field primary ''delivery_attempt_id'' = JStr (ci_delivery_attempt_id i)
     \<and> raw_field primary ''turn_index'' = json_opt_int (ci_turn_index i)
     \<and> raw_field primary ''request_fingerprint'' = JStr (ci_request_fingerprint i)"

definition same_binding :: "json_obj \<Rightarrow> json_obj \<Rightarrow> bool" where
  "same_binding primary p \<longleftrightarrow>
     list_all (\<lambda>(k, v). k = ''version'' \<or> raw_field p k = v) primary"

definition primary_projection :: "json_obj \<Rightarrow> ledger \<Rightarrow> json_obj option" where
  "primary_projection primary L =
     List.find (\<lambda>p. raw_field p ''delivery_attempt_id'' = raw_field primary ''delivery_attempt_id'')
       (projections_of ''primary_append'' L)"

definition expected_digests :: "json_obj option \<Rightarrow> string list" where
  "expected_digests p = (case p of
       None \<Rightarrow> []
     | Some p \<Rightarrow>
       (if raw_field p ''after_action'' = JStr ''stop'' then []
        else [as_string (raw_field p ''assistant_sha256'')])
       @ (if raw_field p ''after_action'' = JStr ''continue''
          then [as_string (raw_field p ''control_message_sha256'')] else []))"

text \<open>
  The first half: the binding must fit the checkpoint, the frozen request, the receipt, the intent
  and the projection. \<open>frozen\<close> is the fingerprint of the frozen request of an exact-input run.
\<close>

definition check_primary ::
  "run_checkpoint \<Rightarrow> json_obj \<Rightarrow> string result option \<Rightarrow> ledger \<Rightarrow> unit result" where
  "check_primary cp primary frozen L =
     (let did = as_string (raw_field primary ''delivery_attempt_id'') in
      bind_result (require (raw_field primary ''turn_index'' = JInt (cp_turn_index cp))) (\<lambda>_.
      bind_result (if cp_phase cp = JStr ''provider_pending'' then
          bind_result (require (raw_field primary ''snapshot_id''
            = json_opt_string (cp_model_input_snapshot_id cp))) (\<lambda>_.
            case frozen of None \<Rightarrow> Inr ()
            | Some f \<Rightarrow> bind_result f (\<lambda>fp. require (raw_field primary ''request_fingerprint'' = JStr fp)))
        else Inr ()) (\<lambda>_.
      bind_result (require ((case receipt_for did L of None \<Rightarrow> True
          | Some r \<Rightarrow> same_primary primary (receipt_identity r))
        \<and> (case intent_for did L of None \<Rightarrow> True
          | Some i \<Rightarrow> same_primary primary (intent_identity i)))) (\<lambda>_.
      require (case primary_projection primary L of None \<Rightarrow> True | Some p \<Rightarrow> same_binding primary p)))))"

text \<open>What was appended after the answer and is to be replayed.\<close>

definition replayed_tail ::
  "json_env \<Rightarrow> run_checkpoint \<Rightarrow> event list \<Rightarrow> message list \<Rightarrow> message list result" where
  "replayed_tail env cp events tail = (case cp_assistant_message cp of
       None \<Rightarrow> Inr (if turn_stopping_pending cp then tail else [])
     | Some assistant \<Rightarrow>
       (let tail' = filter (\<lambda>m. \<not> is_final_tool_ack m assistant) tail in
        if turn_stopping_pending cp then Inr tail'
        else if cp_pending_truncation_feedback cp \<noteq> None then Inr []
        else bind_result (hook_retry_was_recorded env events assistant) (\<lambda>retry.
          Inr (if retry then [] else tail'))))"

definition rejected_text_messages :: "json_env \<Rightarrow> json_obj option \<Rightarrow> message list option result" where
  "rejected_text_messages env projection = (case projection of
       None \<Rightarrow> Inr None
     | Some p \<Rightarrow>
       if raw_field p ''after_action'' \<noteq> JStr ''continue'' then Inr None
       else
         (let diagnostic = \<lparr>role = role_assistant, content = [TextBlock invalid_response_diagnostic],
                           provider_metadata = None\<rparr>;
              control = primary_control_message diagnostic (as_opt_string (raw_field p ''after_feedback''))
                          None True False
          in bind_result (message_fingerprint env diagnostic) (\<lambda>a.
             bind_result (message_fingerprint env control) (\<lambda>b.
               Inr (if expected_digests (Some p) = [a, b] then Some [diagnostic, control] else None)))))"

text \<open>The second half: how much of the answer is in the history already.\<close>

definition adopt_primary ::
  "json_env \<Rightarrow> run_checkpoint \<Rightarrow> json_obj \<Rightarrow> json_obj option \<Rightarrow> message list \<Rightarrow> event list
   \<Rightarrow> resume_state result" where
  "adopt_primary env cp primary projection full_history events =
     (let base = nat (as_int (raw_field primary ''full_history_base_count''));
          expected = expected_digests projection;
          bound = base + length expected;
          trimmed = cp_phase cp = JStr ''assistant_appended'' \<and> bound < length full_history;
          field = (\<lambda>k. case projection of None \<Rightarrow> JNull | Some p \<Rightarrow> raw_field p k)
      in bind_result (if trimmed then replayed_tail env cp events (drop bound full_history) else Inr [])
           (\<lambda>tail.
         bind_result (receipt_message_prefix env (if trimmed then take bound full_history else full_history)
             (int base) (as_string (raw_field primary ''full_history_base_fingerprint'')) expected)
           (\<lambda>prefix.
             let s = (new_resume_state cp)\<lparr>rs_replayed_feedback := tail, rs_primary_prefix := prefix\<rparr> in
             if field ''after_action'' = JStr ''stop''
             then Inr (s\<lparr>rs_terminal := Some Stopped,
                         rs_terminal_feedback := as_opt_string (field ''after_feedback'')\<rparr>)
             else if prefix = 0 then Inr s
             else Inr (s\<lparr>rs_primary_projection := projection,
                         rs_assistant_message := Some (full_history ! base),
                         rs_assistant_stop_reason := as_opt_string (field ''assistant_stop_reason'')\<rparr>))))"

definition reconcile_active_primary ::
  "json_env \<Rightarrow> run_checkpoint \<Rightarrow> json_obj option \<Rightarrow> string result option \<Rightarrow> ledger
   \<Rightarrow> message list \<Rightarrow> event list \<Rightarrow> resume_state result" where
  "reconcile_active_primary env cp binding frozen L full_history events = (case binding of
       None \<Rightarrow>
         if cp_phase cp = JStr ''provider_pending'' then Inl ConfigError else Inr (new_resume_state cp)
     | Some primary \<Rightarrow>
         bind_result (check_primary cp primary frozen L) (\<lambda>_.
         let projection = primary_projection primary L in
         if (case receipt_for (as_string (raw_field primary ''delivery_attempt_id'')) L of
               None \<Rightarrow> False | Some r \<Rightarrow> rc_disposition r = ''rejected_native'')
         then Inr ((new_resume_state cp)\<lparr>rs_terminal := Some RejectedNative\<rparr>)
         else bind_result (rejected_text_messages env projection) (\<lambda>rejected. case rejected of
           Some ms \<Rightarrow> Inr ((new_resume_state cp)\<lparr>rs_terminal := Some InvalidText, rs_invalid_feedback := ms\<rparr>)
         | None \<Rightarrow> adopt_primary env cp primary projection full_history events)))"

section \<open>Feedback\<close>

definition replayed_feedback_present :: "message list \<Rightarrow> message list \<Rightarrow> string set option \<Rightarrow> bool" where
  "replayed_feedback_present history ms after_ids =
     (let result_ids = (\<lambda>m. set (List.map_filter
            (\<lambda>b. case b of ToolResultBlock i c e \<Rightarrow> Some i | _ \<Rightarrow> None) (content m)));
          matches = (\<lambda>pos. list_all2 (\<lambda>a b. json_eq (JDict (message_to_dict a)) (JDict (message_to_dict b)))
                  (take (length ms) (drop (pos - length ms) history)) ms);
          stops = (\<lambda>pos. case after_ids of None \<Rightarrow> True | Some ids \<Rightarrow> ids = result_ids (history ! (pos - 1)))
      in case List.find (\<lambda>pos. matches pos \<or> stops pos) (rev [length ms..<length history + 1]) of
           None \<Rightarrow> False
         | Some pos \<Rightarrow> matches pos)"

text \<open>
  \<^verbatim>\<open>append_feedback\<close>: the messages it appends to the session. With a boundary, the base count and
  the base fingerprint of the binding, it looks at the history, without one at the provider's view.
\<close>

definition append_feedback ::
  "json_env \<Rightarrow> message list \<Rightarrow> message list \<Rightarrow> (int \<times> string) option \<Rightarrow> message list \<Rightarrow> message list result" where
  "append_feedback env history view boundary ms =
     bind_result (case boundary of
         Some (base_count, base_fp) \<Rightarrow>
           bind_result (map_result (message_fingerprint env) ms) (\<lambda>expected.
             receipt_message_prefix env history base_count base_fp expected)
       | None \<Rightarrow> Inr (if replayed_feedback_present view ms None then int (length ms) else 0))
     (\<lambda>prefix. Inr (drop (nat prefix) ms))"

section \<open>The interrupted tool batch\<close>

definition tool_uses :: "content_block list \<Rightarrow> (string \<times> string) list" where
  "tool_uses blocks = List.map_filter (\<lambda>b. case b of ToolUseBlock i n a \<Rightarrow> Some (i, n) | _ \<Rightarrow> None) blocks"

definition tool_result_block_from_end :: "tool_call_end_event \<Rightarrow> content_block" where
  "tool_result_block_from_end e = ToolResultBlock (te_tool_use_id e) (ContentStr (te_result e)) (te_is_error e)"

definition interrupted_tool_result_block :: "tool_call_start_event \<Rightarrow> content_block" where
  "interrupted_tool_result_block e = ToolResultBlock (ts_tool_use_id e)
     (ContentStr ''Tool execution was interrupted before a result was recorded; not re-running automatically on resume.'')
     True"

text \<open>The membership dictionary, the started calls, the ended ones and the recovered results.\<close>

definition membership :: "content_block list \<Rightarrow> (string, string) dict" where
  "membership blocks = fold (\<lambda>(i, n). dict_set i n) (tool_uses blocks) []"

type_synonym tool_scan =
  "(string, tool_call_start_event) dict \<times> string set \<times> (string, content_block) dict"

definition scan_event :: "(string, string) dict \<Rightarrow> event \<Rightarrow> tool_scan \<Rightarrow> tool_scan" where
  "scan_event m e = (\<lambda>(started, ended, recovered). case e of
       ToolCallStartEvent s \<Rightarrow>
         if dict_get m (ts_tool_use_id s) = Some (ts_tool_name s)
         then (dict_set (ts_tool_use_id s) s started, ended, recovered)
         else (started, ended, recovered)
     | ToolCallEndEvent t \<Rightarrow>
         if dict_get m (te_tool_use_id t) = Some (te_tool_name t)
            \<and> te_tool_use_id t \<in> set (dict_keys started)
         then (started, insert (te_tool_use_id t) ended,
               dict_set (te_tool_use_id t) (tool_result_block_from_end t) recovered)
         else (started, ended, recovered)
     | _ \<Rightarrow> (started, ended, recovered))"

definition recover_completed_tool_results ::
  "(string, content_block) dict \<Rightarrow> content_block list \<Rightarrow> event list \<Rightarrow> (string, content_block) dict" where
  "recover_completed_tool_results completed blocks events =
     (let (started, ended, recovered) = fold (scan_event (membership blocks)) events ([], {}, completed)
      in fold (\<lambda>(i, s) r. if i \<in> ended then r else dict_setdefault i (interrupted_tool_result_block s) r)
           started recovered)"

definition recover_from_store ::
  "event codecs \<Rightarrow> string \<Rightarrow> (string, content_block) dict \<Rightarrow> content_block list \<Rightarrow> int option
   \<Rightarrow> event run_store \<Rightarrow> (string, content_block) dict result" where
  "recover_from_store cd rid completed blocks after_seq st = (case after_seq of
       Some n \<Rightarrow>
         if n < 0 then Inl ValueError
         else bind_result (load_events cd rid n st) (\<lambda>rows.
           Inr (recover_completed_tool_results completed blocks (map se_event rows)))
     | None \<Rightarrow> Inl ValueError)"

text \<open>The calls of the batch that the resumed turn still executes.\<close>

definition missing_tool_blocks :: "content_block list \<Rightarrow> (string, content_block) dict \<Rightarrow> content_block list" where
  "missing_tool_blocks blocks completed =
     filter (\<lambda>b. case b of ToolUseBlock i n a \<Rightarrow> i \<notin> set (dict_keys completed) | _ \<Rightarrow> False) blocks"

section \<open>Small codecs of the checkpoint\<close>

text \<open>The counters of the loop guard: digests are sixteen lower-case hexadecimal digits.\<close>

definition loop_guard_state_to_dict :: "guard_state option \<Rightarrow> json" where
  "loop_guard_state_to_dict st = (case st of
       None \<Rightarrow> JNull
     | Some g \<Rightarrow> JDict [(''call_counts'', JDict (map (\<lambda>(k, n). (k, JInt n)) (call_counts g))),
                       (''consecutive_failures'', JInt (consecutive_failures g))])"

definition guard_digest :: "string \<Rightarrow> bool" where
  "guard_digest s = (length s = 16 \<and> list_all (\<lambda>c. c \<in> set ''0123456789abcdef'') s)"

definition loop_guard_state_from_dict :: "json_obj option \<Rightarrow> guard_state option result" where
  "loop_guard_state_from_dict raw = (case raw of
       None \<Rightarrow> Inr None
     | Some d \<Rightarrow>
       (case (dict_get d ''call_counts'', dict_get d ''consecutive_failures'') of
          (Some (JDict counts), Some (JInt failures)) \<Rightarrow>
            if set (dict_keys d) = {''call_counts'', ''consecutive_failures''} \<and> 0 \<le> failures
               \<and> list_all (\<lambda>(k, v). guard_digest k \<and> natural_number v) counts
            then Inr (Some \<lparr>call_counts = map (\<lambda>(k, v). (k, as_int v)) counts,
                            consecutive_failures = failures\<rparr>)
            else Inl ConfigError
        | _ \<Rightarrow> Inl ConfigError))"

lemma loop_guard_state_roundtrip:
  assumes "list_all (\<lambda>(k, n). guard_digest k \<and> 0 \<le> n) (call_counts g)" and "0 \<le> consecutive_failures g"
  shows "\<exists>d. loop_guard_state_to_dict (Some g) = JDict d \<and> loop_guard_state_from_dict (Some d) = Inr (Some g)"
proof -
  have "map ((\<lambda>(k, v). (k, as_int v)) \<circ> (\<lambda>(k, n). (k, JInt n))) (call_counts g) = call_counts g"
    by (rule map_idI) auto
  moreover have "list_all ((\<lambda>(k, v). guard_digest k \<and> natural_number v) \<circ> (\<lambda>(k, n). (k, JInt n))) (call_counts g)"
    using assms(1) by (auto simp: list_all_iff natural_number_def)
  ultimately show ?thesis using assms(2)
    by (auto simp: loop_guard_state_to_dict_def loop_guard_state_from_dict_def list.pred_map)
qed

record skill_overlay =
  so_allowed_tools :: "string list option"
  so_model_override :: "string option"

definition skill_overlay_to_dict :: "skill_overlay \<Rightarrow> json_obj" where
  "skill_overlay_to_dict v =
     (case so_allowed_tools v of None \<Rightarrow> [] | Some ts \<Rightarrow> [(''allowed_tools'', JList (map JStr ts))])
     @ (case so_model_override v of None \<Rightarrow> [] | Some m \<Rightarrow> [(''model_override'', JStr m)])"

definition skill_overlay_from_dict :: "(json \<Rightarrow> string) \<Rightarrow> json_obj \<Rightarrow> skill_overlay" where
  "skill_overlay_from_dict str raw =
     \<lparr>so_allowed_tools = (case dict_get raw ''allowed_tools'' of Some (JList xs) \<Rightarrow> Some (map str xs) | _ \<Rightarrow> None),
      so_model_override = (case dict_get raw ''model_override'' of Some (JStr m) \<Rightarrow> Some m | _ \<Rightarrow> None)\<rparr>"

lemma skill_overlay_roundtrip:
  "(\<And>s. str (JStr s) = s) \<Longrightarrow> skill_overlay_from_dict str (skill_overlay_to_dict v) = v"
  by (cases v) (auto simp: skill_overlay_to_dict_def skill_overlay_from_dict_def comp_def split: option.splits)

text \<open>The receipts of compactions whose usage was reported already.\<close>

definition consumed_auxiliary_receipt_ids :: "event list \<Rightarrow> string list result" where
  "consumed_auxiliary_receipt_ids events =
     bind_result (map_result
         (\<lambda>u. case ug_call_id u of Some i \<Rightarrow> if blank i then Inl ConfigError else Inr i | None \<Rightarrow> Inl ConfigError)
         (List.map_filter (\<lambda>e. case e of
              UsageEvent u \<Rightarrow> if ug_source u = Some ''compaction'' then Some u else None | _ \<Rightarrow> None) events))
       (\<lambda>ids. if distinct ids then Inr ids else Inl ConfigError)"

text \<open>\<^verbatim>\<open>html.escape\<close>, and the notices for workers that did not survive.\<close>

fun html_escape_char :: "char \<Rightarrow> string" where
  "html_escape_char c =
     (if c = CHR ''&'' then ''&amp;'' else if c = CHR ''<'' then ''&lt;'' else if c = CHR ''>'' then ''&gt;''
      else if c = CHR 0x22 then ''&quot;'' else if c = CHR 0x27 then ''&#x27;'' else [c])"

definition html_escape :: "string \<Rightarrow> string" where
  "html_escape s = concat (map html_escape_char s)"

definition crashed_worker_notification :: "string \<Rightarrow> string \<Rightarrow> message" where
  "crashed_worker_notification worker_id display_name =
     user_message [TextBlock (''<task-notification><task-id>'' @ html_escape worker_id
       @ ''</task-id><status>killed</status><summary>Worker '' @ [CHR 0x27] @ html_escape display_name
       @ [CHR 0x27] @ '' was interrupted before it finished.</summary>''
       @ ''<error>Worker process was not live when the run resumed.</error></task-notification>'')]"

definition worker_crashed :: "string set \<Rightarrow> string \<Rightarrow> json_obj \<Rightarrow> bool" where
  "worker_crashed live worker_id raw =
     (dict_get raw ''status'' = Some (JStr ''running'') \<and> worker_id \<notin> live)"

text \<open>
  The notices that are queued, the events, and the workers as the checkpoint then has them; \<open>str\<close>
  is \<^verbatim>\<open>str()\<close>.
\<close>

definition queue_crashed_worker_notifications ::
  "(json \<Rightarrow> string) \<Rightarrow> string set \<Rightarrow> (string, json_obj) dict
   \<Rightarrow> (string, json_obj) dict \<times> message list \<times> background_worker_event list" where
  "queue_crashed_worker_notifications str live workers =
     (let crashed = filter (\<lambda>(i, raw). worker_crashed live i raw) workers;
          display = (\<lambda>i raw. case dict_get raw ''display_name'' of
              Some v \<Rightarrow> if truthy v then str v else i | None \<Rightarrow> i)
      in (map (\<lambda>(i, raw). (i, if worker_crashed live i raw
                then dict_set ''status'' (JStr ''killed'') raw else raw)) workers,
          map (\<lambda>(i, raw). crashed_worker_notification i (display i raw)) crashed,
          map (\<lambda>(i, raw). \<lparr>bw_worker_id = i, bw_status = ''killed'', bw_display_name = display i raw\<rparr>) crashed))"

text \<open>A worker is reported as crashed once: what a resume has reported, the next one passes over.\<close>

lemma crashed_workers_reported_once:
  assumes "queue_crashed_worker_notifications str live workers = (workers', ms, es)" and "live \<subseteq> live'"
  shows "queue_crashed_worker_notifications str live' workers' = (workers', [], [])"
proof -
  have "\<not> worker_crashed live' i raw" if "(i, raw) \<in> set workers'" for i raw
  proof
    assume crashed: "worker_crashed live' i raw"
    with assms(2) have "i \<notin> live" by (auto simp: worker_crashed_def)
    with crashed assms(1) that show False
      by (auto simp: queue_crashed_worker_notifications_def Let_def worker_crashed_def split: if_split_asm)
  qed
  then show ?thesis
    by (auto simp: queue_crashed_worker_notifications_def Let_def filter_empty_conv intro!: map_idI)
qed

section \<open>The durable prefix\<close>

lemma digests_match_iff:
  "length ms \<le> length ds \<Longrightarrow> digests_match env ms ds = Inr True \<longleftrightarrow>
     map_result (message_fingerprint env) ms = Inr (take (length ms) ds)"
proof (induction ms arbitrary: ds)
  case (Cons m ms)
  then obtain d ds' where "ds = d # ds'" by (cases ds) auto
  with Cons show ?case by (auto simp: bind_result_Inr_iff)
qed simp

lemma receipt_message_prefix_Inr:
  assumes "receipt_message_prefix env ms base fp expected = Inr n"
  shows "\<exists>b k. base = int b \<and> n = int k \<and> length ms = b + k \<and> k \<le> length expected
     \<and> context_fingerprint env (take b ms) = Inr fp
     \<and> map_result (message_fingerprint env) (drop b ms) = Inr (take k expected)"
proof -
  from assms have base: "0 \<le> base" "base \<le> int (length ms)"
    and fp: "context_fingerprint env (take (nat base) ms) = Inr fp"
    and short: "length (drop (nat base) ms) \<le> length expected"
    and same: "digests_match env (drop (nat base) ms) expected = Inr True"
    and n: "n = int (length (drop (nat base) ms))"
    by (auto simp: receipt_message_prefix_def Let_def bind_result_Inr_iff split: if_splits)
  from same digests_match_iff [OF short] have
    "map_result (message_fingerprint env) (drop (nat base) ms)
      = Inr (take (length (drop (nat base) ms)) expected)" by simp
  with base fp short n show ?thesis
    by (intro exI [of _ "nat base"] exI [of _ "length (drop (nat base) ms)"]) auto
qed

lemma receipt_message_prefix_exact:
  assumes "context_fingerprint env base = Inr fp" and "length ms \<le> length expected"
    and "map_result (message_fingerprint env) ms = Inr (take (length ms) expected)"
  shows "receipt_message_prefix env (base @ ms) (int (length base)) fp expected = Inr (int (length ms))"
  using assms digests_match_iff [OF assms(2), of env]
  by (simp add: receipt_message_prefix_def)

definition message_matches :: "message \<Rightarrow> message \<Rightarrow> bool" where
  "message_matches a b = json_eq (JDict (message_to_dict a)) (JDict (message_to_dict b))"

lemma replayed_at_the_end:
  "replayed_feedback_present view ms None
     \<longleftrightarrow> length ms \<le> length view \<and> list_all2 message_matches (drop (length view - length ms) view) ms"
proof (cases "length ms \<le> length view")
  case True
  then have "rev [length ms..<length view + 1] = length view # rev [length ms..<length view]" by simp
  with True show ?thesis
    by (simp add: replayed_feedback_present_def Let_def message_matches_def [abs_def])
qed (simp add: replayed_feedback_present_def)

text \<open>
  C26: Feedback is appended once. With a boundary, a run that crashed anywhere while it appended
  the messages, and resumes, appends exactly the missing ones, and a run that appended all of
  them appends none. Without one, where the messages are appended together, they are appended
  exactly if the provider's view does not end with them already.
\<close>

theorem feedback_is_appended_once:
  assumes "context_fingerprint env base = Inr fp"
    and "map_result (message_fingerprint env) ms = Inr digests" and "k \<le> length ms"
  shows "append_feedback env (base @ take k ms) view (Some (int (length base), fp)) ms = Inr (drop k ms)
    \<and> append_feedback env history view None ms = Inr
        (if length ms \<le> length view \<and> list_all2 message_matches (drop (length view - length ms) view) ms
         then [] else ms)"
proof -
  have "map_result (message_fingerprint env) (take k ms @ drop k ms) = Inr digests"
    using assms(2) by simp
  then obtain us vs where us: "map_result (message_fingerprint env) (take k ms) = Inr us" "digests = us @ vs"
    unfolding map_result_append_iff by blast
  have len: "length us = k" "length digests = length ms"
    using map_result_length [OF us(1)] map_result_length [OF assms(2)] assms(3) by simp_all
  have "receipt_message_prefix env (base @ take k ms) (int (length base)) fp digests = Inr (int k)"
    using receipt_message_prefix_exact [OF assms(1), of "take k ms" digests] us len assms(3) by simp
  with assms(2) show ?thesis by (simp add: append_feedback_def replayed_at_the_end)
qed

section \<open>The adopted answer\<close>

lemma find_Some_set: "List.find P xs = Some x \<Longrightarrow> x \<in> set xs \<and> P x"
  by (auto simp: find_Some_iff)

lemma adopted_answer_is_paid:
  assumes "reconcile_active_primary env cp (Some primary) frozen L history events = Inr s"
    and "rs_primary_projection s = Some p"
    and "base = nat (as_int (raw_field primary ''full_history_base_count''))"
  shows "p \<in> set (projections_of ''primary_append'' L) \<and> same_binding primary p
    \<and> raw_field p ''after_action'' \<noteq> JStr ''stop''
    \<and> context_fingerprint env (take base history)
        = Inr (as_string (raw_field primary ''full_history_base_fingerprint''))
    \<and> base < length history \<and> rs_assistant_message s = Some (history ! base)
    \<and> message_fingerprint env (history ! base) = Inr (as_string (raw_field p ''assistant_sha256''))"
proof -
  let ?expected = "expected_digests (primary_projection primary L)"
  let ?bound = "base + length ?expected"
  let ?trimmed = "cp_phase cp = JStr ''assistant_appended'' \<and> ?bound < length history"
  let ?ms = "if ?trimmed then take ?bound history else history"
  from assms(1,2) have checked: "check_primary cp primary frozen L = Inr ()"
    and adopt: "adopt_primary env cp primary (primary_projection primary L) history events = Inr s"
    by (auto simp: reconcile_active_primary_def Let_def bind_result_Inr_iff new_resume_state_def
        split: if_splits option.splits)
  from adopt obtain tail prefix where
    pre: "receipt_message_prefix env ?ms (int base)
        (as_string (raw_field primary ''full_history_base_fingerprint'')) ?expected = Inr prefix"
    and s: "Inr s = (let s = (new_resume_state cp)\<lparr>rs_replayed_feedback := tail, rs_primary_prefix := prefix\<rparr>;
          field = (\<lambda>k. case primary_projection primary L of None \<Rightarrow> JNull | Some p \<Rightarrow> raw_field p k) in
        if field ''after_action'' = JStr ''stop''
        then Inr (s\<lparr>rs_terminal := Some Stopped,
                    rs_terminal_feedback := as_opt_string (field ''after_feedback'')\<rparr>)
        else if prefix = 0 then Inr s
        else (Inr (s\<lparr>rs_primary_projection := primary_projection primary L,
                    rs_assistant_message := Some (history ! base),
                    rs_assistant_stop_reason := as_opt_string (field ''assistant_stop_reason'')\<rparr>)
              :: resume_state result))"
    unfolding adopt_primary_def Let_def assms(3) [symmetric] bind_result_Inr_iff by metis
  from s assms(2) have projection: "primary_projection primary L = Some p" "prefix \<noteq> 0"
      "raw_field p ''after_action'' \<noteq> JStr ''stop''"
    and adopted: "rs_assistant_message s = Some (history ! base)"
    by (auto simp: Let_def new_resume_state_def split: if_split_asm)
  from projection(1) have member: "p \<in> set (projections_of ''primary_append'' L)"
    unfolding primary_projection_def by (blast dest: find_Some_set)
  have binding: "same_binding primary p"
    using checked projection(1) by (auto simp: check_primary_def require_def bind_result_Inr_iff Let_def split: if_splits)
  from receipt_message_prefix_Inr [OF pre] projection(2) obtain k where
    k: "length ?ms = base + k" "0 < k" "k \<le> length ?expected"
    and fp: "context_fingerprint env (take base ?ms)
      = Inr (as_string (raw_field primary ''full_history_base_fingerprint''))"
    and tail: "map_result (message_fingerprint env) (drop base ?ms) = Inr (take k ?expected)" by auto
  have ms: "take base ?ms = take base history" "length ?ms \<le> length history" by auto
  have inside: "base < length history" using k ms(2) by linarith
  have same: "?ms ! base = history ! base"
  proof -
    have "base < ?bound" using k(2,3) by linarith
    then show ?thesis by (simp add: nth_take)
  qed
  have split: "drop base ?ms = history ! base # drop (Suc base) ?ms"
    using k(1,2) same by (metis Cons_nth_drop_Suc add_less_cancel_left add.right_neutral)
  obtain rest where "?expected = as_string (raw_field p ''assistant_sha256'') # rest"
    using projection by (simp add: expected_digests_def)
  with tail split k(2) have
    "message_fingerprint env (history ! base) = Inr (as_string (raw_field p ''assistant_sha256''))"
    by (cases k) (simp_all only: map_result.simps take_Suc_Cons bind_result_Inr_iff sum.inject list.inject, auto)
  with member binding inside fp ms(1) projection(3) adopted show ?thesis by simp
qed

lemma no_projection_no_answer:
  assumes "reconcile_active_primary env cp (Some primary) frozen L history events = Inr s"
    and "rs_primary_projection s = None"
  shows "rs_assistant_message s = cp_assistant_message cp"
proof (cases "primary_projection primary L")
  case None
  then have "n = 0" if "receipt_message_prefix env ms b fp (expected_digests (primary_projection primary L)) = Inr n"
    for ms b fp n
    using that by (auto simp: expected_digests_def receipt_message_prefix_def Let_def bind_result_Inr_iff
        split: if_splits)
  with assms None show ?thesis
    by (fastforce simp: reconcile_active_primary_def adopt_primary_def new_resume_state_def Let_def
        bind_result_Inr_iff split: if_splits option.splits)
next
  case (Some p)
  with assms show ?thesis
    by (auto simp: reconcile_active_primary_def adopt_primary_def new_resume_state_def Let_def
        bind_result_Inr_iff split: if_splits option.splits)
qed

text \<open>
  C25: When a run resumes an interrupted provider call, reconciling it with the ledger and the
  history adopts an answer only if it was paid for and is the one in the history: the ledger holds
  an accepting projection of the very call the checkpoint is bound to, the history up to the base
  is the one the call was made on, and the message after the base is the one the projection
  names. Without such a projection the reconciliation leaves the answer to the checkpoint, whose own
  message, if it has one, a later phase continues with.
\<close>

theorem resume_adopts_only_the_paid_answer:
  assumes "reconcile_active_primary env cp (Some primary) frozen L history events = Inr s"
    and "base = nat (as_int (raw_field primary ''full_history_base_count''))"
  shows "case rs_primary_projection s of
      None \<Rightarrow> rs_assistant_message s = cp_assistant_message cp
    | Some p \<Rightarrow> p \<in> set (projections_of ''primary_append'' L) \<and> same_binding primary p
        \<and> raw_field p ''after_action'' \<noteq> JStr ''stop''
        \<and> context_fingerprint env (take base history)
            = Inr (as_string (raw_field primary ''full_history_base_fingerprint''))
        \<and> base < length history \<and> rs_assistant_message s = Some (history ! base)
        \<and> message_fingerprint env (history ! base) = Inr (as_string (raw_field p ''assistant_sha256''))"
proof (cases "rs_primary_projection s")
  case None
  then show ?thesis using no_projection_no_answer [OF assms(1)] by simp
next
  case (Some p)
  from adopted_answer_is_paid [OF assms(1) Some assms(2)] Some show ?thesis by simp
qed

section \<open>The recovered results\<close>

definition is_start :: "(string, string) dict \<Rightarrow> string \<Rightarrow> event \<Rightarrow> bool" where
  "is_start m i e = (case e of
       ToolCallStartEvent s \<Rightarrow> ts_tool_use_id s = i \<and> dict_get m i = Some (ts_tool_name s) | _ \<Rightarrow> False)"

text \<open>The recorded ends of a call of the batch that follow one of its starts.\<close>

fun valid_ends :: "(string, string) dict \<Rightarrow> string \<Rightarrow> bool \<Rightarrow> event list \<Rightarrow> tool_call_end_event list" where
  "valid_ends m i begun [] = []"
| "valid_ends m i begun (e # es) =
     (case e of
        ToolCallEndEvent t \<Rightarrow>
          if begun \<and> te_tool_use_id t = i \<and> dict_get m i = Some (te_tool_name t) then [t] else []
      | _ \<Rightarrow> [])
     @ valid_ends m i (begun \<or> is_start m i e) es"

definition scan_ok :: "tool_scan \<Rightarrow> bool" where
  "scan_ok sc = (case sc of (started, ended, recovered) \<Rightarrow>
     (\<forall>i s. dict_get started i = Some s \<longrightarrow> ts_tool_use_id s = i)
     \<and> (\<forall>i \<in> ended. dict_get recovered i \<noteq> None))"

lemma scan_event_ok: "scan_ok sc \<Longrightarrow> scan_ok (scan_event m e sc)"
  by (cases sc) (auto simp: scan_ok_def scan_event_def split: event.splits if_splits)

lemma scan_event_simps:
  "scan_event m (ToolCallStartEvent s) (started, ended, recovered) =
     (if dict_get m (ts_tool_use_id s) = Some (ts_tool_name s)
      then (dict_set (ts_tool_use_id s) s started, ended, recovered) else (started, ended, recovered))"
  "scan_event m (ToolCallEndEvent t) (started, ended, recovered) =
     (if dict_get m (te_tool_use_id t) = Some (te_tool_name t) \<and> dict_get started (te_tool_use_id t) \<noteq> None
      then (started, insert (te_tool_use_id t) ended,
            dict_set (te_tool_use_id t) (tool_result_block_from_end t) recovered)
      else (started, ended, recovered))"
  by (simp_all add: scan_event_def dict_get_None_iff del: map_of_eq_None_iff)

lemma scan_events:
  assumes "scan_ok sc"
  shows "scan_ok (fold (scan_event m) es sc)
    \<and> (dict_get (fst (fold (scan_event m) es sc)) i \<noteq> None
        \<longleftrightarrow> dict_get (fst sc) i \<noteq> None \<or> list_ex (is_start m i) es)
    \<and> dict_get (snd (snd (fold (scan_event m) es sc))) i
        = (let ends = valid_ends m i (dict_get (fst sc) i \<noteq> None) es in
           if ends = [] then dict_get (snd (snd sc)) i else Some (tool_result_block_from_end (last ends)))"
  using assms
proof (induction es arbitrary: sc)
  case Nil
  then show ?case by simp
next
  case (Cons e es)
  obtain started ended recovered where sc: "sc = (started, ended, recovered)" by (cases sc)
  note IH = Cons.IH [OF scan_event_ok [OF Cons.prems], of m e]
  consider (start_event) s where "e = ToolCallStartEvent s" | (end_event) t where "e = ToolCallEndEvent t"
    | (other_event) "\<forall>s. e \<noteq> ToolCallStartEvent s" "\<forall>t. e \<noteq> ToolCallEndEvent t" by blast
  then show ?case
  proof cases
    case (start_event s)
    with IH show ?thesis
      by (cases "dict_get m (ts_tool_use_id s) = Some (ts_tool_name s)"; cases "ts_tool_use_id s = i")
        (simp_all add: sc scan_event_simps is_start_def Let_def)
  next
    case (end_event t)
    let ?ok = "dict_get m (te_tool_use_id t) = Some (te_tool_name t) \<and> dict_get started (te_tool_use_id t) \<noteq> None"
    have no_start: "is_start m i e = False" using end_event by (simp add: is_start_def)
    show ?thesis
    proof (cases "?ok \<and> te_tool_use_id t = i")
      case True
      then have "scan_event m e sc = (started, insert i ended, dict_set i (tool_result_block_from_end t) recovered)"
        "valid_ends m i (dict_get started i \<noteq> None) (e # es) = t # valid_ends m i (dict_get started i \<noteq> None) es"
        using end_event no_start by (auto simp: sc scan_event_simps)
      with IH no_start show ?thesis by (simp add: sc Let_def del: valid_ends.simps)
    next
      case False
      then have ends: "valid_ends m i (dict_get started i \<noteq> None) (e # es) = valid_ends m i (dict_get started i \<noteq> None) es"
        using end_event no_start by auto
      have "fst (scan_event m e sc) = started" "dict_get (snd (snd (scan_event m e sc))) i = dict_get recovered i"
        using end_event False by (auto simp: sc scan_event_simps simp del: map_of_eq_None_iff)
      with IH no_start ends show ?thesis by (simp add: sc Let_def del: valid_ends.simps)
    qed
  next
    case other_event
    then have "scan_event m e sc = sc" "\<not> is_start m i e"
      "valid_ends m i b (e # es) = valid_ends m i b es" for b
      by (auto simp: sc scan_event_def is_start_def split: event.splits)
    with IH show ?thesis by (simp add: Let_def)
  qed
qed

lemma setdefault_fold:
  "dict_get (fold (\<lambda>(k, s) r. if k \<in> ended then r else dict_setdefault k (g s) r) xs r) i
     = (case dict_get r i of
          Some b \<Rightarrow> Some b
        | None \<Rightarrow> if i \<in> ended then None else map_option g (map_of xs i))"
proof (induction xs arbitrary: r)
  case (Cons x xs)
  then show ?case
    by (cases x) (auto split: option.splits)
qed (simp split: option.split)

text \<open>
  C24: A call that was started before the crash is never executed again: it is not among the
  calls of the resumed batch, and its result is the last one recorded after a start, else the one
  the checkpoint had, else the notice that it was interrupted.
\<close>

theorem started_calls_are_not_rerun:
  assumes "list_ex (is_start (membership blocks) i) events"
    and "results = recover_completed_tool_results completed blocks events"
    and "ends = valid_ends (membership blocks) i False events"
  shows "ToolUseBlock i n a \<notin> set (missing_tool_blocks blocks results)
    \<and> dict_get results i = Some (if ends \<noteq> [] then tool_result_block_from_end (last ends)
        else case dict_get completed i of
            Some b \<Rightarrow> b
          | None \<Rightarrow> ToolResultBlock i (ContentStr ''Tool execution was interrupted before a result was recorded; not re-running automatically on resume.'') True)"
proof -
  let ?m = "membership blocks"
  obtain started ended recovered where
    sc: "fold (scan_event ?m) events ([], {}, completed) = (started, ended, recovered)"
    by (metis prod_cases3)
  have "scan_ok ([], {}, completed)" by (simp add: scan_ok_def)
  from scan_events [OF this, of ?m events i] sc assms
  have ok: "scan_ok (started, ended, recovered)" and begun: "dict_get started i \<noteq> None"
    and rec: "dict_get recovered i = (if ends = [] then dict_get completed i
        else Some (tool_result_block_from_end (last ends)))"
    by (simp_all add: Let_def)
  from begun ok obtain s where s: "dict_get started i = Some s" "ts_tool_use_id s = i"
    by (auto simp: scan_ok_def)
  from rec s ok have "dict_get results i = Some (if ends \<noteq> [] then tool_result_block_from_end (last ends)
        else case dict_get completed i of Some b \<Rightarrow> b | None \<Rightarrow> interrupted_tool_result_block s)"
    unfolding assms(2) recover_completed_tool_results_def sc
    by (auto simp: setdefault_fold scan_ok_def split: option.splits)
  moreover from this have "i \<in> set (dict_keys results)"
    by (metis dict_get_None_iff option.distinct(1))
  ultimately show ?thesis using s(2)
    by (auto simp: missing_tool_blocks_def interrupted_tool_result_block_def split: option.splits)
qed

section \<open>Concrete resumptions\<close>

lemma text_env_context: "context_fingerprint text_env ms = Inr []"
  by (simp add: context_fingerprint_def fingerprint_def strict_json_def text_env_def)

theorem feedback_is_appended_once_witness:
  "append_feedback text_env ([say role_user ''a''] @ take 1 [say role_assistant ''b'', say role_user ''c'']) []
     (Some (int (length [say role_user ''a'']), [])) [say role_assistant ''b'', say role_user ''c'']
   = Inr (drop 1 [say role_assistant ''b'', say role_user ''c''])"
  using feedback_is_appended_once [where digests = "[''b'', ''c'']" and k = 1 and base = "[say role_user ''a'']"
      and ms = "[say role_assistant ''b'', say role_user ''c'']" and env = text_env and fp = "[]" and view = "[]"]
  by (simp add: say_fingerprint text_env_context)

definition start_example :: event where
  "start_example = ToolCallStartEvent
     \<lparr>ts_tool_use_id = ''t1'', ts_tool_name = ''Bash'', ts_input = [], ts_summary = []\<rparr>"

theorem started_calls_are_not_rerun_witness:
  "missing_tool_blocks [ToolUseBlock ''t1'' ''Bash'' [], ToolUseBlock ''t2'' ''Read'' []]
     (recover_completed_tool_results [] [ToolUseBlock ''t1'' ''Bash'' [], ToolUseBlock ''t2'' ''Read'' []]
        [start_example])
   = [ToolUseBlock ''t2'' ''Read'' []]"
  using started_calls_are_not_rerun [of
      "[ToolUseBlock ''t1'' ''Bash'' [], ToolUseBlock ''t2'' ''Read'' []]" "''t1''" "[start_example]"
      _ "[]", OF _ refl refl, of "''Bash''" "[]"]
  by (simp add: start_example_def membership_def tool_uses_def is_start_def missing_tool_blocks_def
      recover_completed_tool_results_def scan_event_simps map_filter_simps)

definition primary_example :: json_obj where
  "primary_example = [(''version'', JInt 3), (''logical_call_id'', JStr ''l''), (''delivery_attempt_id'', JStr ''d''),
     (''turn_index'', JInt 0), (''snapshot_id'', JNull), (''request_fingerprint'', JStr ''q''),
     (''full_history_base_count'', JInt 1), (''full_history_base_fingerprint'', JStr [])]"

definition projection_example :: json_obj where
  "projection_example = (''projection_kind'', JStr ''primary_append'') # (''after_action'', JNull)
     # (''assistant_sha256'', JStr ''b'') # (''assistant_stop_reason'', JStr ''end_turn'') # primary_example"

definition ledger_example :: ledger where
  "ledger_example = \<lparr>lg_run_id = ''r'', lg_budget = None, lg_budget_owner_id = [], lg_intents = [],
     lg_started = {}, lg_abandoned = {}, lg_receipts = [], lg_consumed = {}, lg_journal_count = 0,
     lg_projections = [(''p'', projection_example)], lg_total_usage = usage_zero, lg_total_cost_usd = None,
     lg_has_unknown_usage = False, lg_persistence_failed = False\<rparr>"

definition resumed_example :: resume_state where
  "resumed_example = (new_resume_state checkpoint_example)
     \<lparr>rs_primary_prefix := 1, rs_primary_projection := Some projection_example,
      rs_assistant_message := Some (say role_assistant ''b''), rs_assistant_stop_reason := Some ''end_turn''\<rparr>"

lemma resumed_example_reached:
  "reconcile_active_primary text_env checkpoint_example (Some primary_example) None ledger_example
     [say role_user ''a'', say role_assistant ''b''] [] = Inr resumed_example"
proof -
  have found: "primary_projection primary_example ledger_example = Some projection_example"
    by (simp add: primary_projection_def projections_of_def ledger_example_def projection_example_def
        primary_example_def raw_field_def)
  have none: "receipt_for d ledger_example = None" "intent_for d ledger_example = None" for d
    by (simp_all add: receipt_for_def intent_for_def ledger_example_def)
  have binding: "same_binding primary_example projection_example"
    by (simp add: same_binding_def projection_example_def primary_example_def raw_field_def)
  have fields: "raw_field primary_example ''turn_index'' = JInt 0"
    "raw_field primary_example ''full_history_base_count'' = JInt 1"
    "raw_field primary_example ''full_history_base_fingerprint'' = JStr []"
    "raw_field projection_example ''after_action'' = JNull"
    "raw_field projection_example ''assistant_stop_reason'' = JStr ''end_turn''"
    "raw_field projection_example ''assistant_sha256'' = JStr ''b''"
    by (simp_all add: projection_example_def primary_example_def raw_field_def)
  have cp: "cp_phase checkpoint_example = JStr ''started''" "cp_turn_index checkpoint_example = 0"
    by (simp_all add: checkpoint_example_def)
  have "check_primary checkpoint_example primary_example None ledger_example = Inr ()"
    by (simp add: check_primary_def found none binding fields cp require_def)
  moreover have "rejected_text_messages text_env (Some projection_example) = Inr None"
    by (simp add: rejected_text_messages_def fields)
  moreover have "receipt_message_prefix text_env ([say role_user ''a''] @ [say role_assistant ''b''])
      (int (length [say role_user ''a''])) [] [''b''] = Inr (int (length [say role_assistant ''b'']))"
    by (rule receipt_message_prefix_exact) (simp_all add: say_fingerprint text_env_context)
  ultimately show ?thesis
    by (simp add: reconcile_active_primary_def found none fields cp adopt_primary_def
        expected_digests_def resumed_example_def new_resume_state_def)
qed

theorem resume_adopts_only_the_paid_answer_witness:
  "message_fingerprint text_env (say role_assistant ''b'') = Inr ''b''
   \<and> rs_assistant_message resumed_example = Some (say role_assistant ''b'')"
  using resume_adopts_only_the_paid_answer [OF resumed_example_reached refl]
  by (simp add: resumed_example_def primary_example_def projection_example_def raw_field_def)

end
