(* ===== verification/Model_Input.thy ===== *)
theory Model_Input
  imports Run_Contract
begin

text \<open>
  Model-input snapshots of \<^verbatim>\<open>src/linch/run_store.py\<close>: the request that was about to be sent to a
  provider, frozen as canonical JSON with an integrity hash, and its strict decoding on
  resumption. The JSON encoder and decoder and SHA-256 are parameters; the cancellation signal is
  never stored and has no field here.
\<close>

section \<open>Requests\<close>

record system_block =
  sb_text :: string
  sb_cacheable :: bool

record output_schema =
  os_name :: string
  os_schema :: json_obj
  os_strict :: bool
  os_description :: "string option"

text \<open>A temperature is null or a number, a tool choice null, a string or a dictionary.\<close>

record provider_request =
  pr_model :: string
  pr_system :: "system_block list"
  pr_tools :: "json_obj list"
  pr_messages :: "message list"
  pr_max_output_tokens :: "int option"
  pr_temperature :: json
  pr_stop_sequences :: "string list option"
  pr_max_retries :: int
  pr_reasoning :: "json_obj option"
  pr_cache_prompt :: "bool option"
  pr_cache_ttl :: "string option"
  pr_thinking :: "json_obj option"
  pr_effort :: "string option"
  pr_output_schema :: "output_schema option"
  pr_tool_choice :: json
  pr_stream_partials :: "bool option"
  pr_native_catalog_changes :: "bool option"

section \<open>Encoding\<close>

text \<open>\<^verbatim>\<open>_strict_model_json\<close> on trees: finite floats, and containers nested at most 100 deep.\<close>

fun model_json_ok :: "nat \<Rightarrow> json \<Rightarrow> bool" where
  "model_json_ok depth (JFloat f) = is_finite f"
| "model_json_ok depth (JList xs) = (depth < 100 \<and> (\<forall>x \<in> set xs. model_json_ok (depth + 1) x))"
| "model_json_ok depth (JDict d) = (depth < 100 \<and> (\<forall>(k, x) \<in> set d. model_json_ok (depth + 1) x))"
| "model_json_ok depth v = True"

definition payload_fields :: "string list" where
  "payload_fields = [''model'', ''system'', ''tools'', ''messages'', ''max_output_tokens'', ''temperature'',
     ''stop_sequences'', ''max_retries'', ''reasoning'', ''cache_prompt'', ''cache_ttl'', ''thinking'',
     ''effort'', ''output_schema'', ''tool_choice'', ''stream_partials'', ''_native_catalog_changes'']"

definition system_to_json :: "system_block \<Rightarrow> json" where
  "system_to_json b =
     JDict [(''type'', JStr ''text''), (''text'', JStr (sb_text b)), (''cacheable'', JBool (sb_cacheable b))]"

definition schema_to_json :: "output_schema \<Rightarrow> json" where
  "schema_to_json s = JDict [(''name'', JStr (os_name s)), (''schema'', JDict (os_schema s)),
     (''strict'', JBool (os_strict s)), (''description'', json_opt JStr (os_description s))]"

definition request_payload :: "provider_request \<Rightarrow> json_obj" where
  "request_payload r =
     [(''model'', JStr (pr_model r)), (''system'', JList (map system_to_json (pr_system r))),
      (''tools'', JList (map JDict (pr_tools r))),
      (''messages'', JList (map (\<lambda>m. JDict (message_to_dict m)) (pr_messages r))),
      (''max_output_tokens'', json_opt JInt (pr_max_output_tokens r)),
      (''temperature'', pr_temperature r),
      (''stop_sequences'', json_opt (\<lambda>xs. JList (map JStr xs)) (pr_stop_sequences r)),
      (''max_retries'', JInt (pr_max_retries r)), (''reasoning'', json_opt JDict (pr_reasoning r)),
      (''cache_prompt'', json_opt JBool (pr_cache_prompt r)),
      (''cache_ttl'', json_opt JStr (pr_cache_ttl r)), (''thinking'', json_opt JDict (pr_thinking r)),
      (''effort'', json_opt JStr (pr_effort r)),
      (''output_schema'', json_opt schema_to_json (pr_output_schema r)),
      (''tool_choice'', pr_tool_choice r), (''stream_partials'', json_opt JBool (pr_stream_partials r))]
     @ (case pr_native_catalog_changes r of None \<Rightarrow> [] | Some b \<Rightarrow> [(''_native_catalog_changes'', JBool b)])"

definition provider_request_payload :: "provider_request \<Rightarrow> json_obj result" where
  "provider_request_payload r =
     (if pr_model r = [] then Inl TypeError
      else if model_json_ok 0 (JDict (request_payload r)) then Inr (request_payload r)
      else Inl TypeError)"

definition model_input_integrity_hash :: "contract_env \<Rightarrow> int \<Rightarrow> string \<Rightarrow> string" where
  "model_input_integrity_hash env version request_json =
     ''sha256:'' @ ce_digest env (show_int version @ [CHR 0x0A] @ request_json)"

section \<open>Decoding\<close>

abbreviation bad_snapshot :: "'a result" where
  "bad_snapshot \<equiv> Inl ModelInputSnapshotError"

definition snapshot_check :: "bool \<Rightarrow> unit result" where
  "snapshot_check ok = (if ok then Inr () else bad_snapshot)"

definition validated_snapshot_payload ::
  "contract_env \<Rightarrow> (string \<Rightarrow> json result) \<Rightarrow> model_input_snapshot \<Rightarrow> json_obj result" where
  "validated_snapshot_payload env loads sn =
     bind_result (require_wire_version (Some (JInt (sn_codec_version sn)))) (\<lambda>_.
     bind_result (snapshot_check (sn_integrity_hash sn
       = model_input_integrity_hash env (sn_codec_version sn) (sn_request_json sn))) (\<lambda>_.
     case loads (sn_request_json sn) of
       Inr (JDict raw) \<Rightarrow>
         bind_result (snapshot_check (insert ''_native_catalog_changes'' (set (dict_keys raw))
             = set payload_fields)) (\<lambda>_.
         bind_result (snapshot_check (model_json_ok 0 (JDict raw))) (\<lambda>_. Inr raw))
     | _ \<Rightarrow> bad_snapshot))"

definition optional_int :: "json \<Rightarrow> int option result" where
  "optional_int v = (case v of JNull \<Rightarrow> Inr None | JInt n \<Rightarrow> Inr (Some n) | _ \<Rightarrow> bad_snapshot)"

definition optional_bool :: "json \<Rightarrow> bool option result" where
  "optional_bool v = (case v of JNull \<Rightarrow> Inr None | JBool b \<Rightarrow> Inr (Some b) | _ \<Rightarrow> bad_snapshot)"

definition optional_mapping :: "json \<Rightarrow> json_obj option result" where
  "optional_mapping v = (case v of JNull \<Rightarrow> Inr None | JDict d \<Rightarrow> Inr (Some d) | _ \<Rightarrow> bad_snapshot)"

definition one_of :: "string list \<Rightarrow> json \<Rightarrow> string option result" where
  "one_of allowed v = (case v of
       JNull \<Rightarrow> Inr None
     | JStr s \<Rightarrow> if s \<in> set allowed then Inr (Some s) else bad_snapshot
     | _ \<Rightarrow> bad_snapshot)"

fun decode_system_block :: "json \<Rightarrow> system_block result" where
  "decode_system_block (JDict d) =
     (if set (dict_keys d) = {''type'', ''text'', ''cacheable''} then
        (case (dict_get d ''type'', dict_get d ''text'', dict_get d ''cacheable'') of
           (Some (JStr t), Some (JStr s), Some (JBool c)) \<Rightarrow>
             if t = ''text'' then Inr \<lparr>sb_text = s, sb_cacheable = c\<rparr> else bad_snapshot
         | _ \<Rightarrow> bad_snapshot)
      else bad_snapshot)"
| "decode_system_block _ = bad_snapshot"

fun decode_output_schema :: "json \<Rightarrow> output_schema option result" where
  "decode_output_schema JNull = Inr None"
| "decode_output_schema (JDict d) =
     (if set (dict_keys d) = {''name'', ''schema'', ''strict'', ''description''} then
        (case (dict_get d ''name'', dict_get d ''schema'', dict_get d ''strict'', dict_get d ''description'') of
           (Some (JStr n), Some (JDict s), Some (JBool b), Some desc) \<Rightarrow>
             if n = [] then bad_snapshot
             else (case desc of
                 JNull \<Rightarrow> Inr (Some \<lparr>os_name = n, os_schema = s, os_strict = b, os_description = None\<rparr>)
               | JStr t \<Rightarrow> Inr (Some \<lparr>os_name = n, os_schema = s, os_strict = b, os_description = Some t\<rparr>)
               | _ \<Rightarrow> bad_snapshot)
         | _ \<Rightarrow> bad_snapshot)
      else bad_snapshot)"
| "decode_output_schema _ = bad_snapshot"

text \<open>\<open>message_from_dict\<close> with its exceptions mapped; only these three kinds are caught.\<close>

definition decode_message :: "(json \<Rightarrow> string) \<Rightarrow> json \<Rightarrow> message result" where
  "decode_message str v = (case v of
       JDict d \<Rightarrow>
         bind_result (snapshot_check (dict_get d ''role'' \<in> {Some role_user, Some role_assistant})) (\<lambda>_.
         bind_result (snapshot_check (case dict_get d ''content'' of Some (JList xs) \<Rightarrow> True | _ \<Rightarrow> False)) (\<lambda>_.
         bind_result (snapshot_check (case dict_get d ''provider_metadata'' of
             None \<Rightarrow> True | Some JNull \<Rightarrow> True | Some (JDict x) \<Rightarrow> True | _ \<Rightarrow> False)) (\<lambda>_.
           case message_from_dict str d of
             Inl e \<Rightarrow> if e \<in> {KeyError, TypeError, ValueError} then bad_snapshot else Inl e
           | Inr m \<Rightarrow> Inr m)))
     | _ \<Rightarrow> bad_snapshot)"

definition decode_list :: "(json \<Rightarrow> 'a result) \<Rightarrow> json \<Rightarrow> 'a list result" where
  "decode_list f v = (case v of JList xs \<Rightarrow> map_result f xs | _ \<Rightarrow> bad_snapshot)"

definition decode_tool :: "json \<Rightarrow> json_obj result" where
  "decode_tool v = (case v of JDict d \<Rightarrow> Inr d | _ \<Rightarrow> bad_snapshot)"

definition decode_string :: "json \<Rightarrow> string result" where
  "decode_string v = (case v of JStr s \<Rightarrow> Inr s | _ \<Rightarrow> bad_snapshot)"

definition temperature_ok :: "json \<Rightarrow> bool" where
  "temperature_ok v = (case v of JNull \<Rightarrow> True | JInt n \<Rightarrow> True | JFloat f \<Rightarrow> True | _ \<Rightarrow> False)"

definition tool_choice_ok :: "json \<Rightarrow> bool" where
  "tool_choice_ok v = (case v of
       JNull \<Rightarrow> True
     | JStr s \<Rightarrow> s \<in> set [''auto'', ''none'', ''required'']
     | JDict d \<Rightarrow> list_all (\<lambda>(k, x). case x of JStr s \<Rightarrow> True | _ \<Rightarrow> False) d
     | _ \<Rightarrow> False)"

definition decode_payload :: "(json \<Rightarrow> string) \<Rightarrow> json_obj \<Rightarrow> provider_request result" where
  "decode_payload str raw =
     bind_result (decode_string (raw_field raw ''model'')) (\<lambda>model.
     bind_result (snapshot_check (model \<noteq> [])) (\<lambda>_.
     bind_result (decode_list decode_system_block (raw_field raw ''system'')) (\<lambda>system.
     bind_result (decode_list decode_tool (raw_field raw ''tools'')) (\<lambda>tools.
     bind_result (decode_list (decode_message str) (raw_field raw ''messages'')) (\<lambda>messages.
     bind_result (optional_int (raw_field raw ''max_output_tokens'')) (\<lambda>max_output_tokens.
     bind_result (snapshot_check (temperature_ok (raw_field raw ''temperature''))) (\<lambda>_.
     bind_result (case raw_field raw ''stop_sequences'' of
         JNull \<Rightarrow> Inr None
       | v \<Rightarrow> bind_result (decode_list decode_string v) (\<lambda>xs. Inr (Some xs))) (\<lambda>stop.
     bind_result (case raw_field raw ''max_retries'' of JInt n \<Rightarrow> Inr n | _ \<Rightarrow> bad_snapshot) (\<lambda>max_retries.
     bind_result (one_of [''5m'', ''1h''] (raw_field raw ''cache_ttl'')) (\<lambda>cache_ttl.
     bind_result (one_of [''low'', ''medium'', ''high'', ''xhigh'', ''max''] (raw_field raw ''effort'')) (\<lambda>effort.
     bind_result (snapshot_check (tool_choice_ok (raw_field raw ''tool_choice''))) (\<lambda>_.
     bind_result (optional_mapping (raw_field raw ''reasoning'')) (\<lambda>reasoning.
     bind_result (optional_bool (raw_field raw ''cache_prompt'')) (\<lambda>cache_prompt.
     bind_result (optional_mapping (raw_field raw ''thinking'')) (\<lambda>thinking.
     bind_result (decode_output_schema (raw_field raw ''output_schema'')) (\<lambda>schema.
     bind_result (optional_bool (raw_field raw ''stream_partials'')) (\<lambda>stream_partials.
     bind_result (optional_bool (raw_field raw ''_native_catalog_changes'')) (\<lambda>native.
       Inr \<lparr>pr_model = model, pr_system = system, pr_tools = tools, pr_messages = messages,
            pr_max_output_tokens = max_output_tokens, pr_temperature = raw_field raw ''temperature'',
            pr_stop_sequences = stop, pr_max_retries = max_retries, pr_reasoning = reasoning,
            pr_cache_prompt = cache_prompt, pr_cache_ttl = cache_ttl, pr_thinking = thinking,
            pr_effort = effort, pr_output_schema = schema, pr_tool_choice = raw_field raw ''tool_choice'',
            pr_stream_partials = stream_partials, pr_native_catalog_changes = native\<rparr>))))))))))))))))))"

definition decode_model_input_snapshot ::
  "contract_env \<Rightarrow> (string \<Rightarrow> json result) \<Rightarrow> (json \<Rightarrow> string) \<Rightarrow> model_input_snapshot
   \<Rightarrow> provider_request result" where
  "decode_model_input_snapshot env loads str sn =
     bind_result (validated_snapshot_payload env loads sn) (decode_payload str)"

text \<open>The snapshot is decoded before it is returned, so a request that cannot be read back is refused.\<close>

definition create_model_input_snapshot ::
  "contract_env \<Rightarrow> (string \<Rightarrow> json result) \<Rightarrow> (json \<Rightarrow> string) \<Rightarrow> string \<Rightarrow> string \<Rightarrow> int
   \<Rightarrow> provider_request \<Rightarrow> string option \<Rightarrow> string \<Rightarrow> model_input_snapshot result" where
  "create_model_input_snapshot env loads str uuid run_id attempt request sid created_at =
     (if run_id = [] then Inl ValueError
      else if attempt < 1 then Inl ValueError
      else
        let snapshot_id = (case sid of None \<Rightarrow> uuid | Some [] \<Rightarrow> uuid | Some s \<Rightarrow> s) in
        if snapshot_id = [] then Inl ValueError
        else
          bind_result (provider_request_payload request) (\<lambda>payload.
          bind_result (ce_dumps env (JDict payload)) (\<lambda>request_json.
            let sn = \<lparr>sn_id = snapshot_id, sn_run_id = run_id, sn_provider_attempt = attempt,
                      sn_codec_version = wire_version, sn_request_json = request_json,
                      sn_integrity_hash = model_input_integrity_hash env wire_version request_json,
                      sn_created_at = created_at\<rparr>
            in bind_result (decode_model_input_snapshot env loads str sn) (\<lambda>_. Inr sn))))"

section \<open>Requests up to the order of keys\<close>

fun canon_block :: "content_block \<Rightarrow> content_block" and canon_content :: "tool_content \<Rightarrow> tool_content" where
  "canon_block (CatalogChangeBlock t a r ds) = CatalogChangeBlock t a r (map canon_obj ds)"
| "canon_block (ToolUseBlock i n inp) = ToolUseBlock i n (canon_obj inp)"
| "canon_block (ToolResultBlock i c e) = ToolResultBlock i (canon_content c) e"
| "canon_block (ImageBlock src) = ImageBlock (canon_obj src)"
| "canon_block (TextBlock t) = TextBlock t"
| "canon_block (ThinkingBlock t s) = ThinkingBlock t s"
| "canon_block (RedactedThinkingBlock d) = RedactedThinkingBlock d"
| "canon_content (ContentStr s) = ContentStr s"
| "canon_content (ContentBlocks bs) = ContentBlocks (map canon_block bs)"

definition canon_message :: "message \<Rightarrow> message" where
  "canon_message m = m\<lparr>role := canon (role m), content := map canon_block (content m),
     provider_metadata := map_option canon (provider_metadata m)\<rparr>"

definition canon_request :: "provider_request \<Rightarrow> provider_request" where
  "canon_request r = r\<lparr>pr_tools := map canon_obj (pr_tools r), pr_messages := map canon_message (pr_messages r),
     pr_reasoning := map_option canon_obj (pr_reasoning r), pr_thinking := map_option canon_obj (pr_thinking r),
     pr_output_schema := map_option (\<lambda>s. s\<lparr>os_schema := canon_obj (os_schema s)\<rparr>) (pr_output_schema r),
     pr_temperature := canon (pr_temperature r), pr_tool_choice := canon (pr_tool_choice r)\<rparr>"

lemma set_keys_canon [simp]: "set (dict_keys (canon_obj d)) = set (dict_keys d)"
  using keys_canon_obj [of d] by (simp del: keys_canon_obj)

lemma canon_block_kind [simp]:
  "is_text_block (canon_block b) = is_text_block b" "is_image_block (canon_block b) = is_image_block b"
  by (cases b; simp)+

lemma block_canon_leaf:
  assumes "is_text_block b \<or> is_image_block b"
  shows "block_from_dict str (canon_obj (block_to_dict b)) = Inr (canon_block b)"
  using assms by (cases b) (auto simp: block_from_dict.simps raw_get_def)

lemma map_canon_dicts [simp]:
  "map (canon \<circ> (\<lambda>b. JDict (f b))) bs = map (\<lambda>b. JDict (canon_obj (f b))) bs"
  by simp

lemma map_py_dicts [simp]: "map_result py_dict (map (\<lambda>x. JDict (f x)) ds) = Inr (map f ds)"
  using map_result_all_Inr [of ds py_dict "\<lambda>x. JDict (f x)" f] by simp

lemma block_canon:
  assumes "wf_block b"
  shows "block_from_dict str (canon_obj (block_to_dict b)) = Inr (canon_block b)"
proof (cases b)
  case (ToolResultBlock tid c e)
  show ?thesis
  proof (cases c)
    case (ContentStr s)
    with ToolResultBlock show ?thesis
      by (simp add: block_from_dict.simps raw_get_def raw_item_def)
  next
    case (ContentBlocks bs)
    with ToolResultBlock assms have bs: "list_all (\<lambda>b. is_text_block b \<or> is_image_block b) bs"
      by simp
    have "map_result (block_from_dict str) (map (\<lambda>b. canon_obj (block_to_dict b)) bs)
        = Inr (map canon_block bs)"
      using bs by (intro map_result_all_Inr) (simp add: block_canon_leaf list_all_iff)
    then have "dict_items (block_from_dict str) (map (\<lambda>b. JDict (canon_obj (block_to_dict b))) bs)
        = Inr (map canon_block bs)"
      by (simp add: dict_items_def)
    moreover have "filter (\<lambda>b. is_text_block b \<or> is_image_block b) (map canon_block bs) = map canon_block bs"
      using bs by (simp add: list_all_iff filter_id_conv)
    ultimately show ?thesis
      unfolding ToolResultBlock ContentBlocks
      by (subst block_from_dict.simps) (simp add: raw_get_def raw_item_def)
  qed
qed (auto simp: block_from_dict.simps raw_get_def raw_item_def str_or_none_def comp_def split: option.splits)

lemma canon_JNull_iff [simp]: "canon v = JNull \<longleftrightarrow> v = JNull"
  by (cases v) auto

lemma message_canon:
  assumes "wf_message m"
  shows "message_from_dict str (canon_obj (message_to_dict m)) = Inr (canon_message m)"
proof -
  have "map_result (item_from_json str) (map (\<lambda>b. JDict (canon_obj (block_to_dict b))) (content m))
      = Inr (map canon_block (content m))"
    using assms by (intro map_result_all_Inr) (simp add: block_canon wf_message_def list_all_iff)
  with assms show ?thesis
    by (cases "provider_metadata m")
      (auto simp: message_from_dict_def message_to_dict_def raw_item_def raw_get_def canon_message_def
        none_if_null_def wf_message_def split: json.splits)
qed

text \<open>What the decoder has accepted of a canonical payload.\<close>

lemma decode_message_canon:
  assumes "wf_message m" and "decode_message str (JDict (canon_obj (message_to_dict m))) = Inr m'"
  shows "m' = canon_message m"
  using assms(2) by (auto simp: decode_message_def message_canon [OF assms(1)] bind_result_Inr_iff)

lemma decode_list_messages:
  assumes "list_all wf_message ms"
    and "map_result (decode_message str) (map (\<lambda>m. JDict (canon_obj (message_to_dict m))) ms) = Inr ms'"
  shows "ms' = map canon_message ms"
  using assms
  by (induction ms arbitrary: ms') (auto simp: bind_result_Inr_iff dest: decode_message_canon)

lemma decode_systems [simp]:
  "map_result decode_system_block (map (\<lambda>b. canon (system_to_json b)) bs) = Inr bs"
  by (induction bs) (simp_all add: system_to_json_def)

lemma decode_tools [simp]: "map_result decode_tool (map (\<lambda>d. JDict (f d)) ds) = Inr (map f ds)"
  by (induction ds) (simp_all add: decode_tool_def)

lemma decode_strings [simp]: "map_result decode_string (map JStr xs) = Inr xs"
  by (induction xs) (simp_all add: decode_string_def)

lemma decode_schema_canon:
  "decode_output_schema (canon (json_opt schema_to_json s)) = Inr s'
   \<Longrightarrow> s' = map_option (\<lambda>s. s\<lparr>os_schema := canon_obj (os_schema s)\<rparr>) s"
  by (cases s) (auto simp: json_opt_def schema_to_json_def split: option.splits if_splits)

lemma optional_canon [simp]:
  "optional_int (canon (json_opt JInt n)) = Inr n"
  "optional_bool (canon (json_opt JBool b)) = Inr b"
  "optional_mapping (canon (json_opt JDict d)) = Inr (map_option canon_obj d)"
  by (simp_all add: optional_int_def optional_bool_def optional_mapping_def json_opt_def split: option.splits)

lemma one_of_canon: "one_of xs (canon (json_opt JStr s)) = Inr s' \<Longrightarrow> s' = s"
  by (cases s) (auto simp: one_of_def json_opt_def split: if_splits)

lemma payload_distinct [simp]: "distinct (map fst (request_payload r))"
  by (simp add: request_payload_def split: option.split)

lemma payload_canon_fields:
  "raw_field (canon_obj (request_payload r)) k = canon (raw_field (request_payload r) k)"
  by (simp add: raw_field_def split: option.split)

lemma payload_native:
  "raw_field (request_payload r) ''_native_catalog_changes'' = json_opt JBool (pr_native_catalog_changes r)"
  by (simp add: raw_field_def request_payload_def json_opt_def split: option.splits)

lemma payload_values:
  "raw_field (request_payload r) ''model'' = JStr (pr_model r)"
  "raw_field (request_payload r) ''system'' = JList (map system_to_json (pr_system r))"
  "raw_field (request_payload r) ''tools'' = JList (map JDict (pr_tools r))"
  "raw_field (request_payload r) ''messages'' = JList (map (\<lambda>m. JDict (message_to_dict m)) (pr_messages r))"
  "raw_field (request_payload r) ''max_output_tokens'' = json_opt JInt (pr_max_output_tokens r)"
  "raw_field (request_payload r) ''temperature'' = pr_temperature r"
  "raw_field (request_payload r) ''stop_sequences'' = json_opt (\<lambda>xs. JList (map JStr xs)) (pr_stop_sequences r)"
  "raw_field (request_payload r) ''max_retries'' = JInt (pr_max_retries r)"
  "raw_field (request_payload r) ''reasoning'' = json_opt JDict (pr_reasoning r)"
  "raw_field (request_payload r) ''cache_prompt'' = json_opt JBool (pr_cache_prompt r)"
  "raw_field (request_payload r) ''cache_ttl'' = json_opt JStr (pr_cache_ttl r)"
  "raw_field (request_payload r) ''thinking'' = json_opt JDict (pr_thinking r)"
  "raw_field (request_payload r) ''effort'' = json_opt JStr (pr_effort r)"
  "raw_field (request_payload r) ''output_schema'' = json_opt schema_to_json (pr_output_schema r)"
  "raw_field (request_payload r) ''tool_choice'' = pr_tool_choice r"
  "raw_field (request_payload r) ''stream_partials'' = json_opt JBool (pr_stream_partials r)"
  by (simp_all add: raw_field_def request_payload_def)

lemma decode_payload_canon:
  assumes "list_all wf_message (pr_messages r)"
    and "decode_payload str (canon_obj (request_payload r)) = Inr r'"
  shows "r' = canon_request r"
proof -
  from assms(2) obtain ms ttl effort schema where
    ms: "decode_list (decode_message str) (canon (JList (map (\<lambda>m. JDict (message_to_dict m)) (pr_messages r)))) = Inr ms"
    and ttl: "one_of [''5m'', ''1h''] (canon (json_opt JStr (pr_cache_ttl r))) = Inr ttl"
    and effort: "one_of [''low'', ''medium'', ''high'', ''xhigh'', ''max''] (canon (json_opt JStr (pr_effort r))) = Inr effort"
    and schema: "decode_output_schema (canon (json_opt schema_to_json (pr_output_schema r))) = Inr schema"
    and r': "r' = \<lparr>pr_model = pr_model r, pr_system = pr_system r, pr_tools = map canon_obj (pr_tools r),
        pr_messages = ms, pr_max_output_tokens = pr_max_output_tokens r,
        pr_temperature = canon (pr_temperature r), pr_stop_sequences = pr_stop_sequences r,
        pr_max_retries = pr_max_retries r, pr_reasoning = map_option canon_obj (pr_reasoning r),
        pr_cache_prompt = pr_cache_prompt r, pr_cache_ttl = ttl,
        pr_thinking = map_option canon_obj (pr_thinking r), pr_effort = effort, pr_output_schema = schema,
        pr_tool_choice = canon (pr_tool_choice r), pr_stream_partials = pr_stream_partials r,
        pr_native_catalog_changes = pr_native_catalog_changes r\<rparr>"
    unfolding decode_payload_def payload_canon_fields payload_values payload_native
    by (auto simp: bind_result_Inr_iff decode_list_def decode_string_def [of "JStr _"] json_opt_def [of "\<lambda>xs. JList (map JStr xs)"] comp_def split: option.splits)
  have "ms = map canon_message (pr_messages r)"
    using decode_list_messages [OF assms(1)] ms by (simp add: decode_list_def comp_def)
  with r' one_of_canon [OF ttl] one_of_canon [OF effort] decode_schema_canon [OF schema]
  show ?thesis by (simp add: canon_request_def)
qed

section \<open>Frozen requests\<close>

text \<open>
  C27: The request that a snapshot was made of is the request that is sent on resumption: decoding
  an accepted snapshot succeeds and gives the frozen request back, field by field, up to the
  order of the keys inside its dictionaries. All it needs of the JSON library is that decoding
  inverts encoding up to that order.
\<close>

theorem frozen_request_reads_back:
  assumes "create_model_input_snapshot env loads str uuid run_id attempt request sid ts = Inr sn"
    and "\<forall>v s. ce_dumps env v = Inr s \<longrightarrow> loads s = Inr (canon v)"
    and "list_all wf_message (pr_messages request)"
  shows "decode_model_input_snapshot env loads str sn = Inr (canon_request request)"
proof -
  from assms(1) obtain json where json: "ce_dumps env (JDict (request_payload request)) = Inr json"
    "sn_request_json sn = json"
    and decodes: "\<exists>r. decode_model_input_snapshot env loads str sn = Inr r"
    by (auto simp: create_model_input_snapshot_def provider_request_payload_def Let_def
        bind_result_Inr_iff split: if_splits)
  from decodes obtain r where r: "decode_model_input_snapshot env loads str sn = Inr r" by blast
  then obtain raw where raw: "validated_snapshot_payload env loads sn = Inr raw"
    "decode_payload str raw = Inr r"
    by (auto simp: decode_model_input_snapshot_def bind_result_Inr_iff)
  from raw(1) json assms(2) have "raw = canon_obj (request_payload request)"
    by (auto simp: validated_snapshot_payload_def bind_result_Inr_iff)
  with raw(2) decode_payload_canon [OF assms(3)] r show ?thesis by simp
qed

text \<open>A snapshot whose text was altered is refused, unless the digests of the two texts collide.\<close>

lemma altered_snapshot_is_refused:
  assumes "create_model_input_snapshot env loads str uuid run_id attempt request sid ts = Inr sn"
    and "ce_digest env (show_int wire_version @ [CHR 0x0A] @ json)
      \<noteq> ce_digest env (show_int wire_version @ [CHR 0x0A] @ sn_request_json sn)"
  shows "decode_model_input_snapshot env loads str (sn\<lparr>sn_request_json := json\<rparr>) = Inl ModelInputSnapshotError"
  using assms
  by (auto simp: create_model_input_snapshot_def Let_def bind_result_Inr_iff decode_model_input_snapshot_def
      validated_snapshot_payload_def model_input_integrity_hash_def snapshot_check_def
      require_wire_version_def split: if_splits)

section \<open>A concrete request\<close>

lemma model_json_ok_canon: "model_json_ok depth v \<Longrightarrow> model_json_ok depth (canon v)"
  by (induction depth v rule: model_json_ok.induct) (auto simp: set_canon_obj)

definition request_example :: provider_request where
  "request_example = \<lparr>pr_model = ''m'', pr_system = [\<lparr>sb_text = ''be brief'', sb_cacheable = True\<rparr>],
     pr_tools = [[(''name'', JStr ''Read''), (''input_schema'', JDict [])]],
     pr_messages = [\<lparr>role = role_user, content = [TextBlock ''hi''], provider_metadata = None\<rparr>],
     pr_max_output_tokens = Some 100, pr_temperature = JFloat (Fin (1 / 2)), pr_stop_sequences = None,
     pr_max_retries = 5, pr_reasoning = None, pr_cache_prompt = Some True, pr_cache_ttl = Some ''5m'',
     pr_thinking = None, pr_effort = None, pr_output_schema = None, pr_tool_choice = JStr ''auto'',
     pr_stream_partials = None, pr_native_catalog_changes = None\<rparr>"

definition request_env :: contract_env where
  "request_env = \<lparr>ce_dumps = (\<lambda>v. if v = JDict (request_payload request_example) then Inr ''x'' else Inl TypeError),
     ce_digest = (\<lambda>s. s)\<rparr>"

definition request_loads :: "string \<Rightarrow> json result" where
  "request_loads s = Inr (JDict (canon_obj (request_payload request_example)))"

definition snapshot_example :: model_input_snapshot where
  "snapshot_example = \<lparr>sn_id = ''s'', sn_run_id = ''r'', sn_provider_attempt = 1, sn_codec_version = wire_version,
     sn_request_json = ''x'', sn_integrity_hash = model_input_integrity_hash request_env wire_version ''x'',
     sn_created_at = ''t''\<rparr>"

lemma example_payload_ok: "model_json_ok 0 (JDict (request_payload request_example))"
  by (simp add: request_payload_def request_example_def json_opt_def system_to_json_def message_to_dict_def)

lemma snapshot_example_created:
  "create_model_input_snapshot request_env request_loads (\<lambda>_. []) ''u'' ''r'' 1 request_example (Some ''s'') ''t''
   = Inr snapshot_example"
proof -
  have keys: "insert ''_native_catalog_changes'' (set (dict_keys (request_payload request_example))) = set payload_fields"
    by (auto simp: request_payload_def request_example_def payload_fields_def)
  have "validated_snapshot_payload request_env request_loads snapshot_example
      = Inr (canon_obj (request_payload request_example))"
    using model_json_ok_canon [OF example_payload_ok] keys
    by (simp add: validated_snapshot_payload_def snapshot_example_def request_loads_def snapshot_check_def
        require_wire_version_def del: model_json_ok.simps)
  moreover have "\<exists>r. decode_payload (\<lambda>_. []) (canon_obj (request_payload request_example)) = Inr r"
    unfolding decode_payload_def payload_canon_fields payload_values payload_native
    by (simp add: request_example_def decode_list_def decode_string_def snapshot_check_def temperature_ok_def
        json_opt_def one_of_def tool_choice_ok_def optional_int_def optional_bool_def optional_mapping_def
        decode_message_def message_from_dict_def message_to_dict_def raw_item_def raw_get_def
        block_from_dict.simps system_to_json_def decode_tool_def none_if_null_def)
  ultimately have "\<exists>r. decode_model_input_snapshot request_env request_loads (\<lambda>_. []) snapshot_example = Inr r"
    by (simp add: decode_model_input_snapshot_def)
  then show ?thesis
    using example_payload_ok
    by (auto simp: create_model_input_snapshot_def provider_request_payload_def request_env_def
        snapshot_example_def request_example_def simp del: model_json_ok.simps)
qed

theorem frozen_request_reads_back_witness:
  "decode_model_input_snapshot request_env request_loads (\<lambda>_. []) snapshot_example = Inr (canon_request request_example)"
  by (rule frozen_request_reads_back [OF snapshot_example_created])
    (simp_all add: request_env_def request_loads_def request_example_def wf_message_def split: if_splits)

end
