(* ===== verification/Output_Capture.thy ===== *)
theory Output_Capture
  imports Decimal
begin

text \<open>
  \<^verbatim>\<open>BoundedOutput\<close> of \<^verbatim>\<open>src/linch/tools/_output.py\<close>: the output of a process, kept in bounded memory
  and, when it is long, in a spill file. Bytes are characters here. The incremental UTF-8 decoder
  is a parameter, and so is what the file system does with each access.
\<close>

section \<open>The buffer\<close>

record 'd bounded_output =
  bo_head :: string
  bo_tail :: string
  bo_total :: nat
  bo_cursor :: nat
  bo_file :: "string option"
  bo_path :: "string option"
  bo_disk :: string
  bo_decoder :: 'd
  bo_finished :: bool
  bo_dropped :: bool
  bo_drop_reported :: bool

text \<open>
  \<open>bo_file\<close> is the open spill file, \<open>bo_disk\<close> the contents of the file at \<open>bo_path\<close>. A decoder has a
  state; \<open>ud_feed\<close> is \<^verbatim>\<open>decode(data, final=...)\<close>.
\<close>

record 'd utf8_decoder =
  ud_feed :: "'d \<Rightarrow> string \<Rightarrow> bool \<Rightarrow> 'd \<times> string"
  ud_reset :: "'d \<Rightarrow> 'd"

text \<open>
  What the file system does in one call: the directory may be a symbolic link, opening may fail,
  and each of the two writes may fail or be short.
\<close>

record spill_outcome =
  sp_symlink :: bool
  sp_name :: string
  sp_opened :: bool
  sp_first_ok :: bool
  sp_second_ok :: bool

definition output_cap :: nat where
  "output_cap = 30000"

definition spill_limit :: nat where
  "spill_limit = 64 * 1024 * 1024"

definition new_output :: "'d \<Rightarrow> 'd bounded_output" where
  "new_output d = \<lparr>bo_head = [], bo_tail = [], bo_total = 0, bo_cursor = 0, bo_file = None, bo_path = None,
     bo_disk = [], bo_decoder = d, bo_finished = False, bo_dropped = False, bo_drop_reported = False\<rparr>"

text \<open>\<^verbatim>\<open>xs[-n:]\<close>.\<close>

definition last_n :: "nat \<Rightarrow> 'a list \<Rightarrow> 'a list" where
  "last_n n xs = drop (length xs - n) xs"

definition truncated :: "'d bounded_output \<Rightarrow> bool" where
  "truncated b = (output_cap < bo_total b \<or> bo_dropped b)"

definition retain :: "string \<Rightarrow> 'd bounded_output \<Rightarrow> 'd bounded_output \<times> string \<times> nat" where
  "retain chunk b =
     (let needed = 4000 - length (bo_head b) in
      (b\<lparr>bo_total := bo_total b + length chunk,
         bo_head := bo_head b @ take needed chunk,
         bo_tail := last_n 26000 (bo_tail b @ drop (max needed (length chunk - 26000)) chunk)\<rparr>,
       bo_head b @ bo_tail b, bo_total b))"

text \<open>
  \<^verbatim>\<open>finish\<close> and \<^verbatim>\<open>_discard\<close> call each other when closing fails: the second \<^verbatim>\<open>finish\<close> finds no open
  file. Whether the file can be deleted does not matter, the path is forgotten.
\<close>

definition forget_path :: "'d bounded_output \<Rightarrow> 'd bounded_output" where
  "forget_path b = b\<lparr>bo_finished := False, bo_path := None, bo_disk := []\<rparr>"

definition finish_output :: "bool \<Rightarrow> 'd bounded_output \<Rightarrow> 'd bounded_output" where
  "finish_output close_ok b = (case bo_file b of
       None \<Rightarrow> b\<lparr>bo_finished := True\<rparr>
     | Some f \<Rightarrow>
       if close_ok then b\<lparr>bo_file := None, bo_finished := True\<rparr>
       else (forget_path (b\<lparr>bo_file := None\<rparr>))\<lparr>bo_finished := True\<rparr>)"

definition discard_output :: "bool \<Rightarrow> 'd bounded_output \<Rightarrow> 'd bounded_output" where
  "discard_output close_ok b = forget_path (finish_output close_ok b)"

definition spill :: "spill_outcome \<Rightarrow> string \<Rightarrow> string \<Rightarrow> nat \<Rightarrow> 'd bounded_output \<Rightarrow> 'd bounded_output" where
  "spill out chunk previous before b =
     (let second = (\<lambda>b. if bo_file b = None then b
                       else if sp_second_ok out then b\<lparr>bo_disk := bo_disk b @ chunk\<rparr>
                       else discard_output True b)
      in if spill_limit < bo_total b then discard_output True b
         else if bo_file b = None \<and> before \<le> output_cap then
           (if sp_symlink out then b
            else if \<not> sp_opened out then discard_output True b
            else
              let b' = b\<lparr>bo_file := Some (sp_name out), bo_path := Some (sp_name out), bo_disk := previous\<rparr>
              in if sp_first_ok out then second b' else discard_output True b')
         else second b)"

definition output_append :: "spill_outcome \<Rightarrow> string \<Rightarrow> 'd bounded_output \<Rightarrow> 'd bounded_output" where
  "output_append out chunk b =
     (let (b', previous, before) = retain chunk b in
      if output_cap < bo_total b' then spill out chunk previous before b' else b')"

definition output_append_async :: "spill_outcome \<Rightarrow> string \<Rightarrow> 'd bounded_output \<Rightarrow> 'd bounded_output" where
  "output_append_async out chunk b =
     (let (b', previous, before) = retain chunk b in
      if output_cap < bo_total b' \<and> (bo_total b' \<le> spill_limit \<or> bo_file b' \<noteq> None)
      then spill out chunk previous before b' else b')"

definition drop_output :: "'d bounded_output \<Rightarrow> 'd bounded_output" where
  "drop_output b = b\<lparr>bo_dropped := True\<rparr>"

definition truncation_note :: string where
  "truncation_note = [CHR 0x0A] @ ''[output truncated]''"

text \<open>\<open>decode\<close> is \<^verbatim>\<open>bytes.decode("utf-8", errors="replace")\<close>; the ellipsis is its UTF-8 code.\<close>

definition output_snapshot :: "(string \<Rightarrow> string) \<Rightarrow> string \<Rightarrow> 'd bounded_output \<Rightarrow> string" where
  "output_snapshot decode ellipsis b =
     (let note = (if bo_dropped b then truncation_note else []) in
      if output_cap < bo_total b then
        decode (bo_head b) @ [CHR 0x0A] @ ellipsis @ '' ('' @
        show_nat (bo_total b - length (bo_head b) - length (bo_tail b)) @ '' bytes omitted)'' @ [CHR 0x0A]
        @ decode (bo_tail b) @ note
      else decode (bo_head b @ bo_tail b) @ note)"

text \<open>What a read decodes: the unread part of the head, then that of the tail.\<close>

definition read_parts :: "'d utf8_decoder \<Rightarrow> 'd bounded_output \<Rightarrow> 'd \<times> string \<times> bool" where
  "read_parts ud b =
     (let gap = max (length (bo_head b)) (bo_total b - length (bo_tail b));
          lossy = bo_cursor b < gap \<and> output_cap < bo_total b;
          (d1, t1) = ud_feed ud (bo_decoder b)
             (if bo_cursor b < length (bo_head b) then drop (bo_cursor b) (bo_head b) else []) lossy;
          (d2, t2) = ud_feed ud (if lossy then ud_reset ud d1 else d1)
             (drop (bo_cursor b - gap) (bo_tail b)) (bo_finished b)
      in (d2, t1 @ t2, lossy))"

definition output_read :: "'d utf8_decoder \<Rightarrow> 'd bounded_output \<Rightarrow> 'd bounded_output \<times> string \<times> bool" where
  "output_read ud b = (case read_parts ud b of (d, t, lossy) \<Rightarrow>
     let b' = b\<lparr>bo_cursor := bo_total b, bo_decoder := d\<rparr>
     in if bo_dropped b \<and> \<not> bo_drop_reported b
        then (b'\<lparr>bo_drop_reported := True\<rparr>, t @ truncation_note, True)
        else (b', t, lossy))"

section \<open>Histories\<close>

text \<open>
  The pump appends until the stream ends and then finishes; the host may drop the rest or discard
  the file at any time, and readers poll. The ghosts are the bytes of the stream and the answers
  of the reads, and whether a read took place after the end.
\<close>

record 'd output_run =
  or_output :: "'d bounded_output"
  or_stream :: string
  or_answers :: "(string \<times> bool) list"
  or_final :: bool

inductive output_step :: "'d utf8_decoder \<Rightarrow> 'd output_run \<Rightarrow> 'd output_run \<Rightarrow> bool" for ud where
  step_append: "\<not> bo_finished (or_output c) \<Longrightarrow>
     output_step ud c (c\<lparr>or_output := output_append out chunk (or_output c), or_stream := or_stream c @ chunk\<rparr>)"
| step_append_async: "\<not> bo_finished (or_output c) \<Longrightarrow>
     output_step ud c (c\<lparr>or_output := output_append_async out chunk (or_output c), or_stream := or_stream c @ chunk\<rparr>)"
| step_finish: "output_step ud c (c\<lparr>or_output := finish_output close_ok (or_output c)\<rparr>)"
| step_discard: "output_step ud c (c\<lparr>or_output := discard_output close_ok (or_output c)\<rparr>)"
| step_drop: "output_step ud c (c\<lparr>or_output := drop_output (or_output c)\<rparr>)"
| step_read: "output_read ud (or_output c) = (b, t, lossy) \<Longrightarrow>
     output_step ud c (c\<lparr>or_output := b, or_answers := or_answers c @ [(t, lossy)],
        or_final := or_final c \<or> bo_finished (or_output c)\<rparr>)"

definition output_start :: "'d \<Rightarrow> 'd output_run" where
  "output_start d = \<lparr>or_output = new_output d, or_stream = [], or_answers = [], or_final = False\<rparr>"

lemma last_n_append: "last_n n (last_n n xs @ ys) = last_n n (xs @ ys)"
  by (cases "n \<le> length xs") (auto simp: last_n_def drop_append add.commute)

lemma last_n_all: "length xs \<le> n \<Longrightarrow> last_n n xs = xs"
  by (simp add: last_n_def)

lemma last_n_chunk:
  "last_n n (last_n n xs @ drop (max a (length c - n)) c) = last_n n (xs @ drop a c)"
proof (cases "length c - n \<le> a")
  case True
  then show ?thesis by (simp add: last_n_append max_absorb1)
next
  case False
  then show ?thesis by (simp add: last_n_def max_def drop_append)
qed

definition memory_ok :: "string \<Rightarrow> 'd bounded_output \<Rightarrow> bool" where
  "memory_ok s b \<longleftrightarrow> bo_total b = length s \<and> bo_head b = take 4000 s
     \<and> bo_tail b = last_n 26000 (drop 4000 s) \<and> bo_cursor b \<le> length s"

definition spill_ok :: "string \<Rightarrow> 'd bounded_output \<Rightarrow> bool" where
  "spill_ok s b \<longleftrightarrow> (bo_path b \<noteq> None \<longrightarrow> bo_disk b = s \<and> output_cap < length s \<and> length s \<le> spill_limit)
     \<and> (bo_file b \<noteq> None \<longrightarrow> bo_path b = bo_file b)
     \<and> (bo_path b \<noteq> None \<and> bo_file b = None \<longrightarrow> bo_finished b)"

lemma retain_ok:
  assumes "memory_ok s b" and "retain chunk b = (b', previous, before)"
  shows "memory_ok (s @ chunk) b' \<and> before = length s \<and> (length s \<le> output_cap \<longrightarrow> previous = s)
    \<and> bo_file b' = bo_file b \<and> bo_path b' = bo_path b \<and> bo_disk b' = bo_disk b
    \<and> bo_finished b' = bo_finished b"
proof -
  have [simp]: "4000 - min n 4000 = 4000 - n" for n :: nat by simp
  have "last_n 26000 (last_n 26000 (drop 4000 s) @ drop (max (4000 - length s) (length chunk - 26000)) chunk)
      = last_n 26000 (drop 4000 (s @ chunk))"
    by (simp add: last_n_chunk drop_append)
  moreover have "length s \<le> output_cap \<Longrightarrow> take 4000 s @ last_n 26000 (drop 4000 s) = s"
    by (simp add: last_n_all output_cap_def)
  ultimately show ?thesis
    using assms by (auto simp: retain_def Let_def memory_ok_def)
qed

lemma discard_ok: "spill_ok s (discard_output close_ok b)" if "spill_ok s' b"
  using that by (auto simp: spill_ok_def discard_output_def finish_output_def forget_path_def split: option.splits)

lemma memory_frame:
  "memory_ok s (discard_output close_ok b) = memory_ok s b"
  "memory_ok s (finish_output close_ok b) = memory_ok s b"
  "memory_ok s (drop_output b) = memory_ok s b"
  by (auto simp: memory_ok_def discard_output_def finish_output_def forget_path_def drop_output_def
      split: option.splits)

lemma memory_spill: "memory_ok s (spill out chunk previous before b) = memory_ok s b"
  by (simp add: spill_def Let_def memory_frame memory_ok_def)
    (simp add: discard_output_def finish_output_def forget_path_def split: option.splits)

lemma spill_spill:
  assumes "spill_ok s b" and "before = length s" and "length s \<le> output_cap \<longrightarrow> previous = s"
    and "bo_total b = length (s @ chunk)" and "\<not> bo_finished b" and "output_cap < bo_total b"
  shows "spill_ok (s @ chunk) (spill out chunk previous before b)"
  using assms
  by (auto simp: spill_def Let_def spill_ok_def discard_output_def finish_output_def forget_path_def
      split: option.splits)

lemma output_append_ok:
  assumes "memory_ok s b" and "spill_ok s b" and "\<not> bo_finished b"
  shows "memory_ok (s @ chunk) (output_append out chunk b) \<and> spill_ok (s @ chunk) (output_append out chunk b)"
    and "memory_ok (s @ chunk) (output_append_async out chunk b)
      \<and> spill_ok (s @ chunk) (output_append_async out chunk b)"
proof -
  obtain b' previous before where r: "retain chunk b = (b', previous, before)" by (metis prod_cases3)
  note ok = retain_ok [OF assms(1) r]
  have total: "bo_total b' = length (s @ chunk)" using ok by (simp add: memory_ok_def)
  have s': "spill_ok s b'" using ok assms(2) by (simp add: spill_ok_def)
  have small: "spill_ok (s @ chunk) b'"
    if "\<not> (output_cap < bo_total b' \<and> (bo_total b' \<le> spill_limit \<or> bo_file b' \<noteq> None))"
    using that s' ok assms(3) total unfolding spill_ok_def by force
  show "memory_ok (s @ chunk) (output_append out chunk b) \<and> spill_ok (s @ chunk) (output_append out chunk b)"
    using ok total small spill_spill [OF s', of before previous chunk out] assms(3)
    by (auto simp: output_append_def r memory_spill)
  show "memory_ok (s @ chunk) (output_append_async out chunk b)
      \<and> spill_ok (s @ chunk) (output_append_async out chunk b)"
    using ok total small spill_spill [OF s', of before previous chunk out] assms(3)
    by (auto simp: output_append_async_def r memory_spill)
qed

lemma read_frame:
  assumes "output_read ud b = (b', t, lossy)"
  shows "memory_ok s b \<Longrightarrow> memory_ok s b'" and "spill_ok s b' = spill_ok s b"
  using assms
  by (cases "read_parts ud b"; auto simp: output_read_def Let_def memory_ok_def spill_ok_def split: if_splits)+

lemma finish_ok: "spill_ok s b \<Longrightarrow> spill_ok s (finish_output close_ok b)"
  by (auto simp: spill_ok_def finish_output_def forget_path_def split: option.splits)

lemma output_step_ok:
  assumes "output_step ud c c'" and "memory_ok (or_stream c) (or_output c) \<and> spill_ok (or_stream c) (or_output c)"
  shows "memory_ok (or_stream c') (or_output c') \<and> spill_ok (or_stream c') (or_output c')"
  using assms
proof (induction rule: output_step.induct)
  case (step_append c out chunk)
  then show ?case by (simp add: output_append_ok)
next
  case (step_append_async c out chunk)
  then show ?case by (simp add: output_append_ok)
next
  case (step_finish c close_ok)
  then show ?case by (simp add: memory_frame finish_ok)
next
  case (step_discard c close_ok)
  then show ?case by (auto simp: memory_frame intro: discard_ok)
next
  case (step_drop c)
  then show ?case by (simp add: memory_frame) (simp add: drop_output_def spill_ok_def)
next
  case (step_read c b t lossy)
  then show ?case using read_frame [OF step_read(1)] by simp
qed

lemma output_steps_ok:
  assumes "(output_step ud)\<^sup>*\<^sup>* (output_start d) c"
  shows "memory_ok (or_stream c) (or_output c) \<and> spill_ok (or_stream c) (or_output c)"
  using assms
  by (induction rule: rtranclp_induct)
    (auto simp: output_start_def new_output_def memory_ok_def spill_ok_def last_n_def dest: output_step_ok)

text \<open>
  C28: Captured output stays within thirty thousand bytes of memory and is exact: what is kept is
  the whole stream or its first four thousand and last twenty-six thousand bytes, the number of
  omitted bytes is right, and a spill file that is offered holds the whole stream, whatever the
  file system did.
\<close>

theorem captured_output_is_bounded_and_exact:
  assumes "(output_step ud)\<^sup>*\<^sup>* (output_start d) c"
  shows "length (bo_head (or_output c)) + length (bo_tail (or_output c)) \<le> output_cap
    \<and> (if length (or_stream c) \<le> output_cap then bo_head (or_output c) @ bo_tail (or_output c) = or_stream c
       else bo_head (or_output c) = take 4000 (or_stream c)
         \<and> bo_tail (or_output c) = drop (length (or_stream c) - 26000) (or_stream c)
         \<and> bo_total (or_output c) - length (bo_head (or_output c)) - length (bo_tail (or_output c))
             = length (or_stream c) - output_cap)
    \<and> (bo_path (or_output c) \<noteq> None \<longrightarrow> bo_disk (or_output c) = or_stream c)"
  using output_steps_ok [OF assms]
  by (auto simp: memory_ok_def spill_ok_def last_n_def output_cap_def)

section \<open>Reads deliver the stream\<close>

text \<open>An incremental decoder decodes a stream chunk by chunk, however it is cut.\<close>

definition incremental :: "'d utf8_decoder \<Rightarrow> bool" where
  "incremental ud \<longleftrightarrow> (\<forall>d. ud_feed ud d [] False = (d, []))
     \<and> (\<forall>d x y fin. ud_feed ud d (x @ y) fin
          = (case ud_feed ud d x False of (d1, t1) \<Rightarrow> case ud_feed ud d1 y fin of (d2, t2) \<Rightarrow> (d2, t1 @ t2)))"

lemma take_drop_rest: "c \<le> n \<Longrightarrow> n \<le> length s \<Longrightarrow> take (n - c) (drop c s) @ drop n s = drop c s"
proof -
  assume "c \<le> n" "n \<le> length s"
  then have "drop (n - c) (drop c s) = drop n s" by simp
  then show ?thesis by (metis append_take_drop_id)
qed

lemma unread_part:
  assumes "memory_ok s b"
    and "\<not> (bo_cursor b < max (length (bo_head b)) (bo_total b - length (bo_tail b)) \<and> output_cap < bo_total b)"
  shows "(if bo_cursor b < length (bo_head b) then drop (bo_cursor b) (bo_head b) else [])
      @ drop (bo_cursor b - max (length (bo_head b)) (bo_total b - length (bo_tail b))) (bo_tail b)
    = drop (bo_cursor b) s"
proof (cases "length s \<le> output_cap")
  case True
  then have tail: "bo_tail b = drop 4000 s"
    using assms(1) by (simp add: memory_ok_def last_n_all output_cap_def)
  show ?thesis
    using assms(1) tail
    by (cases "bo_cursor b < 4000"; cases "length s \<le> 4000")
      (auto simp: memory_ok_def max_def drop_take min_def take_drop_rest)
next
  case False
  then have tail: "bo_tail b = drop (length s - 26000) s" and "length (bo_tail b) = 26000"
    using assms(1) by (auto simp: memory_ok_def last_n_def output_cap_def)
  moreover have "bo_total b = length s" "bo_head b = take 4000 s" "bo_cursor b \<le> length s"
    using assms(1) by (simp_all add: memory_ok_def)
  ultimately show ?thesis
    using False assms(2) by (auto simp: output_cap_def max_def min_def split: if_splits)
qed

lemma read_parts_extend:
  assumes "incremental ud" and "memory_ok s b" and "read_parts ud b = (d, t, False)"
    and "ud_feed ud d0 (take (bo_cursor b) s) False = (bo_decoder b, before)"
  shows "ud_feed ud d0 s (bo_finished b) = (d, before @ t)"
proof -
  let ?gap = "max (length (bo_head b)) (bo_total b - length (bo_tail b))"
  let ?x = "if bo_cursor b < length (bo_head b) then drop (bo_cursor b) (bo_head b) else []"
  let ?y = "drop (bo_cursor b - ?gap) (bo_tail b)"
  from assms(3) have exact: "\<not> (bo_cursor b < ?gap \<and> output_cap < bo_total b)"
    by (auto simp: read_parts_def Let_def split: prod.splits)
  with assms(3) have "ud_feed ud (bo_decoder b) (?x @ ?y) (bo_finished b) = (d, t)"
    using assms(1) by (auto simp: read_parts_def Let_def incremental_def split: prod.splits)
  with unread_part [OF assms(2) exact] have
    "ud_feed ud (bo_decoder b) (drop (bo_cursor b) s) (bo_finished b) = (d, t)" by simp
  moreover have "ud_feed ud d0 (take (bo_cursor b) s @ drop (bo_cursor b) s) (bo_finished b)
    = (case ud_feed ud d0 (take (bo_cursor b) s) False of (d1, t1) \<Rightarrow>
       case ud_feed ud d1 (drop (bo_cursor b) s) (bo_finished b) of (d2, t2) \<Rightarrow> (d2, t1 @ t2))"
    using assms(1) unfolding incremental_def by blast
  ultimately show ?thesis using assms(4) by simp
qed

definition reads_ok :: "'d utf8_decoder \<Rightarrow> 'd \<Rightarrow> 'd output_run \<Rightarrow> bool" where
  "reads_ok ud d0 c \<longleftrightarrow> (list_all (\<lambda>(t, lossy). \<not> lossy) (or_answers c) \<and> \<not> or_final c \<longrightarrow>
     ud_feed ud d0 (take (bo_cursor (or_output c)) (or_stream c)) False
       = (bo_decoder (or_output c), concat (map fst (or_answers c))))"

lemma reader_frame:
  "bo_cursor (discard_output close_ok b) = bo_cursor b" "bo_decoder (discard_output close_ok b) = bo_decoder b"
  "bo_cursor (finish_output close_ok b) = bo_cursor b" "bo_decoder (finish_output close_ok b) = bo_decoder b"
  "bo_cursor (drop_output b) = bo_cursor b" "bo_decoder (drop_output b) = bo_decoder b"
  by (simp_all add: discard_output_def finish_output_def forget_path_def drop_output_def split: option.split)

lemma reader_frame_spill:
  "bo_cursor (spill out chunk previous before b) = bo_cursor b"
  "bo_decoder (spill out chunk previous before b) = bo_decoder b"
  by (simp_all add: spill_def Let_def reader_frame)

lemma reader_frame_append:
  "bo_cursor (output_append out chunk b) = bo_cursor b" "bo_decoder (output_append out chunk b) = bo_decoder b"
  "bo_cursor (output_append_async out chunk b) = bo_cursor b"
  "bo_decoder (output_append_async out chunk b) = bo_decoder b"
  by (simp_all add: output_append_def output_append_async_def retain_def Let_def reader_frame_spill)

lemma read_extends:
  assumes "incremental ud" and "memory_ok (or_stream c) (or_output c)" and "reads_ok ud d0 c"
    and "output_read ud (or_output c) = (b, t, False)"
    and "list_all (\<lambda>(t, lossy). \<not> lossy) (or_answers c)" and "\<not> or_final c"
  shows "ud_feed ud d0 (or_stream c) (bo_finished (or_output c))
    = (bo_decoder b, concat (map fst (or_answers c)) @ t) \<and> bo_cursor b = length (or_stream c)"
proof -
  obtain d where parts: "read_parts ud (or_output c) = (d, t, False)"
    and b: "bo_decoder b = d" "bo_cursor b = bo_total (or_output c)"
    using assms(4) by (cases "read_parts ud (or_output c)") (auto simp: output_read_def Let_def split: if_splits)
  from assms(3,5,6) have "ud_feed ud d0 (take (bo_cursor (or_output c)) (or_stream c)) False
      = (bo_decoder (or_output c), concat (map fst (or_answers c)))" by (simp add: reads_ok_def)
  from read_parts_extend [OF assms(1,2) parts this] b assms(2) show ?thesis by (simp add: memory_ok_def)
qed

lemma output_step_reads:
  assumes "output_step ud c c'" and "incremental ud"
    and "memory_ok (or_stream c) (or_output c)" and "reads_ok ud d0 c"
  shows "reads_ok ud d0 c'"
  using assms
proof (induction rule: output_step.induct)
  case (step_read c b t lossy)
  then show ?case
    using read_extends [of ud c d0 b t] by (auto simp: reads_ok_def)
qed (auto simp: reads_ok_def reader_frame reader_frame_append memory_ok_def)

text \<open>
  C29: The reads of a process deliver its output: as long as no read has reported a loss, the texts
  of the reads, put together, are the decoding of the whole stream, however it was cut into
  chunks and reads, and the read after the end completes it.
\<close>

theorem reads_deliver_the_stream:
  assumes "(output_step ud)\<^sup>*\<^sup>* (output_start d0) c" and "incremental ud"
    and "list_all (\<lambda>(t, lossy). \<not> lossy) (or_answers c)" and "\<not> or_final c"
    and "output_read ud (or_output c) = (b, t, False)"
  shows "concat (map fst (or_answers c)) @ t
    = snd (ud_feed ud d0 (or_stream c) (bo_finished (or_output c)))"
proof -
  from assms(1) have "reads_ok ud d0 c"
  proof (induction rule: rtranclp_induct)
    case base
    from assms(2) show ?case by (simp add: reads_ok_def output_start_def new_output_def incremental_def)
  next
    case (step c c')
    then show ?case using output_step_reads [OF step(2) assms(2)] output_steps_ok [OF step(1)] by blast
  qed
  with read_extends [OF assms(2) _ _ assms(5,3,4)] output_steps_ok [OF assms(1)] show ?thesis by simp
qed

section \<open>A concrete process\<close>

definition plain_decoder :: "unit utf8_decoder" where
  "plain_decoder = \<lparr>ud_feed = (\<lambda>d x fin. ((), x)), ud_reset = (\<lambda>d. ())\<rparr>"

definition run_example :: "unit output_run" where
  "run_example = (output_start ())\<lparr>
     or_output := output_append \<lparr>sp_symlink = False, sp_name = ''f'', sp_opened = True, sp_first_ok = True,
        sp_second_ok = True\<rparr> (replicate 30001 CHR ''x'') (new_output ()),
     or_stream := replicate 30001 CHR ''x''\<rparr>"

lemma run_example_reached: "(output_step plain_decoder)\<^sup>*\<^sup>* (output_start ()) run_example"
  using step_append [where c = "output_start ()" and ud = plain_decoder and chunk = "replicate 30001 CHR ''x''"]
  unfolding run_example_def output_start_def
  by (intro r_into_rtranclp) (auto simp: new_output_def)

theorem captured_output_is_bounded_and_exact_witness:
  "bo_tail (or_output run_example) = replicate 26000 CHR ''x''"
proof -
  have "length (or_stream run_example) = 30001" by (simp add: run_example_def)
  then show ?thesis
    using captured_output_is_bounded_and_exact [OF run_example_reached]
    by (simp add: output_cap_def) (simp add: run_example_def)
qed

theorem reads_deliver_the_stream_witness:
  "fst (snd (output_read plain_decoder (output_append \<lparr>sp_symlink = False, sp_name = ''f'', sp_opened = True,
       sp_first_ok = True, sp_second_ok = True\<rparr> ''ok'' (new_output ())))) = ''ok''"
proof -
  let ?o = "\<lparr>sp_symlink = False, sp_name = ''f'', sp_opened = True, sp_first_ok = True, sp_second_ok = True\<rparr>"
  let ?c = "(output_start ())\<lparr>or_output := output_append ?o ''ok'' (new_output ()), or_stream := ''ok''\<rparr>"
  have "output_step plain_decoder (output_start ()) ?c"
    using step_append [where c = "output_start ()" and ud = plain_decoder and out = ?o and chunk = "''ok''"]
    by (simp add: output_start_def new_output_def)
  moreover have "incremental plain_decoder" by (simp add: incremental_def plain_decoder_def)
  moreover have "output_read plain_decoder (or_output ?c)
      = (fst (output_read plain_decoder (or_output ?c)), ''ok'', False)"
    by (simp add: output_read_def read_parts_def output_append_def retain_def new_output_def last_n_def
        plain_decoder_def Let_def output_cap_def)
  ultimately have "concat (map fst (or_answers ?c)) @ ''ok''
      = snd (ud_feed plain_decoder () (or_stream ?c) (bo_finished (or_output ?c)))"
    by (intro reads_deliver_the_stream [OF r_into_rtranclp]) (auto simp: output_start_def)
  then show ?thesis
    by (simp add: output_start_def plain_decoder_def)
      (simp add: output_read_def read_parts_def output_append_def retain_def new_output_def last_n_def
        plain_decoder_def Let_def output_cap_def)
qed

end
