(* ===== verification/Tool_Cache.thy ===== *)
theory Tool_Cache
  imports Tool_Output Loop_Guard
begin

text \<open>
  \<^verbatim>\<open>ToolCacheHook\<close> of \<^verbatim>\<open>src/linch/hooks/tool_cache.py\<close>: the results of read-scope tools, kept per
  run and served again until a tool that writes or executes is announced or has run. The JSON
  encoders are parameters.
\<close>

section \<open>The hook\<close>




















section \<open>Histories\<close>






section \<open>A hit is current\<close>






















section \<open>An example\<close>














end
